(* ===== verification/Prelude.thy ===== *)
theory Prelude
  imports Main "HOL-Library.AList" "HOL-Library.Multiset" "HOL-Library.Word"
    "HOL-Library.Char_ord" "HOL-Library.List_Lexorder"
begin

text \<open>
  Shared vocabulary of the development: machine integers, Go maps as association lists,
  iteration orders that the program leaves open, and the collections of hints that the
  component theories fill.

  A Go map is an association list without repeated keys: \<open>map_of\<close> reads it and
  \<open>AList.update\<close> writes it. The order in which Go ranges over a map, and the order in
  which the database delivers the rows of a query, is unspecified. Both are modelled by
  \<open>permute\<close>, which rearranges a list by a list of positions that the environment of
  the model supplies.
\<close>

type_synonym int32 = "32 word"
type_synonym int64 = "64 word"

named_theorems go_defs "definitions of small Go library functions"
named_theorems pg_triples "specifications of database operations"
named_theorems pg_frames "what an operation leaves unchanged"

subsection \<open>Unspecified orders\<close>

definition permute :: "(nat \<Rightarrow> nat list) \<Rightarrow> 'a list \<Rightarrow> 'a list" where
  "permute p xs = map ((!) xs) (p (length xs))"

definition perm_ok :: "(nat \<Rightarrow> nat list) \<Rightarrow> bool" where
  "perm_ok p \<longleftrightarrow> (\<forall>n. mset (p n) = mset [0..<n])"

lemma perm_ok_upt [simp]: "perm_ok (\<lambda>n. [0..<n])"
  by (simp add: perm_ok_def)

lemma permute_upt [simp]: "permute (\<lambda>n. [0..<n]) xs = xs"
  by (simp add: permute_def map_nth)

lemma mset_permute: "perm_ok p \<Longrightarrow> mset (permute p xs) = mset xs"
proof -
  assume "perm_ok p"
  then have "mset (permute p xs) = image_mset ((!) xs) (mset [0..<length xs])"
    by (simp add: permute_def perm_ok_def)
  also have "\<dots> = mset (map ((!) xs) [0..<length xs])"
    by simp
  finally show ?thesis by (simp only: map_nth)
qed

lemma set_permute [simp]: "perm_ok p \<Longrightarrow> set (permute p xs) = set xs"
  by (metis mset_permute set_mset_mset)

lemma length_permute [simp]: "perm_ok p \<Longrightarrow> length (permute p xs) = length xs"
  by (metis mset_permute size_mset)

lemma distinct_permute [simp]: "perm_ok p \<Longrightarrow> distinct (permute p xs) = distinct xs"
  by (metis mset_permute mset_eq_imp_distinct_iff)

lemma mset_map_permute: "perm_ok p \<Longrightarrow> mset (map f (permute p xs)) = mset (map f xs)"
  by (simp add: mset_permute)

lemma distinct_map_permute [simp]:
  "perm_ok p \<Longrightarrow> distinct (map f (permute p xs)) = distinct (map f xs)"
  by (metis mset_map_permute mset_eq_imp_distinct_iff)

lemma permute_Nil_iff [simp]: "perm_ok p \<Longrightarrow> permute p xs = [] \<longleftrightarrow> xs = []"
  by (metis length_0_conv length_permute)

subsection \<open>Lists and association lists\<close>

lemma distinct_map_inj_on: "distinct (map f xs) \<Longrightarrow> inj_on f (set xs)"
  by (simp add: distinct_map)

lemma distinct_map_eqD:
  "distinct (map f xs) \<Longrightarrow> x \<in> set xs \<Longrightarrow> y \<in> set xs \<Longrightarrow> f x = f y \<Longrightarrow> x = y"
  by (auto dest: distinct_map_inj_on inj_onD)

lemma distinct_map_filter_sub: "distinct (map f xs) \<Longrightarrow> distinct (map f (filter P xs))"
  by (simp add: distinct_map_filter)

lemma set_update_subset: "set (AList.update k v m) \<subseteq> insert (k, v) (set m)"
  by (induction m) auto

lemma map_of_updateD: "map_of (AList.update k v m) x = Some y \<Longrightarrow> (x, y) = (k, v) \<or> map_of m x = Some y"
  by (auto simp: update_conv' split: if_splits)

subsection \<open>Building a map in a loop\<close>

lemma update_fresh: "k \<notin> fst ` set m \<Longrightarrow> AList.update k v m = m @ [(k, v)]"
  by (induction m) auto

lemma foldl_update_fresh:
  assumes "distinct (map k xs)" and "\<And>x. x \<in> set xs \<Longrightarrow> k x \<notin> fst ` set m"
  shows "foldl (\<lambda>m x. AList.update (k x) (v x) m) m xs = m @ map (\<lambda>x. (k x, v x)) xs"
  using assms
proof (induction xs arbitrary: m)
  case (Cons x xs)
  have "foldl (\<lambda>m x. AList.update (k x) (v x) m) (m @ [(k x, v x)]) xs =
        (m @ [(k x, v x)]) @ map (\<lambda>x. (k x, v x)) xs"
    using Cons.prems by (intro Cons.IH) (auto simp: image_iff)
  then show ?case using Cons.prems by (simp add: update_fresh)
qed simp

lemma map_of_foldl_update:
  "map_of (foldl (\<lambda>m x. AList.update (k x) (v x) m) m xs) i =
   (case filter (\<lambda>x. k x = i) (rev xs) of [] \<Rightarrow> map_of m i | x # _ \<Rightarrow> Some (v x))"
  by (induction xs arbitrary: m) (auto simp: update_conv' filter_empty_conv split: list.splits)

end
