(* ===== verification/Effects.thy ===== *)
theory Effects
  imports Prelude
begin

text \<open>
  Go code that changes state and may stop early: a function from the state to a result and the new
  state, where \<open>Inl\<close> is an error that is returned at once and \<open>Inr\<close> a value. The
  rules for \<open>wp\<close> reduce a statement about such code to its parts, and a loop to an invariant
  over the elements processed so far.
\<close>

type_synonym ('s, 'e, 'a) eff = "'s \<Rightarrow> ('e + 'a) \<times> 's"

subsection \<open>Sequencing\<close>

definition ret :: "'a \<Rightarrow> ('s, 'e, 'a) eff" where
  "ret x s = (Inr x, s)"

definition fail :: "'e \<Rightarrow> ('s, 'e, 'a) eff" where
  "fail e s = (Inl e, s)"

definition andThen :: "('s, 'e, 'a) eff \<Rightarrow> ('a \<Rightarrow> ('s, 'e, 'b) eff) \<Rightarrow> ('s, 'e, 'b) eff" where
  "andThen m f s = (case m s of (Inl e, s') \<Rightarrow> (Inl e, s') | (Inr x, s') \<Rightarrow> f x s')"

definition mapErr :: "('e \<Rightarrow> 'f) \<Rightarrow> ('s, 'e, 'a) eff \<Rightarrow> ('s, 'f, 'a) eff" where
  "mapErr w m s = (case m s of (Inl e, s') \<Rightarrow> (Inl (w e), s') | (Inr x, s') \<Rightarrow> (Inr x, s'))"

fun forEach :: "('a \<Rightarrow> ('s, 'e, unit) eff) \<Rightarrow> 'a list \<Rightarrow> ('s, 'e, unit) eff" where
  "forEach f [] = ret ()"
| "forEach f (x # xs) = andThen (f x) (\<lambda>_. forEach f xs)"

fun mapEach :: "('a \<Rightarrow> ('s, 'e, 'b) eff) \<Rightarrow> 'a list \<Rightarrow> ('s, 'e, 'b list) eff" where
  "mapEach f [] = ret []"
| "mapEach f (x # xs) = andThen (f x) (\<lambda>y. andThen (mapEach f xs) (\<lambda>ys. ret (y # ys)))"

fun foldEach :: "('a \<Rightarrow> 'b \<Rightarrow> ('s, 'e, 'b) eff) \<Rightarrow> 'a list \<Rightarrow> 'b \<Rightarrow> ('s, 'e, 'b) eff" where
  "foldEach f [] b = ret b"
| "foldEach f (x # xs) b = andThen (f x b) (foldEach f xs)"

subsection \<open>Weakest preconditions\<close>

definition wp :: "('s, 'e, 'a) eff \<Rightarrow> ('a \<Rightarrow> 's \<Rightarrow> bool) \<Rightarrow> ('e \<Rightarrow> 's \<Rightarrow> bool) \<Rightarrow> 's \<Rightarrow> bool" where
  "wp m Q R s = (case m s of (Inl e, s') \<Rightarrow> R e s' | (Inr x, s') \<Rightarrow> Q x s')"

lemma wp_ret [simp]: "wp (ret x) Q R = Q x"
  by (rule ext) (simp add: wp_def ret_def)

lemma wp_fail [simp]: "wp (fail e) Q R = R e"
  by (rule ext) (simp add: wp_def fail_def)

lemma wp_andThen [simp]: "wp (andThen m f) Q R = wp m (\<lambda>x. wp (f x) Q R) R"
  by (rule ext) (auto simp: wp_def andThen_def split: sum.splits)

lemma wp_mapErr [simp]: "wp (mapErr w m) Q R = wp m Q (\<lambda>e. R (w e))"
  by (rule ext) (auto simp: wp_def mapErr_def split: sum.splits)

lemma wp_mono:
  "wp m Q R s \<Longrightarrow> (\<And>x s'. Q x s' \<Longrightarrow> Q' x s') \<Longrightarrow> (\<And>e s'. R e s' \<Longrightarrow> R' e s') \<Longrightarrow> wp m Q' R' s"
  by (auto simp: wp_def split: sum.splits)

lemma wp_if [simp]: "wp (if b then m1 else m2) Q R = (if b then wp m1 Q R else wp m2 Q R)"
  by simp

lemma wp_result:
  assumes "wp m Q R s"
  shows "m s = (Inr x, s') \<Longrightarrow> Q x s'" and "m s = (Inl e, s') \<Longrightarrow> R e s'"
  using assms by (auto simp: wp_def)

lemma wp_total:
  assumes "wp m Q (\<lambda>_ _. False) s"
  shows "\<exists>x s'. m s = (Inr x, s') \<and> Q x s'"
proof (cases "m s")
  case (Pair a b)
  with assms show ?thesis by (cases a) (auto simp: wp_def)
qed

text \<open>Loops: an invariant over the elements processed so far.\<close>

lemma wp_forEach:
  assumes "I [] s"
    and "\<And>xs y ys t. zs = xs @ y # ys \<Longrightarrow> I xs t \<Longrightarrow> wp (f y) (\<lambda>_. I (xs @ [y])) R t"
  shows "wp (forEach f zs) (\<lambda>_. I zs) R s"
proof -
  have "zs = xs @ ys \<Longrightarrow> I xs t \<Longrightarrow> wp (forEach f ys) (\<lambda>_. I zs) R t" for xs ys t
  proof (induction ys arbitrary: xs t)
    case Nil
    then show ?case by simp
  next
    case (Cons y ys)
    have "wp (f y) (\<lambda>_. I (xs @ [y])) R t" using assms(2) Cons.prems by blast
    then have "wp (f y) (\<lambda>_. wp (forEach f ys) (\<lambda>_. I zs) R) R t"
      by (rule wp_mono) (use Cons.IH [of "xs @ [y]"] Cons.prems in auto)
    then show ?case by simp
  qed
  from this [of "[]" zs s] assms(1) show ?thesis by simp
qed

lemma wp_mapEach:
  assumes "I [] [] s"
    and "\<And>xs rs y ys t. zs = xs @ y # ys \<Longrightarrow> I xs rs t \<Longrightarrow> wp (f y) (\<lambda>r. I (xs @ [y]) (rs @ [r])) R t"
  shows "wp (mapEach f zs) (I zs) R s"
proof -
  have "zs = xs @ ys \<Longrightarrow> I xs rs t \<Longrightarrow> wp (mapEach f ys) (\<lambda>rs'. I zs (rs @ rs')) R t" for xs rs ys t
  proof (induction ys arbitrary: xs rs t)
    case Nil
    then show ?case by simp
  next
    case (Cons y ys)
    have "wp (f y) (\<lambda>r. I (xs @ [y]) (rs @ [r])) R t" using assms(2) Cons.prems by blast
    then have "wp (f y) (\<lambda>r. wp (mapEach f ys) (\<lambda>rs'. I zs (rs @ r # rs')) R) R t"
      by (rule wp_mono) (use Cons.IH [of "xs @ [y]" "rs @ [r]" for r] Cons.prems in auto)
    then show ?case by simp
  qed
  from this [of "[]" zs "[]" s] assms(1) show ?thesis by simp
qed

lemma wp_foldEach:
  assumes "I [] b s"
    and "\<And>xs y ys c t. zs = xs @ y # ys \<Longrightarrow> I xs c t \<Longrightarrow> wp (f y c) (I (xs @ [y])) R t"
  shows "wp (foldEach f zs b) (I zs) R s"
proof -
  have "zs = xs @ ys \<Longrightarrow> I xs c t \<Longrightarrow> wp (foldEach f ys c) (I zs) R t" for xs ys c t
  proof (induction ys arbitrary: xs c t)
    case Nil
    then show ?case by simp
  next
    case (Cons y ys)
    have "wp (f y c) (I (xs @ [y])) R t" using assms(2) Cons.prems by blast
    then have "wp (f y c) (\<lambda>r. wp (foldEach f ys r) (I zs) R) R t"
      by (rule wp_mono) (use Cons.IH [of "xs @ [y]"] Cons.prems in auto)
    then show ?case by simp
  qed
  from this [of "[]" zs b s] assms(1) show ?thesis by simp
qed

end
