(* ===== verification/GoStrings.thy ===== *)
theory GoStrings
  imports Prelude
begin

text \<open>
  The functions of the Go standard library on strings and numbers that the program calls.
  A Go string is a sequence of bytes, here a \<open>string\<close> (a list of \<open>char\<close>, which is
  a byte). Case conversion and case folding are those of ASCII; the program applies them to
  MAC addresses, role names and option words.
\<close>

subsection \<open>Prefixes, searching, cutting\<close>

definition hasPrefix :: "string \<Rightarrow> string \<Rightarrow> bool" where
  "hasPrefix s p \<longleftrightarrow> take (length p) s = p"

definition trimPrefix :: "string \<Rightarrow> string \<Rightarrow> string" where
  "trimPrefix s p = (if hasPrefix s p then drop (length p) s else s)"

lemma hasPrefix_iff: "hasPrefix s p \<longleftrightarrow> (\<exists>r. s = p @ r)"
  by (metis append_take_drop_id append_eq_conv_conj hasPrefix_def)

lemma hasPrefix_append [simp]: "hasPrefix (p @ r) p"
  by (simp add: hasPrefix_def)

lemma hasPrefix_Nil [simp]: "hasPrefix s []"
  by (simp add: hasPrefix_def)

lemma trimPrefix_append [simp]: "trimPrefix (p @ r) p = r"
  by (simp add: trimPrefix_def)

text \<open>\<open>strings.Index\<close>: the position of the first occurrence, \<open>None\<close> for \<open>-1\<close>.\<close>

fun strIndex :: "string \<Rightarrow> string \<Rightarrow> nat option" where
  "strIndex [] sub = (if sub = [] then Some 0 else None)"
| "strIndex (c # s) sub =
     (if hasPrefix (c # s) sub then Some 0 else map_option Suc (strIndex s sub))"

definition strContains :: "string \<Rightarrow> string \<Rightarrow> bool" where
  "strContains s sub \<longleftrightarrow> strIndex s sub \<noteq> None"

lemma strIndex_SomeD:
  "strIndex s sub = Some i \<Longrightarrow> i \<le> length s \<and> hasPrefix (drop i s) sub"
proof (induction s arbitrary: i)
  case (Cons c s)
  then show ?case by (cases i) (auto split: if_splits)
qed (auto split: if_splits)

lemma strIndex_None_iff: "strIndex s sub = None \<longleftrightarrow> (\<forall>a b. s \<noteq> a @ sub @ b)"
proof (induction s)
  case Nil
  then show ?case by simp
next
  case (Cons c s)
  have "(\<forall>a b. c # s \<noteq> a @ sub @ b) \<longleftrightarrow>
        \<not> hasPrefix (c # s) sub \<and> (\<forall>a b. s \<noteq> a @ sub @ b)"
    by (auto simp: hasPrefix_iff Cons_eq_append_conv)
  with Cons.IH show ?case by auto
qed

text \<open>\<open>strings.Split\<close> with a separator of one byte, and \<open>strings.Join\<close>.\<close>

fun strSplit :: "char \<Rightarrow> string \<Rightarrow> string list" where
  "strSplit sep [] = [[]]"
| "strSplit sep (c # s) =
     (if c = sep then [] # strSplit sep s
      else (case strSplit sep s of [] \<Rightarrow> [[c]] | w # ws \<Rightarrow> (c # w) # ws))"

fun strJoin :: "string \<Rightarrow> string list \<Rightarrow> string" where
  "strJoin sep [] = []"
| "strJoin sep [w] = w"
| "strJoin sep (w # v # ws) = w @ sep @ strJoin sep (v # ws)"

lemma strSplit_nonempty [simp]: "strSplit sep s \<noteq> []"
  by (cases s) (auto split: list.splits)

lemma strJoin_strSplit: "strJoin [sep] (strSplit sep s) = s"
proof (induction s)
  case Nil
  then show ?case by simp
next
  case (Cons c s)
  obtain w ws where "strSplit sep s = w # ws"
    by (meson neq_Nil_conv strSplit_nonempty)
  with Cons.IH show ?case by (cases ws) auto
qed

lemma strSplit_no_sep: "w \<in> set (strSplit sep s) \<Longrightarrow> sep \<notin> set w"
proof (induction s arbitrary: w)
  case (Cons c s)
  obtain v vs where "strSplit sep s = v # vs"
    by (meson neq_Nil_conv strSplit_nonempty)
  with Cons show ?case by (auto split: if_splits)
qed simp

lemma strSplit_word: "sep \<notin> set s \<Longrightarrow> strSplit sep s = [s]"
  by (induction s) auto

lemma strSplit_append: "strSplit sep (a @ sep # b) = strSplit sep a @ strSplit sep b"
proof (induction a)
  case (Cons c a)
  obtain v vs where "strSplit sep a = v # vs"
    by (meson neq_Nil_conv strSplit_nonempty)
  with Cons show ?case by auto
qed simp

text \<open>\<open>strings.Replace\<close>: the first occurrence, and all of them (left to right).\<close>

definition strReplace1 :: "string \<Rightarrow> string \<Rightarrow> string \<Rightarrow> string" where
  "strReplace1 s old new =
     (case strIndex s old of None \<Rightarrow> s
      | Some i \<Rightarrow> take i s @ new @ drop (i + length old) s)"

function strReplaceAll :: "string \<Rightarrow> string \<Rightarrow> string \<Rightarrow> string" where
  "strReplaceAll s old new =
     (if old = [] then s
      else (case s of [] \<Rightarrow> []
            | c # r \<Rightarrow> if hasPrefix s old then new @ strReplaceAll (drop (length old) s) old new
                      else c # strReplaceAll r old new))"
  by pat_completeness auto
termination
  by (relation "measure (\<lambda>(s, old, new). length s)") auto

declare strReplaceAll.simps [simp del]

text \<open>\<open>strings.Trim\<close> with a set of bytes to cut.\<close>

definition strTrim :: "string \<Rightarrow> string \<Rightarrow> string" where
  "strTrim s cutset =
     rev (dropWhile (\<lambda>c. c \<in> set cutset) (rev (dropWhile (\<lambda>c. c \<in> set cutset) s)))"

subsection \<open>Case\<close>

definition toLowerChar :: "char \<Rightarrow> char" where
  "toLowerChar c = (if CHR ''A'' \<le> c \<and> c \<le> CHR ''Z'' then char_of (of_char c + 32 :: nat) else c)"

definition toLower :: "string \<Rightarrow> string" where
  "toLower s = map toLowerChar s"

definition equalFold :: "string \<Rightarrow> string \<Rightarrow> bool" where
  "equalFold s t \<longleftrightarrow> toLower s = toLower t"

lemma toLowerChar_idem [simp]: "toLowerChar (toLowerChar c) = toLowerChar c"
proof (cases "CHR ''A'' \<le> c \<and> c \<le> CHR ''Z''")
  case True
  then have "65 \<le> (of_char c :: nat)" "(of_char c :: nat) \<le> 90"
    by (simp_all add: less_eq_char_def)
  then have "(of_char (char_of (of_char c + 32 :: nat)) :: nat) = of_char c + 32"
    by simp
  with True \<open>65 \<le> of_char c\<close> show ?thesis
    by (simp add: toLowerChar_def less_eq_char_def)
qed (auto simp: toLowerChar_def)

lemma toLower_idem [simp]: "toLower (toLower s) = toLower s"
  by (simp add: toLower_def)

lemma toLower_Nil_iff [simp]: "toLower s = [] \<longleftrightarrow> s = []"
  by (simp add: toLower_def)

lemma equalFold_refl [simp]: "equalFold s s"
  by (simp add: equalFold_def)

lemma equalFold_sym: "equalFold s t \<longleftrightarrow> equalFold t s"
  by (auto simp: equalFold_def)

lemma equalFold_trans: "equalFold s t \<Longrightarrow> equalFold t u \<Longrightarrow> equalFold s u"
  by (simp add: equalFold_def)

end
