(* ===== verification/GoRunes.thy ===== *)
theory GoRunes
  imports GoStrings
begin

text \<open>
  Runes, the characters of the UTF-8 encoding, as unicode/utf8 has them: how long the first rune of a byte
  string is, where an invalid byte is a rune of its own that stands for U+FFFD, and the texts without
  invalid bytes.
\<close>

subsection \<open>Encoding\<close>

text \<open>The UTF-8 encoding of a code point.\<close>

definition utf8 :: "nat \<Rightarrow> string" where
  "utf8 n =
     (if n < 128 then [char_of n]
      else if n < 2048 then [char_of (192 + n div 64), char_of (128 + n mod 64)]
      else if n < 65536 then [char_of (224 + n div 4096), char_of (128 + n div 64 mod 64), char_of (128 + n mod 64)]
      else [char_of (240 + n div 262144), char_of (128 + n div 4096 mod 64),
            char_of (128 + n div 64 mod 64), char_of (128 + n mod 64)])"

subsection \<open>Decoding\<close>

definition contByte :: "char \<Rightarrow> bool" where
  "contByte c \<longleftrightarrow> (128 :: nat) \<le> of_char c \<and> (of_char c :: nat) < 192"

text \<open>The number of bytes of the first rune; an invalid byte is a rune of its own.\<close>

definition runeLen :: "string \<Rightarrow> nat" where
  "runeLen s =
     (case s of
        [] \<Rightarrow> 0
      | c # r \<Rightarrow>
          (let n = (of_char c :: nat);
               b = (case r of [] \<Rightarrow> 0 | d # _ \<Rightarrow> (of_char d :: nat)) in
           if 194 \<le> n \<and> n < 224 \<and> length r \<ge> 1 \<and> list_all contByte (take 1 r) then 2
           else if 224 \<le> n \<and> n < 240 \<and> length r \<ge> 2 \<and> list_all contByte (take 2 r) \<and>
             (n = 224 \<longrightarrow> 160 \<le> b) \<and> (n = 237 \<longrightarrow> b < 160) then 3
           else if 240 \<le> n \<and> n < 245 \<and> length r \<ge> 3 \<and> list_all contByte (take 3 r) \<and>
             (n = 240 \<longrightarrow> 144 \<le> b) \<and> (n = 244 \<longrightarrow> b < 144) then 4
           else 1))"

lemma runeLen_pos: "s \<noteq> [] \<Longrightarrow> 0 < runeLen s"
  by (cases s) (auto simp: runeLen_def Let_def)

text \<open>The first byte of \<open>s\<close> is not part of a valid rune.\<close>

definition badByte :: "string \<Rightarrow> bool" where
  "badByte s \<longleftrightarrow> runeLen s = 1 \<and> (128 :: nat) \<le> of_char (hd s)"

text \<open>The first rune: itself, or U+FFFD for an invalid byte.\<close>

definition runeText :: "string \<Rightarrow> string" where
  "runeText s = (if badByte s then utf8 0xFFFD else take (runeLen s) s)"

text \<open>The text with U+FFFD in the place of every invalid byte; a text without any is valid.\<close>

function toValid :: "string \<Rightarrow> string" where
  "toValid s = (if s = [] then [] else runeText s @ toValid (drop (runeLen s) s))"
  by pat_completeness auto
termination
  by (relation "measure length") (auto simp: runeLen_pos)

declare toValid.simps [simp del]

definition utf8_ok :: "string \<Rightarrow> bool" where
  "utf8_ok s \<longleftrightarrow> toValid s = s"

subsection \<open>Facts\<close>

lemma runeLen_ascii: "(of_char c :: nat) < 128 \<Longrightarrow> runeLen (c # r) = 1"
  by (simp add: runeLen_def)

lemma runeText_ascii: "(of_char c :: nat) < 128 \<Longrightarrow> runeText (c # r) = [c]"
  by (simp add: runeText_def badByte_def runeLen_ascii)

lemma toValid_Nil [simp]: "toValid [] = []"
  by (simp add: toValid.simps)

lemma toValid_ascii: "(of_char c :: nat) < 128 \<Longrightarrow> toValid (c # r) = c # toValid r"
  by (subst toValid.simps) (simp add: runeText_ascii runeLen_ascii)

lemma utf8_ok_Nil [simp]: "utf8_ok []"
  by (simp add: utf8_ok_def)

lemma utf8_ok_ascii [simp]: "(of_char c :: nat) < 128 \<Longrightarrow> utf8_ok (c # r) \<longleftrightarrow> utf8_ok r"
  by (simp add: utf8_ok_def toValid_ascii)

lemma utf8_ok_asciis: "list_all (\<lambda>c. (of_char c :: nat) < 128) s \<Longrightarrow> utf8_ok s"
  by (induction s) (simp_all add: utf8_ok_ascii)

text \<open>A valid rune is the first rune of whatever it begins.\<close>

lemma runeLen_cases:
  "runeLen (c # r) \<in> {1, 2, 3, 4} \<and> runeLen (c # r) \<le> Suc (length r)"
  by (auto simp: runeLen_def Let_def)

lemma runeLen_le: "runeLen s \<le> length s"
  using runeLen_cases by (cases s) (auto simp: runeLen_def [of "[]"])

lemma runeLen_append:
  assumes "u \<noteq> []" and "runeLen (u @ t) = length u" and "\<not> badByte (u @ t)"
  shows "runeLen (u @ t') = length u" and "\<not> badByte (u @ t')"
proof -
  obtain c r where u: "u = c # r" using assms(1) by (cases u) auto
  have "length r \<in> {0, 1, 2, 3}" using runeLen_cases [of c "r @ t"] assms(2) u by auto
  then consider "r = []" | d where "r = [d]" | d e where "r = [d, e]" | d e f where "r = [d, e, f]"
    by (auto simp: length_Suc_conv numeral_2_eq_2 numeral_3_eq_3)
  then have "runeLen (u @ t') = length u"
    using assms(2,3)
    by cases (auto simp: u runeLen_def badByte_def Let_def split: if_splits)
  moreover from this have "\<not> badByte (u @ t')"
    using assms by (simp add: u badByte_def)
  ultimately show "runeLen (u @ t') = length u" "\<not> badByte (u @ t')" by blast+
qed

lemma toValid_rune:
  assumes "u \<noteq> []" and "runeLen (u @ t) = length u" and "\<not> badByte (u @ t)"
  shows "toValid (u @ t) = u @ toValid t"
  using assms by (subst toValid.simps) (simp add: runeText_def)

lemma char_of_bound: "n < 256 \<Longrightarrow> (of_char (char_of n :: char) :: nat) = n"
  by simp

lemma utf8_rune:
  assumes "n < 0x110000" and "\<not> (0xD800 \<le> n \<and> n < 0xE000)"
  shows "utf8 n \<noteq> []" and "runeLen (utf8 n @ t) = length (utf8 n)" and "\<not> badByte (utf8 n @ t)"
proof -
  have "runeLen (utf8 n @ t) = length (utf8 n) \<and> \<not> badByte (utf8 n @ t)"
  proof -
    consider "n < 128" | "128 \<le> n" "n < 2048" | "2048 \<le> n" "n < 65536" | "65536 \<le> n" by linarith
    then show ?thesis
    proof cases
      case 1
      then show ?thesis by (simp add: utf8_def runeLen_ascii badByte_def)
    next
      case 2
      then have "2 \<le> n div 64" "n div 64 < 32" by (auto simp: div_less_iff_less_mult less_eq_div_iff_mult_less_eq)
      then show ?thesis using 2 by (simp add: utf8_def runeLen_def badByte_def contByte_def)
    next
      case 3
      have d: "n div 4096 < 16" "n div 64 mod 64 < 64" using 3 by (auto simp: div_less_iff_less_mult)
      have q: "n div 64 = 64 * (n div 4096) + n div 64 mod 64"
        using mult_div_mod_eq [of 64 "n div 64"] by (simp add: div_mult2_eq [of n 64 64, simplified])
      have "32 \<le> n div 64" "n div 64 < 864 \<or> 896 \<le> n div 64"
        using 3 assms(2) by (auto simp: less_eq_div_iff_mult_less_eq div_less_iff_less_mult)
      with q have "n div 4096 = 0 \<Longrightarrow> 32 \<le> n div 64 mod 64" "n div 4096 = 13 \<Longrightarrow> n div 64 mod 64 < 32"
        using d(2) by linarith+
      then show ?thesis using 3 d by (simp add: utf8_def runeLen_def badByte_def contByte_def)
    next
      case 4
      have d: "n div 262144 < 5" "n div 4096 mod 64 < 64" "n div 64 mod 64 < 64" using assms(1) by (auto simp: div_less_iff_less_mult)
      have q: "n div 4096 = 64 * (n div 262144) + n div 4096 mod 64"
        using mult_div_mod_eq [of 64 "n div 4096"] by (simp add: div_mult2_eq [of n 4096 64, simplified])
      have "16 \<le> n div 4096" "n div 4096 < 272"
        using 4 assms(1) by (auto simp: less_eq_div_iff_mult_less_eq div_less_iff_less_mult)
      with q have "n div 262144 = 0 \<Longrightarrow> 16 \<le> n div 4096 mod 64" "n div 262144 = 4 \<Longrightarrow> n div 4096 mod 64 < 16"
        by linarith+
      then show ?thesis using 4 d by (simp add: utf8_def runeLen_def badByte_def contByte_def)
    qed
  qed
  then show "runeLen (utf8 n @ t) = length (utf8 n)" "\<not> badByte (utf8 n @ t)" by blast+
  show "utf8 n \<noteq> []" by (simp add: utf8_def)
qed

lemma utf8_ok_utf8: "n < 0x110000 \<Longrightarrow> \<not> (0xD800 \<le> n \<and> n < 0xE000) \<Longrightarrow> utf8_ok (utf8 n @ t) \<longleftrightarrow> utf8_ok t"
  by (simp add: utf8_ok_def toValid_rune [OF utf8_rune])

lemma utf8_ok_runeText:
  assumes "s \<noteq> []"
  shows "utf8_ok (runeText s @ t) \<longleftrightarrow> utf8_ok t"
proof (cases "badByte s")
  case True
  then show ?thesis by (simp add: runeText_def utf8_ok_utf8)
next
  case False
  let ?u = "take (runeLen s) s"
  have l: "length ?u = runeLen s" "?u \<noteq> []" using runeLen_le [of s] runeLen_pos [OF assms] assms by auto
  have e: "?u @ drop (runeLen s) s = s" by simp
  have "runeLen (?u @ drop (runeLen s) s) = length ?u" "\<not> badByte (?u @ drop (runeLen s) s)"
    unfolding e using l False by simp_all
  note runeLen_append [OF l(2) this, of t]
  with l(2) show ?thesis using False by (simp add: runeText_def utf8_ok_def toValid_rune)
qed

lemma utf8_ok_toValid: "utf8_ok (toValid s)"
proof (induction s rule: toValid.induct)
  case (1 s)
  show ?case
  proof (cases "s = []")
    case False
    with 1 show ?thesis by (subst toValid.simps) (simp add: utf8_ok_runeText)
  qed simp
qed

end
