(* ===== verification/GoNumbers.thy ===== *)
theory GoNumbers
  imports GoRunes
begin

text \<open>
  Printing and parsing of numbers as the Go library does it: \<open>%d\<close> of \<open>fmt\<close>,
  \<open>%x\<close> of a byte slice, \<open>%q\<close> of a string, and \<open>strconv.ParseInt\<close> with base 0
  (the base is taken from the prefix of the text) and 64 bits.
\<close>

subsection \<open>Decimal printing\<close>

definition digit_char :: "nat \<Rightarrow> char" where
  "digit_char d = char_of (48 + d)"

definition is_digit :: "char \<Rightarrow> bool" where
  "is_digit c \<longleftrightarrow> CHR ''0'' \<le> c \<and> c \<le> CHR ''9''"

definition digit_val :: "char \<Rightarrow> nat" where
  "digit_val c = of_char c - 48"

fun nat_str :: "nat \<Rightarrow> string" where
  "nat_str n = (if n < 10 then [digit_char n] else nat_str (n div 10) @ [digit_char (n mod 10)])"

declare nat_str.simps [simp del]

definition int_str :: "int \<Rightarrow> string" where
  "int_str i = (if i < 0 then CHR ''-'' # nat_str (nat (- i)) else nat_str (nat i))"

definition str_nat :: "string \<Rightarrow> nat" where
  "str_nat s = foldl (\<lambda>a c. 10 * a + digit_val c) 0 s"

lemma digit_char_is_digit [simp]: "d < 10 \<Longrightarrow> is_digit (digit_char d)"
  by (simp add: is_digit_def digit_char_def less_eq_char_def)

lemma digit_val_digit_char [simp]: "d < 10 \<Longrightarrow> digit_val (digit_char d) = d"
  by (simp add: digit_val_def digit_char_def)

lemma nat_str_nonempty [simp]: "nat_str n \<noteq> []"
  by (subst nat_str.simps) simp

lemma nat_str_digits: "c \<in> set (nat_str n) \<Longrightarrow> is_digit c"
proof (induction n rule: nat_str.induct)
  case (1 n)
  then show ?case
    by (subst (asm) nat_str.simps) (auto split: if_splits)
qed

lemma str_nat_snoc: "str_nat (s @ [c]) = 10 * str_nat s + digit_val c"
  by (simp add: str_nat_def)

lemma str_nat_nat_str [simp]: "str_nat (nat_str n) = n"
proof (induction n rule: nat_str.induct)
  case (1 n)
  show ?case
  proof (cases "n < 10")
    case True
    then show ?thesis by (subst nat_str.simps) (simp add: str_nat_def)
  next
    case False
    then have "str_nat (nat_str n) = 10 * str_nat (nat_str (n div 10)) + n mod 10"
      by (subst nat_str.simps) (simp add: str_nat_snoc)
    with 1 False show ?thesis by simp
  qed
qed

lemma nat_str_inj: "nat_str a = nat_str b \<Longrightarrow> a = b"
  by (metis str_nat_nat_str)

lemma minus_not_digit [simp]: "\<not> is_digit CHR ''-''"
  by (simp add: is_digit_def less_eq_char_def)

lemma int_str_inj: "int_str a = int_str b \<Longrightarrow> a = b"
proof -
  have no: "nat_str n \<noteq> CHR ''-'' # s" for n s
    using nat_str_digits [of "CHR ''-''" n] by auto
  then have no': "CHR ''-'' # s \<noteq> nat_str n" for n s
    by metis
  assume "int_str a = int_str b"
  then show "a = b"
    by (auto simp: int_str_def no no' dest!: nat_str_inj split: if_splits)
qed

subsection \<open>Hexadecimal printing and quoting\<close>

definition hex_char :: "nat \<Rightarrow> char" where
  "hex_char d = (if d < 10 then char_of (48 + d) else char_of (87 + d))"

definition byte_hex :: "nat \<Rightarrow> string" where
  "byte_hex b = [hex_char (b div 16), hex_char (b mod 16)]"

text \<open>
  \<open>%q\<close> as \<open>strconv.Quote\<close> does it: the double quote and the backslash are escaped, the control
  characters and invalid bytes are written as escapes. A rune of more than one byte is kept, which is what happens to
  printable ones; the model has no table of those that are not.
\<close>

definition quote_char :: "char \<Rightarrow> string" where
  "quote_char c =
     (if c = CHR 0x22 then [CHR 0x5C, CHR 0x22]
      else if c = CHR 0x5C then [CHR 0x5C, CHR 0x5C]
      else if c = CHR 0x07 then [CHR 0x5C, CHR ''a'']
      else if c = CHR 0x08 then [CHR 0x5C, CHR ''b'']
      else if c = CHR 0x09 then [CHR 0x5C, CHR ''t'']
      else if c = CHR 0x0A then [CHR 0x5C, CHR ''n'']
      else if c = CHR 0x0B then [CHR 0x5C, CHR ''v'']
      else if c = CHR 0x0C then [CHR 0x5C, CHR ''f'']
      else if c = CHR 0x0D then [CHR 0x5C, CHR ''r'']
      else if (of_char c :: nat) < 32 \<or> (of_char c :: nat) = 127
        then [CHR 0x5C, CHR ''x''] @ byte_hex (of_char c)
      else [c])"

function quoteRunes :: "string \<Rightarrow> string" where
  "quoteRunes s =
     (if s = [] then []
      else (if (of_char (hd s) :: nat) < 128 then quote_char (hd s)
            else if badByte s then [CHR 0x5C, CHR ''x''] @ byte_hex (of_char (hd s))
            else take (runeLen s) s) @ quoteRunes (drop (runeLen s) s))"
  by pat_completeness auto
termination
  by (relation "measure length") (auto simp: runeLen_pos)

declare quoteRunes.simps [simp del]

definition goQuote :: "string \<Rightarrow> string" where
  "goQuote s = CHR 0x22 # quoteRunes s @ [CHR 0x22]"

subsection \<open>strconv.ParseInt with base 0 and 64 bits\<close>

datatype parse_err = ErrSyntax | ErrRange

definition digit_in :: "nat \<Rightarrow> char \<Rightarrow> nat option" where
  "digit_in base c =
     (let l = toLowerChar c;
          d = (if is_digit c then Some (digit_val c)
               else if CHR ''a'' \<le> l \<and> l \<le> CHR ''z'' then Some (of_char l - 87) else None)
      in case d of None \<Rightarrow> None | Some v \<Rightarrow> if v < base then Some v else None)"

fun parseDigits :: "nat \<Rightarrow> string \<Rightarrow> nat \<Rightarrow> parse_err + nat" where
  "parseDigits base [] acc = Inr acc"
| "parseDigits base (c # s) acc =
     (if c = CHR ''_'' then parseDigits base s acc
      else (case digit_in base c of
              None \<Rightarrow> Inl ErrSyntax
            | Some d \<Rightarrow> if 2 ^ 64 \<le> acc * base + d then Inl ErrRange
                       else parseDigits base s (acc * base + d)))"

text \<open>\<open>underscoreOK\<close>: an underscore stands between two digits, or after the base prefix.\<close>

fun underscoreScan :: "bool \<Rightarrow> char \<Rightarrow> string \<Rightarrow> bool" where
  "underscoreScan hex i [] = (i \<noteq> CHR ''_'')"
| "underscoreScan hex i (c # s) =
     (if is_digit c \<or> (hex \<and> CHR ''a'' \<le> toLowerChar c \<and> toLowerChar c \<le> CHR ''f'')
      then underscoreScan hex CHR ''0'' s
      else if c = CHR ''_'' then i = CHR ''0'' \<and> underscoreScan hex CHR ''_'' s
      else i \<noteq> CHR ''_'' \<and> underscoreScan hex CHR ''!'' s)"

definition basePrefix :: "string \<Rightarrow> nat option" where
  "basePrefix s =
     (case s of z # p # _ \<Rightarrow>
        if z \<noteq> CHR ''0'' then None
        else if toLowerChar p = CHR ''b'' then Some 2
        else if toLowerChar p = CHR ''o'' then Some 8
        else if toLowerChar p = CHR ''x'' then Some 16
        else None
      | _ \<Rightarrow> None)"

definition underscoreOK :: "string \<Rightarrow> bool" where
  "underscoreOK s =
     (case basePrefix s of
        Some b \<Rightarrow> underscoreScan (b = 16) CHR ''0'' (drop 2 s)
      | None \<Rightarrow> underscoreScan False CHR ''^'' s)"

definition parseUint0 :: "string \<Rightarrow> parse_err + nat" where
  "parseUint0 s =
     (if s = [] then Inl ErrSyntax
      else let (base, ds) =
             (if hd s \<noteq> CHR ''0'' then (10, s)
              else case basePrefix s of
                     Some b \<Rightarrow> if 3 \<le> length s then (b, drop 2 s) else (8, tl s)
                   | None \<Rightarrow> (8, tl s))
           in case parseDigits base ds 0 of
                Inl e \<Rightarrow> Inl e
              | Inr n \<Rightarrow> if CHR ''_'' \<in> set ds \<and> \<not> underscoreOK s then Inl ErrSyntax else Inr n)"

text \<open>The pair of the error, if any, and the value, which Go also returns with an error.\<close>

definition parseInt0 :: "string \<Rightarrow> parse_err option \<times> int" where
  "parseInt0 s =
     (if s = [] then (Some ErrSyntax, 0)
      else let neg = (hd s = CHR ''-'');
               u = (if neg \<or> hd s = CHR ''+'' then tl s else s)
           in case parseUint0 u of
                Inl ErrSyntax \<Rightarrow> (Some ErrSyntax, 0)
              | Inl ErrRange \<Rightarrow> (Some ErrRange, if neg then - (2 ^ 63) else 2 ^ 63 - 1)
              | Inr n \<Rightarrow>
                  if \<not> neg \<and> 2 ^ 63 \<le> n then (Some ErrRange, 2 ^ 63 - 1)
                  else if neg \<and> 2 ^ 63 < n then (Some ErrRange, - (2 ^ 63))
                  else (None, if neg then - int n else int n))"

end
