(* ===== verification/SqlText.thy ===== *)
theory SqlText
  imports GoNumbers
begin

text \<open>
  The SQL text that internal/postgres builds by string concatenation, and its meaning. The
  builders \<open>stringSliceToSql\<close>, \<open>int32SliceToSql\<close> and the loops that glue the parts
  of a WHERE clause with OR or AND are those of the code. The meaning of a clause is
  given by a parser for the part of SQL these texts use: comparisons \<open>c = 'v'\<close> and
  \<open>c IN ('v', 'w')\<close> (or integers) joined by OR or by AND, a quote inside a literal
  being written twice. A text that the parser refuses is outside the model
  (\<open>parse_where\<close> gives \<open>None\<close>).

  The values are put between quotes as they are. A value without a quote (\<open>quote_free\<close>)
  is read back as itself; one with a quote ends its own literal.
\<close>

subsection \<open>Builders (common.go)\<close>

definition sq :: char where "sq = CHR 0x27"

fun strSliceLoop :: "string \<Rightarrow> string list \<Rightarrow> string" where
  "strSliceLoop sep [] = []"
| "strSliceLoop sep (st # ss) = sep @ [sq] @ st @ [sq] @ strSliceLoop '', '' ss"

definition stringSliceToSql :: "string list \<Rightarrow> string" where
  "stringSliceToSql ss =
     (if length ss = 0 then [CHR ''('', sq, sq, CHR '')'']
      else ''('' @ strSliceLoop '''' ss @ '')'')"

fun int32SliceLoop :: "string \<Rightarrow> int32 list \<Rightarrow> string" where
  "int32SliceLoop sep [] = []"
| "int32SliceLoop sep (n # ns) = sep @ int_str (sint n) @ int32SliceLoop '', '' ns"

definition int32SliceToSql :: "int32 list \<Rightarrow> string" where
  "int32SliceToSql ns = ''('' @ int32SliceLoop '''' ns @ '')''"

text \<open>
  The loop \<open>for first, i := true, 0; i < len(lengths); i++\<close> that every query with
  optional parts runs: the parts that are present, with the connective before each but the first.
\<close>

fun glueLoop :: "string \<Rightarrow> bool \<Rightarrow> (bool \<times> string) list \<Rightarrow> string" where
  "glueLoop conn first [] = []"
| "glueLoop conn first ((present, part) # ps) =
     (if present then (if first then [] else conn) @ part @ glueLoop conn False ps
      else glueLoop conn first ps)"

text \<open>The intersection of two lists, and what the first has beyond the second.\<close>

fun getMatches :: "string list \<Rightarrow> string list \<Rightarrow> string list \<times> string list" where
  "getMatches [] bs = ([], [])"
| "getMatches (a # as) bs =
     (let (ms, es) = getMatches as bs
      in if a \<in> set bs then (a # ms, es) else (ms, a # es))"

lemma getMatches_eq: "getMatches as bs = (filter (\<lambda>a. a \<in> set bs) as, filter (\<lambda>a. a \<notin> set bs) as)"
  by (induction as) auto

definition pg_makeKey :: "string \<Rightarrow> string \<Rightarrow> string" where
  "pg_makeKey key subkey =
     (let ret = (if key \<noteq> [] \<and> hd key \<noteq> CHR ''/'' then CHR ''/'' # key else key)
      in if subkey \<noteq> [] then (if hd subkey \<noteq> CHR ''/'' then ret @ ''/'' else ret) @ subkey else ret)"

subsection \<open>Meaning of a WHERE clause\<close>

datatype sqlval = VStr string | VInt int | VNull

datatype cond = CEq string sqlval | CIn string "sqlval list"

datatype sql_where = WOr "cond list" | WAnd "cond list"

definition quote_free :: "string \<Rightarrow> bool" where
  "quote_free s \<longleftrightarrow> sq \<notin> set s"

fun eval_cond :: "(string \<Rightarrow> sqlval) \<Rightarrow> cond \<Rightarrow> bool" where
  "eval_cond col (CEq c v) = (col c = v \<and> col c \<noteq> VNull)"
| "eval_cond col (CIn c vs) = (col c \<in> set vs \<and> col c \<noteq> VNull)"

fun eval_where :: "(string \<Rightarrow> sqlval) \<Rightarrow> sql_where \<Rightarrow> bool" where
  "eval_where col (WOr cs) = list_ex (eval_cond col) cs"
| "eval_where col (WAnd cs) = list_all (eval_cond col) cs"

definition ident_char :: "char \<Rightarrow> bool" where
  "ident_char c \<longleftrightarrow> is_digit c \<or> CHR ''a'' \<le> c \<and> c \<le> CHR ''z'' \<or> c = CHR ''_'' \<or> c = CHR ''.''"

definition skip :: "string \<Rightarrow> string" where
  "skip s = dropWhile (\<lambda>c. c = CHR '' '') s"

text \<open>The body of a string literal, after its opening quote, and the text behind it.\<close>

fun lit_body :: "string \<Rightarrow> (string \<times> string) option" where
  "lit_body [] = None"
| "lit_body [c] = (if c = sq then Some ([], []) else None)"
| "lit_body (c # d # r) =
     (if c = sq then
        (if d = sq then map_option (\<lambda>(s, t). (sq # s, t)) (lit_body r) else Some ([], d # r))
      else map_option (\<lambda>(s, t). (c # s, t)) (lit_body (d # r)))"

definition parse_lit :: "string \<Rightarrow> (sqlval \<times> string) option" where
  "parse_lit s =
     (case s of
        [] \<Rightarrow> None
      | c # r \<Rightarrow>
          if c = sq then map_option (\<lambda>(b, t). (VStr b, t)) (lit_body r)
          else if c = CHR ''-'' then
            (if takeWhile is_digit r = [] then None
             else Some (VInt (- int (str_nat (takeWhile is_digit r))), dropWhile is_digit r))
          else if is_digit c then
            Some (VInt (int (str_nat (takeWhile is_digit s))), dropWhile is_digit s)
          else None)"

fun parse_items :: "nat \<Rightarrow> string \<Rightarrow> (sqlval list \<times> string) option" where
  "parse_items 0 s = None"
| "parse_items (Suc n) s =
     (case parse_lit (skip s) of
        None \<Rightarrow> None
      | Some (v, r) \<Rightarrow>
          (case skip r of
             [] \<Rightarrow> None
           | c # t \<Rightarrow>
               if c = CHR '')'' then Some ([v], t)
               else if c = CHR '','' then map_option (\<lambda>(vs, u). (v # vs, u)) (parse_items n t)
               else None))"

definition parse_cond :: "string \<Rightarrow> (cond \<times> string) option" where
  "parse_cond s =
     (let c = takeWhile ident_char (skip s); r = skip (dropWhile ident_char (skip s))
      in if c = [] then None
         else if hasPrefix r ''='' then
           map_option (\<lambda>(v, t). (CEq c v, t)) (parse_lit (skip (drop 1 r)))
         else if toLower (take 4 r) = ''in ('' then
           map_option (\<lambda>(vs, t). (CIn c vs, t)) (parse_items (length r) (drop 4 r))
         else None)"

text \<open>The rest of a clause whose conditions are all joined by the same connective.\<close>

fun parse_rest :: "nat \<Rightarrow> string \<Rightarrow> string \<Rightarrow> cond list option" where
  "parse_rest 0 conn s = None"
| "parse_rest (Suc n) conn s =
     (if skip s = [] then Some []
      else if hasPrefix (skip s) conn then
        (case parse_cond (drop (length conn) (skip s)) of
           None \<Rightarrow> None
         | Some (c, t) \<Rightarrow> map_option ((#) c) (parse_rest n conn t))
      else None)"

definition parse_where :: "string \<Rightarrow> sql_where option" where
  "parse_where s =
     (case parse_cond s of
        None \<Rightarrow> None
      | Some (c, t) \<Rightarrow>
          (case parse_rest (Suc (length t)) ''AND '' t of
             Some cs \<Rightarrow> Some (if cs = [] then WOr [c] else WAnd (c # cs))
           | None \<Rightarrow> map_option (\<lambda>cs. WOr (c # cs)) (parse_rest (Suc (length t)) ''OR '' t)))"

subsection \<open>Literals are read back\<close>

definition stops :: "string \<Rightarrow> bool" where
  "stops r \<longleftrightarrow> r = [] \<or> hd r \<noteq> sq"

lemma stops_simps [simp]:
  "stops []" "c \<noteq> sq \<Longrightarrow> stops (c # r)"
  by (simp_all add: stops_def)

lemma sq_neq [simp]: "sq \<noteq> CHR '' ''" "sq \<noteq> CHR '','' " "sq \<noteq> CHR '')''" "sq \<noteq> CHR ''-''"
  "CHR '' '' \<noteq> sq" "CHR ''-'' \<noteq> sq" "CHR '','' \<noteq> sq" "CHR '')'' \<noteq> sq"
  by (simp_all add: sq_def)

lemma quote_free_simps [simp]:
  "quote_free []" "quote_free (c # s) \<longleftrightarrow> c \<noteq> sq \<and> quote_free s"
  "quote_free (s @ t) \<longleftrightarrow> quote_free s \<and> quote_free t"
  by (auto simp: quote_free_def)

lemma toLowerChar_sq [simp]: "toLowerChar c = sq \<longleftrightarrow> c = sq" "sq = toLowerChar c \<longleftrightarrow> c = sq"
proof -
  show "toLowerChar c = sq \<longleftrightarrow> c = sq"
  proof (cases "CHR ''A'' \<le> c \<and> c \<le> CHR ''Z''")
    case True
    then have b: "65 \<le> (of_char c :: nat)" "(of_char c :: nat) \<le> 90"
      by (simp_all add: less_eq_char_def)
    with True have "(of_char (toLowerChar c) :: nat) = of_char c + 32"
      by (simp add: toLowerChar_def)
    moreover have "(of_char sq :: nat) = 39"
      by (simp add: sq_def)
    ultimately have "(of_char (toLowerChar c) :: nat) \<noteq> of_char sq" "(of_char c :: nat) \<noteq> of_char sq"
      using b by linarith+
    then show ?thesis by auto
  qed (auto simp: toLowerChar_def)
  then show "sq = toLowerChar c \<longleftrightarrow> c = sq" by auto
qed

lemma quote_free_toLower [simp]: "quote_free (toLower s) = quote_free s"
  by (auto simp: quote_free_def toLower_def image_iff)

lemma lit_body_quote_free:
  "quote_free s \<Longrightarrow> stops r \<Longrightarrow> lit_body (s @ sq # r) = Some (s, r)"
proof (induction s)
  case Nil
  then show ?case by (cases r) (auto simp: stops_def)
next
  case (Cons c s)
  then show ?case by (cases "s @ sq # r") auto
qed

lemma parse_lit_quoted:
  "quote_free s \<Longrightarrow> stops r \<Longrightarrow> parse_lit (sq # s @ sq # r) = Some (VStr s, r)"
  by (simp add: parse_lit_def lit_body_quote_free)

lemma skip_simps [simp]:
  "skip [] = []" "skip (c # s) = (if c = CHR '' '' then skip s else c # s)"
  by (simp_all add: skip_def)

lemma parse_items_strings:
  "list_all quote_free (x # xs) \<Longrightarrow> length xs < n \<Longrightarrow> set sep \<subseteq> {CHR '' ''} \<Longrightarrow>
   parse_items n (sep @ sq # x @ sq # strSliceLoop '', '' xs @ CHR '')'' # r) =
   Some (map VStr (x # xs), r)"
proof (induction xs arbitrary: x n sep)
  case Nil
  then obtain m where n: "n = Suc m" by (cases n) auto
  have "skip (sep @ sq # u) = sq # u" for u
    using Nil.prems(3) by (induction sep) auto
  with Nil n show ?case by (simp add: parse_lit_quoted)
next
  case (Cons y ys)
  then obtain m where n: "n = Suc m" by (cases n) auto
  have sk: "skip (sep @ sq # u) = sq # u" for u
    using Cons.prems(3) by (induction sep) auto
  have "parse_items m ('' '' @ sq # y @ sq # strSliceLoop '', '' ys @ CHR '')'' # r) =
        Some (map VStr (y # ys), r)"
    using Cons.prems n by (intro Cons.IH) auto
  with Cons.prems n sk show ?case by (simp add: parse_lit_quoted)
qed

definition sql_strs :: "string list \<Rightarrow> sqlval list" where
  "sql_strs xs = (if xs = [] then [VStr []] else map VStr xs)"

lemma is_digit_neq [simp]:
  "\<not> is_digit sq" "\<not> is_digit CHR '' ''" "\<not> is_digit CHR '',''" "\<not> is_digit CHR '')''"
  by (simp_all add: is_digit_def sq_def less_eq_char_def)

lemma takeWhile_digits:
  "r = [] \<or> \<not> is_digit (hd r) \<Longrightarrow> takeWhile is_digit (nat_str n @ r) = nat_str n"
  by (cases r) (auto simp: takeWhile_append2 nat_str_digits)

lemma dropWhile_digits:
  "r = [] \<or> \<not> is_digit (hd r) \<Longrightarrow> dropWhile is_digit (nat_str n @ r) = r"
  by (cases r) (auto simp: dropWhile_append2 nat_str_digits)

lemma parse_lit_int:
  "r = [] \<or> \<not> is_digit (hd r) \<Longrightarrow> parse_lit (int_str i @ r) = Some (VInt i, r)"
proof (cases "i < 0")
  case True
  assume "r = [] \<or> \<not> is_digit (hd r)"
  with True show ?thesis
    by (simp add: int_str_def parse_lit_def takeWhile_digits dropWhile_digits)
next
  case False
  assume r: "r = [] \<or> \<not> is_digit (hd r)"
  obtain d ds where ds: "nat_str (nat i) = d # ds"
    by (meson neq_Nil_conv nat_str_nonempty)
  then have "is_digit d"
    using nat_str_digits [of d "nat i"] by simp
  then have "d \<noteq> sq" "d \<noteq> CHR ''-''"
    by auto
  with False r ds \<open>is_digit d\<close> show ?thesis
    using takeWhile_digits [OF r, of "nat i"] dropWhile_digits [OF r, of "nat i"] str_nat_nat_str [of "nat i"]
    by (simp add: int_str_def parse_lit_def)
qed

lemma skip_int_str [simp]: "skip (int_str i @ u) = int_str i @ u"
proof -
  obtain d ds where "nat_str (nat \<bar>i\<bar>) = d # ds"
    by (meson neq_Nil_conv nat_str_nonempty)
  moreover from this have "d \<noteq> CHR '' ''"
    using nat_str_digits [of d "nat \<bar>i\<bar>"] by auto
  ultimately show ?thesis
    by (cases "i < 0") (auto simp: int_str_def)
qed

lemma parse_items_ints:
  "length xs < n \<Longrightarrow> set sep \<subseteq> {CHR '' ''} \<Longrightarrow>
   parse_items n (sep @ int_str (sint x) @ int32SliceLoop '', '' xs @ CHR '')'' # r) =
   Some (map (\<lambda>i. VInt (sint i)) (x # xs), r)"
proof (induction xs arbitrary: x n sep)
  case Nil
  then obtain m where n: "n = Suc m" by (cases n) auto
  have "skip (sep @ int_str (sint x) @ u) = int_str (sint x) @ u" for u
    using Nil.prems(2) by (induction sep) auto
  with Nil n show ?case by (simp add: parse_lit_int)
next
  case (Cons y ys)
  then obtain m where n: "n = Suc m" by (cases n) auto
  have sk: "skip (sep @ int_str (sint x) @ u) = int_str (sint x) @ u" for u
    using Cons.prems(2) by (induction sep) auto
  have "parse_items m ('' '' @ int_str (sint y) @ int32SliceLoop '', '' ys @ CHR '')'' # r) =
        Some (map (\<lambda>i. VInt (sint i)) (y # ys), r)"
    using Cons.prems n by (intro Cons.IH) auto
  with Cons.prems n sk show ?case by (simp add: parse_lit_int)
qed

definition sql_ints :: "int32 list \<Rightarrow> sqlval list" where
  "sql_ints xs = map (\<lambda>i. VInt (sint i)) xs"

lemma length_strSliceLoop: "length xs \<le> length (strSliceLoop sep xs)"
proof (induction xs arbitrary: sep)
  case (Cons x xs)
  have "length xs \<le> length (strSliceLoop '', '' xs)" by (rule Cons.IH)
  then show ?case by simp
qed simp

lemma int_str_nonempty [simp]: "int_str i \<noteq> []"
  by (simp add: int_str_def)

lemma length_int32SliceLoop: "length xs \<le> length (int32SliceLoop sep xs)"
proof (induction xs arbitrary: sep)
  case (Cons x xs)
  have "length xs \<le> length (int32SliceLoop '', '' xs)" by (rule Cons.IH)
  moreover have "0 < length (int_str (sint x))" by simp
  ultimately show ?case by (simp del: length_greater_0_conv)
qed simp

subsection \<open>Conditions are read back\<close>

text \<open>\<open>denotes t c\<close>: the text, followed by a space or by nothing, is the condition \<open>c\<close>.\<close>

definition denotes :: "string \<Rightarrow> cond \<Rightarrow> bool" where
  "denotes t c \<longleftrightarrow> (\<forall>r. (r = [] \<or> hd r = CHR '' '') \<longrightarrow> parse_cond (t @ r) = Some (c, r))"

definition ident :: "string \<Rightarrow> bool" where
  "ident c \<longleftrightarrow> c \<noteq> [] \<and> list_all ident_char c"

lemma ident_char_simps [simp]:
  "\<not> ident_char CHR '' ''" "\<not> ident_char CHR ''=''" "\<not> ident_char sq"
  by (simp_all add: ident_char_def is_digit_def sq_def less_eq_char_def)

lemma ident_takeWhile:
  "ident c \<Longrightarrow> r = [] \<or> \<not> ident_char (hd r) \<Longrightarrow> takeWhile ident_char (c @ r) = c"
  by (cases r) (auto simp: ident_def list_all_iff takeWhile_append2)

lemma ident_dropWhile:
  "ident c \<Longrightarrow> r = [] \<or> \<not> ident_char (hd r) \<Longrightarrow> dropWhile ident_char (c @ r) = r"
  by (cases r) (auto simp: ident_def list_all_iff dropWhile_append2)

lemma skip_ident: "ident c \<Longrightarrow> skip (c @ r) = c @ r"
  by (cases c) (auto simp: ident_def)

lemma parse_cond_IN:
  assumes "ident c" and "toLower kw = ''in''" and "kw \<noteq> []"
    and items: "parse_items (length kw + 2 + length body) body = Some (vs, r)"
  shows "parse_cond ('' '' @ c @ '' '' @ kw @ '' ('' @ body) = Some (CIn c vs, r)"
proof -
  from assms(2) obtain i n where kw: "kw = [i, n]" "toLowerChar i = CHR ''i''" "toLowerChar n = CHR ''n''"
    by (auto simp: toLower_def map_eq_Cons_conv)
  have i: "i \<noteq> CHR ''=''" "i \<noteq> CHR '' ''"
    using kw(2) by (auto simp: toLowerChar_def less_eq_char_def)
  have tl: "toLower (take 4 (kw @ '' ('' @ body)) = ''in (''"
    using kw by (simp add: toLower_def) (simp add: toLowerChar_def less_eq_char_def)
  have s: "skip ('' '' @ kw @ '' ('' @ body) = kw @ '' ('' @ body"
    using kw i by simp
  have ne: "c \<noteq> []"
    using assms(1) by (simp add: ident_def)
  show ?thesis
    using assms(1) tl s kw i ne items
      ident_takeWhile [of c "'' '' @ kw @ '' ('' @ body"] ident_dropWhile [of c "'' '' @ kw @ '' ('' @ body"]
      skip_ident [of c "'' '' @ kw @ '' ('' @ body"]
    by (simp add: parse_cond_def Let_def hasPrefix_def)
qed

lemma denotes_IN_strings:
  assumes "ident c" and "toLower kw = ''in''" and "list_all quote_free xs"
  shows "denotes ('' '' @ c @ '' '' @ kw @ '' '' @ stringSliceToSql xs) (CIn c (sql_strs xs))"
  unfolding denotes_def
proof (intro allI impI)
  fix r :: string
  assume "r = [] \<or> hd r = CHR '' ''"
  have ne: "kw \<noteq> []" using assms(2) by (auto simp: toLower_def)
  have "parse_items (length kw + 2 + length body) body = Some (sql_strs xs, r)"
    if "body = strSliceLoop '''' (if xs = [] then [[]] else xs) @ '')'' @ r" for body
  proof (cases xs)
    case Nil
    then show ?thesis
      using parse_items_strings [of "[]" "[]" "length kw + 2 + length body" "[]" r] that
      by (simp add: sql_strs_def)
  next
    case (Cons y ys)
    have "length ys < length kw + 2 + length body"
      using length_strSliceLoop [of ys "'', ''"] that Cons by simp
    then show ?thesis
      using parse_items_strings [of y ys "length kw + 2 + length body" "[]" r] that Cons assms(3)
      by (simp add: sql_strs_def)
  qed
  from parse_cond_IN [OF assms(1,2) ne this [OF refl]]
  show "parse_cond (('' '' @ c @ '' '' @ kw @ '' '' @ stringSliceToSql xs) @ r) =
        Some (CIn c (sql_strs xs), r)"
    by (simp add: stringSliceToSql_def split: if_splits)
qed

lemma denotes_IN_ints:
  assumes "ident c" and "toLower kw = ''in''" and "xs \<noteq> []"
  shows "denotes ('' '' @ c @ '' '' @ kw @ '' '' @ int32SliceToSql xs) (CIn c (sql_ints xs))"
  unfolding denotes_def
proof (intro allI impI)
  fix r :: string
  assume "r = [] \<or> hd r = CHR '' ''"
  have ne: "kw \<noteq> []" using assms(2) by (auto simp: toLower_def)
  obtain y ys where xs: "xs = y # ys" using assms(3) by (cases xs) auto
  let ?b = "int32SliceLoop '''' xs @ '')'' @ r"
  have "length ys < length kw + 2 + length ?b"
    using length_int32SliceLoop [of ys "'', ''"] xs by simp
  then have "parse_items (length kw + 2 + length ?b) ?b = Some (sql_ints xs, r)"
    using parse_items_ints [of ys "length kw + 2 + length ?b" "[]" y r] xs
    by (simp add: sql_ints_def)
  from parse_cond_IN [OF assms(1,2) ne this]
  show "parse_cond (('' '' @ c @ '' '' @ kw @ '' '' @ int32SliceToSql xs) @ r) =
        Some (CIn c (sql_ints xs), r)"
    by (simp add: int32SliceToSql_def)
qed

lemma denotes_EQ:
  assumes "ident c" and "quote_free v" and "set sp \<subseteq> {CHR '' ''}"
  shows "denotes ('' '' @ c @ sp @ ''='' @ sp @ [sq] @ v @ [sq]) (CEq c (VStr v))"
  unfolding denotes_def
proof (intro allI impI)
  fix r :: string
  assume r: "r = [] \<or> hd r = CHR '' ''"
  let ?u = "sp @ ''='' @ sp @ [sq] @ v @ [sq] @ r"
  have h: "?u = [] \<or> \<not> ident_char (hd ?u)"
    using assms(3) by (cases sp) auto
  have sk: "skip (sp @ x # u) = x # u" if "x \<noteq> CHR '' ''" for x u
    using assms(3) that by (induction sp) auto
  have ne: "c \<noteq> []" using assms(1) by (simp add: ident_def)
  have st: "stops r" using r by (cases r) auto
  show "parse_cond (('' '' @ c @ sp @ ''='' @ sp @ [sq] @ v @ [sq]) @ r) = Some (CEq c (VStr v), r)"
    using ident_takeWhile [OF assms(1) h] ident_dropWhile [OF assms(1) h] skip_ident [OF assms(1), of ?u]
      sk [of "CHR ''=''" "sp @ sq # v @ sq # r"] sk [of sq "v @ sq # r"] ne st assms(2)
    by (simp add: parse_cond_def Let_def hasPrefix_def parse_lit_quoted)
qed

subsection \<open>Whole clauses are read back\<close>

definition sql_filter :: "string \<Rightarrow> ('r \<Rightarrow> string \<Rightarrow> sqlval) \<Rightarrow> 'r list \<Rightarrow> 'r list option" where
  "sql_filter txt col rows =
     map_option (\<lambda>w. filter (\<lambda>r. eval_where (col r) w) rows) (parse_where txt)"

abbreviation parts_text :: "(bool \<times> string \<times> cond) list \<Rightarrow> (bool \<times> string) list" where
  "parts_text ps \<equiv> map (\<lambda>(p, t, c). (p, t)) ps"

definition parts_ok :: "(bool \<times> string \<times> cond) list \<Rightarrow> bool" where
  "parts_ok ps \<longleftrightarrow> list_all (\<lambda>(p, t, c). p \<longrightarrow> denotes t c) ps"

abbreviation parts_conds :: "(bool \<times> string \<times> cond) list \<Rightarrow> cond list" where
  "parts_conds ps \<equiv> map (\<lambda>(p, t, c). c) (filter fst ps)"

lemma parts_ok_simps [simp]:
  "parts_ok []" "parts_ok ((p, t, c) # ps) \<longleftrightarrow> (p \<longrightarrow> denotes t c) \<and> parts_ok ps"
  by (simp_all add: parts_ok_def)

lemma glueLoop_hd: "hd conn = CHR '' '' \<Longrightarrow> conn \<noteq> [] \<Longrightarrow>
  glueLoop conn False ps = [] \<or> hd (glueLoop conn False ps) = CHR '' ''"
  by (induction ps) auto

lemma parse_rest_glue:
  "parts_ok ps \<Longrightarrow> length ps < n \<Longrightarrow> w \<noteq> [] \<Longrightarrow> hd w \<noteq> CHR '' '' \<Longrightarrow> CHR '' '' \<notin> set w \<Longrightarrow>
   (\<forall>(p, t, c)\<in>set ps. p \<longrightarrow> hd t = CHR '' '' \<and> t \<noteq> []) \<Longrightarrow>
   parse_rest n (w @ '' '') (glueLoop (CHR '' '' # w) False (parts_text ps)) = Some (parts_conds ps)"
proof (induction ps arbitrary: n)
  case Nil
  then show ?case by (cases n) auto
next
  case (Cons a ps)
  obtain p t c where a: "a = (p, t, c)" by (cases a)
  show ?case
  proof (cases p)
    case False
    with Cons a show ?thesis by (auto simp: less_Suc_eq)
  next
    case True
    from Cons.prems(2) obtain m where n: "n = Suc m" by (cases n) auto
    let ?g = "glueLoop (CHR '' '' # w) False (parts_text ps)"
    have "hd t = CHR '' ''" "t \<noteq> []" using Cons.prems(6) a True by auto
    then obtain t' where t: "t = CHR '' '' # t'" by (cases t) auto
    have "denotes t c" using Cons.prems(1) a True by simp
    then have pc: "parse_cond (t @ ?g) = Some (c, ?g)"
      using glueLoop_hd [of "CHR '' '' # w" "parts_text ps"] unfolding denotes_def by auto
    have pc': "parse_cond (t' @ ?g) = Some (c, ?g)"
      using pc t by (simp add: parse_cond_def)
    have IH: "parse_rest m (w @ '' '') ?g = Some (parts_conds ps)"
      using Cons.prems a n by (intro Cons.IH) auto
    have sk: "skip (CHR '' '' # w @ u) = w @ u" for u
      using Cons.prems(3,4) by (cases w) auto
    show ?thesis
      using a True t sk pc' IH Cons.prems(3) n by (simp add: hasPrefix_def)
  qed
qed

lemma parse_rest_wrong_conn:
  "hd w \<noteq> hd v \<Longrightarrow> w \<noteq> [] \<Longrightarrow> v \<noteq> [] \<Longrightarrow> hd w \<noteq> CHR '' '' \<Longrightarrow> list_ex fst ps \<Longrightarrow>
   parse_rest n (v @ '' '') (glueLoop (CHR '' '' # w) False ps) = None"
proof (induction ps)
  case (Cons a ps)
  then show ?case
    by (cases n; cases a; cases w; cases v) (auto simp: hasPrefix_def)
qed simp

definition parts_sp :: "(bool \<times> string \<times> cond) list \<Rightarrow> bool" where
  "parts_sp ps \<longleftrightarrow> (\<forall>(p, t, c)\<in>set ps. p \<longrightarrow> hd t = CHR '' '' \<and> t \<noteq> [])"

lemma parts_sp_simps [simp]:
  "parts_sp []" "parts_sp ((p, t, c) # ps) \<longleftrightarrow> (p \<longrightarrow> hd t = CHR '' '' \<and> t \<noteq> []) \<and> parts_sp ps"
  by (auto simp: parts_sp_def)

lemma length_glueLoop:
  "parts_sp ps \<Longrightarrow> length (filter fst ps) \<le> length (glueLoop conn False (parts_text ps))"
proof (induction ps)
  case (Cons a ps)
  obtain p t c where a: "a = (p, t, c)" by (cases a)
  with Cons have "p \<Longrightarrow> 0 < length t" by auto
  with Cons a show ?case by (cases p) (auto simp del: length_greater_0_conv)
qed simp

lemma glueLoop_absent: "glueLoop conn first (parts_text ps) = glueLoop conn first (parts_text (filter fst ps))"
  by (induction ps arbitrary: first) auto

lemma glueLoop_first:
  "list_ex fst ps \<Longrightarrow> filter fst ps = (True, t, c) # qs \<Longrightarrow>
   glueLoop conn True (parts_text ps) = t @ glueLoop conn False (parts_text qs)"
  by (subst glueLoop_absent) simp

lemma filter_fst_Cons:
  "list_ex fst ps \<Longrightarrow> \<exists>t c qs. filter fst ps = (True, t, c) # qs \<and> list_all fst qs"
proof -
  assume "list_ex fst ps"
  then obtain q qs where q: "filter fst ps = q # qs"
    by (cases "filter fst ps") (auto simp: list_ex_iff filter_empty_conv)
  then have "\<forall>x \<in> set (q # qs). fst x"
    unfolding q [symmetric] by simp
  with q show ?thesis
    by (cases q) (auto simp: list_all_iff)
qed

lemma parts_filter: "parts_ok ps \<Longrightarrow> parts_ok (filter fst ps)" "parts_sp ps \<Longrightarrow> parts_sp (filter fst ps)"
  by (auto simp: parts_ok_def parts_sp_def list_all_iff)

lemma parse_where_glue:
  assumes ok: "parts_ok ps" and sp: "parts_sp ps" and some: "list_ex fst ps"
    and w: "w = ''OR'' \<or> w = ''AND''"
  shows "map_option (eval_where col) (parse_where (glueLoop (CHR '' '' # w) True (parts_text ps))) =
         Some (if w = ''OR'' then list_ex (eval_cond col) (parts_conds ps)
               else list_all (eval_cond col) (parts_conds ps))"
proof -
  obtain t c qs where q: "filter fst ps = (True, t, c) # qs" "list_all fst qs"
    using filter_fst_Cons [OF some] by blast
  have qok: "denotes t c" "parts_ok qs" "parts_sp qs"
    using parts_filter(1) [OF ok] parts_filter(2) [OF sp] q by simp_all
  let ?g = "glueLoop (CHR '' '' # w) False (parts_text qs)"
  have g: "glueLoop (CHR '' '' # w) True (parts_text ps) = t @ ?g"
    by (rule glueLoop_first [OF some q(1)])
  have fq: "filter fst qs = qs" using q(2) by (simp add: list_all_iff)
  have pc: "parse_cond (t @ ?g) = Some (c, ?g)"
    using qok(1) glueLoop_hd [of "CHR '' '' # w" "parts_text qs"] unfolding denotes_def by auto
  have len: "length qs < Suc (length ?g)"
    using length_glueLoop [OF qok(3), of "CHR '' '' # w"] fq by simp
  have pr: "parse_rest (Suc (length ?g)) (w @ '' '') ?g = Some (parts_conds qs)"
    using w by (intro parse_rest_glue [OF qok(2) len]) (use qok(3) in \<open>auto simp: parts_sp_def\<close>)
  have cs: "parts_conds ps = c # parts_conds qs"
    using q(1) fq by simp
  show ?thesis
  proof (cases "w = ''AND''")
    case True
    then show ?thesis
      using pr g pc cs by (simp add: parse_where_def del: parse_rest.simps)
  next
    case False
    then have w': "w = ''OR''" using w by simp
    show ?thesis
    proof (cases qs)
      case Nil
      then show ?thesis using pr w' g pc cs by (simp add: parse_where_def)
    next
      case (Cons a as)
      then have "list_ex fst (parts_text qs)" using q(2) by (cases a) auto
      then have "parse_rest (Suc (length ?g)) (''AND'' @ '' '') ?g = None"
        using w' by (intro parse_rest_wrong_conn) auto
      then show ?thesis
        using pr w' g pc cs by (simp add: parse_where_def del: parse_rest.simps)
    qed
  qed
qed

lemma sql_filter_glue:
  assumes "parts_ok ps" and "parts_sp ps" and "list_ex fst ps" and "w = ''OR'' \<or> w = ''AND''"
  shows "sql_filter (glueLoop (CHR '' '' # w) True (parts_text ps)) col rows =
         Some (filter (\<lambda>r. if w = ''OR'' then list_ex (eval_cond (col r)) (parts_conds ps)
                           else list_all (eval_cond (col r)) (parts_conds ps)) rows)"
proof -
  let ?t = "glueLoop (CHR '' '' # w) True (parts_text ps)"
  have e: "map_option (eval_where c) (parse_where ?t) =
        Some (if w = ''OR'' then list_ex (eval_cond c) (parts_conds ps)
              else list_all (eval_cond c) (parts_conds ps))" for c
    by (rule parse_where_glue [OF assms])
  show ?thesis
  proof (cases "parse_where ?t")
    case None
    then show ?thesis using e [of "\<lambda>_. VNull"] by (simp only: option.map option.distinct)
  next
    case (Some wh)
    then have "eval_where c wh = (if w = ''OR'' then list_ex (eval_cond c) (parts_conds ps)
              else list_all (eval_cond c) (parts_conds ps))" for c
      using e [of c] by (simp only: option.map option.inject)
    with Some show ?thesis by (simp only: sql_filter_def option.map)
  qed
qed

lemma sql_filter_single:
  assumes "denotes t c" and "hd t = CHR '' ''" and "t \<noteq> []"
  shows "sql_filter t col rows = Some (filter (\<lambda>r. eval_cond (col r) c) rows)"
  using sql_filter_glue [of "[(True, t, c)]" "''OR''" col rows] assms by simp

end
