(* ===== verification/GoErrors.thy ===== *)
theory GoErrors
  imports GoNumbers
begin

text \<open>
  Error values (internal/postgres/errors.go). \<open>Err\<close> is an error made from a text,
  \<open>Wrapped\<close> is \<open>fmt.Errorf\<close> with \<open>%w\<close> (the rendering of further arguments with
  \<open>%v\<close> is left out of the text), and the other constructors are the error types of the
  file. \<open>errorText\<close> is their \<open>Error()\<close> method.
\<close>

datatype err_data = NoData | StrData string | ValData string

datatype goerr =
    Err string
  | Wrapped string goerr
  | ErrPostgresAdd goerr
  | ErrPostgresDelete goerr
  | ErrPostgresUpdate goerr
  | ErrPostgresSet goerr
  | ErrPostgresGet goerr
  | ErrPostgresDuplicate err_data
  | ErrPostgresNotExists err_data

fun dataText :: "string \<Rightarrow> err_data \<Rightarrow> string" where
  "dataText msg NoData = msg"
| "dataText msg (StrData d) = (if d = [] then msg else msg @ '': '' @ d)"
| "dataText msg (ValData d) = msg @ '': '' @ d"

fun errorText :: "goerr \<Rightarrow> string" where
  "errorText (Err s) = s"
| "errorText (Wrapped msg e) = msg @ '': '' @ errorText e"
| "errorText (ErrPostgresAdd e) = ''postgres.Add: '' @ errorText e"
| "errorText (ErrPostgresDelete e) = ''postgres.Delete: '' @ errorText e"
| "errorText (ErrPostgresUpdate e) = ''postgres.Update: '' @ errorText e"
| "errorText (ErrPostgresSet e) = ''postgres.Set: '' @ errorText e"
| "errorText (ErrPostgresGet e) = ''postgres.Get: '' @ errorText e"
| "errorText (ErrPostgresDuplicate d) = dataText ''data already exists'' d"
| "errorText (ErrPostgresNotExists d) = dataText ''data does not exist'' d"

end
