(* ===== verification/Json.thy ===== *)
theory Json
  imports GoNumbers
begin

text \<open>
  JSON as encoding/json reads and writes it: values, the compact printer of \<open>json.Marshal\<close>
  (with its HTML escapes), and a parser for texts, with a fuel argument that bounds the nesting.
  A number is kept as its text; Go converts it to a float64 when it decodes into an interface
  value, which the model leaves out. Strings are bytes; the printer writes U+FFFD for bytes that are not
  valid UTF-8, the parser puts it in their place, and what has been read is valid.
\<close>

datatype json =
    JNull
  | JBool bool
  | JNum string
  | JStr string
  | JArr "json list"
  | JObj "(string \<times> json) list"

subsection \<open>Printing\<close>

definition dq :: char where "dq = CHR 0x22"
definition bsl :: char where "bsl = CHR 0x5C"

definition jesc :: "char \<Rightarrow> string" where
  "jesc c =
     (if c = dq then [bsl, dq]
      else if c = bsl then [bsl, bsl]
      else if c = CHR 0x08 then [bsl, CHR ''b'']
      else if c = CHR 0x0C then [bsl, CHR ''f'']
      else if c = CHR 0x0A then [bsl, CHR ''n'']
      else if c = CHR 0x0D then [bsl, CHR ''r'']
      else if c = CHR 0x09 then [bsl, CHR ''t'']
      else if (of_char c :: nat) < 32 \<or> c = CHR ''<'' \<or> c = CHR ''>'' \<or> c = CHR ''&''
        then [bsl, CHR ''u'', CHR ''0'', CHR ''0''] @ byte_hex (of_char c)
      else [c])"

text \<open>A string rune by rune: ASCII as above, invalid bytes and the two line separators of Unicode as escapes.\<close>

definition runeEsc :: "string \<Rightarrow> string" where
  "runeEsc u =
     (if u = utf8 0x2028 then bsl # ''u2028'' else if u = utf8 0x2029 then bsl # ''u2029'' else u)"

function jescs :: "string \<Rightarrow> string" where
  "jescs s =
     (if s = [] then []
      else (if (of_char (hd s) :: nat) < 128 then jesc (hd s)
            else if badByte s then bsl # ''ufffd''
            else runeEsc (take (runeLen s) s)) @ jescs (drop (runeLen s) s))"
  by pat_completeness auto
termination
  by (relation "measure length") (auto simp: runeLen_pos)

declare jescs.simps [simp del]

definition jquote :: "string \<Rightarrow> string" where
  "jquote s = dq # jescs s @ [dq]"

fun jprint :: "json \<Rightarrow> string"
  and jprints :: "json list \<Rightarrow> string"
  and jmembers :: "(string \<times> json) list \<Rightarrow> string" where
  "jprint JNull = ''null''"
| "jprint (JBool b) = (if b then ''true'' else ''false'')"
| "jprint (JNum t) = t"
| "jprint (JStr s) = jquote s"
| "jprint (JArr xs) = CHR ''['' # jprints xs @ '']''"
| "jprint (JObj ms) = CHR ''{'' # jmembers ms @ ''}''"
| "jprints [] = []"
| "jprints (x # xs) = jprint x @ (if xs = [] then [] else CHR '','' # jprints xs)"
| "jmembers [] = []"
| "jmembers ((k, v) # ms) = jquote k @ CHR '':'' # jprint v @ (if ms = [] then [] else CHR '','' # jmembers ms)"

subsection \<open>Parsing\<close>

definition is_ws :: "char \<Rightarrow> bool" where
  "is_ws c \<longleftrightarrow> c = CHR '' '' \<or> c = CHR 0x09 \<or> c = CHR 0x0A \<or> c = CHR 0x0D"

definition jws :: "string \<Rightarrow> string" where
  "jws = dropWhile is_ws"

definition num_char :: "char \<Rightarrow> bool" where
  "num_char c \<longleftrightarrow> is_digit c \<or> c = CHR ''-'' \<or> c = CHR ''+'' \<or> c = CHR ''.'' \<or> c = CHR ''e'' \<or> c = CHR ''E''"

definition jint_part :: "string \<Rightarrow> string option" where
  "jint_part s =
     (case s of [] \<Rightarrow> None
      | c # r \<Rightarrow> if c = CHR ''0'' then Some r else if is_digit c then Some (dropWhile is_digit r) else None)"

definition jdigits1 :: "string \<Rightarrow> string option" where
  "jdigits1 s = (case s of [] \<Rightarrow> None | c # r \<Rightarrow> if is_digit c then Some (dropWhile is_digit r) else None)"

definition jfrac_part :: "string \<Rightarrow> string option" where
  "jfrac_part s = (if hasPrefix s ''.'' then jdigits1 (tl s) else Some s)"

definition jexp_part :: "string \<Rightarrow> string option" where
  "jexp_part s =
     (if hasPrefix s ''e'' \<or> hasPrefix s ''E''
      then jdigits1 (if hasPrefix (tl s) ''+'' \<or> hasPrefix (tl s) ''-'' then tl (tl s) else tl s)
      else Some s)"

text \<open>A number literal: an optional minus, an integer without leading zeros, fraction, exponent.\<close>

definition json_number :: "string \<Rightarrow> bool" where
  "json_number s =
     (case jint_part (if hasPrefix s ''-'' then tl s else s) of
        None \<Rightarrow> False
      | Some a \<Rightarrow> (case jfrac_part a of None \<Rightarrow> False
                  | Some b \<Rightarrow> jexp_part b = Some []))"

definition hex4 :: "char \<Rightarrow> char \<Rightarrow> char \<Rightarrow> char \<Rightarrow> nat option" where
  "hex4 a b c d =
     (case (digit_in 16 a, digit_in 16 b, digit_in 16 c, digit_in 16 d) of
        (Some w, Some x, Some y, Some z) \<Rightarrow> Some (((w * 16 + x) * 16 + y) * 16 + z)
      | _ \<Rightarrow> None)"

definition simple_escape :: "char \<Rightarrow> char option" where
  "simple_escape e =
     (if e = dq \<or> e = bsl \<or> e = CHR ''/'' then Some e
      else if e = CHR ''b'' then Some (CHR 0x08) else if e = CHR ''f'' then Some (CHR 0x0C)
      else if e = CHR ''n'' then Some (CHR 0x0A) else if e = CHR ''r'' then Some (CHR 0x0D)
      else if e = CHR ''t'' then Some (CHR 0x09) else None)"

text \<open>The code point of a surrogate pair.\<close>

definition pair_rest :: "nat \<Rightarrow> string \<Rightarrow> (nat \<times> string) option" where
  "pair_rest hi r =
     (case r of
        s # u # a # b # c # d # r' \<Rightarrow>
          if s = bsl \<and> u = CHR ''u'' \<and> hi < 56320 then
            (case hex4 a b c d of
               Some lo \<Rightarrow> if 56320 \<le> lo \<and> lo < 57344
                          then Some (65536 + (hi - 55296) * 1024 + (lo - 56320), r') else None
             | None \<Rightarrow> None)
          else None
      | _ \<Rightarrow> None)"

lemma pair_rest_length: "pair_rest hi r = Some (n, r') \<Longrightarrow> length r' < length r"
  by (auto simp: pair_rest_def split: list.splits option.splits if_splits)

text \<open>The rest of a string after its opening quote. A lone surrogate and an invalid byte are read as U+FFFD.\<close>

function pstr :: "string \<Rightarrow> (string \<times> string) option" where
  "pstr [] = None"
| "pstr (c # r) =
     (if c = dq then Some ([], r)
      else if c = bsl then
        (case r of
           [] \<Rightarrow> None
         | e # r1 \<Rightarrow>
             if e = CHR ''u'' then
               (case r1 of
                  w # x # y # z # r2 \<Rightarrow>
                    (case hex4 w x y z of
                       None \<Rightarrow> None
                     | Some n \<Rightarrow>
                         if 55296 \<le> n \<and> n < 57344 then
                           (case pair_rest n r2 of
                              Some (m, r3) \<Rightarrow> map_option (\<lambda>(t, q). (utf8 m @ t, q)) (pstr r3)
                            | None \<Rightarrow> map_option (\<lambda>(t, q). (utf8 65533 @ t, q)) (pstr r2))
                         else map_option (\<lambda>(t, q). (utf8 n @ t, q)) (pstr r2))
                | _ \<Rightarrow> None)
             else (case simple_escape e of
                     None \<Rightarrow> None
                   | Some d \<Rightarrow> map_option (\<lambda>(t, q). (d # t, q)) (pstr r1)))
      else if (of_char c :: nat) < 32 then None
      else if (of_char c :: nat) < 128 then map_option (\<lambda>(t, q). (c # t, q)) (pstr r)
      else map_option (\<lambda>(t, q). (runeText (c # r) @ t, q)) (pstr (drop (runeLen (c # r)) (c # r))))"
  by pat_completeness auto
termination
  by (relation "measure length") (auto dest: pair_rest_length simp: runeLen_pos)

fun pval :: "nat \<Rightarrow> string \<Rightarrow> (json \<times> string) option"
  and pitems :: "nat \<Rightarrow> string \<Rightarrow> (json list \<times> string) option"
  and pmembers :: "nat \<Rightarrow> string \<Rightarrow> ((string \<times> json) list \<times> string) option" where
  "pval 0 s = None"
| "pval (Suc n) s =
     (case jws s of
        [] \<Rightarrow> None
      | c # r \<Rightarrow>
          if c = dq then map_option (\<lambda>(t, q). (JStr t, q)) (pstr r)
          else if c = CHR ''['' then
            (if hasPrefix (jws r) '']'' then Some (JArr [], tl (jws r))
             else map_option (\<lambda>(xs, q). (JArr xs, q)) (pitems n r))
          else if c = CHR ''{'' then
            (if hasPrefix (jws r) ''}'' then Some (JObj [], tl (jws r))
             else map_option (\<lambda>(ms, q). (JObj ms, q)) (pmembers n r))
          else if hasPrefix (c # r) ''null'' then Some (JNull, drop 3 r)
          else if hasPrefix (c # r) ''true'' then Some (JBool True, drop 3 r)
          else if hasPrefix (c # r) ''false'' then Some (JBool False, drop 4 r)
          else if json_number (takeWhile num_char (c # r))
            then Some (JNum (takeWhile num_char (c # r)), dropWhile num_char (c # r))
          else None)"
| "pitems 0 s = None"
| "pitems (Suc n) s =
     (case pval n s of
        None \<Rightarrow> None
      | Some (x, r) \<Rightarrow>
          (case jws r of
             [] \<Rightarrow> None
           | c # q \<Rightarrow> if c = CHR '']'' then Some ([x], q)
                     else if c = CHR '','' then map_option (\<lambda>(xs, q'). (x # xs, q')) (pitems n q)
                     else None))"
| "pmembers 0 s = None"
| "pmembers (Suc n) s =
     (case jws s of
        [] \<Rightarrow> None
      | c # r \<Rightarrow>
          if c \<noteq> dq then None
          else (case pstr r of
                  None \<Rightarrow> None
                | Some (k, r1) \<Rightarrow>
                    (case jws r1 of
                       [] \<Rightarrow> None
                     | c1 # r2 \<Rightarrow>
                         if c1 \<noteq> CHR '':'' then None
                         else (case pval n r2 of
                                 None \<Rightarrow> None
                               | Some (v, r3) \<Rightarrow>
                                   (case jws r3 of
                                      [] \<Rightarrow> None
                                    | c2 # q \<Rightarrow>
                                        if c2 = CHR ''}'' then Some ([(k, v)], q)
                                        else if c2 = CHR '','' then map_option (\<lambda>(ms, q'). ((k, v) # ms, q')) (pmembers n q)
                                        else None)))))"

text \<open>\<open>json.Unmarshal\<close> wants one value and nothing after it; a \<open>Decoder\<close> takes the first value.\<close>

definition json_parse :: "string \<Rightarrow> json option" where
  "json_parse s = (case pval (length s) s of
                     Some (j, r) \<Rightarrow> if jws r = [] then Some j else None
                   | None \<Rightarrow> None)"

definition json_first :: "string \<Rightarrow> json option" where
  "json_first s = map_option fst (pval (length s) s)"

subsection \<open>What has been printed is read back\<close>

declare pstr.simps [simp del]

lemma jesc_cases:
  obtains (quote) "c = dq \<or> c = bsl" "jesc c = [bsl, c]" "simple_escape c = Some c" "c \<noteq> CHR ''u''"
  | (short) e where "jesc c = [bsl, e]" "simple_escape e = Some c" "e \<noteq> CHR ''u''"
  | (hex) "jesc c = [bsl, CHR ''u'', CHR ''0'', CHR ''0''] @ byte_hex (of_char c)" "(of_char c :: nat) < 128"
  | (plain) "jesc c = [c]" "c \<noteq> dq" "c \<noteq> bsl" "32 \<le> (of_char c :: nat)"
proof -
  consider "c = dq \<or> c = bsl" | "c \<in> {CHR 0x08, CHR 0x0C, CHR 0x0A, CHR 0x0D, CHR 0x09}"
    | "c \<notin> {dq, bsl, CHR 0x08, CHR 0x0C, CHR 0x0A, CHR 0x0D, CHR 0x09}" by blast
  then show thesis
  proof cases
    case 1
    then show thesis by (intro quote) (auto simp: jesc_def simple_escape_def dq_def bsl_def)
  next
    case 2
    then show thesis
      by (auto intro!: short simp: jesc_def simple_escape_def dq_def bsl_def)
  next
    case 3
    show thesis
    proof (cases "(of_char c :: nat) < 32 \<or> c = CHR ''<'' \<or> c = CHR ''>'' \<or> c = CHR ''&''")
      case True
      then have "(of_char c :: nat) < 128" by auto
      then show thesis using True 3 by (intro hex) (simp_all add: jesc_def)
    next
      case False
      then show thesis using 3 by (intro plain) (simp_all add: jesc_def)
    qed
  qed
qed

lemma digit_in_hex: "d < 16 \<Longrightarrow> digit_in 16 (hex_char d) = Some d"
proof -
  assume d: "d < 16"
  have "\<forall>d \<in> set [0..<16]. digit_in 16 (hex_char d) = Some d" by code_simp
  then show ?thesis using d by simp
qed

lemma hex4_byte:
  "b < 128 \<Longrightarrow> hex4 CHR ''0'' CHR ''0'' (hex_char (b div 16)) (hex_char (b mod 16)) = Some b"
  using digit_in_hex [of "b div 16"] digit_in_hex [of "b mod 16"]
  by (simp add: hex4_def digit_in_def is_digit_def digit_val_def)

lemma hex4_escapes:
  "hex4 CHR ''f'' CHR ''f'' CHR ''f'' CHR ''d'' = Some 0xFFFD"
  "hex4 CHR ''2'' CHR ''0'' CHR ''2'' CHR ''8'' = Some 0x2028"
  "hex4 CHR ''2'' CHR ''0'' CHR ''2'' CHR ''9'' = Some 0x2029"
proof -
  have "digit_in 16 CHR ''f'' = Some 15" "digit_in 16 CHR ''d'' = Some 13" "digit_in 16 CHR ''0'' = Some 0"
    "digit_in 16 CHR ''2'' = Some 2" "digit_in 16 CHR ''8'' = Some 8" "digit_in 16 CHR ''9'' = Some 9"
    by code_simp+
  then show "hex4 CHR ''f'' CHR ''f'' CHR ''f'' CHR ''d'' = Some 0xFFFD"
    "hex4 CHR ''2'' CHR ''0'' CHR ''2'' CHR ''8'' = Some 0x2028"
    "hex4 CHR ''2'' CHR ''0'' CHR ''2'' CHR ''9'' = Some 0x2029"
    by (simp_all add: hex4_def)
qed

text \<open>What the parser does with the bytes that the printer writes for one rune.\<close>

lemma pstr_ascii:
  assumes "(of_char c :: nat) < 128"
  shows "pstr (jesc c @ q) = map_option (\<lambda>(t, q). (c # t, q)) (pstr q)"
proof -
  have e: "bsl \<noteq> dq" by (simp add: bsl_def dq_def)
  show ?thesis
  proof (cases c rule: jesc_cases)
    case quote
    with e show ?thesis by (simp add: pstr.simps(2) [of bsl])
  next
    case (short e)
    with \<open>bsl \<noteq> dq\<close> show ?thesis by (simp add: pstr.simps(2) [of bsl])
  next
    case hex
    with e show ?thesis
      by (simp add: pstr.simps(2) [of bsl] byte_hex_def hex4_byte utf8_def)
  next
    case plain
    with assms show ?thesis by (simp add: pstr.simps(2) [of c])
  qed
qed

lemma pstr_bad: "pstr (bsl # ''ufffd'' @ q) = map_option (\<lambda>(t, q). (utf8 0xFFFD @ t, q)) (pstr q)"
  by (simp add: pstr.simps(2) [of bsl] hex4_escapes) (simp add: bsl_def dq_def)

lemma pstr_rune:
  assumes "u \<noteq> []" and "128 \<le> (of_char (hd u) :: nat)" and "runeLen (u @ t) = length u" and "\<not> badByte (u @ t)"
  shows "pstr (runeEsc u @ q) = map_option (\<lambda>(t, q). (u @ t, q)) (pstr q)"
proof -
  consider "u = utf8 0x2028" | "u = utf8 0x2029" | "runeEsc u = u"
    unfolding runeEsc_def by metis
  then show ?thesis
  proof cases
    case 1
    then show ?thesis by (simp add: runeEsc_def pstr.simps(2) [of bsl] hex4_escapes) (simp add: bsl_def dq_def)
  next
    case 2
    then have "runeEsc u = bsl # ''u2029''" by (simp add: runeEsc_def utf8_def)
    with 2 show ?thesis by (simp add: pstr.simps(2) [of bsl] hex4_escapes) (simp add: bsl_def dq_def)
  next
    case 3
    obtain c r where u: "u = c # r" using assms(1) by (cases u) auto
    have c: "c \<noteq> dq" "c \<noteq> bsl" "\<not> (of_char c :: nat) < 32" "\<not> (of_char c :: nat) < 128" using assms(2) u by (auto simp: dq_def bsl_def)
    note l = runeLen_append [OF assms(1,3,4), of q]
    then have "runeText (u @ q) = u" "drop (runeLen (u @ q)) (u @ q) = q" by (simp_all add: runeText_def)
    with c show ?thesis unfolding 3 by (simp add: u pstr.simps(2) [of c])
  qed
qed

text \<open>A printed string is read back with its invalid bytes replaced.\<close>

lemma pstr_escaped: "pstr (jescs s @ dq # r) = Some (toValid s, r)"
proof (induction s rule: jescs.induct)
  case (1 s)
  show ?case
  proof (cases "s = []")
    case True
    then show ?thesis by (simp add: jescs.simps pstr.simps)
  next
    case False
    let ?rest = "drop (runeLen s) s" and ?u = "take (runeLen s) s"
    note IH = 1 [OF False]
    have v: "toValid s = runeText s @ toValid ?rest" using False by (subst toValid.simps) simp
    consider "(of_char (hd s) :: nat) < 128" | "128 \<le> (of_char (hd s) :: nat)" "badByte s"
      | "128 \<le> (of_char (hd s) :: nat)" "\<not> badByte s" by linarith
    then show ?thesis
    proof cases
      case 1
      then have "runeText s = [hd s]" using False by (cases s) (simp_all add: runeText_ascii)
      moreover have "jescs s = jesc (hd s) @ jescs ?rest" using False 1 by (subst jescs.simps) simp
      ultimately show ?thesis using IH by (simp add: pstr_ascii [OF 1] v)
    next
      case 2
      then have "runeText s = utf8 0xFFFD" by (simp add: runeText_def)
      moreover have "jescs s = bsl # ''ufffd'' @ jescs ?rest" using False 2 by (subst jescs.simps) simp
      ultimately show ?thesis using IH pstr_bad [of "jescs ?rest @ dq # r"] by (simp add: v)
    next
      case 3
      have u: "?u \<noteq> []" "hd ?u = hd s" "length ?u = runeLen s" "?u @ ?rest = s"
        using False runeLen_pos [OF False] runeLen_le [of s] by auto
      have "runeText s = ?u" using 3 by (simp add: runeText_def)
      moreover have "jescs s = runeEsc ?u @ jescs ?rest" using False 3 by (subst jescs.simps) simp
      ultimately show ?thesis
        using IH 3 pstr_rune [of ?u ?rest "jescs ?rest @ dq # r"] u by (simp add: v)
    qed
  qed
qed

lemma pstr_quoted: "utf8_ok s \<Longrightarrow> pstr (jescs s @ dq # r) = Some (s, r)"
  by (simp add: pstr_escaped utf8_ok_def)

text \<open>The values that can be printed, and the texts that may follow a value.\<close>

fun json_ok :: "json \<Rightarrow> bool"
  and jsons_ok :: "json list \<Rightarrow> bool"
  and jmems_ok :: "(string \<times> json) list \<Rightarrow> bool" where
  "json_ok (JNum t) = (json_number t \<and> list_all num_char t)"
| "json_ok (JStr s) = utf8_ok s"
| "json_ok (JArr xs) = jsons_ok xs"
| "json_ok (JObj ms) = jmems_ok ms"
| "json_ok _ = True"
| "jsons_ok [] = True"
| "jsons_ok (x # xs) = (json_ok x \<and> jsons_ok xs)"
| "jmems_ok [] = True"
| "jmems_ok ((k, v) # ms) = (utf8_ok k \<and> json_ok v \<and> jmems_ok ms)"

definition follows :: "string \<Rightarrow> bool" where
  "follows r \<longleftrightarrow> r = [] \<or> \<not> num_char (hd r)"

lemma follows_simps [simp]:
  "follows []" "follows (CHR '','' # r)" "follows (CHR '']'' # r)" "follows (CHR ''}'' # r)"
  by (simp_all add: follows_def num_char_def is_digit_def less_eq_char_def)

lemma span_num:
  assumes "list_all num_char t" and "follows r"
  shows "takeWhile num_char (t @ r) = t" and "dropWhile num_char (t @ r) = r"
proof -
  have "takeWhile num_char (t @ r) = t \<and> dropWhile num_char (t @ r) = r"
    using assms by (induction t; cases r) (auto simp: follows_def)
  then show "takeWhile num_char (t @ r) = t" "dropWhile num_char (t @ r) = r" by simp_all
qed

lemma json_number_hd:
  assumes "json_number t" shows "\<exists>c u. t = c # u \<and> (is_digit c \<or> c = CHR ''-'')"
proof (cases t)
  case Nil
  with assms show ?thesis by (simp add: json_number_def jint_part_def hasPrefix_def)
next
  case (Cons c u)
  with assms show ?thesis
    by (auto simp: json_number_def jint_part_def hasPrefix_def is_digit_def split: if_splits option.splits)
qed

lemma jws_Cons: "\<not> is_ws c \<Longrightarrow> jws (c # r) = c # r"
  by (simp add: jws_def)

lemma jprint_hd: "json_ok j \<Longrightarrow> \<exists>c u. jprint j = c # u \<and> \<not> is_ws c \<and> c \<noteq> CHR '']'' \<and> c \<noteq> CHR ''}''"
proof (cases j)
  case (JNum t)
  assume "json_ok j"
  then have "json_number t" using JNum by simp
  from json_number_hd [OF this] obtain c u where "t = c # u" "is_digit c \<or> c = CHR ''-''" by blast
  then show ?thesis using JNum by (auto simp: is_ws_def is_digit_def less_eq_char_def)
qed (auto simp: is_ws_def jquote_def dq_def)

lemma jws_jprint: "json_ok j \<Longrightarrow> jws (jprint j @ r) = jprint j @ r"
  using jprint_hd [of j] jws_Cons by fastforce

lemma jprints_nonempty: "jsons_ok xs \<Longrightarrow> xs \<noteq> [] \<Longrightarrow> \<exists>c u. jprints xs = c # u \<and> \<not> is_ws c \<and> c \<noteq> CHR '']''"
  using jprint_hd by (cases xs) fastforce+

lemma pval_jprint:
  "json_ok j \<Longrightarrow> follows r \<Longrightarrow> length (jprint j) \<le> n \<Longrightarrow> pval n (jprint j @ r) = Some (j, r)"
  "jsons_ok xs \<Longrightarrow> xs \<noteq> [] \<Longrightarrow> length (jprints xs) < n \<Longrightarrow> pitems n (jprints xs @ CHR '']'' # r) = Some (xs, r)"
  "jmems_ok ms \<Longrightarrow> ms \<noteq> [] \<Longrightarrow> length (jmembers ms) < n \<Longrightarrow> pmembers n (jmembers ms @ CHR ''}'' # r) = Some (ms, r)"
proof (induction j and xs and ms arbitrary: r n and r n and r n rule: jprint_jprints_jmembers.induct)
  case 1
  then show ?case by (cases n) (simp_all add: jws_Cons is_ws_def dq_def hasPrefix_def)
next
  case (2 b)
  then show ?case by (cases n; cases b) (simp_all add: jws_Cons is_ws_def dq_def hasPrefix_def)
next
  case (3 t)
  then obtain c u where t: "t = c # u" "is_digit c \<or> c = CHR ''-''" using json_number_hd [of t] by force
  then have nw: "\<not> is_ws c" "c \<noteq> dq" "c \<noteq> CHR ''[''" "c \<noteq> CHR ''{''" "c \<noteq> CHR ''n''" "c \<noteq> CHR ''t''" "c \<noteq> CHR ''f''"
    by (auto simp: is_ws_def dq_def is_digit_def less_eq_char_def)
  obtain m where n: "n = Suc m" using 3 t by (cases n) auto
  have sp: "takeWhile num_char (c # u @ r) = c # u" "dropWhile num_char (c # u @ r) = r"
    using span_num [of t r] 3 t by simp_all
  show ?case using 3 nw sp unfolding n t
    by (simp add: jws_Cons hasPrefix_def del: takeWhile.simps dropWhile.simps)
next
  case (4 s)
  then show ?case using pstr_quoted [of s r] by (cases n) (simp_all add: jws_Cons is_ws_def dq_def jquote_def)
next
  case (5 xs)
  obtain m where n: "n = Suc m" using 5 by (cases n) auto
  show ?case
  proof (cases "xs = []")
    case True
    then show ?thesis unfolding n by (simp add: jws_Cons is_ws_def dq_def hasPrefix_def)
  next
    case False
    have "pitems m (jprints xs @ CHR '']'' # r) = Some (xs, r)"
      using 5 False n by simp
    moreover obtain c u where "jprints xs = c # u" "\<not> is_ws c" "c \<noteq> CHR '']''"
      using jprints_nonempty [of xs] 5 False by auto
    ultimately show ?thesis unfolding n by (simp add: jws_Cons is_ws_def dq_def hasPrefix_def)
  qed
next
  case (6 ms)
  obtain m where n: "n = Suc m" using 6 by (cases n) auto
  show ?case
  proof (cases "ms = []")
    case True
    then show ?thesis unfolding n by (simp add: jws_Cons is_ws_def dq_def hasPrefix_def)
  next
    case False
    have p: "pmembers m (jmembers ms @ CHR ''}'' # r) = Some (ms, r)"
      using 6 False n by simp
    obtain k v ms' where ms: "ms = (k, v) # ms'" using False by (cases ms) auto
    then obtain u where "jmembers ms = dq # u" by (simp add: jquote_def)
    with p show ?thesis unfolding n by (simp add: jws_Cons is_ws_def dq_def hasPrefix_def)
  qed
next
  case 7
  then show ?case by simp
next
  case (8 x xs)
  obtain m where n: "n = Suc m" using 8 by (cases n) auto
  show ?case
  proof (cases "xs = []")
    case True
    then show ?thesis using 8 unfolding n by (simp add: jws_Cons is_ws_def)
  next
    case False
    have "pval m (jprint x @ CHR '','' # jprints xs @ CHR '']'' # r) = Some (x, CHR '','' # jprints xs @ CHR '']'' # r)"
      using 8 False n by simp
    moreover have "pitems m (jprints xs @ CHR '']'' # r) = Some (xs, r)"
      using 8 False n by simp
    ultimately show ?thesis using False unfolding n by (simp add: jws_Cons is_ws_def)
  qed
next
  case 9
  then show ?case by simp
next
  case (10 k v ms)
  obtain m where n: "n = Suc m" using 10 by (cases n) auto
  have k: "utf8_ok k" using 10 by simp
  have d: "\<not> is_ws dq" "\<not> is_ws CHR '':''" "\<not> is_ws CHR ''}''" "\<not> is_ws CHR '',''" by (simp_all add: is_ws_def dq_def)
  show ?case
  proof (cases "ms = []")
    case True
    have "pval m (jprint v @ CHR ''}'' # r) = Some (v, CHR ''}'' # r)" using 10 True n by simp
    then show ?thesis using True d unfolding n by (simp add: jws_Cons jquote_def pstr_quoted k)
  next
    case False
    have "pval m (jprint v @ CHR '','' # jmembers ms @ CHR ''}'' # r) = Some (v, CHR '','' # jmembers ms @ CHR ''}'' # r)"
      using 10 False n by simp
    moreover have "pmembers m (jmembers ms @ CHR ''}'' # r) = Some (ms, r)"
      using 10 False n by simp
    ultimately show ?thesis using False d unfolding n by (simp add: jws_Cons jquote_def pstr_quoted k)
  qed
qed

lemma json_parse_print [simp]: "json_ok j \<Longrightarrow> json_parse (jprint j) = Some j"
  using pval_jprint(1) [of j "[]"] by (simp add: json_parse_def jws_def)

lemma json_first_print: "json_ok j \<Longrightarrow> follows r \<Longrightarrow> json_first (jprint j @ r) = Some j"
  using pval_jprint(1) [of j r] by (simp add: json_first_def)

text \<open>A parsed value can be printed.\<close>

lemma hex4_bound: "hex4 a b c d = Some n \<Longrightarrow> n < 0x10000"
proof -
  assume n: "hex4 a b c d = Some n"
  have d: "digit_in 16 x = Some v \<Longrightarrow> v < 16" for x v
    by (auto simp: digit_in_def Let_def split: option.splits if_splits)
  obtain w x y z where "digit_in 16 a = Some w" "digit_in 16 b = Some x" "digit_in 16 c = Some y" "digit_in 16 d = Some z"
    "n = ((w * 16 + x) * 16 + y) * 16 + z"
    using n by (auto simp: hex4_def split: option.splits)
  with d [of a w] d [of b x] d [of c y] d [of d z] show ?thesis by simp
qed

lemma pair_rest_bound: "pair_rest hi r = Some (n, r') \<Longrightarrow> 0x10000 \<le> n \<and> n < 0x110000"
  by (auto simp: pair_rest_def split: list.splits option.splits if_splits)

lemma simple_escape_ascii: "simple_escape e = Some d \<Longrightarrow> (of_char d :: nat) < 128"
  by (auto simp: simple_escape_def dq_def bsl_def split: if_splits)

lemma pstr_ok: "pstr s = Some (t, q) \<Longrightarrow> utf8_ok t"
proof (induction s arbitrary: t q rule: length_induct)
  case (1 s)
  then obtain c r where s: "s = c # r" by (cases s) (simp_all add: pstr.simps)
  have IH: "pstr r' = Some (t', q') \<Longrightarrow> length r' \<le> length r \<Longrightarrow> utf8_ok t'" for r' t' q'
    using 1(1) s by (metis le_imp_less_Suc length_Cons)
  have e: "bsl \<noteq> dq" by (simp add: bsl_def dq_def)
  show ?case
  proof (cases "c = bsl")
    case False
    have "length (drop (runeLen (c # r)) (c # r)) \<le> length r" using runeLen_pos [of "c # r"] by simp
    with False 1(2) IH show ?thesis
      by (auto simp: s pstr.simps(2) [of c] utf8_ok_ascii utf8_ok_runeText split: if_splits)
  next
    case True
    then obtain e r1 where r: "r = e # r1" using 1(2) e by (auto simp: s pstr.simps(2) [of bsl] split: list.splits)
    show ?thesis
    proof (cases "e = CHR ''u''")
      case False
      with True 1(2) r \<open>bsl \<noteq> dq\<close> IH [of r1] show ?thesis
        by (auto simp: s pstr.simps(2) [of bsl] utf8_ok_ascii simple_escape_ascii split: option.splits)
    next
      case u: True
      then obtain w x y z r2 n where r1: "r1 = w # x # y # z # r2" "hex4 w x y z = Some n"
        using True 1(2) r \<open>bsl \<noteq> dq\<close> by (auto simp: s pstr.simps(2) [of bsl] split: list.splits option.splits)
      note p = 1(2) [unfolded s True r u r1(1) pstr.simps(2) [of bsl]]
      have b: "n < 0x10000" by (rule hex4_bound [OF r1(2)])
      show ?thesis
      proof (cases "55296 \<le> n \<and> n < 57344")
        case False
        with p r1(2) \<open>bsl \<noteq> dq\<close> obtain t' where "t = utf8 n @ t'" "pstr r2 = Some (t', q)" by auto
        with b False IH [of r2] r r1(1) show ?thesis by (simp add: utf8_ok_utf8)
      next
        case sur: True
        show ?thesis
        proof (cases "pair_rest n r2")
          case None
          with p r1(2) sur \<open>bsl \<noteq> dq\<close> obtain t' where "t = utf8 0xFFFD @ t'" "pstr r2 = Some (t', q)" by auto
          with IH [of r2] r r1(1) show ?thesis by (simp add: utf8_ok_utf8)
        next
          case (Some mr)
          then obtain m r3 where m: "pair_rest n r2 = Some (m, r3)" by (cases mr) simp
          with p r1(2) sur \<open>bsl \<noteq> dq\<close> obtain t' where "t = utf8 m @ t'" "pstr r3 = Some (t', q)" by auto
          with IH [of r3] r r1(1) pair_rest_bound [OF m] pair_rest_length [OF m] show ?thesis by (simp add: utf8_ok_utf8)
        qed
      qed
    qed
  qed
qed

lemma num_char_takeWhile: "list_all num_char (takeWhile num_char s)"
  by (simp add: list_all_iff) (metis set_takeWhileD)

lemma pval_ok:
  "pval n s = Some (j, r) \<Longrightarrow> json_ok j"
  "pitems n s = Some (xs, r) \<Longrightarrow> jsons_ok xs"
  "pmembers n s = Some (ms, r) \<Longrightarrow> jmems_ok ms"
proof (induction n s and n s and n s arbitrary: j r and xs r and ms r rule: pval_pitems_pmembers.induct)
  case (2 n s)
  then show ?case
    using num_char_takeWhile
    by (auto simp del: takeWhile.simps dropWhile.simps dest: pstr_ok split: list.splits if_splits)
qed (auto dest: pstr_ok split: list.splits option.splits prod.splits if_splits)

lemma json_parse_ok: "json_parse s = Some j \<Longrightarrow> json_ok j"
  by (auto simp: json_parse_def dest: pval_ok split: option.splits if_splits prod.splits)

lemma json_first_ok: "json_first s = Some j \<Longrightarrow> json_ok j"
  by (auto simp: json_first_def dest: pval_ok)

end
