(* ===== verification/BssTypes.thy ===== *)
theory BssTypes
  imports Json
begin

text \<open>
  The data types of pkg/bssTypes/types.go that the client and the service exchange, and the
  two validations of a request. JSON values appear in the cloud-init data, whose content the
  user chooses.

  Whether a name is an xname, and of which type, is decided by the library hms-xname; it is
  the argument \<open>xnameType\<close> of \<open>CheckXnames\<close> (\<open>None\<close> where \<open>FromString\<close>
  returns nil).
\<close>

record PhoneHome =
  PublicKeyDSA :: string
  PublicKeyRSA :: string
  PublicKeyECDSA :: string
  PublicKeyED25519 :: string
  InstanceID :: string
  Hostname :: string
  FQDN :: string

type_synonym CloudDataType = "(string \<times> json) list option"

record CloudInit =
  MetaData :: CloudDataType
  UserData :: CloudDataType
  ciPhoneHome :: PhoneHome

record BootParams =
  Hosts :: "string list"
  Macs :: "string list"
  Nids :: "int32 list"
  Params :: string
  Kernel :: string
  Initrd :: string
  bpCloudInit :: CloudInit

definition noPhoneHome :: PhoneHome where
  "noPhoneHome = \<lparr>PublicKeyDSA = [], PublicKeyRSA = [], PublicKeyECDSA = [],
     PublicKeyED25519 = [], InstanceID = [], Hostname = [], FQDN = []\<rparr>"

definition noCloudInit :: CloudInit where
  "noCloudInit = \<lparr>MetaData = None, UserData = None, ciPhoneHome = noPhoneHome\<rparr>"

definition noBootParams :: BootParams where
  "noBootParams = \<lparr>Hosts = [], Macs = [], Nids = [], Params = [], Kernel = [], Initrd = [],
     bpCloudInit = noCloudInit\<rparr>"

text \<open>The regular expression \<open>^([0-9A-Fa-f]{2}:){5}[0-9a-fA-F]{2}$\<close> as a matcher.\<close>

definition isHexDigit :: "char \<Rightarrow> bool" where
  "isHexDigit c \<longleftrightarrow> is_digit c \<or> CHR ''A'' \<le> c \<and> c \<le> CHR ''F'' \<or> CHR ''a'' \<le> c \<and> c \<le> CHR ''f''"

fun macPairs :: "nat \<Rightarrow> string \<Rightarrow> bool" where
  "macPairs 0 s = (case s of [a, b] \<Rightarrow> isHexDigit a \<and> isHexDigit b | _ \<Rightarrow> False)"
| "macPairs (Suc n) s =
     (case s of a # b # c # r \<Rightarrow> isHexDigit a \<and> isHexDigit b \<and> c = CHR '':'' \<and> macPairs n r
      | _ \<Rightarrow> False)"

definition macValid :: "string \<Rightarrow> bool" where
  "macValid m = macPairs 5 m"

datatype check_err = InvalidMac string | InvalidXname string | InvalidXnameType string

fun checkMacsLoop :: "string list \<Rightarrow> check_err option" where
  "checkMacsLoop [] = None"
| "checkMacsLoop (mac # ms) = (if \<not> macValid mac then Some (InvalidMac mac) else checkMacsLoop ms)"

definition CheckMacs :: "BootParams \<Rightarrow> check_err option" where
  "CheckMacs bp = (if length (Macs bp) > 0 then checkMacsLoop (Macs bp) else None)"

fun checkXnamesLoop :: "(string \<Rightarrow> string option) \<Rightarrow> string list \<Rightarrow> check_err option" where
  "checkXnamesLoop xnameType [] = None"
| "checkXnamesLoop xnameType (x # xs) =
     (case xnameType x of
        None \<Rightarrow> Some (InvalidXname x)
      | Some t \<Rightarrow> if t \<noteq> ''Node'' then Some (InvalidXnameType t) else checkXnamesLoop xnameType xs)"

definition CheckXnames :: "(string \<Rightarrow> string option) \<Rightarrow> BootParams \<Rightarrow> check_err option" where
  "CheckXnames xnameType bp = checkXnamesLoop xnameType (Hosts bp)"

lemma macPairs_length: "macPairs n s \<Longrightarrow> length s = 3 * n + 2"
  by (induction n arbitrary: s) (auto split: list.splits)

lemma CheckMacs_None: "CheckMacs bp = None \<longleftrightarrow> (\<forall>m \<in> set (Macs bp). macValid m)"
proof -
  have "checkMacsLoop ms = None \<longleftrightarrow> (\<forall>m \<in> set ms. macValid m)" for ms
    by (induction ms) auto
  then show ?thesis by (auto simp: CheckMacs_def)
qed

lemma CheckXnames_None:
  "CheckXnames xt bp = None \<longleftrightarrow> (\<forall>x \<in> set (Hosts bp). xt x = Some ''Node'')"
proof -
  have "checkXnamesLoop xt xs = None \<longleftrightarrow> (\<forall>x \<in> set xs. xt x = Some ''Node'')" for xs
    by (induction xs) (auto split: option.splits)
  then show ?thesis by (simp add: CheckXnames_def)
qed

text \<open>A valid MAC address contains only hexadecimal digits and colons, so it is free of quotes.\<close>

lemma macValid_chars: "macPairs n s \<Longrightarrow> \<forall>c \<in> set s. isHexDigit c \<or> c = CHR '':''"
  by (induction n arbitrary: s) (auto split: list.splits)

end
