(* ===== verification/PgTables.thy ===== *)
theory PgTables
  imports Effects SqlText GoErrors BssTypes
begin

text \<open>
  The Postgres side: the rows and tables of migrations/postgres, the environment the package
  cannot control, the state a database handle works on, and the two ways a statement is sent
  (\<open>DB.Query\<close> and \<open>DB.Exec\<close>).

  The environment \<open>pg_env\<close> supplies what the code takes from outside: the UUIDs of
  \<open>uuid.Generate\<close>, which statement fails and how, the order in which rows arrive and in
  which Go ranges over a map, the clock, and the xname library's answer. A statement that
  fails with \<open>StmtFault\<close> has no effect; with \<open>RowsFault\<close> the server has executed it
  but the client gets an error (reading the rows failed, or the connection broke after the commit).
\<close>

subsection \<open>Rows, tables, environment, state\<close>

record Node =
  n_Id :: string
  n_BootMac :: string
  n_Xname :: string
  n_Nid :: int32

record BootConfig =
  bc_Id :: string
  bc_KernelUri :: string
  bc_InitrdUri :: string
  bc_Cmdline :: string

record BootGroup =
  bg_Id :: string
  bg_BootConfigId :: string
  bg_Name :: string
  bg_Description :: string

record BootGroupAssignment =
  bga_BootGroupId :: string
  bga_NodeId :: string

record bgbc =
  Bg :: BootGroup
  Bc :: BootConfig

record EndpointAccess =
  ea_Name :: string
  ea_Endpoint :: string
  ea_LastEpoch :: int

record pg_db =
  t_nodes :: "Node list"
  t_bgas :: "BootGroupAssignment list"
  t_groups :: "BootGroup list"
  t_configs :: "BootConfig list"
  t_access :: "EndpointAccess list"

datatype fault = NoFault | StmtFault string | RowsFault string

record pg_env =
  gen_uuid :: "nat \<Rightarrow> string"
  db_fault :: "nat \<Rightarrow> fault"
  row_order :: "nat \<Rightarrow> nat \<Rightarrow> nat list"
  map_order :: "nat \<Rightarrow> nat \<Rightarrow> nat list"
  xname_type :: "string \<Rightarrow> string option"
  unix_now :: "nat \<Rightarrow> int"

record pgst =
  pdb :: pg_db
  tick :: nat
  uctr :: nat

type_synonym 'a pg = "(pgst, goerr, 'a) eff"

definition zeroNode :: Node where
  "zeroNode = \<lparr>n_Id = [], n_BootMac = [], n_Xname = [], n_Nid = 0\<rparr>"

subsection \<open>Ids and maps\<close>

text \<open>\<open>uuid.Generate().String()\<close>, and ranging over a map.\<close>

definition freshId :: "pg_env \<Rightarrow> string pg" where
  "freshId E s = (Inr (gen_uuid E (uctr s)), s\<lparr>uctr := Suc (uctr s)\<rparr>)"

definition rangeMap :: "pg_env \<Rightarrow> 'a list \<Rightarrow> 'a list pg" where
  "rangeMap E m s = (Inr (permute (map_order E (tick s)) m), s\<lparr>tick := Suc (tick s)\<rparr>)"

subsection \<open>Statements\<close>

text \<open>
  A query delivers rows, \<open>None\<close> standing for a row with a NULL in a column that is scanned
  into a Go string. \<open>wq\<close>, \<open>ws\<close> and \<open>wr\<close> wrap the errors of \<open>DB.Query\<close>,
  \<open>rows.Scan\<close> and \<open>rows.Err\<close>.
\<close>

definition dbQuery :: "pg_env \<Rightarrow> (goerr \<Rightarrow> goerr) \<Rightarrow> (goerr \<Rightarrow> goerr) \<Rightarrow> (goerr \<Rightarrow> goerr) \<Rightarrow>
    (pg_db \<Rightarrow> goerr + 'r option list \<times> pg_db) \<Rightarrow> 'r list pg" where
  "dbQuery E wq ws wr stmt s =
     (let s1 = s\<lparr>tick := Suc (tick s)\<rparr> in
      case db_fault E (tick s) of
        StmtFault e \<Rightarrow> (Inl (wq (Err e)), s1)
      | f \<Rightarrow>
          (case stmt (pdb s) of
             Inl e \<Rightarrow> (Inl (wq e), s1)
           | Inr (rows, d) \<Rightarrow>
               (let s2 = s1\<lparr>pdb := d\<rparr> in
                case those (permute (row_order E (tick s)) rows) of
                  None \<Rightarrow> (Inl (ws (Err ''converting NULL to string is unsupported'')), s2)
                | Some rs \<Rightarrow>
                    (case f of RowsFault e \<Rightarrow> (Inl (wr (Err e)), s2) | _ \<Rightarrow> (Inr rs, s2)))))"

definition dbExec :: "pg_env \<Rightarrow> (goerr \<Rightarrow> goerr) \<Rightarrow> (pg_db \<Rightarrow> goerr + pg_db) \<Rightarrow> unit pg" where
  "dbExec E w stmt s =
     (let s1 = s\<lparr>tick := Suc (tick s)\<rparr> in
      case db_fault E (tick s) of
        StmtFault e \<Rightarrow> (Inl (w (Err e)), s1)
      | f \<Rightarrow>
          (case stmt (pdb s) of
             Inl e \<Rightarrow> (Inl (w e), s1)
           | Inr d \<Rightarrow>
               (let s2 = s1\<lparr>pdb := d\<rparr> in
                case f of RowsFault e \<Rightarrow> (Inl (w (Err e)), s2) | _ \<Rightarrow> (Inr (), s2))))"

definition sqlRefused :: goerr where
  "sqlRefused = Err ''statement outside the SQL the model reads''"

definition selectStmt :: "(pg_db \<Rightarrow> 'r list option) \<Rightarrow> pg_db \<Rightarrow> goerr + 'r option list \<times> pg_db" where
  "selectStmt f d = (case f d of None \<Rightarrow> Inl sqlRefused | Some rows \<Rightarrow> Inr (map Some rows, d))"

text \<open>\<open>DELETE FROM \<dots> WHERE txt RETURNING *\<close> on one table.\<close>

definition deleteStmt :: "(pg_db \<Rightarrow> 'r list) \<Rightarrow> ('r list \<Rightarrow> pg_db \<Rightarrow> pg_db) \<Rightarrow>
    ('r \<Rightarrow> string \<Rightarrow> sqlval) \<Rightarrow> string \<Rightarrow> pg_db \<Rightarrow> goerr + 'r option list \<times> pg_db" where
  "deleteStmt rd wrt col txt d =
     (case parse_where txt of
        None \<Rightarrow> Inl sqlRefused
      | Some w \<Rightarrow>
          Inr (map Some (filter (\<lambda>r. eval_where (col r) w) (rd d)),
               wrt (filter (\<lambda>r. \<not> eval_where (col r) w) (rd d)) d))"

definition node_col :: "Node \<Rightarrow> string \<Rightarrow> sqlval" where
  "node_col n c =
     (if c = ''id'' then VStr (n_Id n) else if c = ''boot_mac'' then VStr (n_BootMac n)
      else if c = ''xname'' then VStr (n_Xname n) else if c = ''nid'' then VInt (sint (n_Nid n))
      else VNull)"

definition config_col :: "BootConfig \<Rightarrow> string \<Rightarrow> sqlval" where
  "config_col b c =
     (if c = ''id'' then VStr (bc_Id b) else if c = ''kernel_uri'' then VStr (bc_KernelUri b)
      else if c = ''initrd_uri'' then VStr (bc_InitrdUri b)
      else if c = ''cmdline'' then VStr (bc_Cmdline b) else VNull)"

definition group_col :: "BootGroup \<Rightarrow> string \<Rightarrow> sqlval" where
  "group_col g c =
     (if c = ''id'' then VStr (bg_Id g) else if c = ''boot_config_id'' then VStr (bg_BootConfigId g)
      else if c = ''name'' then VStr (bg_Name g)
      else if c = ''description'' then VStr (bg_Description g) else VNull)"

definition bga_col :: "BootGroupAssignment \<Rightarrow> string \<Rightarrow> sqlval" where
  "bga_col a c =
     (if c = ''boot_group_id'' then VStr (bga_BootGroupId a)
      else if c = ''node_id'' then VStr (bga_NodeId a) else VNull)"

definition access_col :: "EndpointAccess \<Rightarrow> string \<Rightarrow> sqlval" where
  "access_col a c =
     (if c = ''name'' then VStr (ea_Name a) else if c = ''endpoint'' then VStr (ea_Endpoint a)
      else VNull)"

text \<open>A column written with the alias of its table, \<open>bga.node_id\<close>.\<close>

definition qual :: "string \<Rightarrow> (string \<Rightarrow> sqlval) \<Rightarrow> string \<Rightarrow> sqlval" where
  "qual alias col c = (if hasPrefix c (alias @ ''.'') then col (drop (length alias + 1) c) else VNull)"

text \<open>The inner join of nodes, assignments, groups and configurations.\<close>

definition joinNodes :: "pg_db \<Rightarrow> (Node \<times> BootGroup \<times> BootConfig) list" where
  "joinNodes d =
     [(n, g, c). n \<leftarrow> t_nodes d, a \<leftarrow> t_bgas d, bga_NodeId a = n_Id n,
                 g \<leftarrow> t_groups d, bg_Id g = bga_BootGroupId a,
                 c \<leftarrow> t_configs d, bc_Id c = bg_BootConfigId g]"

text \<open>Groups LEFT JOIN configurations: a group without a configuration has NULLs there.\<close>

definition leftJoinGroups :: "pg_db \<Rightarrow> (BootGroup \<times> BootConfig option) list" where
  "leftJoinGroups d =
     concat (map (\<lambda>g. case filter (\<lambda>c. bc_Id c = bg_BootConfigId g) (t_configs d) of
                        [] \<Rightarrow> [(g, None)]
                      | cs \<Rightarrow> map (\<lambda>c. (g, Some c)) cs) (t_groups d))"

text \<open>\<open>INSERT\<close>: the primary keys of nodes, boot_groups and boot_configs are enforced.\<close>

definition duplicateKey :: goerr where
  "duplicateKey = Err ''duplicate key value violates unique constraint''"

definition insertNode :: "Node \<Rightarrow> pg_db \<Rightarrow> goerr + pg_db" where
  "insertNode n d =
     (if n_Id n \<in> n_Id ` set (t_nodes d) then Inl duplicateKey
      else Inr (d\<lparr>t_nodes := t_nodes d @ [n]\<rparr>))"

definition insertConfig :: "BootConfig \<Rightarrow> pg_db \<Rightarrow> goerr + pg_db" where
  "insertConfig c d =
     (if bc_Id c \<in> bc_Id ` set (t_configs d) then Inl duplicateKey
      else Inr (d\<lparr>t_configs := t_configs d @ [c]\<rparr>))"

definition insertGroup :: "BootGroup \<Rightarrow> pg_db \<Rightarrow> goerr + pg_db" where
  "insertGroup g d =
     (if bg_Id g \<in> bg_Id ` set (t_groups d) then Inl duplicateKey
      else Inr (d\<lparr>t_groups := t_groups d @ [g]\<rparr>))"

definition insertBga :: "BootGroupAssignment \<Rightarrow> pg_db \<Rightarrow> goerr + pg_db" where
  "insertBga a d = Inr (d\<lparr>t_bgas := t_bgas d @ [a]\<rparr>)"

end
