(* ===== verification/PgQueries.thy ===== *)
theory PgQueries
  imports PgTables
begin

text \<open>
  The building blocks of internal/postgres/bootparams.go: the constructors of rows, the
  inserts, and the queries. Each definition has the name of the Go method.
\<close>

subsection \<open>Constructors\<close>

definition NewNode :: "pg_env \<Rightarrow> string \<Rightarrow> string \<Rightarrow> int32 \<Rightarrow> Node pg" where
  "NewNode E mac xname nid =
     andThen (freshId E) (\<lambda>i.
     ret \<lparr>n_Id = i, n_BootMac = toLower mac, n_Xname = xname, n_Nid = nid\<rparr>)"

definition NewBootGroup :: "pg_env \<Rightarrow> string \<Rightarrow> string \<Rightarrow> string \<Rightarrow> BootGroup pg" where
  "NewBootGroup E bcId bgName bgDesc =
     andThen (freshId E) (\<lambda>i.
     ret \<lparr>bg_Id = i, bg_BootConfigId = bcId, bg_Name = bgName, bg_Description = bgDesc\<rparr>)"

definition NewBootConfig :: "pg_env \<Rightarrow> string \<Rightarrow> string \<Rightarrow> string \<Rightarrow> BootConfig pg" where
  "NewBootConfig E kernelUri initrdUri cmdline =
     (if kernelUri = [] then fail (Err ''kernel URI cannot be blank'')
      else andThen (freshId E) (\<lambda>i.
        ret \<lparr>bc_Id = i, bc_KernelUri = kernelUri, bc_InitrdUri = initrdUri, bc_Cmdline = cmdline\<rparr>))"

definition NewBootGroupAssignment :: "string \<Rightarrow> string \<Rightarrow> BootGroupAssignment pg" where
  "NewBootGroupAssignment bgId nodeId =
     (if bgId = [] \<or> nodeId = [] then fail (Err ''boot group ID or node MAC cannot be blank'')
      else ret \<lparr>bga_BootGroupId = bgId, bga_NodeId = nodeId\<rparr>)"

subsection \<open>Inserts and the update of assignments\<close>

definition addNodes :: "pg_env \<Rightarrow> Node list \<Rightarrow> unit pg" where
  "addNodes E nodes =
     forEach (\<lambda>n. dbExec E (Wrapped ''error executing query to add node'') (insertNode n)) nodes"

definition addBootConfigs :: "pg_env \<Rightarrow> BootConfig list \<Rightarrow> unit pg" where
  "addBootConfigs E bc =
     forEach (\<lambda>b. dbExec E (Wrapped ''error executing query to add boot configs'') (insertConfig b)) bc"

definition addBootGroups :: "pg_env \<Rightarrow> BootGroup list \<Rightarrow> unit pg" where
  "addBootGroups E bg =
     forEach (\<lambda>b. dbExec E (Wrapped ''error executing query to add boot groups'') (insertGroup b)) bg"

definition addBootGroupAssignments :: "pg_env \<Rightarrow> BootGroupAssignment list \<Rightarrow> unit pg" where
  "addBootGroupAssignments E bga =
     forEach (\<lambda>b. dbExec E (Wrapped ''error executing query to add boot group assignments'')
                    (insertBga b)) bga"

definition reassignStmt :: "string list \<Rightarrow> string \<Rightarrow> pg_db \<Rightarrow> goerr + pg_db" where
  "reassignStmt nodeIds bgId d =
     (case parse_where ('' node_id IN '' @ stringSliceToSql nodeIds) of
        None \<Rightarrow> Inl sqlRefused
      | Some w \<Rightarrow>
          Inr (d\<lparr>t_bgas := map (\<lambda>a. if eval_where (bga_col a) w then a\<lparr>bga_BootGroupId := bgId\<rparr> else a)
                              (t_bgas d)\<rparr>))"

definition updateNodeAssignment :: "pg_env \<Rightarrow> string list \<Rightarrow> string \<Rightarrow> unit pg" where
  "updateNodeAssignment E nodeIds bgId =
     (if length nodeIds = 0 then fail (Err ''no node IDs specified'')
      else if length bgId = 0 then fail (Err ''no boot group ID specified'')
      else dbExec E (Wrapped ''error executing update on boot group assignments'')
             (reassignStmt nodeIds bgId))"

subsection \<open>Nodes\<close>

definition GetNodes :: "pg_env \<Rightarrow> Node list pg" where
  "GetNodes E =
     dbQuery E (Wrapped ''could not query node table in boot database'')
       (Wrapped ''could not scan results into Node'') (Wrapped ''could not parse query results'')
       (selectStmt (\<lambda>d. Some (t_nodes d)))"

text \<open>The loop over macs, xnames and nids that four methods run to build their condition.\<close>

definition itemsWhere :: "string list \<Rightarrow> string list \<Rightarrow> int32 list \<Rightarrow> string" where
  "itemsWhere macs xnames nids =
     glueLoop '' OR'' True
       [(length macs > 0, '' boot_mac IN '' @ stringSliceToSql (map toLower macs)),
        (length xnames > 0, '' xname IN '' @ stringSliceToSql xnames),
        (length nids > 0, '' nid IN '' @ int32SliceToSql nids)]"

definition GetNodesByItems :: "pg_env \<Rightarrow> string list \<Rightarrow> string list \<Rightarrow> int32 list \<Rightarrow> Node list pg" where
  "GetNodesByItems E macs xnames nids =
     (if length macs = 0 \<and> length xnames = 0 \<and> length nids = 0 then GetNodes E
      else dbQuery E (Wrapped ''could not query node table in boot database'')
             (Wrapped ''could not scan results into Node'') (Wrapped ''could not parse query results'')
             (selectStmt (\<lambda>d. sql_filter (itemsWhere macs xnames nids) node_col (t_nodes d))))"

text \<open>\<open>m[key x] = x\<close> for every element of a list, from the empty map.\<close>

definition mkMap :: "('a \<Rightarrow> 'k) \<Rightarrow> 'a list \<Rightarrow> ('k \<times> 'a) list" where
  "mkMap key xs = foldl (\<lambda>m x. AList.update (key x) x m) [] xs"

definition missingFrom :: "('k \<times> Node) list \<Rightarrow> ('a \<Rightarrow> 'k) \<Rightarrow> 'a list \<Rightarrow> 'a list" where
  "missingFrom m key xs = filter (\<lambda>x. map_of m (key x) = None) xs"

definition CheckNodeExistence :: "pg_env \<Rightarrow> string list \<Rightarrow> string list \<Rightarrow> int32 list \<Rightarrow>
    (Node list \<times> string list \<times> string list \<times> int32 list) pg" where
  "CheckNodeExistence E macs xnames nids =
     andThen (mapErr (Wrapped ''error checking node existence'') (GetNodesByItems E macs xnames nids))
       (\<lambda>existing.
        let macToNode = mkMap n_BootMac existing;
            xnameToNode = mkMap n_Xname existing;
            nidToNode = mkMap n_Nid existing
        in ret (existing, missingFrom macToNode toLower macs,
                missingFrom xnameToNode (\<lambda>x. x) xnames, missingFrom nidToNode (\<lambda>n. n) nids))"

definition groupWhere :: "string \<Rightarrow> string" where
  "groupWhere bgId = '' bga.boot_group_id='' @ [sq] @ bgId @ [sq]"

text \<open>The nodes LEFT JOINed to their assignments, as pairs; a NULL never satisfies the condition.\<close>

definition leftJoinBgas :: "pg_db \<Rightarrow> (Node \<times> BootGroupAssignment option) list" where
  "leftJoinBgas d =
     concat (map (\<lambda>n. case filter (\<lambda>a. bga_NodeId a = n_Id n) (t_bgas d) of
                        [] \<Rightarrow> [(n, None)]
                      | as \<Rightarrow> map (\<lambda>a. (n, Some a)) as) (t_nodes d))"

definition opt_col :: "('a \<Rightarrow> string \<Rightarrow> sqlval) \<Rightarrow> 'a option \<Rightarrow> string \<Rightarrow> sqlval" where
  "opt_col col x c = (case x of None \<Rightarrow> VNull | Some y \<Rightarrow> col y c)"

definition GetNodesByBootGroupId :: "pg_env \<Rightarrow> string \<Rightarrow> Node list pg" where
  "GetNodesByBootGroupId E bgId =
     (if bgId = [] then GetNodes E
      else dbQuery E (\<lambda>e. ErrPostgresGet (Wrapped ''GetNodesByBootGroupID: unable to query database'' e))
             (\<lambda>e. ErrPostgresGet (Wrapped ''GetNodesByBootGroupId: could not scan SQL result'' e))
             (\<lambda>e. ErrPostgresGet (Wrapped ''GetNodesByBootGroupId: could not parse query results'' e))
             (selectStmt (\<lambda>d. map_option (map fst)
                (sql_filter (groupWhere bgId) (\<lambda>(n, a). qual ''bga'' (opt_col bga_col a)) (leftJoinBgas d)))))"

subsection \<open>Boot groups with their configurations\<close>

definition groupRow :: "BootGroup \<times> BootConfig option \<Rightarrow> (BootGroup \<times> BootConfig) option" where
  "groupRow r = (case r of (g, None) \<Rightarrow> None | (g, Some c) \<Rightarrow> Some (g\<lparr>bg_BootConfigId := bc_Id c\<rparr>, c))"

definition getErr :: "string \<Rightarrow> goerr \<Rightarrow> goerr" where
  "getErr msg e = ErrPostgresGet (Wrapped msg e)"

definition GetBootConfigsAll :: "pg_env \<Rightarrow> (BootGroup \<times> BootConfig) list pg" where
  "GetBootConfigsAll E =
     dbQuery E (getErr ''GetBootConfigsAll: unable to query database'')
       (getErr ''GetBootConfigsAll: could not scan SQL result'')
       (getErr ''GetBootConfigsAll: could not parse query results'')
       (\<lambda>d. Inr (map groupRow (leftJoinGroups d), d))"

definition configParts :: "string \<Rightarrow> string \<Rightarrow> string \<Rightarrow> (bool \<times> string) list" where
  "configParts kernelUri initrdUri cmdline =
     [(length kernelUri > 0, '' kernel_uri='' @ [sq] @ kernelUri @ [sq]),
      (length initrdUri > 0, '' initrd_uri='' @ [sq] @ initrdUri @ [sq]),
      (length cmdline > 0, '' cmdline='' @ [sq] @ cmdline @ [sq])]"

definition GetBootConfigsByItems :: "pg_env \<Rightarrow> string \<Rightarrow> string \<Rightarrow> string \<Rightarrow> (BootGroup \<times> BootConfig) list pg" where
  "GetBootConfigsByItems E kernelUri initrdUri cmdline =
     (if kernelUri = [] \<and> initrdUri = [] \<and> cmdline = [] then GetBootConfigsAll E
      else dbQuery E (getErr ''GetBootConfigsAll: unable to query database'')
             (getErr ''GetBootConfigsAll: could not scan SQL result'')
             (getErr ''GetBootConfigsAll: could not parse query results'')
             (\<lambda>d. case sql_filter (glueLoop '' OR'' True (configParts kernelUri initrdUri cmdline))
                          (\<lambda>(g, c). opt_col config_col c) (leftJoinGroups d) of
                    None \<Rightarrow> Inl sqlRefused
                  | Some rows \<Rightarrow> Inr (map groupRow rows, d)))"

subsection \<open>Nodes with configurations\<close>

definition joinCfg :: "BootGroup \<Rightarrow> BootConfig \<Rightarrow> bgbc" where
  "joinCfg g c = \<lparr>Bg = g\<lparr>bg_BootConfigId := bc_Id c\<rparr>, Bc = c\<rparr>"

definition getNodesWithConfigs :: "pg_env \<Rightarrow> string list \<Rightarrow> string list \<Rightarrow> int32 list \<Rightarrow>
    (Node \<times> bgbc) list pg" where
  "getNodesWithConfigs E macs xnames nids =
     andThen (dbQuery E (Wrapped ''could not query nodes with boot configs'')
                (Wrapped ''could not scan query results'') (Wrapped ''error parsing query results'')
                (selectStmt (\<lambda>d.
                   if length macs > 0 \<or> length xnames > 0 \<or> length nids > 0
                   then sql_filter (itemsWhere macs xnames nids) (\<lambda>(n, g, c). node_col n) (joinNodes d)
                   else Some (joinNodes d))))
       (\<lambda>rows. ret (foldl (\<lambda>m (n, g, c). AList.update n (joinCfg g c) m) [] rows))"

definition groupIdsOf :: "string list \<Rightarrow> pg_db \<Rightarrow> string list option" where
  "groupIdsOf nodeIds d =
     map_option (map (\<lambda>(g, a). bg_Id g))
       (sql_filter ('' bga.node_id IN '' @ stringSliceToSql nodeIds) (\<lambda>(g, a). qual ''bga'' (bga_col a))
          [(g, a). g \<leftarrow> t_groups d, a \<leftarrow> t_bgas d, bg_Id g = bga_BootGroupId a])"

definition cfgRowsOf :: "string list \<Rightarrow> pg_db \<Rightarrow> (Node \<times> BootGroup \<times> BootConfig) list option" where
  "cfgRowsOf bgIds d =
     sql_filter ('' bg.id IN '' @ stringSliceToSql bgIds) (\<lambda>(n, g, c). qual ''bg'' (group_col g))
       (joinNodes d)"

text \<open>Appending a node to the list a map has for a key.\<close>

definition pushAt :: "'k \<Rightarrow> 'v \<Rightarrow> ('k \<times> 'v list) list \<Rightarrow> ('k \<times> 'v list) list" where
  "pushAt k v m = (case map_of m k of None \<Rightarrow> AList.update k [v] m
                                    | Some vs \<Rightarrow> AList.update k (vs @ [v]) m)"

definition getConfigsWithNodes :: "pg_env \<Rightarrow> string list \<Rightarrow> (bgbc \<times> Node list) list pg" where
  "getConfigsWithNodes E nodeIds =
     (if length nodeIds = 0 then fail (Err ''no node IDs specified'')
      else
        andThen (dbQuery E (Wrapped ''could not query boot configs and groups from node IDs'')
                   (Wrapped ''could not scan query results'') (Wrapped ''error parsing query results'')
                   (selectStmt (groupIdsOf nodeIds))) (\<lambda>bgIds.
        andThen (dbQuery E (Wrapped ''could not query boot configs with nodes'')
                   (Wrapped ''could not scan query results'') (Wrapped ''error parsing query results'')
                   (selectStmt (cfgRowsOf bgIds))) (\<lambda>rows.
        ret (foldl (\<lambda>m (n, g, c). pushAt (joinCfg g c) n m) [] rows))))"

subsection \<open>Boot parameters of nodes\<close>

text \<open>Left joining the assignments and then joining the groups drops the nodes without one, so
  the four queries read \<open>joinNodes\<close>.\<close>

definition bootParamsOf :: "BootConfig \<Rightarrow> Node list \<Rightarrow> BootParams" where
  "bootParamsOf bc nodeList =
     noBootParams\<lparr>Kernel := bc_KernelUri bc, Initrd := bc_InitrdUri bc, Params := bc_Cmdline bc,
       Hosts := map n_Xname (filter (\<lambda>n. n_Xname n \<noteq> []) nodeList),
       Macs := map n_BootMac (filter (\<lambda>n. n_BootMac n \<noteq> []) nodeList),
       Nids := map n_Nid (filter (\<lambda>n. n_Nid n \<noteq> 0) nodeList)\<rparr>"

definition GetBootParamsAll :: "pg_env \<Rightarrow> BootParams list pg" where
  "GetBootParamsAll E =
     andThen (dbQuery E (getErr ''GetBootParamsAll: unable to query database'')
                (getErr ''GetBootParamsAll: could not scan SQL result'')
                (getErr ''GetBootParamsAll: could not parse query results'')
                (selectStmt (\<lambda>d. Some (joinNodes d)))) (\<lambda>rows.
     andThen (rangeMap E (foldl (\<lambda>m (n, g, c). pushAt c n m) [] rows)) (\<lambda>bcToNode.
     ret (map (\<lambda>(bc, nodeList). bootParamsOf bc nodeList) bcToNode)))"

definition GetBootParamsByName :: "pg_env \<Rightarrow> string list \<Rightarrow> BootParams list pg" where
  "GetBootParamsByName E names =
     (if length names = 0 then ret []
      else
        andThen (dbQuery E (getErr ''GetBootParamsByName: unable to query database'')
                   (getErr ''GetBootParamsByName: could not scan SQL result'')
                   (getErr ''GetBootParamsByName: could not parse query results'')
                   (selectStmt (\<lambda>d. sql_filter ('' n.xname IN '' @ stringSliceToSql names)
                      (\<lambda>(n, g, c). qual ''n'' (node_col n)) (joinNodes d)))) (\<lambda>rows.
        ret (map (\<lambda>(n, g, c). noBootParams\<lparr>Kernel := bc_KernelUri c, Initrd := bc_InitrdUri c,
                                Params := bc_Cmdline c, Hosts := [n_Xname n]\<rparr>) rows)))"

definition GetBootParamsByMac :: "pg_env \<Rightarrow> string list \<Rightarrow> BootParams list pg" where
  "GetBootParamsByMac E macs =
     (if length macs = 0 then ret []
      else
        andThen (dbQuery E (getErr ''GetBootParamsByMac: unable to query database'')
                   (getErr ''GetBootParamsByMac: could not scan SQL result'')
                   (getErr ''GetBootParamsByName: could not parse query results'')
                   (selectStmt (\<lambda>d. sql_filter ('' n.boot_mac IN '' @ stringSliceToSql (map toLower macs))
                      (\<lambda>(n, g, c). qual ''n'' (node_col n)) (joinNodes d)))) (\<lambda>rows.
        ret (map (\<lambda>(n, g, c). noBootParams\<lparr>Kernel := bc_KernelUri c, Initrd := bc_InitrdUri c,
                                Params := bc_Cmdline c, Macs := [n_BootMac n]\<rparr>) rows)))"

definition GetBootParamsByNid :: "pg_env \<Rightarrow> int32 list \<Rightarrow> BootParams list pg" where
  "GetBootParamsByNid E nids =
     (if length nids = 0 then ret []
      else
        andThen (dbQuery E (getErr ''GetBootParamsByNid: unable to query database'')
                   (getErr ''GetBootParamsByNid: could not scan SQL result'')
                   (getErr ''GetBootParamsByNid: could not parse query results'')
                   (selectStmt (\<lambda>d. sql_filter ('' n.nid IN '' @ int32SliceToSql nids)
                      (\<lambda>(n, g, c). qual ''n'' (node_col n)) (joinNodes d)))) (\<lambda>rows.
        ret (map (\<lambda>(n, g, c). noBootParams\<lparr>Kernel := bc_KernelUri c, Initrd := bc_InitrdUri c,
                                Params := bc_Cmdline c, Nids := [n_Nid n]\<rparr>) rows)))"

end
