(* ===== verification/PgLogic.thy ===== *)
theory PgLogic
  imports PgQueries
begin

text \<open>
  Reasoning about database operations with the rules for \<open>wp\<close>. \<open>wf_db\<close> is the
  well-formedness of a database, \<open>env_ok\<close> collects what is documented of the environment
  (UUIDs are fresh, orders are permutations).
\<close>

subsection \<open>Record updates in one order\<close>

lemma pgst_update_order [simp]:
  "s\<lparr>pdb := d, tick := k\<rparr> = s\<lparr>tick := k, pdb := d\<rparr>"
  "s\<lparr>uctr := u, tick := k\<rparr> = s\<lparr>tick := k, uctr := u\<rparr>"
  "s\<lparr>pdb := d, uctr := u\<rparr> = s\<lparr>uctr := u, pdb := d\<rparr>"
  by simp_all

lemma pg_db_update_order [simp]:
  "d\<lparr>t_bgas := x, t_nodes := y\<rparr> = d\<lparr>t_nodes := y, t_bgas := x\<rparr>"
  "d\<lparr>t_nodes := y, t_groups := z\<rparr> = d\<lparr>t_groups := z, t_nodes := y\<rparr>"
  "d\<lparr>t_bgas := x, t_groups := z\<rparr> = d\<lparr>t_groups := z, t_bgas := x\<rparr>"
  "d\<lparr>t_groups := z, t_configs := w\<rparr> = d\<lparr>t_configs := w, t_groups := z\<rparr>"
  "d\<lparr>t_nodes := y, t_configs := w\<rparr> = d\<lparr>t_configs := w, t_nodes := y\<rparr>"
  "d\<lparr>t_bgas := x, t_configs := w\<rparr> = d\<lparr>t_configs := w, t_bgas := x\<rparr>"
  by simp_all

subsection \<open>Weakest preconditions\<close>

lemma wp_freshId [simp]: "wp (freshId E) Q R s = Q (gen_uuid E (uctr s)) (s\<lparr>uctr := Suc (uctr s)\<rparr>)"
  by (simp add: wp_def freshId_def)

lemma wp_rangeMap [simp]:
  "wp (rangeMap E m) Q R s = Q (permute (map_order E (tick s)) m) (s\<lparr>tick := Suc (tick s)\<rparr>)"
  by (simp add: wp_def rangeMap_def)

subsection \<open>What is assumed of the environment, and of the database\<close>

definition env_ok :: "pg_env \<Rightarrow> bool" where
  "env_ok E \<longleftrightarrow>
     (\<forall>k. perm_ok (row_order E k)) \<and> (\<forall>k. perm_ok (map_order E k)) \<and>
     inj (gen_uuid E) \<and> (\<forall>k. gen_uuid E k \<noteq> [] \<and> quote_free (gen_uuid E k))"

definition no_faults :: "pg_env \<Rightarrow> bool" where
  "no_faults E \<longleftrightarrow> (\<forall>k. db_fault E k = NoFault)"

definition db_ids :: "pg_db \<Rightarrow> string set" where
  "db_ids d = n_Id ` set (t_nodes d) \<union> bg_Id ` set (t_groups d) \<union> bc_Id ` set (t_configs d)"

definition wf_db :: "pg_db \<Rightarrow> bool" where
  "wf_db d \<longleftrightarrow>
     distinct (map n_Id (t_nodes d)) \<and> distinct (map bg_Id (t_groups d)) \<and>
     distinct (map bc_Id (t_configs d)) \<and> distinct (map bga_NodeId (t_bgas d)) \<and>
     distinct (map bg_BootConfigId (t_groups d)) \<and>
     (\<forall>a \<in> set (t_bgas d). bga_NodeId a \<in> n_Id ` set (t_nodes d) \<and>
                           bga_BootGroupId a \<in> bg_Id ` set (t_groups d)) \<and>
     (\<forall>g \<in> set (t_groups d). bg_BootConfigId g \<in> bc_Id ` set (t_configs d)) \<and>
     (\<forall>i \<in> db_ids d. i \<noteq> [] \<and> quote_free i) \<and>
     (\<forall>n \<in> set (t_nodes d). toLower (n_BootMac n) = n_BootMac n) \<and>
     (\<forall>c \<in> set (t_configs d). bc_KernelUri c \<noteq> [])"

text \<open>A state is well formed if its database is and no id still to be generated is in use.\<close>

definition wfu :: "pg_env \<Rightarrow> nat \<Rightarrow> pg_db \<Rightarrow> bool" where
  "wfu E u d \<longleftrightarrow> wf_db d \<and> (\<forall>k \<ge> u. gen_uuid E k \<notin> db_ids d)"

abbreviation wf :: "pg_env \<Rightarrow> pgst \<Rightarrow> bool" where
  "wf E s \<equiv> wfu E (uctr s) (pdb s)"

lemma env_ok_perms [simp]:
  "env_ok E \<Longrightarrow> perm_ok (row_order E k)" "env_ok E \<Longrightarrow> perm_ok (map_order E k)"
  by (simp_all add: env_ok_def)

lemma env_ok_uuid [simp]:
  "env_ok E \<Longrightarrow> gen_uuid E k \<noteq> []" "env_ok E \<Longrightarrow> quote_free (gen_uuid E k)"
  "env_ok E \<Longrightarrow> gen_uuid E k = gen_uuid E j \<longleftrightarrow> k = j"
  unfolding env_ok_def by (blast, blast, blast dest: injD)

lemma no_faultsD:
  "db_fault E k = StmtFault e \<Longrightarrow> \<not> no_faults E" "db_fault E k = RowsFault e \<Longrightarrow> \<not> no_faults E"
  unfolding no_faults_def by (metis fault.distinct(1), metis fault.distinct(3))

lemma wfu_db: "wfu E u d \<Longrightarrow> wf_db d"
  by (simp add: wfu_def)

lemma wfu_mono: "wfu E u d \<Longrightarrow> u \<le> v \<Longrightarrow> wfu E v d"
  by (auto simp: wfu_def)

lemma wfu_Suc: "wfu E u d \<Longrightarrow> wfu E (Suc u) d"
  by (erule wfu_mono) simp

text \<open>An id is new if it has been generated and is not in the database.\<close>

definition new_id :: "pg_env \<Rightarrow> nat \<Rightarrow> pg_db \<Rightarrow> string \<Rightarrow> bool" where
  "new_id E u d i \<longleftrightarrow> (\<exists>j < u. i = gen_uuid E j) \<and> i \<notin> db_ids d"

lemma new_idD:
  assumes "env_ok E" and "new_id E u d i"
  shows "i \<notin> n_Id ` set (t_nodes d)" "i \<notin> bg_Id ` set (t_groups d)" "i \<notin> bc_Id ` set (t_configs d)"
    and "i \<noteq> []" "quote_free i" "u \<le> k \<Longrightarrow> gen_uuid E k \<noteq> i"
  using assms by (auto simp: new_id_def db_ids_def)

lemma new_ids_ok:
  assumes "env_ok E" and "\<And>x. x \<in> X \<Longrightarrow> new_id E u d (f x)"
  shows "\<forall>i \<in> f ` X. i \<noteq> [] \<and> quote_free i \<and> (\<forall>k \<ge> u. gen_uuid E k \<noteq> i)"
proof (intro ballI conjI allI impI)
  fix i assume "i \<in> f ` X"
  then have "new_id E u d i" using assms(2) by blast
  from new_idD [OF assms(1) this]
  show "i \<noteq> []" and "quote_free i" and "u \<le> k \<Longrightarrow> gen_uuid E k \<noteq> i" for k by simp_all
qed

lemma distinct_map_append:
  "distinct (map f xs) \<Longrightarrow> distinct (map f ys) \<Longrightarrow> (\<And>y. y \<in> set ys \<Longrightarrow> f y \<notin> f ` set xs) \<Longrightarrow>
     distinct (map f (xs @ ys))"
  by (simp only: map_append distinct_append set_map simp_thms disjoint_iff) blast

lemma wfu_addConfigs:
  assumes "env_ok E" and "wfu E u d" and "distinct (map bc_Id cs)"
    and "\<And>c. c \<in> set cs \<Longrightarrow> new_id E u d (bc_Id c) \<and> bc_KernelUri c \<noteq> []"
  shows "wfu E u (d\<lparr>t_configs := t_configs d @ cs\<rparr>)"
proof -
  have w: "wf_db d" using assms(2) by (simp add: wfu_def)
  have "distinct (map bc_Id (t_configs d @ cs))"
    by (rule distinct_map_append) (use w in \<open>simp add: wf_db_def\<close>, rule assms(3), use assms(4) new_idD(3) [OF assms(1)] in blast)
  moreover have "db_ids (d\<lparr>t_configs := t_configs d @ cs\<rparr>) = db_ids d \<union> bc_Id ` set cs"
    by (auto simp: db_ids_def)
  moreover have "\<forall>i \<in> bc_Id ` set cs. i \<noteq> [] \<and> quote_free i \<and> (\<forall>k \<ge> u. gen_uuid E k \<noteq> i)"
    by (rule new_ids_ok [OF assms(1)]) (use assms(4) in blast)
  ultimately show ?thesis
    using w assms(2,4) by (auto simp: wfu_def wf_db_def)
qed

lemma wfu_addGroups:
  assumes "env_ok E" and "wfu E u d" and "distinct (map bg_Id gs)" and "distinct (map bg_BootConfigId gs)"
    and "\<And>g. g \<in> set gs \<Longrightarrow> new_id E u d (bg_Id g) \<and> bg_BootConfigId g \<in> bc_Id ` set (t_configs d) \<and>
           bg_BootConfigId g \<notin> bg_BootConfigId ` set (t_groups d)"
  shows "wfu E u (d\<lparr>t_groups := t_groups d @ gs\<rparr>)"
proof -
  have w: "wf_db d" using assms(2) by (simp add: wfu_def)
  have "distinct (map bg_Id (t_groups d @ gs))"
    by (rule distinct_map_append) (use w in \<open>simp add: wf_db_def\<close>, rule assms(3), use assms(5) new_idD(2) [OF assms(1)] in blast)
  moreover have "distinct (map bg_BootConfigId (t_groups d @ gs))"
    by (rule distinct_map_append) (use w in \<open>simp add: wf_db_def\<close>, rule assms(4), use assms(5) in blast)
  moreover have "db_ids (d\<lparr>t_groups := t_groups d @ gs\<rparr>) = db_ids d \<union> bg_Id ` set gs"
    by (auto simp: db_ids_def)
  moreover have "\<forall>i \<in> bg_Id ` set gs. i \<noteq> [] \<and> quote_free i \<and> (\<forall>k \<ge> u. gen_uuid E k \<noteq> i)"
    by (rule new_ids_ok [OF assms(1)]) (use assms(5) in blast)
  ultimately show ?thesis
    using w assms(2,5) by (auto simp: wfu_def wf_db_def)
qed

lemma wfu_addNodes:
  assumes "env_ok E" and "wfu E u d" and "distinct (map n_Id ns)"
    and "\<And>n. n \<in> set ns \<Longrightarrow> new_id E u d (n_Id n) \<and> toLower (n_BootMac n) = n_BootMac n"
  shows "wfu E u (d\<lparr>t_nodes := t_nodes d @ ns\<rparr>)"
proof -
  have w: "wf_db d" using assms(2) by (simp add: wfu_def)
  have "distinct (map n_Id (t_nodes d @ ns))"
    by (rule distinct_map_append) (use w in \<open>simp add: wf_db_def\<close>, rule assms(3), use assms(4) new_idD(1) [OF assms(1)] in blast)
  moreover have "db_ids (d\<lparr>t_nodes := t_nodes d @ ns\<rparr>) = db_ids d \<union> n_Id ` set ns"
    by (auto simp: db_ids_def)
  moreover have "\<forall>i \<in> n_Id ` set ns. i \<noteq> [] \<and> quote_free i \<and> (\<forall>k \<ge> u. gen_uuid E k \<noteq> i)"
    by (rule new_ids_ok [OF assms(1)]) (use assms(4) in blast)
  ultimately show ?thesis
    using w assms(2,4) by (auto simp: wfu_def wf_db_def)
qed

lemma wfu_addBgas:
  assumes "wfu E u d" and "distinct (map bga_NodeId as)"
    and "\<And>a. a \<in> set as \<Longrightarrow> bga_NodeId a \<in> n_Id ` set (t_nodes d) \<and>
           bga_BootGroupId a \<in> bg_Id ` set (t_groups d) \<and> bga_NodeId a \<notin> bga_NodeId ` set (t_bgas d)"
  shows "wfu E u (d\<lparr>t_bgas := t_bgas d @ as\<rparr>)"
proof -
  have w: "wf_db d" using assms(1) by (simp add: wfu_def)
  have "distinct (map bga_NodeId (t_bgas d @ as))"
    by (rule distinct_map_append) (use w in \<open>simp add: wf_db_def\<close>, rule assms(2), use assms(3) in blast)
  moreover have "db_ids (d\<lparr>t_bgas := t_bgas d @ as\<rparr>) = db_ids d"
    by (auto simp: db_ids_def)
  ultimately show ?thesis
    using w assms(1,3) by (auto simp: wfu_def wf_db_def)
qed

subsection \<open>Rules for statements\<close>

lemma those_Some [simp]: "those (map Some xs) = Some xs"
  by (induction xs) auto

lemma permute_map: "perm_ok p \<Longrightarrow> permute p (map f xs) = map f (permute p xs)"
proof -
  assume "perm_ok p"
  then have "set (p (length xs)) = {0..<length xs}"
    by (metis perm_ok_def set_mset_mset set_upt)
  then show ?thesis by (auto simp: permute_def)
qed

lemma wp_select:
  assumes "env_ok E" and "f (pdb s) = Some rows"
    and "\<And>rs. mset rs = mset rows \<Longrightarrow> Q rs (s\<lparr>tick := Suc (tick s)\<rparr>)"
    and "\<And>e. \<not> no_faults E \<Longrightarrow> R (wq (Err e)) (s\<lparr>tick := Suc (tick s)\<rparr>)"
    and "\<And>e. \<not> no_faults E \<Longrightarrow> R (wr (Err e)) (s\<lparr>tick := Suc (tick s)\<rparr>)"
  shows "wp (dbQuery E wq ws wr (selectStmt f)) Q R s"
  using assms
  by (auto simp: wp_def dbQuery_def selectStmt_def permute_map mset_permute Let_def
      split: fault.splits dest: no_faultsD)

lemma wp_dbQuery:
  assumes "env_ok E" and "stmt (pdb s) = Inr (map Some rows, d)"
    and "\<And>rs. mset rs = mset rows \<Longrightarrow> Q rs (s\<lparr>tick := Suc (tick s), pdb := d\<rparr>)"
    and "\<And>e. \<not> no_faults E \<Longrightarrow> R (wq (Err e)) (s\<lparr>tick := Suc (tick s)\<rparr>)"
    and "\<And>e. \<not> no_faults E \<Longrightarrow> R (wr (Err e)) (s\<lparr>tick := Suc (tick s), pdb := d\<rparr>)"
  shows "wp (dbQuery E wq ws wr stmt) Q R s"
  using assms
  by (auto simp: wp_def dbQuery_def permute_map mset_permute Let_def
      split: fault.splits dest: no_faultsD)

lemma wp_dbExec:
  assumes "stmt (pdb s) = Inr d"
    and "Q () (s\<lparr>tick := Suc (tick s), pdb := d\<rparr>)"
    and "\<And>e. \<not> no_faults E \<Longrightarrow> R (w (Err e)) (s\<lparr>tick := Suc (tick s)\<rparr>)"
    and "\<And>e. \<not> no_faults E \<Longrightarrow> R (w (Err e)) (s\<lparr>tick := Suc (tick s), pdb := d\<rparr>)"
  shows "wp (dbExec E w stmt) Q R s"
  using assms by (auto simp: wp_def dbExec_def Let_def split: fault.splits dest: no_faultsD)

text \<open>A loop of inserts: \<open>upd xs\<close> is the database once \<open>xs\<close> have been inserted. A fault can
  leave any prefix behind.\<close>

lemma wp_forEach_exec:
  assumes "upd [] = pdb s"
    and "\<And>xs y ys. zs = xs @ y # ys \<Longrightarrow> stmt y (upd xs) = Inr (upd (xs @ [y]))"
    and "\<And>k. Q () (s\<lparr>tick := k, pdb := upd zs\<rparr>)"
    and "\<And>e k xs ys. \<not> no_faults E \<Longrightarrow> zs = xs @ ys \<Longrightarrow> R e (s\<lparr>tick := k, pdb := upd xs\<rparr>)"
  shows "wp (forEach (\<lambda>y. dbExec E w (stmt y)) zs) Q R s"
proof -
  let ?I = "\<lambda>xs t. \<exists>k. t = s\<lparr>tick := k, pdb := upd xs\<rparr>"
  have "wp (forEach (\<lambda>y. dbExec E w (stmt y)) zs) (\<lambda>_. ?I zs) R s"
  proof (rule wp_forEach)
    have "s = s\<lparr>tick := tick s, pdb := upd []\<rparr>" using assms(1) by simp
    then show "?I [] s" by blast
  next
    fix xs y ys t
    assume z: "zs = xs @ y # ys" and "?I xs t"
    then obtain k where t: "t = s\<lparr>tick := k, pdb := upd xs\<rparr>" by blast
    show "wp (dbExec E w (stmt y)) (\<lambda>_. ?I (xs @ [y])) R t"
    proof (rule wp_dbExec [where d = "upd (xs @ [y])"])
      show "stmt y (pdb t) = Inr (upd (xs @ [y]))" using assms(2) [OF z] by (simp add: t)
      show "?I (xs @ [y]) (t\<lparr>tick := Suc (tick t), pdb := upd (xs @ [y])\<rparr>)"
        by (rule exI [of _ "Suc k"]) (simp add: t)
      show "R (w (Err e)) (t\<lparr>tick := Suc (tick t)\<rparr>)" if "\<not> no_faults E" for e
        using assms(4) [OF that, of xs "y # ys" _ "Suc k"] z by (simp add: t)
      show "R (w (Err e)) (t\<lparr>tick := Suc (tick t), pdb := upd (xs @ [y])\<rparr>)" if "\<not> no_faults E" for e
        using assms(4) [OF that, of "xs @ [y]" ys _ "Suc k"] z by (simp add: t)
    qed
  qed
  then show ?thesis by (rule wp_mono) (use assms(3) in auto)
qed

lemma wp_addNodes:
  assumes "distinct (map n_Id ns)" and "n_Id ` set ns \<inter> n_Id ` set (t_nodes (pdb s)) = {}"
    and "\<And>k. Q () (s\<lparr>tick := k, pdb := (pdb s)\<lparr>t_nodes := t_nodes (pdb s) @ ns\<rparr>\<rparr>)"
    and "\<And>e k xs ys. \<not> no_faults E \<Longrightarrow> ns = xs @ ys \<Longrightarrow>
           R e (s\<lparr>tick := k, pdb := (pdb s)\<lparr>t_nodes := t_nodes (pdb s) @ xs\<rparr>\<rparr>)"
  shows "wp (addNodes E ns) Q R s"
  unfolding addNodes_def
  by (rule wp_forEach_exec [where upd = "\<lambda>xs. (pdb s)\<lparr>t_nodes := t_nodes (pdb s) @ xs\<rparr>"])
    (use assms in \<open>auto simp: insertNode_def image_Un\<close>)

lemma wp_addBootConfigs:
  assumes "distinct (map bc_Id cs)" and "bc_Id ` set cs \<inter> bc_Id ` set (t_configs (pdb s)) = {}"
    and "\<And>k. Q () (s\<lparr>tick := k, pdb := (pdb s)\<lparr>t_configs := t_configs (pdb s) @ cs\<rparr>\<rparr>)"
    and "\<And>e k xs ys. \<not> no_faults E \<Longrightarrow> cs = xs @ ys \<Longrightarrow>
           R e (s\<lparr>tick := k, pdb := (pdb s)\<lparr>t_configs := t_configs (pdb s) @ xs\<rparr>\<rparr>)"
  shows "wp (addBootConfigs E cs) Q R s"
  unfolding addBootConfigs_def
  by (rule wp_forEach_exec [where upd = "\<lambda>xs. (pdb s)\<lparr>t_configs := t_configs (pdb s) @ xs\<rparr>"])
    (use assms in \<open>auto simp: insertConfig_def image_Un\<close>)

lemma wp_addBootGroups:
  assumes "distinct (map bg_Id gs)" and "bg_Id ` set gs \<inter> bg_Id ` set (t_groups (pdb s)) = {}"
    and "\<And>k. Q () (s\<lparr>tick := k, pdb := (pdb s)\<lparr>t_groups := t_groups (pdb s) @ gs\<rparr>\<rparr>)"
    and "\<And>e k xs ys. \<not> no_faults E \<Longrightarrow> gs = xs @ ys \<Longrightarrow>
           R e (s\<lparr>tick := k, pdb := (pdb s)\<lparr>t_groups := t_groups (pdb s) @ xs\<rparr>\<rparr>)"
  shows "wp (addBootGroups E gs) Q R s"
  unfolding addBootGroups_def
  by (rule wp_forEach_exec [where upd = "\<lambda>xs. (pdb s)\<lparr>t_groups := t_groups (pdb s) @ xs\<rparr>"])
    (use assms in \<open>auto simp: insertGroup_def image_Un\<close>)

lemma wp_addBootGroupAssignments:
  assumes "\<And>k. Q () (s\<lparr>tick := k, pdb := (pdb s)\<lparr>t_bgas := t_bgas (pdb s) @ as\<rparr>\<rparr>)"
    and "\<And>e k xs ys. \<not> no_faults E \<Longrightarrow> as = xs @ ys \<Longrightarrow>
           R e (s\<lparr>tick := k, pdb := (pdb s)\<lparr>t_bgas := t_bgas (pdb s) @ xs\<rparr>\<rparr>)"
  shows "wp (addBootGroupAssignments E as) Q R s"
  unfolding addBootGroupAssignments_def
  by (rule wp_forEach_exec [where upd = "\<lambda>xs. (pdb s)\<lparr>t_bgas := t_bgas (pdb s) @ xs\<rparr>"])
    (use assms in \<open>auto simp: insertBga_def\<close>)

end
