(* ===== verification/PgReads.thy ===== *)
theory PgReads
  imports PgLogic
begin

text \<open>
  What the queries of internal/postgres/bootparams.go return: each is shown to select exactly
  the rows its arguments describe, when the values put into the SQL text are free of quotes.
\<close>

subsection \<open>The meaning of the conditions\<close>

definition nodeMatches :: "string list \<Rightarrow> string list \<Rightarrow> int32 list \<Rightarrow> Node \<Rightarrow> bool" where
  "nodeMatches macs xnames nids n \<longleftrightarrow>
     n_BootMac n \<in> toLower ` set macs \<or> n_Xname n \<in> set xnames \<or> n_Nid n \<in> set nids"

lemma ident_cols [simp]:
  "ident ''boot_mac''" "ident ''xname''" "ident ''nid''" "ident ''name''" "ident ''endpoint''"
  "ident ''id''" "ident ''kernel_uri''" "ident ''initrd_uri''" "ident ''cmdline''"
  "ident ''node_id''" "ident ''boot_group_id''" "ident ''boot_config_id''"
  "ident ''bga.boot_group_id''" "ident ''bga.node_id''" "ident ''bg.id''"
  "ident ''n.xname''" "ident ''n.boot_mac''" "ident ''n.nid''"
  by (simp_all add: ident_def ident_char_def less_eq_char_def)

lemma toLower_in [simp]: "toLower ''IN'' = ''in''" "toLower ''in'' = ''in''"
  by code_simp+

lemma VStr_in_sql_strs [simp]: "VStr x \<in> set (sql_strs xs) \<longleftrightarrow> x \<in> set xs \<or> (xs = [] \<and> x = [])"
  by (auto simp: sql_strs_def)

lemma VInt_in_sql_ints [simp]: "VInt (sint i) \<in> set (sql_ints xs) \<longleftrightarrow> i \<in> set xs"
  by (auto simp: sql_ints_def simp flip: word_eq_iff_signed)

lemma sql_filter_IN:
  assumes "ident c" and "toLower kw = ''in''" and "list_all quote_free xs"
  shows "sql_filter ('' '' @ c @ '' '' @ kw @ '' '' @ stringSliceToSql xs) col rows =
         Some (filter (\<lambda>r. eval_cond (col r) (CIn c (sql_strs xs))) rows)"
  by (rule sql_filter_single [OF denotes_IN_strings [OF assms]]) simp_all

lemma itemsWhere_filter:
  assumes "list_all quote_free macs" and "list_all quote_free xnames"
    and "macs \<noteq> [] \<or> xnames \<noteq> [] \<or> nids \<noteq> []"
  shows "sql_filter (itemsWhere macs xnames nids) (\<lambda>r. node_col (f r)) rows =
         Some (filter (\<lambda>r. nodeMatches macs xnames nids (f r)) rows)"
proof -
  let ?ps = "[(length macs > 0, '' boot_mac IN '' @ stringSliceToSql (map toLower macs),
                 CIn ''boot_mac'' (sql_strs (map toLower macs))),
              (length xnames > 0, '' xname IN '' @ stringSliceToSql xnames,
                 CIn ''xname'' (sql_strs xnames)),
              (length nids > 0, '' nid IN '' @ int32SliceToSql nids, CIn ''nid'' (sql_ints nids))]"
  have ql: "list_all quote_free (map toLower macs)"
    using assms(1) by (simp add: list.pred_map comp_def)
  have "parts_ok ?ps"
    using denotes_IN_strings [of "''boot_mac''" "''IN''", OF _ _ ql]
      denotes_IN_strings [of "''xname''" "''IN''", OF _ _ assms(2)]
      denotes_IN_ints [of "''nid''" "''IN''" nids]
    by simp
  moreover have "parts_sp ?ps" by simp
  moreover have "list_ex fst ?ps" using assms(3) by simp
  ultimately have "sql_filter (glueLoop (CHR '' '' # ''OR'') True (parts_text ?ps))
        (\<lambda>r. node_col (f r)) rows =
      Some (filter (\<lambda>r. if ''OR'' = ''OR'' then list_ex (eval_cond (node_col (f r))) (parts_conds ?ps)
                        else list_all (eval_cond (node_col (f r))) (parts_conds ?ps)) rows)"
    by (rule sql_filter_glue) simp
  then show ?thesis
    by (auto simp: itemsWhere_def nodeMatches_def node_col_def intro!: filter_cong)
qed

subsection \<open>Maps built from rows\<close>

lemma map_of_mkMap:
  "map_of (mkMap key xs) k = (case filter (\<lambda>x. key x = k) (rev xs) of [] \<Rightarrow> None | x # _ \<Rightarrow> Some x)"
  by (simp add: mkMap_def map_of_foldl_update split: list.split)

lemma mkMap_SomeD: "map_of (mkMap key xs) k = Some x \<Longrightarrow> x \<in> set xs \<and> key x = k"
proof -
  assume "map_of (mkMap key xs) k = Some x"
  then have "x \<in> set (filter (\<lambda>x. key x = k) (rev xs))"
    unfolding map_of_mkMap by (cases "filter (\<lambda>x. key x = k) (rev xs)") simp_all
  then show ?thesis by simp
qed

lemma mkMap_None: "map_of (mkMap key xs) k = None \<longleftrightarrow> k \<notin> key ` set xs"
proof -
  have "map_of (mkMap key xs) k = None \<longleftrightarrow> filter (\<lambda>x. key x = k) (rev xs) = []"
    unfolding map_of_mkMap by (simp split: list.split)
  also have "\<dots> \<longleftrightarrow> k \<notin> key ` set xs"
    by (auto simp: filter_empty_conv)
  finally show ?thesis .
qed

lemma dom_mkMap: "fst ` set (mkMap key xs) = key ` set xs"
  using mkMap_None [of key xs] by (auto simp: map_of_eq_None_iff)

subsection \<open>Nodes\<close>

definition wantedNodes :: "string list \<Rightarrow> string list \<Rightarrow> int32 list \<Rightarrow> pg_db \<Rightarrow> Node list" where
  "wantedNodes macs xnames nids d =
     (if macs = [] \<and> xnames = [] \<and> nids = [] then t_nodes d
      else filter (nodeMatches macs xnames nids) (t_nodes d))"

lemma wp_GetNodes:
  assumes "env_ok E"
    and "\<And>rs. mset rs = mset (t_nodes (pdb s)) \<Longrightarrow> Q rs (s\<lparr>tick := Suc (tick s)\<rparr>)"
    and "\<And>e. \<not> no_faults E \<Longrightarrow> R e (s\<lparr>tick := Suc (tick s)\<rparr>)"
  shows "wp (GetNodes E) Q R s"
  unfolding GetNodes_def by (rule wp_select) (use assms in auto)

lemma wp_GetNodesByItems:
  assumes "env_ok E" and "list_all quote_free macs" and "list_all quote_free xnames"
    and "\<And>rs. mset rs = mset (wantedNodes macs xnames nids (pdb s)) \<Longrightarrow> Q rs (s\<lparr>tick := Suc (tick s)\<rparr>)"
    and "\<And>e. \<not> no_faults E \<Longrightarrow> R e (s\<lparr>tick := Suc (tick s)\<rparr>)"
  shows "wp (GetNodesByItems E macs xnames nids) Q R s"
proof (cases "macs = [] \<and> xnames = [] \<and> nids = []")
  case True
  with assms show ?thesis
    by (simp add: GetNodesByItems_def wantedNodes_def wp_GetNodes)
next
  case False
  have "wp (dbQuery E wq ws wr (selectStmt (\<lambda>d. sql_filter (itemsWhere macs xnames nids) node_col (t_nodes d)))) Q R s"
    for wq ws wr
  proof (rule wp_select [OF assms(1)])
    show "sql_filter (itemsWhere macs xnames nids) node_col (t_nodes (pdb s)) =
          Some (wantedNodes macs xnames nids (pdb s))"
      using itemsWhere_filter [OF assms(2,3), of nids "\<lambda>n. n" "t_nodes (pdb s)"] False
      by (auto simp: wantedNodes_def)
  qed (use assms in auto)
  with False show ?thesis by (auto simp: GetNodesByItems_def)
qed

lemma wantedNodes_keys:
  "m \<in> set macs \<Longrightarrow> toLower m \<in> n_BootMac ` set (wantedNodes macs xnames nids d) \<longleftrightarrow>
     toLower m \<in> n_BootMac ` set (t_nodes d)"
  "x \<in> set xnames \<Longrightarrow> x \<in> n_Xname ` set (wantedNodes macs xnames nids d) \<longleftrightarrow>
     x \<in> n_Xname ` set (t_nodes d)"
  "i \<in> set nids \<Longrightarrow> i \<in> n_Nid ` set (wantedNodes macs xnames nids d) \<longleftrightarrow>
     i \<in> n_Nid ` set (t_nodes d)"
proof -
  show "m \<in> set macs \<Longrightarrow> toLower m \<in> n_BootMac ` set (wantedNodes macs xnames nids d) \<longleftrightarrow>
     toLower m \<in> n_BootMac ` set (t_nodes d)"
    by (auto simp: wantedNodes_def nodeMatches_def intro!: image_eqI)
  show "x \<in> set xnames \<Longrightarrow> x \<in> n_Xname ` set (wantedNodes macs xnames nids d) \<longleftrightarrow>
     x \<in> n_Xname ` set (t_nodes d)"
    by (auto simp: wantedNodes_def nodeMatches_def intro!: image_eqI)
  show "i \<in> set nids \<Longrightarrow> i \<in> n_Nid ` set (wantedNodes macs xnames nids d) \<longleftrightarrow>
     i \<in> n_Nid ` set (t_nodes d)"
    by (auto simp: wantedNodes_def nodeMatches_def intro!: image_eqI)
qed

lemma wp_CheckNodeExistence:
  assumes "env_ok E" and "list_all quote_free macs" and "list_all quote_free xnames"
    and "\<And>ex. mset ex = mset (wantedNodes macs xnames nids (pdb s)) \<Longrightarrow>
           Q (ex, filter (\<lambda>m. toLower m \<notin> n_BootMac ` set (t_nodes (pdb s))) macs,
                  filter (\<lambda>x. x \<notin> n_Xname ` set (t_nodes (pdb s))) xnames,
                  filter (\<lambda>i. i \<notin> n_Nid ` set (t_nodes (pdb s))) nids) (s\<lparr>tick := Suc (tick s)\<rparr>)"
    and "\<And>e. \<not> no_faults E \<Longrightarrow> R e (s\<lparr>tick := Suc (tick s)\<rparr>)"
  shows "wp (CheckNodeExistence E macs xnames nids) Q R s"
  unfolding CheckNodeExistence_def wp_andThen wp_mapErr
proof (rule wp_GetNodesByItems [OF assms(1-3)])
  fix rs
  assume m: "mset rs = mset (wantedNodes macs xnames nids (pdb s))"
  then have s: "set rs = set (wantedNodes macs xnames nids (pdb s))" by (rule mset_eq_setD)
  have "missingFrom (mkMap n_BootMac rs) toLower macs =
          filter (\<lambda>m. toLower m \<notin> n_BootMac ` set (t_nodes (pdb s))) macs"
    unfolding missingFrom_def mkMap_None s by (rule filter_cong) (simp_all add: wantedNodes_keys)
  moreover have "missingFrom (mkMap n_Xname rs) (\<lambda>x. x) xnames =
          filter (\<lambda>x. x \<notin> n_Xname ` set (t_nodes (pdb s))) xnames"
    unfolding missingFrom_def mkMap_None s by (rule filter_cong) (simp_all add: wantedNodes_keys)
  moreover have "missingFrom (mkMap n_Nid rs) (\<lambda>n. n) nids =
          filter (\<lambda>i. i \<notin> n_Nid ` set (t_nodes (pdb s))) nids"
    unfolding missingFrom_def mkMap_None s by (rule filter_cong) (simp_all add: wantedNodes_keys)
  ultimately show "wp (let macToNode = mkMap n_BootMac rs; xnameToNode = mkMap n_Xname rs;
      nidToNode = mkMap n_Nid rs in ret (rs, missingFrom macToNode toLower macs,
        missingFrom xnameToNode (\<lambda>x. x) xnames, missingFrom nidToNode (\<lambda>n. n) nids)) Q R
      (s\<lparr>tick := Suc (tick s)\<rparr>)"
    using assms(4) [OF m] by (simp add: Let_def)
qed (use assms in auto)

subsection \<open>Groups and configurations\<close>

text \<open>In a well-formed database every group has exactly one configuration.\<close>

definition configOf :: "pg_db \<Rightarrow> BootGroup \<Rightarrow> BootConfig" where
  "configOf d g = hd (filter (\<lambda>c. bc_Id c = bg_BootConfigId g) (t_configs d))"

definition groupOf :: "pg_db \<Rightarrow> string \<Rightarrow> BootGroup" where
  "groupOf d i = hd (filter (\<lambda>g. bg_Id g = i) (t_groups d))"

definition groupCfgs :: "pg_db \<Rightarrow> (BootGroup \<times> BootConfig) list" where
  "groupCfgs d = map (\<lambda>g. (g, configOf d g)) (t_groups d)"

lemma filter_key_unique:
  assumes "distinct (map k xs)" and "i \<in> k ` set xs"
  shows "\<exists>x. filter (\<lambda>x. k x = i) xs = [x] \<and> x \<in> set xs \<and> k x = i"
  using assms
proof (induction xs)
  case (Cons y ys)
  show ?case
  proof (cases "k y = i")
    case True
    then have "filter (\<lambda>x. k x = i) ys = []" using Cons.prems(1) by (auto simp: filter_empty_conv image_iff)
    with True show ?thesis by simp
  next
    case False
    then show ?thesis using Cons by auto
  qed
qed simp

lemma configOf_filter:
  assumes "wf_db d" and "g \<in> set (t_groups d)"
  shows "filter (\<lambda>c. bc_Id c = bg_BootConfigId g) (t_configs d) = [configOf d g]"
    and "configOf d g \<in> set (t_configs d)" and "bc_Id (configOf d g) = bg_BootConfigId g"
proof -
  have "\<exists>x. filter (\<lambda>c. bc_Id c = bg_BootConfigId g) (t_configs d) = [x] \<and>
            x \<in> set (t_configs d) \<and> bc_Id x = bg_BootConfigId g"
    by (rule filter_key_unique) (use assms in \<open>auto simp: wf_db_def\<close>)
  then show "filter (\<lambda>c. bc_Id c = bg_BootConfigId g) (t_configs d) = [configOf d g]"
    and "configOf d g \<in> set (t_configs d)" and "bc_Id (configOf d g) = bg_BootConfigId g"
    by (auto simp: configOf_def)
qed

lemma groupOf_filter:
  assumes "wf_db d" and "i \<in> bg_Id ` set (t_groups d)"
  shows "filter (\<lambda>g. bg_Id g = i) (t_groups d) = [groupOf d i]"
    and "groupOf d i \<in> set (t_groups d)" and "bg_Id (groupOf d i) = i"
proof -
  have "\<exists>x. filter (\<lambda>g. bg_Id g = i) (t_groups d) = [x] \<and> x \<in> set (t_groups d) \<and> bg_Id x = i"
    by (rule filter_key_unique) (use assms in \<open>auto simp: wf_db_def\<close>)
  then show "filter (\<lambda>g. bg_Id g = i) (t_groups d) = [groupOf d i]"
    and "groupOf d i \<in> set (t_groups d)" and "bg_Id (groupOf d i) = i"
    by (auto simp: groupOf_def)
qed

lemma groupOf_eqI: "wf_db d \<Longrightarrow> g \<in> set (t_groups d) \<Longrightarrow> groupOf d (bg_Id g) = g"
  by (rule distinct_map_eqD [of bg_Id "t_groups d"]) (auto simp: groupOf_filter wf_db_def)

lemma leftJoinGroups_wf:
  assumes "wf_db d"
  shows "leftJoinGroups d = map (\<lambda>(g, c). (g, Some c)) (groupCfgs d)"
proof -
  have "map (\<lambda>g. case filter (\<lambda>c. bc_Id c = bg_BootConfigId g) (t_configs d) of
            [] \<Rightarrow> [(g, None)] | cs \<Rightarrow> map (\<lambda>c. (g, Some c)) cs) (t_groups d) =
        map (\<lambda>g. [(g, Some (configOf d g))]) (t_groups d)"
    by (rule map_cong) (simp_all add: configOf_filter [OF assms])
  then show ?thesis
    unfolding leftJoinGroups_def groupCfgs_def by (simp only: map_map comp_def split_conv concat_map_singleton)
qed

definition cfgMatches :: "string \<Rightarrow> string \<Rightarrow> string \<Rightarrow> BootConfig \<Rightarrow> bool" where
  "cfgMatches k i p c \<longleftrightarrow>
     k \<noteq> [] \<and> bc_KernelUri c = k \<or> i \<noteq> [] \<and> bc_InitrdUri c = i \<or> p \<noteq> [] \<and> bc_Cmdline c = p"

definition wantedCfgs :: "string \<Rightarrow> string \<Rightarrow> string \<Rightarrow> pg_db \<Rightarrow> (BootGroup \<times> BootConfig) list" where
  "wantedCfgs k i p d =
     (if k = [] \<and> i = [] \<and> p = [] then groupCfgs d
      else filter (\<lambda>(g, c). cfgMatches k i p c) (groupCfgs d))"

lemma groupRow_wf:
  "wf_db d \<Longrightarrow> gc \<in> set (groupCfgs d) \<Longrightarrow> groupRow ((\<lambda>(g, c). (g, Some c)) gc) = Some gc"
  by (auto simp: groupCfgs_def groupRow_def configOf_filter)

abbreviation configPreds :: "string \<Rightarrow> string \<Rightarrow> string \<Rightarrow> (bool \<times> string \<times> cond) list" where
  "configPreds k i p \<equiv>
     [(length k > 0, '' kernel_uri='' @ [sq] @ k @ [sq], CEq ''kernel_uri'' (VStr k)),
      (length i > 0, '' initrd_uri='' @ [sq] @ i @ [sq], CEq ''initrd_uri'' (VStr i)),
      (length p > 0, '' cmdline='' @ [sq] @ p @ [sq], CEq ''cmdline'' (VStr p))]"

lemma configPreds_ok:
  assumes "quote_free k" and "quote_free i" and "quote_free p"
  shows "parts_ok (configPreds k i p)" and "parts_sp (configPreds k i p)"
    and "parts_text (configPreds k i p) = configParts k i p"
  using denotes_EQ [of "''kernel_uri''" k "[]"] denotes_EQ [of "''initrd_uri''" i "[]"]
    denotes_EQ [of "''cmdline''" p "[]"] assms
  by (simp_all add: configParts_def)

lemma configParts_filter:
  assumes "quote_free k" and "quote_free i" and "quote_free p" and "k \<noteq> [] \<or> i \<noteq> [] \<or> p \<noteq> []"
  shows "sql_filter (glueLoop '' OR'' True (configParts k i p)) (\<lambda>(g, c). opt_col config_col c)
           (map (\<lambda>(g, c). (g, Some c)) gcs) =
         Some (map (\<lambda>(g, c). (g, Some c)) (filter (\<lambda>(g, c). cfgMatches k i p c) gcs))"
proof -
  let ?col = "\<lambda>(g, c). opt_col config_col c"
  let ?rows = "map (\<lambda>(g, c). (g, Some c)) gcs"
  have "sql_filter (glueLoop (CHR '' '' # ''OR'') True (parts_text (configPreds k i p))) ?col ?rows =
      Some (filter (\<lambda>r. if ''OR'' = ''OR'' then list_ex (eval_cond (?col r)) (parts_conds (configPreds k i p))
                        else list_all (eval_cond (?col r)) (parts_conds (configPreds k i p))) ?rows)"
    by (rule sql_filter_glue [OF configPreds_ok(1,2) [OF assms(1-3)]]) (use assms(4) in auto)
  then show ?thesis
    unfolding configPreds_ok(3) [OF assms(1-3)]
    by (auto simp: filter_map comp_def cfgMatches_def config_col_def opt_col_def
        intro!: arg_cong [where f = "map _"] filter_cong)
qed

lemma wp_GetBootConfigsByItems:
  assumes "env_ok E" and "wf_db (pdb s)" and "quote_free k" and "quote_free i" and "quote_free p"
    and "\<And>rs. mset rs = mset (wantedCfgs k i p (pdb s)) \<Longrightarrow> Q rs (s\<lparr>tick := Suc (tick s)\<rparr>)"
    and "\<And>e. \<not> no_faults E \<Longrightarrow> R e (s\<lparr>tick := Suc (tick s)\<rparr>)"
  shows "wp (GetBootConfigsByItems E k i p) Q R s"
proof (cases "k = [] \<and> i = [] \<and> p = []")
  case True
  have "map groupRow (leftJoinGroups (pdb s)) = map Some (groupCfgs (pdb s))"
    unfolding leftJoinGroups_wf [OF assms(2)] map_map
    by (rule map_cong) (simp_all add: groupRow_wf [OF assms(2)])
  then have "wp (GetBootConfigsAll E) Q R s"
    unfolding GetBootConfigsAll_def
    by (intro wp_dbQuery [OF assms(1)]) (use True assms(6,7) in \<open>auto simp: wantedCfgs_def\<close>)
  with True show ?thesis by (simp add: GetBootConfigsByItems_def)
next
  case False
  let ?rows = "filter (\<lambda>(g, c). cfgMatches k i p c) (groupCfgs (pdb s))"
  have m: "map groupRow (map (\<lambda>(g, c). (g, Some c)) ?rows) = map Some ?rows"
    unfolding map_map
    by (rule map_cong [OF refl]) (use groupRow_wf [OF assms(2)] in \<open>auto simp: comp_def\<close>)
  have "k \<noteq> [] \<or> i \<noteq> [] \<or> p \<noteq> []" using False by blast
  note f = configParts_filter [OF assms(3-5) this, of "groupCfgs (pdb s)"]
  have "wp (dbQuery E wq ws wr (\<lambda>d. case sql_filter (glueLoop '' OR'' True (configParts k i p))
                (\<lambda>(g, c). opt_col config_col c) (leftJoinGroups d) of
              None \<Rightarrow> Inl sqlRefused | Some rows \<Rightarrow> Inr (map groupRow rows, d))) Q R s"
    if "\<And>e. \<exists>e'. wq e = e'" for wq ws wr
    by (rule wp_dbQuery [OF assms(1), where rows = ?rows and d = "pdb s"])
      (use False assms(6,7) in \<open>auto simp: leftJoinGroups_wf [OF assms(2)] f m wantedCfgs_def simp del: map_map\<close>)
  with False show ?thesis by (auto simp: GetBootConfigsByItems_def)
qed

end
