(* ===== verification/PgJoins.thy ===== *)
theory PgJoins
  imports PgReads
begin

text \<open>
  The queries over joined tables: the nodes with their configurations, the configurations with
  all their nodes, and the boot parameters that the service hands out. In a well-formed database
  the join has at most one row per node.
\<close>

subsection \<open>The join\<close>

lemma joinNodes_set:
  "(n, g, c) \<in> set (joinNodes d) \<longleftrightarrow>
     n \<in> set (t_nodes d) \<and> g \<in> set (t_groups d) \<and> c \<in> set (t_configs d) \<and>
     \<lparr>bga_BootGroupId = bg_Id g, bga_NodeId = n_Id n\<rparr> \<in> set (t_bgas d) \<and> bc_Id c = bg_BootConfigId g"
proof -
  have "\<lparr>bga_BootGroupId = i, bga_NodeId = j\<rparr> \<in> S \<longleftrightarrow>
      (\<exists>a \<in> S. bga_BootGroupId a = i \<and> bga_NodeId a = j)" for i j and S :: "BootGroupAssignment set"
  proof
    assume "\<exists>a \<in> S. bga_BootGroupId a = i \<and> bga_NodeId a = j"
    then obtain a where "a \<in> S" "bga_BootGroupId a = i" "bga_NodeId a = j" by blast
    then show "\<lparr>bga_BootGroupId = i, bga_NodeId = j\<rparr> \<in> S" by (cases a) simp
  qed force
  then show ?thesis
    unfolding joinNodes_def
    by (auto split: if_splits) (metis (mono_tags, lifting) IntI mem_Collect_eq)
qed

lemma joinNodes_wf:
  assumes "wf_db d"
  shows "(n, g, c) \<in> set (joinNodes d) \<longleftrightarrow>
     n \<in> set (t_nodes d) \<and> g \<in> set (t_groups d) \<and> c = configOf d g \<and>
     \<lparr>bga_BootGroupId = bg_Id g, bga_NodeId = n_Id n\<rparr> \<in> set (t_bgas d)"
proof -
  have "c \<in> set (t_configs d) \<and> bc_Id c = bg_BootConfigId g \<longleftrightarrow> c = configOf d g"
    if "g \<in> set (t_groups d)"
    using configOf_filter [OF assms that] assms
    by (auto intro: distinct_map_eqD [of bc_Id "t_configs d"] simp: wf_db_def)
  then show ?thesis unfolding joinNodes_set by blast
qed

lemma joinNodes_rows:
  assumes "wf_db d"
  shows "joinNodes d = concat (map (\<lambda>n. map (\<lambda>a. let g = groupOf d (bga_BootGroupId a) in (n, g, configOf d g))
           (filter (\<lambda>a. bga_NodeId a = n_Id n) (t_bgas d))) (t_nodes d))"
proof -
  have f: "concat (map (\<lambda>x. if P x then h x else []) xs) = concat (map h (filter P xs))" for P h and xs :: "'x list"
    by (induction xs) auto
  have inner: "concat (map (\<lambda>g. concat (map (\<lambda>c. [(n, g, c)]) (filter (\<lambda>c. bc_Id c = bg_BootConfigId g) (t_configs d))))
        (filter (\<lambda>g. bg_Id g = bga_BootGroupId a) (t_groups d))) =
        [let g = groupOf d (bga_BootGroupId a) in (n, g, configOf d g)]"
    if "a \<in> set (t_bgas d)" for n :: Node and a
  proof -
    have i: "bga_BootGroupId a \<in> bg_Id ` set (t_groups d)" using assms that by (auto simp: wf_db_def)
    note g = groupOf_filter [OF assms i]
    show ?thesis by (simp add: g configOf_filter [OF assms g(2)] Let_def)
  qed
  have "concat (map (\<lambda>a. concat (map (\<lambda>g. concat (map (\<lambda>c. [(n, g, c)]) (filter (\<lambda>c. bc_Id c = bg_BootConfigId g) (t_configs d))))
          (filter (\<lambda>g. bg_Id g = bga_BootGroupId a) (t_groups d)))) (filter (\<lambda>a. bga_NodeId a = n_Id n) (t_bgas d))) =
        map (\<lambda>a. let g = groupOf d (bga_BootGroupId a) in (n, g, configOf d g))
          (filter (\<lambda>a. bga_NodeId a = n_Id n) (t_bgas d))" for n :: Node
  proof -
    have "map (\<lambda>a. concat (map (\<lambda>g. concat (map (\<lambda>c. [(n, g, c)]) (filter (\<lambda>c. bc_Id c = bg_BootConfigId g) (t_configs d))))
            (filter (\<lambda>g. bg_Id g = bga_BootGroupId a) (t_groups d)))) (filter (\<lambda>a. bga_NodeId a = n_Id n) (t_bgas d)) =
          map (\<lambda>a. [let g = groupOf d (bga_BootGroupId a) in (n, g, configOf d g)])
            (filter (\<lambda>a. bga_NodeId a = n_Id n) (t_bgas d))"
      by (rule map_cong [OF refl]) (rule inner, simp)
    then show ?thesis by (simp only: concat_map_singleton)
  qed
  then show ?thesis unfolding joinNodes_def f by (simp only:)
qed

lemma bgas_of_node:
  assumes "wf_db d"
  shows "length (filter (\<lambda>a. bga_NodeId a = i) (t_bgas d)) \<le> 1"
proof (cases "i \<in> bga_NodeId ` set (t_bgas d)")
  case True
  then show ?thesis using filter_key_unique [of bga_NodeId "t_bgas d" i] assms by (auto simp: wf_db_def)
next
  case False
  then have "filter (\<lambda>a. bga_NodeId a = i) (t_bgas d) = []" by (auto simp: filter_empty_conv)
  then show ?thesis by simp
qed

lemma joinNodes_distinct:
  assumes "wf_db d"
  shows "distinct (map fst (joinNodes d))"
proof -
  have gen: "distinct (map fst (concat (map (\<lambda>n. map (\<lambda>a. (n, h a)) (F n)) ns)))"
    if "distinct ns" and "\<And>n. length (F n) \<le> 1" for F :: "Node \<Rightarrow> BootGroupAssignment list" and h :: "BootGroupAssignment \<Rightarrow> BootGroup \<times> BootConfig" and ns
    using that(1)
  proof (induction ns)
    case (Cons n ns)
    have "F n = [] \<or> (\<exists>a. F n = [a])" using that(2) [of n] by (cases "F n") auto
    then show ?case using Cons by auto
  qed simp
  have "distinct (t_nodes d)" using assms by (auto simp: wf_db_def distinct_map)
  then show ?thesis
    unfolding joinNodes_rows [OF assms] Let_def by (rule gen) (rule bgas_of_node [OF assms])
qed

lemma joinNodes_fun:
  assumes "wf_db d" and "(n, g, c) \<in> set (joinNodes d)" and "(n, g', c') \<in> set (joinNodes d)"
  shows "g' = g" and "c' = c"
  using distinct_map_eqD [OF joinNodes_distinct [OF assms(1)] assms(2,3)] by simp_all

subsection \<open>Nodes with their configurations\<close>

definition wantedJoin :: "string list \<Rightarrow> string list \<Rightarrow> int32 list \<Rightarrow> pg_db \<Rightarrow>
    (Node \<times> BootGroup \<times> BootConfig) list" where
  "wantedJoin macs xnames nids d =
     filter (\<lambda>(n, g, c). n \<in> set (wantedNodes macs xnames nids d)) (joinNodes d)"

definition asBgbc :: "BootGroup \<times> BootConfig \<Rightarrow> bgbc" where
  "asBgbc gc = \<lparr>Bg = fst gc, Bc = snd gc\<rparr>"

lemma joinCfg_wf: "wf_db d \<Longrightarrow> (n, g, c) \<in> set (joinNodes d) \<Longrightarrow> joinCfg g c = asBgbc (g, c)"
  by (simp add: joinNodes_set joinCfg_def asBgbc_def)

lemma wp_getNodesWithConfigs:
  assumes "env_ok E" and "wf_db (pdb s)" and "list_all quote_free macs" and "list_all quote_free xnames"
    and "\<And>rows. mset rows = mset (wantedJoin macs xnames nids (pdb s)) \<Longrightarrow>
           Q (map (\<lambda>(n, gc). (n, asBgbc gc)) rows) (s\<lparr>tick := Suc (tick s)\<rparr>)"
    and "\<And>e. \<not> no_faults E \<Longrightarrow> R e (s\<lparr>tick := Suc (tick s)\<rparr>)"
  shows "wp (getNodesWithConfigs E macs xnames nids) Q R s"
  unfolding getNodesWithConfigs_def wp_andThen
proof (rule wp_select [OF assms(1)])
  have m: "n \<in> set (wantedNodes macs xnames nids (pdb s)) \<longleftrightarrow>
      macs = [] \<and> xnames = [] \<and> nids = [] \<or> nodeMatches macs xnames nids n"
    if "(n, g, c) \<in> set (joinNodes (pdb s))" for n g c
    using that by (auto simp: wantedNodes_def joinNodes_set)
  show "(if length macs > 0 \<or> length xnames > 0 \<or> length nids > 0
      then sql_filter (itemsWhere macs xnames nids) (\<lambda>(n, g, c). node_col n) (joinNodes (pdb s))
      else Some (joinNodes (pdb s))) = Some (wantedJoin macs xnames nids (pdb s))"
  proof (cases "macs = [] \<and> xnames = [] \<and> nids = []")
    case True
    then have "wantedJoin macs xnames nids (pdb s) = joinNodes (pdb s)"
      unfolding wantedJoin_def by (auto simp: wantedNodes_def joinNodes_set intro!: filter_True)
    with True show ?thesis by simp
  next
    case False
    then have ne: "macs \<noteq> [] \<or> xnames \<noteq> [] \<or> nids \<noteq> []" by blast
    have "wantedJoin macs xnames nids (pdb s) = filter (\<lambda>r. nodeMatches macs xnames nids (fst r)) (joinNodes (pdb s))"
      unfolding wantedJoin_def by (rule filter_cong [OF refl]) (use False in \<open>auto simp: m\<close>)
    with ne itemsWhere_filter [OF assms(3,4) ne, of fst "joinNodes (pdb s)"]
    show ?thesis by (simp add: case_prod_unfold)
  qed
next
  fix rows
  assume r: "mset rows = mset (wantedJoin macs xnames nids (pdb s))"
  then have sub: "set rows \<subseteq> set (joinNodes (pdb s))"
    by (metis filter_is_subset mset_eq_setD wantedJoin_def)
  have "distinct (map fst (wantedJoin macs xnames nids (pdb s)))"
    unfolding wantedJoin_def by (rule distinct_map_filter_sub [OF joinNodes_distinct [OF assms(2)]])
  then have d: "distinct (map fst rows)"
    using r by (metis mset_eq_imp_distinct_iff mset_map)
  have "foldl (\<lambda>m (n, g, c). AList.update n (joinCfg g c) m) [] rows =
        foldl (\<lambda>m x. AList.update (fst x) (joinCfg (fst (snd x)) (snd (snd x))) m) [] rows"
    by (simp add: case_prod_unfold)
  also have "\<dots> = map (\<lambda>x. (fst x, joinCfg (fst (snd x)) (snd (snd x)))) rows"
    using foldl_update_fresh [OF d, of "[]"] by simp
  also have "\<dots> = map (\<lambda>(n, gc). (n, asBgbc gc)) rows"
    using sub joinCfg_wf [OF assms(2)] by (auto intro!: map_cong)
  finally show "wp (ret (foldl (\<lambda>m (n, g, c). AList.update n (joinCfg g c) m) [] rows)) Q R (s\<lparr>tick := Suc (tick s)\<rparr>)"
    using assms(5) [OF r] by simp
qed (use assms in auto)

subsection \<open>Configurations with their nodes\<close>

text \<open>Grouping in a loop: each key gets the values of its elements, in order.\<close>

lemma map_of_pushAt: "map_of (pushAt k v m) = (map_of m)(k \<mapsto> (case map_of m k of None \<Rightarrow> [v] | Some vs \<Rightarrow> vs @ [v]))"
  by (auto simp: pushAt_def update_conv' split: option.splits)

lemma distinct_pushAt: "distinct (map fst m) \<Longrightarrow> distinct (map fst (pushAt k v m))"
  by (auto simp: pushAt_def distinct_update split: option.splits)

definition grouped :: "('x \<Rightarrow> 'k) \<Rightarrow> ('x \<Rightarrow> 'v) \<Rightarrow> 'x list \<Rightarrow> ('k \<times> 'v list) list" where
  "grouped k v xs = foldl (\<lambda>m x. pushAt (k x) (v x) m) [] xs"

lemma grouped_snoc: "grouped k v (xs @ [x]) = pushAt (k x) (v x) (grouped k v xs)"
  by (simp add: grouped_def)

lemma distinct_grouped: "distinct (map fst (grouped k v xs))"
  by (induction xs rule: rev_induct) (simp_all add: grouped_snoc distinct_pushAt, simp add: grouped_def)

lemma map_of_grouped:
  "map_of (grouped k v xs) i =
   (if i \<in> k ` set xs then Some (map v (filter (\<lambda>x. k x = i) xs)) else None)"
proof (induction xs rule: rev_induct)
  case (snoc x xs)
  show ?case
  proof (cases "i \<in> k ` set xs")
    case True
    then show ?thesis using snoc by (auto simp: grouped_snoc map_of_pushAt)
  next
    case False
    then have "filter (\<lambda>x. k x = i) xs = []" by (auto simp: filter_empty_conv)
    then show ?thesis using snoc False by (auto simp: grouped_snoc map_of_pushAt)
  qed
qed (simp add: grouped_def)

lemma grouped_mem:
  "(i, vs) \<in> set (grouped k v xs) \<longleftrightarrow> i \<in> k ` set xs \<and> vs = map v (filter (\<lambda>x. k x = i) xs)"
proof -
  have "(i, vs) \<in> set (grouped k v xs) \<longleftrightarrow> map_of (grouped k v xs) i = Some vs"
    by (simp add: map_of_eq_Some_iff [OF distinct_grouped])
  then show ?thesis by (auto simp: map_of_grouped)
qed

lemma grouped_nonempty: "(i, vs) \<in> set (grouped k v xs) \<Longrightarrow> vs \<noteq> []"
  by (auto simp: grouped_mem filter_empty_conv)

definition groupsOfNodes :: "string set \<Rightarrow> pg_db \<Rightarrow> string set" where
  "groupsOfNodes ids d = {bga_BootGroupId a | a. a \<in> set (t_bgas d) \<and> bga_NodeId a \<in> ids}"

definition rowsOfGroups :: "string set \<Rightarrow> pg_db \<Rightarrow> (Node \<times> BootGroup \<times> BootConfig) list" where
  "rowsOfGroups gs d = filter (\<lambda>(n, g, c). bg_Id g \<in> gs) (joinNodes d)"

lemma wp_getConfigsWithNodes:
  assumes "env_ok E" and "wf_db (pdb s)" and "nodeIds \<noteq> []" and "list_all quote_free nodeIds"
    and "\<And>rows. mset rows = mset (rowsOfGroups (groupsOfNodes (set nodeIds) (pdb s)) (pdb s)) \<Longrightarrow>
           Q (grouped (\<lambda>(n, gc). asBgbc gc) fst rows) (s\<lparr>tick := Suc (Suc (tick s))\<rparr>)"
    and "\<And>e t. \<not> no_faults E \<Longrightarrow> R e (s\<lparr>tick := t\<rparr>)"
  shows "wp (getConfigsWithNodes E nodeIds) Q R s"
proof -
  let ?pairs = "[(g, a). g \<leftarrow> t_groups (pdb s), a \<leftarrow> t_bgas (pdb s), bg_Id g = bga_BootGroupId a]"
  let ?ids = "map (\<lambda>(g, a). bg_Id g) (filter (\<lambda>(g, a). bga_NodeId a \<in> set nodeIds) ?pairs)"
  have f1: "groupIdsOf nodeIds (pdb s) = Some ?ids"
    unfolding groupIdsOf_def
    using sql_filter_IN [of "''bga.node_id''" "''IN''" nodeIds
        "\<lambda>(g :: BootGroup, a). qual ''bga'' (bga_col a)" ?pairs] assms(3,4)
    by (simp add: qual_def bga_col_def hasPrefix_def case_prod_unfold del: filter_concat)
  have ids: "set ?ids = groupsOfNodes (set nodeIds) (pdb s)"
  proof (intro equalityI subsetI)
    fix i assume "i \<in> set ?ids"
    then obtain g a where "(g, a) \<in> set ?pairs" "bga_NodeId a \<in> set nodeIds" "i = bg_Id g" by auto
    then show "i \<in> groupsOfNodes (set nodeIds) (pdb s)"
      unfolding groupsOfNodes_def by (auto split: if_splits)
  next
    fix i assume "i \<in> groupsOfNodes (set nodeIds) (pdb s)"
    then obtain a where a: "a \<in> set (t_bgas (pdb s))" "bga_NodeId a \<in> set nodeIds" "i = bga_BootGroupId a"
      unfolding groupsOfNodes_def by blast
    then obtain g where "g \<in> set (t_groups (pdb s))" "bg_Id g = i"
      using assms(2) unfolding wf_db_def by (metis imageE)
    with a have "(g, a) \<in> set ?pairs" "bg_Id g = i" by auto
    with a(2) show "i \<in> set ?ids" by force
  qed
  have qg: "quote_free (bg_Id g)" "bg_Id g \<noteq> []" if "g \<in> set (t_groups (pdb s))" for g
    using that assms(2) by (auto simp: wf_db_def db_ids_def)
  have f2: "cfgRowsOf bgIds (pdb s) = Some (rowsOfGroups (groupsOfNodes (set nodeIds) (pdb s)) (pdb s))"
    if "mset bgIds = mset ?ids" for bgIds
  proof -
    have sb: "set bgIds = groupsOfNodes (set nodeIds) (pdb s)"
      by (rule trans [OF mset_eq_setD [OF that] ids])
    have "quote_free i" if "i \<in> groupsOfNodes (set nodeIds) (pdb s)" for i
    proof -
      from that obtain a where "a \<in> set (t_bgas (pdb s))" "i = bga_BootGroupId a"
        unfolding groupsOfNodes_def by blast
      then have "i \<in> bg_Id ` set (t_groups (pdb s))" using assms(2) by (simp add: wf_db_def)
      then show ?thesis using qg(1) by blast
    qed
    then have "list_all quote_free bgIds" by (simp add: list_all_iff sb)
    then have "cfgRowsOf bgIds (pdb s) =
        Some (filter (\<lambda>r. eval_cond (qual ''bg'' (group_col (fst (snd r)))) (CIn ''bg.id'' (sql_strs bgIds)))
                (joinNodes (pdb s)))"
      unfolding cfgRowsOf_def
      using sql_filter_IN [of "''bg.id''" "''IN''" bgIds
          "\<lambda>r. qual ''bg'' (group_col (fst (snd r)))" "joinNodes (pdb s)"]
      by (simp add: case_prod_unfold)
    also have "\<dots> = Some (rowsOfGroups (groupsOfNodes (set nodeIds) (pdb s)) (pdb s))"
      unfolding rowsOfGroups_def
      by (auto simp: qual_def hasPrefix_def group_col_def sb joinNodes_set qg intro!: filter_cong)
    finally show ?thesis .
  qed
  have g: "foldl (\<lambda>m (n, g, c). pushAt (joinCfg g c) n m) [] rows = grouped (\<lambda>(n, gc). asBgbc gc) fst rows"
    if "mset rows = mset (rowsOfGroups G (pdb s))" for rows G
  proof -
    have "set rows \<subseteq> set (joinNodes (pdb s))"
      unfolding mset_eq_setD [OF that] by (auto simp: rowsOfGroups_def)
    then show ?thesis
      unfolding grouped_def using joinCfg_wf [OF assms(2)] by (intro foldl_cong) auto
  qed
  have ne: "length nodeIds \<noteq> 0" using assms(3) by simp
  show ?thesis
    unfolding getConfigsWithNodes_def wp_if wp_andThen wp_ret if_not_P [OF ne]
  proof (rule wp_select [where f = "groupIdsOf nodeIds", OF assms(1) f1])
    fix bgIds
    assume b: "mset bgIds = mset ?ids"
    show "wp (dbQuery E (Wrapped ''could not query boot configs with nodes'')
            (Wrapped ''could not scan query results'') (Wrapped ''error parsing query results'')
            (selectStmt (cfgRowsOf bgIds)))
          (\<lambda>rows. Q (foldl (\<lambda>m (n, g, c). pushAt (joinCfg g c) n m) [] rows)) R (s\<lparr>tick := Suc (tick s)\<rparr>)"
      by (rule wp_select [OF assms(1), where rows = "rowsOfGroups (groupsOfNodes (set nodeIds) (pdb s)) (pdb s)"])
        (use f2 [OF b] assms(5,6) g in auto)
  qed (use assms(6) in auto)
qed

subsection \<open>Nodes of a group\<close>

lemma leftJoinBgas_set:
  "(n, Some a) \<in> set (leftJoinBgas d) \<longleftrightarrow>
     n \<in> set (t_nodes d) \<and> a \<in> set (t_bgas d) \<and> bga_NodeId a = n_Id n"
proof -
  have "(n, Some a) \<in> set (case filter (\<lambda>a. bga_NodeId a = n_Id m) (t_bgas d) of
            [] \<Rightarrow> [(m, None)] | as \<Rightarrow> map (\<lambda>a. (m, Some a)) as) \<longleftrightarrow>
        n = m \<and> a \<in> set (filter (\<lambda>a. bga_NodeId a = n_Id m) (t_bgas d))" for m
    by (cases "filter (\<lambda>a. bga_NodeId a = n_Id m) (t_bgas d)") auto
  then show ?thesis unfolding leftJoinBgas_def by auto
qed

lemma wp_GetNodesByBootGroupId:
  assumes "env_ok E" and "quote_free i" and "i \<noteq> []"
    and "\<And>rs. set rs = {n \<in> set (t_nodes (pdb s)). \<lparr>bga_BootGroupId = i, bga_NodeId = n_Id n\<rparr> \<in> set (t_bgas (pdb s))} \<Longrightarrow>
           Q rs (s\<lparr>tick := Suc (tick s)\<rparr>)"
    and "\<And>e. \<not> no_faults E \<Longrightarrow> R e (s\<lparr>tick := Suc (tick s)\<rparr>)"
  shows "wp (GetNodesByBootGroupId E i) Q R s"
proof -
  let ?rows = "filter (\<lambda>(n, a). \<exists>b. a = Some b \<and> bga_BootGroupId b = i) (leftJoinBgas (pdb s))"
  have "denotes (groupWhere i) (CEq ''bga.boot_group_id'' (VStr i))"
    using denotes_EQ [of "''bga.boot_group_id''" i "[]"] assms(2) by (simp add: groupWhere_def)
  then have "sql_filter (groupWhere i) (\<lambda>(n, a). qual ''bga'' (opt_col bga_col a)) (leftJoinBgas (pdb s)) =
      Some (filter (\<lambda>r. eval_cond (case r of (n, a) \<Rightarrow> qual ''bga'' (opt_col bga_col a))
        (CEq ''bga.boot_group_id'' (VStr i))) (leftJoinBgas (pdb s)))"
    by (rule sql_filter_single) (simp_all add: groupWhere_def)
  also have "\<dots> = Some ?rows"
    by (auto simp: qual_def hasPrefix_def opt_col_def bga_col_def split: option.splits intro!: filter_cong)
  finally have f: "map_option (map fst) (sql_filter (groupWhere i)
      (\<lambda>(n, a). qual ''bga'' (opt_col bga_col a)) (leftJoinBgas (pdb s))) = Some (map fst ?rows)"
    by simp
  have "set (map fst ?rows) = {n \<in> set (t_nodes (pdb s)). \<lparr>bga_BootGroupId = i, bga_NodeId = n_Id n\<rparr> \<in> set (t_bgas (pdb s))}"
    (is "?A = ?B")
  proof (intro equalityI subsetI)
    fix n assume "n \<in> ?A"
    then obtain b where "(n, Some b) \<in> set (leftJoinBgas (pdb s))" "bga_BootGroupId b = i" by auto
    then show "n \<in> ?B" by (cases b) (auto simp: leftJoinBgas_set)
  next
    fix n assume "n \<in> ?B"
    then have "(n, Some \<lparr>bga_BootGroupId = i, bga_NodeId = n_Id n\<rparr>) \<in> set (leftJoinBgas (pdb s))"
      by (simp add: leftJoinBgas_set)
    then show "n \<in> ?A" by force
  qed
  then have q: "Q rs (s\<lparr>tick := Suc (tick s)\<rparr>)" if "mset rs = mset (map fst ?rows)" for rs
    using assms(4) mset_eq_setD [OF that] by simp
  show ?thesis
    unfolding GetNodesByBootGroupId_def wp_if using assms(3)
    by (simp, intro wp_select [where rows = "map fst ?rows", OF assms(1)]) (use f q assms(5) in auto)
qed

subsection \<open>Boot parameters of nodes\<close>

definition rowParams :: "BootConfig \<Rightarrow> BootParams" where
  "rowParams c = noBootParams\<lparr>Kernel := bc_KernelUri c, Initrd := bc_InitrdUri c, Params := bc_Cmdline c\<rparr>"

lemma wp_GetBootParamsByMac:
  assumes "env_ok E" and "list_all quote_free macs"
    and "\<And>rows. mset rows = mset (filter (\<lambda>(n, g, c). n_BootMac n \<in> toLower ` set macs) (joinNodes (pdb s))) \<Longrightarrow>
           Q (map (\<lambda>(n, g, c). (rowParams c)\<lparr>Macs := [n_BootMac n]\<rparr>) rows) (s\<lparr>tick := (if macs = [] then 0 else 1) + tick s\<rparr>)"
    and "\<And>e. \<not> no_faults E \<Longrightarrow> R e (s\<lparr>tick := Suc (tick s)\<rparr>)"
  shows "wp (GetBootParamsByMac E macs) Q R s"
proof (cases "macs = []")
  case True
  then show ?thesis using assms(3) [of "[]"] by (simp add: GetBootParamsByMac_def)
next
  case False
  have f: "sql_filter ('' n.boot_mac IN '' @ stringSliceToSql (map toLower macs)) (\<lambda>(n, g, c). qual ''n'' (node_col n)) (joinNodes (pdb s)) =
      Some (filter (\<lambda>(n, g, c). n_BootMac n \<in> toLower ` set macs) (joinNodes (pdb s)))"
    using sql_filter_IN [of "''n.boot_mac''" "''IN''" "map toLower macs"
        "\<lambda>(n, g :: BootGroup, c :: BootConfig). qual ''n'' (node_col n)" "joinNodes (pdb s)"] assms(2) False
    by (simp add: list.pred_map comp_def case_prod_unfold qual_def hasPrefix_def node_col_def image_iff)
  show ?thesis
    unfolding GetBootParamsByMac_def wp_if wp_andThen wp_ret using False
    by (simp, intro wp_select [where rows = "filter (\<lambda>(n, g, c). n_BootMac n \<in> toLower ` set macs) (joinNodes (pdb s))", OF assms(1)])
      (use f assms(3,4) False in \<open>auto simp: rowParams_def\<close>)
qed

end
