(* ===== verification/PgAdd.thy ===== *)
theory PgAdd
  imports PgJoins
begin

text \<open>
  Adding boot parameters (internal/postgres/bootparams.go, addBootConfigByGroup,
  addBootConfigByNode and Add), and what a successful or failing call leaves in the database.
\<close>

subsection \<open>The operations\<close>

text \<open>The body of the loop over the groups that were not found: the lists built so far are
  the configurations, the map of groups and the result.\<close>

definition addGroupStep :: "pg_env \<Rightarrow> string \<Rightarrow> string \<Rightarrow> string \<Rightarrow> string \<Rightarrow>
    BootConfig list \<times> (string \<times> BootGroup) list \<times> (string \<times> string) list \<Rightarrow>
    (BootConfig list \<times> (string \<times> BootGroup) list \<times> (string \<times> string) list) pg" where
  "addGroupStep E kernelUri initrdUri cmdline bgName st =
     (case st of (bcList, bgMap, results) \<Rightarrow>
       andThen (mapErr (Wrapped ''could not create BootConfig'')
                  (NewBootConfig E kernelUri initrdUri cmdline)) (\<lambda>bc.
       andThen (NewBootGroup E (bc_Id bc) (''BootGroup('' @ bgName @ '')'')
                  (''Boot group with name='' @ goQuote bgName)) (\<lambda>bg.
       ret (bcList @ [bc],
            (case map_of bgMap bgName of
               Some tempBg \<Rightarrow> AList.update bgName (tempBg\<lparr>bg_BootConfigId := bc_Id bc\<rparr>) bgMap
             | None \<Rightarrow> bgMap),
            AList.update (bg_Id bg) (bc_Id bc) results))))"

definition addBootConfigByGroup :: "pg_env \<Rightarrow> string list \<Rightarrow> string \<Rightarrow> string \<Rightarrow> string \<Rightarrow>
    (string \<times> string) list pg" where
  "addBootConfigByGroup E groupNames kernelUri initrdUri cmdline =
     (if length groupNames = 0 then fail (Err ''no group names specified to add'')
      else
        andThen (dbQuery E (Wrapped ''unable to query boot database'')
                   (Wrapped ''could not scan SQL result'') (Wrapped ''could not parse query results'')
                   (selectStmt (\<lambda>d. sql_filter
                      ('' name IN '' @ stringSliceToSql (map (\<lambda>ebn. ''BootGroup('' @ ebn @ '')'') groupNames))
                      group_col (t_groups d)))) (\<lambda>rows.
        let bgMap = mkMap bg_Name rows in
        if length bgMap > 0 then
          andThen (rangeMap E bgMap) (\<lambda>ranged.
          let nonExisting = snd (getMatches groupNames (map fst ranged)); bgList = [] in
          andThen (foldEach (addGroupStep E kernelUri initrdUri cmdline) nonExisting ([], bgMap, []))
            (\<lambda>(bcList, _, results).
          andThen (if length bgList > 0
                   then mapErr (Wrapped ''failed to add boot groups'') (addBootGroups E bgList)
                   else ret ()) (\<lambda>_.
          andThen (if length bcList > 0
                   then mapErr (Wrapped ''failed to add boot configs'') (addBootConfigs E bcList)
                   else ret ()) (\<lambda>_.
          ret results))))
        else ret []))"

definition nodeGroupName :: "string \<Rightarrow> string \<Rightarrow> string \<Rightarrow> string" where
  "nodeGroupName kernelUri initrdUri cmdline =
     ''BootGroup(kernel='' @ goQuote kernelUri @ '',initrd='' @ goQuote initrdUri @
     '',params='' @ goQuote cmdline @ '')''"

definition nodeGroupDesc :: "string \<Rightarrow> string \<Rightarrow> string \<Rightarrow> string" where
  "nodeGroupDesc kernelUri initrdUri cmdline =
     ''Boot group for nodes with kernel='' @ goQuote kernelUri @ '' initrd='' @ goQuote initrdUri @
     '' params='' @ goQuote cmdline"

text \<open>The loop that looks for the configuration among the existing ones and breaks at the first.\<close>

fun findSame :: "string \<Rightarrow> string \<Rightarrow> BootConfig \<Rightarrow> (BootGroup \<times> BootConfig) list \<Rightarrow>
    (BootGroup \<times> BootConfig) option" where
  "findSame bgName bgDesc bc [] = None"
| "findSame bgName bgDesc bc ((eg, ec) # rest) =
     (if bgName = bg_Name eg \<and> bgDesc = bg_Description eg \<and> bc_KernelUri bc = bc_KernelUri ec \<and>
         bc_InitrdUri bc = bc_InitrdUri ec \<and> bc_Cmdline bc = bc_Cmdline ec
      then Some (eg, ec) else findSame bgName bgDesc bc rest)"

text \<open>The second half of \<open>addBootConfigByNode\<close>, once the group and the configuration to use
  are known.\<close>

definition addNodesToGroup :: "pg_env \<Rightarrow> Node list \<Rightarrow> BootGroup \<Rightarrow> BootConfig \<Rightarrow> bool \<Rightarrow>
    (string \<times> string) list pg" where
  "addNodesToGroup E nodeList bg bc addBcAndBg =
     andThen (mapErr (Wrapped ''could not create BootGroupAssignment'')
                (mapEach (\<lambda>node. NewBootGroupAssignment (bg_Id bg) (n_Id node)) nodeList)) (\<lambda>bgaList.
     andThen (if addBcAndBg then
                andThen (mapErr (Wrapped ''could not add BootConfig'') (addBootConfigs E [bc])) (\<lambda>_.
                andThen (mapErr (Wrapped ''could not add BootGroup'') (addBootGroups E [bg])) (\<lambda>_.
                ret (AList.update (bg_Id bg) (bc_Id bc) [])))
              else ret []) (\<lambda>result.
     andThen (mapErr (Wrapped ''failed to add nodes'') (addNodes E nodeList)) (\<lambda>_.
     andThen (mapErr (Wrapped ''could not add BootGroupAssignments'')
                (addBootGroupAssignments E bgaList)) (\<lambda>_.
     ret result))))"

definition addBootConfigByNode :: "pg_env \<Rightarrow> Node list \<Rightarrow> string \<Rightarrow> string \<Rightarrow> string \<Rightarrow>
    (string \<times> string) list pg" where
  "addBootConfigByNode E nodeList kernelUri initrdUri cmdline =
     (if length nodeList = 0 then fail (Err ''no nodes specified to add boot configurations for'')
      else
        andThen (mapErr (Wrapped ''could not get boot configs by kernel/initrd URI or params'')
                   (GetBootConfigsByItems E kernelUri initrdUri cmdline)) (\<lambda>existing.
        let bgName = nodeGroupName kernelUri initrdUri cmdline;
            bgDesc = nodeGroupDesc kernelUri initrdUri cmdline in
        andThen (mapErr (Wrapped ''could not create BootConfig'')
                   (NewBootConfig E kernelUri initrdUri cmdline)) (\<lambda>bc.
        andThen (NewBootGroup E (bc_Id bc) bgName bgDesc) (\<lambda>bg.
        case findSame bgName bgDesc bc existing of
          Some (eg, ec) \<Rightarrow> addNodesToGroup E nodeList eg ec False
        | None \<Rightarrow> addNodesToGroup E nodeList bg bc True))))"

text \<open>Names that are xnames of nodes, and the rest, which are taken for group names.\<close>

definition isNodeXname :: "pg_env \<Rightarrow> string \<Rightarrow> bool" where
  "isNodeXname E name = (case xname_type E name of None \<Rightarrow> False | Some t \<Rightarrow> t = ''Node'')"

definition splitHosts :: "pg_env \<Rightarrow> string list \<Rightarrow> string list \<times> string list" where
  "splitHosts E hosts = (filter (\<lambda>h. \<not> isNodeXname E h) hosts, filter (isNodeXname E) hosts)"

definition mapGet :: "('k \<times> Node) list \<Rightarrow> 'k \<Rightarrow> Node" where
  "mapGet m k = (case map_of m k of None \<Rightarrow> zeroNode | Some n \<Rightarrow> n)"

definition addTheNodes :: "pg_env \<Rightarrow> BootParams \<Rightarrow> Node list \<Rightarrow> (string \<times> string) list pg" where
  "addTheNodes E bp nodesToAdd =
     (if length nodesToAdd = 0 then fail (ErrPostgresAdd (ErrPostgresDuplicate NoData))
      else mapErr ErrPostgresAdd (addBootConfigByNode E nodesToAdd (Kernel bp) (Initrd bp) (Params bp)))"

definition Add :: "pg_env \<Rightarrow> BootParams \<Rightarrow> (string \<times> string) list pg" where
  "Add E bp =
     andThen (mapErr ErrPostgresAdd (GetNodesByItems E (Macs bp) (Hosts bp) (Nids bp))) (\<lambda>existing0.
     if length (Hosts bp) > 0 then
       (case splitHosts E (Hosts bp) of (groupNames, xNames) \<Rightarrow>
          if length groupNames > 0 then
            mapErr ErrPostgresAdd (addBootConfigByGroup E groupNames (Kernel bp) (Initrd bp) (Params bp))
          else if length xNames > 0 then
            andThen (mapErr ErrPostgresAdd (GetNodesByItems E (Macs bp) (Hosts bp) (Nids bp))) (\<lambda>existing.
            andThen (mapEach (\<lambda>xname. NewNode E [] xname 0)
                       (filter (\<lambda>x. mapGet (mkMap n_Xname existing) x = zeroNode) (Hosts bp)))
              (addTheNodes E bp))
          else addTheNodes E bp [])
     else if length (Macs bp) > 0 then
       andThen (mapEach (\<lambda>mac. NewNode E mac [] 0)
                  (filter (\<lambda>m. map_of (mkMap n_BootMac existing0) (toLower m) = None) (Macs bp)))
         (addTheNodes E bp)
     else if length (Nids bp) > 0 then
       andThen (mapEach (\<lambda>nid. NewNode E [] [] nid)
                  (filter (\<lambda>i. mapGet (mkMap n_Nid existing0) i = zeroNode) (Nids bp)))
         (addTheNodes E bp)
     else addTheNodes E bp [])"

subsection \<open>What is added\<close>

definition sameCfg :: "string \<Rightarrow> string \<Rightarrow> string \<Rightarrow> BootGroup \<times> BootConfig \<Rightarrow> bool" where
  "sameCfg k i p gc \<longleftrightarrow>
     bg_Name (fst gc) = nodeGroupName k i p \<and> bg_Description (fst gc) = nodeGroupDesc k i p \<and>
     bc_KernelUri (snd gc) = k \<and> bc_InitrdUri (snd gc) = i \<and> bc_Cmdline (snd gc) = p"

definition assignedTo :: "BootGroup \<Rightarrow> Node list \<Rightarrow> BootGroupAssignment list" where
  "assignedTo g ns = map (\<lambda>n. \<lparr>bga_BootGroupId = bg_Id g, bga_NodeId = n_Id n\<rparr>) ns"

text \<open>The nodes are new rows assigned to one group with the requested configuration: an
  existing one if there is one, else one new group with one new configuration.\<close>

definition addedNodes :: "pg_db \<Rightarrow> Node list \<Rightarrow> string \<Rightarrow> string \<Rightarrow> string \<Rightarrow> (string \<times> string) list \<Rightarrow>
    pg_db \<Rightarrow> bool" where
  "addedNodes d ns k i p r d' \<longleftrightarrow>
     (\<exists>g c. sameCfg k i p (g, c) \<and>
        ((g, c) \<in> set (groupCfgs d) \<and> r = [] \<and>
           d' = d\<lparr>t_nodes := t_nodes d @ ns, t_bgas := t_bgas d @ assignedTo g ns\<rparr> \<or>
         (\<forall>gc \<in> set (groupCfgs d). \<not> sameCfg k i p gc) \<and> bg_BootConfigId g = bc_Id c \<and>
           bg_Id g \<notin> db_ids d \<and> bc_Id c \<notin> db_ids d \<and> r = [(bg_Id g, bc_Id c)] \<and>
           d' = d\<lparr>t_configs := t_configs d @ [c], t_groups := t_groups d @ [g],
                  t_nodes := t_nodes d @ ns, t_bgas := t_bgas d @ assignedTo g ns\<rparr>))"

definition extends :: "pg_db \<Rightarrow> pg_db \<Rightarrow> bool" where
  "extends d d' \<longleftrightarrow>
     (\<exists>cs. t_configs d' = t_configs d @ cs) \<and> (\<exists>gs. t_groups d' = t_groups d @ gs) \<and>
     (\<exists>ns. t_nodes d' = t_nodes d @ ns) \<and> (\<exists>as. t_bgas d' = t_bgas d @ as) \<and> t_access d' = t_access d"

lemma extends_refl [simp]: "extends d d"
  by (simp add: extends_def)

lemma extends_trans: "extends d e \<Longrightarrow> extends e f \<Longrightarrow> extends d f"
  by (auto simp: extends_def)

lemma findSame_find:
  "findSame (nodeGroupName k i p) (nodeGroupDesc k i p)
     \<lparr>bc_Id = x, bc_KernelUri = k, bc_InitrdUri = i, bc_Cmdline = p\<rparr> gcs = List.find (sameCfg k i p) gcs"
proof (induction gcs)
  case (Cons gc gcs)
  then show ?case by (cases gc) (auto simp: sameCfg_def)
qed simp

lemma mapEach_assign:
  "i \<noteq> [] \<Longrightarrow> (\<And>n. n \<in> set ns \<Longrightarrow> n_Id n \<noteq> []) \<Longrightarrow>
   mapEach (\<lambda>n. NewBootGroupAssignment i (n_Id n)) ns s =
     (Inr (map (\<lambda>n. \<lparr>bga_BootGroupId = i, bga_NodeId = n_Id n\<rparr>) ns), s)"
  by (induction ns) (auto simp: NewBootGroupAssignment_def andThen_def ret_def)

lemma wp_assign:
  assumes "bg_Id g \<noteq> []" and "\<And>n. n \<in> set ns \<Longrightarrow> n_Id n \<noteq> []" and "Q (assignedTo g ns) s"
  shows "wp (mapEach (\<lambda>n. NewBootGroupAssignment (bg_Id g) (n_Id n)) ns) Q R s"
  using assms(3) by (simp add: wp_def mapEach_assign [OF assms(1,2)] assignedTo_def)

lemma assignedTo_simps [simp]:
  "map bga_NodeId (assignedTo g ns) = map n_Id ns"
  "set (assignedTo g ns) = (\<lambda>n. \<lparr>bga_BootGroupId = bg_Id g, bga_NodeId = n_Id n\<rparr>) ` set ns"
  by (simp_all add: assignedTo_def)

text \<open>The last two steps: the nodes, then their assignments.\<close>

lemma wp_addNodes_assign:
  assumes "env_ok E" and "wf E s" and "g \<in> set (t_groups (pdb s))" and "distinct (map n_Id ns)"
    and "\<And>n. n \<in> set ns \<Longrightarrow> new_id E (uctr s) (pdb s) (n_Id n) \<and> toLower (n_BootMac n) = n_BootMac n"
    and "\<And>k. wfu E (uctr s) ((pdb s)\<lparr>t_nodes := t_nodes (pdb s) @ ns, t_bgas := t_bgas (pdb s) @ assignedTo g ns\<rparr>) \<Longrightarrow>
           Q () (s\<lparr>tick := k, pdb := (pdb s)\<lparr>t_nodes := t_nodes (pdb s) @ ns, t_bgas := t_bgas (pdb s) @ assignedTo g ns\<rparr>\<rparr>)"
    and "\<And>e s'. \<not> no_faults E \<Longrightarrow> wf E s' \<Longrightarrow> extends (pdb s) (pdb s') \<Longrightarrow> R e s'"
  shows "wp (addNodes E ns) (\<lambda>_. wp (addBootGroupAssignments E (assignedTo g ns)) Q R) R s"
proof -
  let ?d = "pdb s"
  have sub: "wfu E (uctr s) (?d\<lparr>t_nodes := t_nodes ?d @ xs\<rparr>)" if "ns = xs @ ys" for xs ys
    by (rule wfu_addNodes [OF assms(1,2)]) (use assms(4,5) that in auto)
  have sub2: "wfu E (uctr s) (?d\<lparr>t_nodes := t_nodes ?d @ ns, t_bgas := t_bgas ?d @ xs\<rparr>)"
    if "assignedTo g ns = xs @ ys" for xs ys
  proof -
    have dx: "distinct (map bga_NodeId (xs @ ys))" using assms(4) that [symmetric] by simp
    have sx: "set xs \<subseteq> set (assignedTo g ns)" using that by simp
    have nx: "n_Id n \<notin> bga_NodeId ` set (t_bgas ?d)" if "n \<in> set ns" for n
    proof -
      have "bga_NodeId ` set (t_bgas ?d) \<subseteq> n_Id ` set (t_nodes ?d)"
        using assms(2) by (auto simp: wfu_def wf_db_def)
      then show ?thesis using new_idD(1) [OF assms(1)] assms(5) [OF that] by blast
    qed
    have "wfu E (uctr s) ((?d\<lparr>t_nodes := t_nodes ?d @ ns\<rparr>)\<lparr>t_bgas := t_bgas (?d\<lparr>t_nodes := t_nodes ?d @ ns\<rparr>) @ xs\<rparr>)"
    proof (rule wfu_addBgas [OF sub [of ns "[]"]])
      fix a assume "a \<in> set xs"
      then obtain n where n: "n \<in> set ns" "a = \<lparr>bga_BootGroupId = bg_Id g, bga_NodeId = n_Id n\<rparr>"
        using sx by auto
      then show "bga_NodeId a \<in> n_Id ` set (t_nodes (?d\<lparr>t_nodes := t_nodes ?d @ ns\<rparr>)) \<and>
          bga_BootGroupId a \<in> bg_Id ` set (t_groups (?d\<lparr>t_nodes := t_nodes ?d @ ns\<rparr>)) \<and>
          bga_NodeId a \<notin> bga_NodeId ` set (t_bgas (?d\<lparr>t_nodes := t_nodes ?d @ ns\<rparr>))"
        using nx [OF n(1)] assms(3) by simp
    qed (use dx in simp_all)
    then show ?thesis by simp
  qed
  show ?thesis
  proof (rule wp_addNodes)
    show "n_Id ` set ns \<inter> n_Id ` set (t_nodes ?d) = {}"
      using assms(5) by (auto simp: new_id_def db_ids_def)
    fix k
    show "wp (addBootGroupAssignments E (assignedTo g ns)) Q R
        (s\<lparr>tick := k, pdb := ?d\<lparr>t_nodes := t_nodes ?d @ ns\<rparr>\<rparr>)"
    proof (rule wp_addBootGroupAssignments, goal_cases)
      case (1 j)
      then show ?case using assms(6) [of j] sub2 [of "assignedTo g ns" "[]"] by simp
    next
      case (2 e j xs ys)
      then show ?case using sub2 [OF 2(2)] by (intro assms(7)) (auto simp: extends_def)
    qed
  next
    fix e k xs ys
    assume "\<not> no_faults E" and "ns = xs @ ys"
    then show "R e (s\<lparr>tick := k, pdb := ?d\<lparr>t_nodes := t_nodes ?d @ xs\<rparr>\<rparr>)"
      using sub [of xs ys] by (intro assms(7)) (auto simp: extends_def)
  qed (rule assms(4))
qed

text \<open>With an existing group only nodes and assignments are added.\<close>

lemma wp_addNodesToGroup_old:
  assumes "env_ok E" and "wf E s" and "g \<in> set (t_groups (pdb s))" and "distinct (map n_Id ns)"
    and "\<And>n. n \<in> set ns \<Longrightarrow> new_id E (uctr s) (pdb s) (n_Id n) \<and> toLower (n_BootMac n) = n_BootMac n"
    and "\<And>s'. wf E s' \<Longrightarrow> pdb s' = (pdb s)\<lparr>t_nodes := t_nodes (pdb s) @ ns, t_bgas := t_bgas (pdb s) @ assignedTo g ns\<rparr> \<Longrightarrow> Q [] s'"
    and "\<And>e s'. \<not> no_faults E \<Longrightarrow> wf E s' \<Longrightarrow> extends (pdb s) (pdb s') \<Longrightarrow> R e s'"
  shows "wp (addNodesToGroup E ns g c False) Q R s"
proof -
  have ids: "n_Id n \<noteq> []" if "n \<in> set ns" for n
    using assms(5) [OF that] new_idD(4) [OF assms(1)] by blast
  have gid: "bg_Id g \<noteq> []"
    using assms(2,3) by (auto simp: wfu_def wf_db_def db_ids_def)
  show ?thesis
    unfolding addNodesToGroup_def wp_andThen wp_mapErr wp_if if_False wp_ret
  proof (rule wp_assign [OF gid ids])
    show "wp (addNodes E ns) (\<lambda>_. wp (addBootGroupAssignments E (assignedTo g ns)) (\<lambda>_. Q [])
            (\<lambda>e. R (Wrapped ''could not add BootGroupAssignments'' e)))
          (\<lambda>e. R (Wrapped ''failed to add nodes'' e)) s"
      (is "wp _ (\<lambda>_. wp _ _ ?R1) ?R2 s")
    proof -
      have "wp (addNodes E ns) (\<lambda>_. wp (addBootGroupAssignments E (assignedTo g ns)) (\<lambda>_. Q [])
              (\<lambda>e s'. \<forall>e. R e s')) (\<lambda>e s'. \<forall>e. R e s') s"
        by (rule wp_addNodes_assign [OF assms(1-5)]) (use assms(6,7) in auto)
      then show ?thesis by (rule wp_mono, elim wp_mono) auto
    qed
  qed
qed

lemma wp_addNodesToGroup_new:
  assumes "env_ok E" and "wf E s" and "distinct (map n_Id ns)" and "bg_BootConfigId g = bc_Id c"
    and "new_id E (uctr s) (pdb s) (bg_Id g)" and "new_id E (uctr s) (pdb s) (bc_Id c)"
    and "bg_Id g \<noteq> bc_Id c" and "bc_KernelUri c \<noteq> []"
    and "\<And>n. n \<in> set ns \<Longrightarrow> new_id E (uctr s) (pdb s) (n_Id n) \<and> toLower (n_BootMac n) = n_BootMac n \<and>
           n_Id n \<noteq> bg_Id g \<and> n_Id n \<noteq> bc_Id c"
    and "\<And>s'. wf E s' \<Longrightarrow> pdb s' = (pdb s)\<lparr>t_configs := t_configs (pdb s) @ [c], t_groups := t_groups (pdb s) @ [g],
           t_nodes := t_nodes (pdb s) @ ns, t_bgas := t_bgas (pdb s) @ assignedTo g ns\<rparr> \<Longrightarrow> Q [(bg_Id g, bc_Id c)] s'"
    and "\<And>e s'. \<not> no_faults E \<Longrightarrow> wf E s' \<Longrightarrow> extends (pdb s) (pdb s') \<Longrightarrow> R e s'"
  shows "wp (addNodesToGroup E ns g c True) Q R s"
proof -
  let ?d = "pdb s" and ?u = "uctr s"
  let ?d1 = "?d\<lparr>t_configs := t_configs ?d @ [c]\<rparr>"
  let ?d2 = "?d1\<lparr>t_groups := t_groups ?d @ [g]\<rparr>"
  have ids: "n_Id n \<noteq> []" if "n \<in> set ns" for n
    using assms(9) [OF that] new_idD(4) [OF assms(1)] by blast
  have gid: "bg_Id g \<noteq> []"
    using assms(5) new_idD(4) [OF assms(1)] by blast
  have cfg: "bg_BootConfigId ` set (t_groups ?d) \<subseteq> bc_Id ` set (t_configs ?d)"
    using assms(2) by (auto simp: wfu_def wf_db_def)
  have w1: "wfu E ?u ?d1"
    by (rule wfu_addConfigs [OF assms(1,2)]) (use assms(6,8) in auto)
  have "wfu E ?u (?d1\<lparr>t_groups := t_groups ?d1 @ [g]\<rparr>)"
  proof (rule wfu_addGroups [OF assms(1) w1])
    show "new_id E ?u ?d1 (bg_Id h) \<and> bg_BootConfigId h \<in> bc_Id ` set (t_configs ?d1) \<and>
        bg_BootConfigId h \<notin> bg_BootConfigId ` set (t_groups ?d1)" if "h \<in> set [g]" for h
      using that assms(4-7) cfg by (auto simp: new_id_def db_ids_def)
  qed simp_all
  then have w2: "wfu E ?u ?d2" by simp
  have n2: "new_id E ?u ?d2 (n_Id n) \<and> toLower (n_BootMac n) = n_BootMac n" if "n \<in> set ns" for n
    using assms(9) [OF that] by (auto simp: new_id_def db_ids_def)
  have last: "wp (addNodes E ns) (\<lambda>_. wp (addBootGroupAssignments E (assignedTo g ns)) (\<lambda>_. Q [(bg_Id g, bc_Id c)])
          (\<lambda>e s'. \<forall>e. R e s')) (\<lambda>e s'. \<forall>e. R e s') (s\<lparr>tick := k, pdb := ?d2\<rparr>)" for k
  proof (rule wp_addNodes_assign [OF assms(1)])
    show "g \<in> set (t_groups (pdb (s\<lparr>tick := k, pdb := ?d2\<rparr>)))" by simp
    show "\<forall>e. R e s'" if "\<not> no_faults E" and "wf E s'" and "extends (pdb (s\<lparr>tick := k, pdb := ?d2\<rparr>)) (pdb s')" for s'
      using that assms(11) [OF that(1,2)] extends_trans [of ?d ?d2 "pdb s'"] by (simp add: extends_def)
  qed (use w2 n2 assms(3,10) in auto)
  show ?thesis
    unfolding addNodesToGroup_def wp_andThen wp_mapErr wp_if if_True wp_ret
  proof (rule wp_assign [OF gid ids], assumption, rule wp_addBootConfigs, goal_cases)
    case 2
    then show ?case using assms(6) by (auto simp: new_id_def db_ids_def)
  next
    case (3 k)
    show ?case
    proof (rule wp_addBootGroups, goal_cases)
      case 2
      then show ?case using assms(5) by (auto simp: new_id_def db_ids_def)
    next
      case (3 j)
      have "wp (addNodes E ns) (\<lambda>_. wp (addBootGroupAssignments E (assignedTo g ns)) (\<lambda>_. Q [(bg_Id g, bc_Id c)])
              (\<lambda>e. R (Wrapped ''could not add BootGroupAssignments'' e)))
            (\<lambda>e. R (Wrapped ''failed to add nodes'' e)) (s\<lparr>tick := j, pdb := ?d2\<rparr>)"
        using last [of j] by (rule wp_mono, elim wp_mono) auto
      then show ?case by simp
    next
      case (4 e j xs ys)
      then have "xs = [] \<or> xs = [g]" by (cases xs) auto
      then show ?case using w1 w2 4(1) by (auto intro!: assms(11) simp: extends_def)
    qed simp
  next
    case (4 e k xs ys)
    then have "xs = [] \<or> xs = [c]" by (cases xs) auto
    then show ?case using w1 assms(2) 4(1) by (auto intro!: assms(11) simp: extends_def)
  qed simp
qed

lemma new_id_gen: "env_ok E \<Longrightarrow> wfu E u d \<Longrightarrow> u \<le> k \<Longrightarrow> k < v \<Longrightarrow> new_id E v d (gen_uuid E k)"
  by (auto simp: new_id_def wfu_def)

lemma new_id_mono: "new_id E u d i \<Longrightarrow> u \<le> v \<Longrightarrow> new_id E v d i"
  unfolding new_id_def using less_le_trans by blast

lemma sameCfg_wanted:
  "k \<noteq> [] \<Longrightarrow> sameCfg k i p gc \<Longrightarrow> gc \<in> set (wantedCfgs k i p d) \<longleftrightarrow> gc \<in> set (groupCfgs d)"
  by (auto simp: wantedCfgs_def sameCfg_def cfgMatches_def case_prod_unfold)

lemma groupCfgs_group: "(g, c) \<in> set (groupCfgs d) \<Longrightarrow> g \<in> set (t_groups d)"
  by (auto simp: groupCfgs_def)

lemma wp_addBootConfigByNode:
  assumes "env_ok E" and "wf E s" and "ns \<noteq> []" and "distinct (map n_Id ns)"
    and "quote_free k" and "quote_free i" and "quote_free p"
    and "\<And>n. n \<in> set ns \<Longrightarrow> new_id E (uctr s) (pdb s) (n_Id n) \<and> toLower (n_BootMac n) = n_BootMac n"
    and "\<And>r s'. k \<noteq> [] \<Longrightarrow> wf E s' \<Longrightarrow> addedNodes (pdb s) ns k i p r (pdb s') \<Longrightarrow> Q r s'"
    and "\<And>e s'. wf E s' \<Longrightarrow> extends (pdb s) (pdb s') \<Longrightarrow> \<not> no_faults E \<or> k = [] \<and> pdb s' = pdb s \<Longrightarrow> R e s'"
  shows "wp (addBootConfigByNode E ns k i p) Q R s"
proof -
  have ne: "length ns \<noteq> 0" using assms(3) by simp
  show ?thesis
    unfolding addBootConfigByNode_def wp_andThen wp_mapErr wp_if if_not_P [OF ne] Let_def
  proof (rule wp_GetBootConfigsByItems [OF assms(1) wfu_db [OF assms(2)] assms(5-7)], goal_cases)
    case (1 rs)
    show ?case
    proof (cases "k = []")
      case True
      then show ?thesis
        using assms(2) by (auto simp: NewBootConfig_def intro!: assms(10))
    next
      case False
      let ?t = "s\<lparr>tick := Suc (tick s), uctr := uctr s + 2\<rparr>"
      let ?c = "\<lparr>bc_Id = gen_uuid E (uctr s), bc_KernelUri = k, bc_InitrdUri = i, bc_Cmdline = p\<rparr>"
      let ?g = "\<lparr>bg_Id = gen_uuid E (Suc (uctr s)), bg_BootConfigId = bc_Id ?c,
                 bg_Name = nodeGroupName k i p, bg_Description = nodeGroupDesc k i p\<rparr>"
      have wt: "wf E ?t" using wfu_mono [OF assms(2), of "uctr s + 2"] by simp
      have nn: "new_id E (uctr ?t) (pdb ?t) (n_Id n) \<and> toLower (n_BootMac n) = n_BootMac n"
        if "n \<in> set ns" for n
        using assms(8) [OF that] new_id_mono [of E "uctr s" "pdb s" _ "uctr s + 2"] by simp
      have sr: "set rs = set (wantedCfgs k i p (pdb s))" using 1 by (rule mset_eq_setD)
      have "wp (case List.find (sameCfg k i p) rs of
              None \<Rightarrow> addNodesToGroup E ns ?g ?c True
            | Some (eg, ec) \<Rightarrow> addNodesToGroup E ns eg ec False) Q R ?t"
      proof (cases "List.find (sameCfg k i p) rs")
        case None
        then have "\<forall>gc \<in> set rs. \<not> sameCfg k i p gc"
          unfolding find_None_iff by blast
        then have no: "\<forall>gc \<in> set (groupCfgs (pdb s)). \<not> sameCfg k i p gc"
          unfolding sr using sameCfg_wanted [OF False] by blast
        have ids: "new_id E (uctr ?t) (pdb ?t) (gen_uuid E (uctr s))"
          "new_id E (uctr ?t) (pdb ?t) (gen_uuid E (Suc (uctr s)))"
          using new_id_gen [OF assms(1,2)] by simp_all
        have nid: "n_Id n \<noteq> gen_uuid E (Suc (uctr s)) \<and> n_Id n \<noteq> gen_uuid E (uctr s)" if "n \<in> set ns" for n
          using assms(8) [OF that] assms(1) by (auto simp: new_id_def)
        have "wp (addNodesToGroup E ns ?g ?c True) Q R ?t"
        proof (rule wp_addNodesToGroup_new [OF assms(1) wt assms(4)], goal_cases)
          case (6 n)
          then show ?case using nn nid by simp
        next
          case (7 s')
          then show ?case
            by (intro assms(9) [OF False])
              (use no ids in \<open>auto simp: addedNodes_def sameCfg_def new_id_def intro!: exI [of _ ?g] exI [of _ ?c]\<close>)
        next
          case (8 e s')
          then show ?case by (intro assms(10)) simp_all
        qed (use ids assms(1) False in simp_all)
        with None show ?thesis by simp
      next
        case (Some gc)
        obtain g c where gc: "gc = (g, c)" by (cases gc)
        have s: "sameCfg k i p (g, c)" "(g, c) \<in> set (groupCfgs (pdb s))"
          using Some sr sameCfg_wanted [OF False] by (auto simp: gc find_Some_iff) (metis nth_mem)
        have "wp (addNodesToGroup E ns g c False) Q R ?t"
        proof (rule wp_addNodesToGroup_old [OF assms(1) wt _ assms(4) nn], goal_cases)
          case 1
          then show ?case using groupCfgs_group [OF s(2)] by simp
        next
          case (3 s')
          then show ?case
            by (intro assms(9) [OF False]) (use s in \<open>auto simp: addedNodes_def\<close>)
        next
          case (4 e s')
          then show ?case by (intro assms(10)) simp_all
        qed simp
        with Some gc show ?thesis by simp
      qed
      with False show ?thesis
        by (simp add: NewBootConfig_def NewBootGroup_def findSame_find cong: option.case_cong)
    qed
  next
    case (2 e)
    then show ?case using assms(2) by (intro assms(10)) simp_all
  qed
qed

subsection \<open>Add for nodes\<close>

definition nodeKey :: "Node \<Rightarrow> string \<times> string \<times> int32" where
  "nodeKey n = (n_BootMac n, n_Xname n, n_Nid n)"

text \<open>The nodes of a request that are not in the database yet, in the order of the request.\<close>

definition missingNodes :: "BootParams \<Rightarrow> pg_db \<Rightarrow> (string \<times> string \<times> int32) list" where
  "missingNodes bp d =
     (if Hosts bp \<noteq> [] then
        map (\<lambda>x. ([], x, 0)) (filter (\<lambda>x. x \<notin> n_Xname ` set (t_nodes d)) (Hosts bp))
      else if Macs bp \<noteq> [] then
        map (\<lambda>m. (toLower m, [], 0)) (filter (\<lambda>m. toLower m \<notin> n_BootMac ` set (t_nodes d)) (Macs bp))
      else map (\<lambda>i. ([], [], i)) (filter (\<lambda>i. i \<notin> n_Nid ` set (t_nodes d)) (Nids bp)))"

definition bp_clean :: "BootParams \<Rightarrow> bool" where
  "bp_clean bp \<longleftrightarrow> quote_free (Kernel bp) \<and> quote_free (Initrd bp) \<and> quote_free (Params bp) \<and>
     list_all quote_free (Hosts bp) \<and> list_all quote_free (Macs bp)"

lemma NewNode_eq:
  "NewNode E m x i s =
     (Inr \<lparr>n_Id = gen_uuid E (uctr s), n_BootMac = toLower m, n_Xname = x, n_Nid = i\<rparr>, s\<lparr>uctr := Suc (uctr s)\<rparr>)"
  by (simp add: NewNode_def andThen_def freshId_def ret_def)

lemma mapEach_NewNode:
  "mapEach (\<lambda>x. NewNode E (f x) (g x) (h x)) xs s =
     (Inr (map2 (\<lambda>j x. \<lparr>n_Id = gen_uuid E j, n_BootMac = toLower (f x), n_Xname = g x, n_Nid = h x\<rparr>)
             [uctr s..<uctr s + length xs] xs), s\<lparr>uctr := uctr s + length xs\<rparr>)"
proof (induction xs arbitrary: s)
  case (Cons x xs)
  have "[uctr s..<uctr s + length (x # xs)] = uctr s # [Suc (uctr s)..<Suc (uctr s) + length xs]"
    by (simp add: upt_conv_Cons del: upt_Suc)
  then show ?case
    using Cons.IH [of "s\<lparr>uctr := Suc (uctr s)\<rparr>"]
    by (simp add: andThen_def NewNode_eq ret_def del: upt_Suc)
qed (simp add: ret_def)

lemma wp_NewNodes:
  assumes "env_ok E" and "wf E s"
    and "\<And>ns. map nodeKey ns = map (\<lambda>x. (toLower (f x), g x, h x)) xs \<Longrightarrow> distinct (map n_Id ns) \<Longrightarrow>
           (\<And>n. n \<in> set ns \<Longrightarrow> new_id E (uctr s + length xs) (pdb s) (n_Id n) \<and> toLower (n_BootMac n) = n_BootMac n) \<Longrightarrow>
           Q ns (s\<lparr>uctr := uctr s + length xs\<rparr>)"
  shows "wp (mapEach (\<lambda>x. NewNode E (f x) (g x) (h x)) xs) Q R s"
proof -
  let ?js = "[uctr s..<uctr s + length xs]"
  let ?F = "\<lambda>j x. \<lparr>n_Id = gen_uuid E j, n_BootMac = toLower (f x), n_Xname = g x, n_Nid = h x\<rparr>"
  have len: "length ?js = length xs" by simp
  have ids: "map n_Id (map2 ?F ?js xs) = map (gen_uuid E) ?js"
    by (rule nth_equalityI) simp_all
  have "map nodeKey (map2 ?F ?js xs) = map (\<lambda>x. (toLower (f x), g x, h x)) xs"
    by (rule nth_equalityI) (simp_all add: nodeKey_def)
  moreover have "distinct (map n_Id (map2 ?F ?js xs))"
    unfolding ids using assms(1) by (auto simp: distinct_map inj_on_def)
  moreover have "new_id E (uctr s + length xs) (pdb s) (n_Id n) \<and> toLower (n_BootMac n) = n_BootMac n"
    if "n \<in> set (map2 ?F ?js xs)" for n
  proof -
    from that obtain j x where j: "j \<in> set ?js" "n = ?F j x"
      by (auto dest: set_zip_leftD)
    then show ?thesis using new_id_gen [OF assms(1,2), of j "uctr s + length xs"] by simp
  qed
  ultimately have "Q (map2 ?F ?js xs) (s\<lparr>uctr := uctr s + length xs\<rparr>)"
    by (rule assms(3))
  then show ?thesis by (simp add: wp_def mapEach_NewNode)
qed

lemma wp_addTheNodes:
  assumes "env_ok E" and "wf E s" and "bp_clean bp" and "distinct (map n_Id ns)"
    and "\<And>n. n \<in> set ns \<Longrightarrow> new_id E (uctr s) (pdb s) (n_Id n) \<and> toLower (n_BootMac n) = n_BootMac n"
    and "\<And>r s'. ns \<noteq> [] \<Longrightarrow> Kernel bp \<noteq> [] \<Longrightarrow> wf E s' \<Longrightarrow>
           addedNodes (pdb s) ns (Kernel bp) (Initrd bp) (Params bp) r (pdb s') \<Longrightarrow> Q r s'"
    and "\<And>e s'. wf E s' \<Longrightarrow> extends (pdb s) (pdb s') \<Longrightarrow>
           \<not> no_faults E \<or> pdb s' = pdb s \<and>
             (if ns = [] then e = ErrPostgresAdd (ErrPostgresDuplicate NoData) else Kernel bp = []) \<Longrightarrow> R e s'"
  shows "wp (addTheNodes E bp ns) Q R s"
proof (cases "ns = []")
  case True
  then show ?thesis using assms(2,7) by (simp add: addTheNodes_def)
next
  case False
  have "wp (addBootConfigByNode E ns (Kernel bp) (Initrd bp) (Params bp)) Q (\<lambda>e. R (ErrPostgresAdd e)) s"
    by (rule wp_addBootConfigByNode [OF assms(1,2) False assms(4)])
      (use assms(3,5-7) False in \<open>auto simp: bp_clean_def\<close>)
  with False show ?thesis by (simp add: addTheNodes_def)
qed

lemma mapGet_mkMap:
  assumes "\<And>n. n \<in> set xs \<Longrightarrow> n_Id n \<noteq> []"
  shows "mapGet (mkMap key xs) k = zeroNode \<longleftrightarrow> k \<notin> key ` set xs"
proof (cases "map_of (mkMap key xs) k")
  case None
  then have "k \<notin> key ` set xs" by (simp add: mkMap_None)
  with None show ?thesis by (simp add: mapGet_def)
next
  case (Some n)
  then have "k \<in> key ` set xs" using mkMap_None [of key xs k] by auto
  moreover have "n \<noteq> zeroNode" using mkMap_SomeD [OF Some] assms [of n] by (auto simp: zeroNode_def)
  ultimately show ?thesis using Some by (simp add: mapGet_def)
qed

lemma wf_node_ids: "wf_db d \<Longrightarrow> n \<in> set (t_nodes d) \<Longrightarrow> n_Id n \<noteq> []"
  by (auto simp: wf_db_def db_ids_def)

lemma wantedNodes_sub: "set (wantedNodes macs xs nids d) \<subseteq> set (t_nodes d)"
  by (auto simp: wantedNodes_def)

lemma wp_Add:
  assumes E: "env_ok E" and w: "wf E s" and c: "bp_clean bp" and h: "list_all (isNodeXname E) (Hosts bp)"
    and Q: "\<And>r s' ns. map nodeKey ns = missingNodes bp (pdb s) \<Longrightarrow> ns \<noteq> [] \<Longrightarrow> Kernel bp \<noteq> [] \<Longrightarrow> wf E s' \<Longrightarrow>
           distinct (map n_Id ns) \<Longrightarrow> (\<And>n. n \<in> set ns \<Longrightarrow> n_Id n \<notin> db_ids (pdb s)) \<Longrightarrow>
           addedNodes (pdb s) ns (Kernel bp) (Initrd bp) (Params bp) r (pdb s') \<Longrightarrow> Q r s'"
    and R: "\<And>e s'. wf E s' \<Longrightarrow> extends (pdb s) (pdb s') \<Longrightarrow>
           \<not> no_faults E \<or> pdb s' = pdb s \<and>
             (if missingNodes bp (pdb s) = [] then e = ErrPostgresAdd (ErrPostgresDuplicate NoData) else Kernel bp = []) \<Longrightarrow> R e s'"
  shows "wp (Add E bp) Q R s"
proof -
  have q: "list_all quote_free (Macs bp)" "list_all quote_free (Hosts bp)"
    using c by (simp_all add: bp_clean_def)
  have split: "splitHosts E (Hosts bp) = ([], Hosts bp)"
    using h by (auto simp: splitHosts_def list_all_iff filter_empty_conv)
  have flt: "wp (addTheNodes E bp ns) Q R t"
    if "map nodeKey ns = missingNodes bp (pdb s)" and "distinct (map n_Id ns)" and "wf E t" and "pdb t = pdb s"
      and "\<And>n. n \<in> set ns \<Longrightarrow> new_id E (uctr t) (pdb s) (n_Id n) \<and> toLower (n_BootMac n) = n_BootMac n" for ns t
  proof (rule wp_addTheNodes [OF E that(3) c that(2)], goal_cases)
    case (1 n)
    then show ?case using that(4,5) by simp
  next
    case (2 r s')
    then show ?case using that(4) that(5) by (intro Q [OF that(1) _ _ _ that(2)]) (auto simp: new_id_def)
  next
    case (3 e s')
    moreover have "missingNodes bp (pdb s) = [] \<longleftrightarrow> ns = []" using that(1) by (metis map_is_Nil_conv)
    ultimately show ?case using that(4) by (intro R) auto
  qed
  have new: "wp (mapEach (\<lambda>x. NewNode E (f x) (g x) (k x)) xs) (\<lambda>ns. wp (addTheNodes E bp ns) Q R) R (s\<lparr>tick := j\<rparr>)"
    if "map (\<lambda>x. (toLower (f x), g x, k x)) xs = missingNodes bp (pdb s)" for f g k and xs :: "'x list" and j
    by (rule wp_NewNodes [OF E]) (use w that wfu_mono [OF w] in \<open>auto intro!: flt\<close>)
  have ex: "set rs = set (wantedNodes (Macs bp) (Hosts bp) (Nids bp) (pdb s)) \<and> (\<forall>n \<in> set rs. n_Id n \<noteq> [])"
    if "mset rs = mset (wantedNodes (Macs bp) (Hosts bp) (Nids bp) (pdb s))" for rs
    using mset_eq_setD [OF that] wantedNodes_sub wf_node_ids [OF wfu_db [OF w]] by fast
  have fault: "R e (s\<lparr>tick := j\<rparr>)" if "\<not> no_faults E" for e j
    using that w by (intro R) simp_all
  have z: "toLower [] = []" by simp
  show ?thesis
    unfolding Add_def wp_andThen wp_mapErr
  proof (rule wp_GetNodesByItems [OF E q], goal_cases)
    case (1 rs)
    note s = ex [OF 1]
    show ?case
    proof (cases "Hosts bp = []")
      case False
      have "wp (GetNodesByItems E (Macs bp) (Hosts bp) (Nids bp)) (\<lambda>existing.
              wp (mapEach (\<lambda>xname. NewNode E [] xname 0)
                    (filter (\<lambda>x. mapGet (mkMap n_Xname existing) x = zeroNode) (Hosts bp)))
                (\<lambda>ns. wp (addTheNodes E bp ns) Q R) R) (\<lambda>e. R (ErrPostgresAdd e)) (s\<lparr>tick := Suc (tick s)\<rparr>)"
      proof (rule wp_GetNodesByItems [OF E q], goal_cases)
        case (1 rs')
        then have "mset rs' = mset (wantedNodes (Macs bp) (Hosts bp) (Nids bp) (pdb s))" by simp
        note s' = ex [OF this]
        have "filter (\<lambda>x. mapGet (mkMap n_Xname rs') x = zeroNode) (Hosts bp) =
              filter (\<lambda>x. x \<notin> n_Xname ` set (t_nodes (pdb s))) (Hosts bp)"
          using mapGet_mkMap [of rs' n_Xname] s'
          by (intro filter_cong) (simp_all add: wantedNodes_keys)
        then show ?case
          using False new [of "\<lambda>_. []" "\<lambda>x. x" "\<lambda>_. 0" "filter (\<lambda>x. x \<notin> n_Xname ` set (t_nodes (pdb s))) (Hosts bp)" "Suc (Suc (tick s))"]
          by (simp add: missingNodes_def)
      next
        case (2 e)
        then show ?case using fault by simp
      qed
      with False show ?thesis by (simp add: split)
    next
      case True
      show ?thesis
      proof (cases "Macs bp = []")
        case False
        have "filter (\<lambda>m. map_of (mkMap n_BootMac rs) (toLower m) = None) (Macs bp) =
              filter (\<lambda>m. toLower m \<notin> n_BootMac ` set (t_nodes (pdb s))) (Macs bp)"
          by (rule filter_cong) (use s in \<open>simp_all add: mkMap_None wantedNodes_keys\<close>)
        then show ?thesis
          using True False new [of "\<lambda>x. x" "\<lambda>_. []" "\<lambda>_. 0" "filter (\<lambda>m. toLower m \<notin> n_BootMac ` set (t_nodes (pdb s))) (Macs bp)" "Suc (tick s)"]
          by (simp add: missingNodes_def)
      next
        case m: True
        have "filter (\<lambda>i. mapGet (mkMap n_Nid rs) i = zeroNode) (Nids bp) =
              filter (\<lambda>i. i \<notin> n_Nid ` set (t_nodes (pdb s))) (Nids bp)"
          using mapGet_mkMap [of rs n_Nid] s
          by (intro filter_cong) (simp_all add: wantedNodes_keys)
        moreover have "wp (addTheNodes E bp []) Q R (s\<lparr>tick := Suc (tick s)\<rparr>)" if "Nids bp = []"
          by (rule flt) (use that True m w in \<open>simp_all add: missingNodes_def\<close>)
        ultimately show ?thesis
          using True m new [of "\<lambda>_. []" "\<lambda>_. []" "\<lambda>x. x" "filter (\<lambda>i. i \<notin> n_Nid ` set (t_nodes (pdb s))) (Nids bp)" "Suc (tick s)"]
          by (simp add: missingNodes_def)
      qed
    qed
  next
    case (2 e)
    then show ?case using fault by simp
  qed
qed

subsection \<open>A concrete environment\<close>

text \<open>Used to evaluate the operations on concrete inputs: ids u0, u1, \dots, rows and maps in
  their stored order, no faults; a host is a node xname when it starts with x.\<close>

definition demoEnv :: pg_env where
  "demoEnv = \<lparr>gen_uuid = (\<lambda>k. CHR ''u'' # nat_str k), db_fault = (\<lambda>_. NoFault),
     row_order = (\<lambda>_ n. [0..<n]), map_order = (\<lambda>_ n. [0..<n]),
     xname_type = (\<lambda>s. if hasPrefix s ''x'' then Some ''Node'' else None), unix_now = (\<lambda>t. 1000 + int t)\<rparr>"

definition emptyDb :: pg_db where
  "emptyDb = \<lparr>t_nodes = [], t_bgas = [], t_groups = [], t_configs = [], t_access = []\<rparr>"

definition emptySt :: pgst where
  "emptySt = \<lparr>pdb = emptyDb, tick = 0, uctr = 0\<rparr>"

definition demoBp :: BootParams where
  "demoBp = noBootParams\<lparr>Macs := [''AA'', ''bb''], Kernel := ''k'', Initrd := ''i'', Params := ''p''\<rparr>"

lemma quote_free_nat_str [simp]: "quote_free (nat_str n)"
  unfolding quote_free_def using nat_str_digits [of sq n] by auto

lemma quote_free_Cons: "quote_free (c # s) \<longleftrightarrow> c \<noteq> sq \<and> quote_free s"
  by (auto simp: quote_free_def)

lemma demoEnv_ok: "env_ok demoEnv" "no_faults demoEnv"
  by (auto simp: env_ok_def demoEnv_def no_faults_def inj_def quote_free_Cons sq_def dest: nat_str_inj)

lemma emptySt_wf: "wf E emptySt"
  by (simp add: emptySt_def emptyDb_def wfu_def wf_db_def db_ids_def)

subsection \<open>The effect on the boot parameters of nodes\<close>

text \<open>The abstract content of the database: which node boots with which kernel, initrd and
  parameters, as a multiset since two rows may have the same MAC address, xname and NID.\<close>

definition cfgVals :: "BootConfig \<Rightarrow> string \<times> string \<times> string" where
  "cfgVals c = (bc_KernelUri c, bc_InitrdUri c, bc_Cmdline c)"

definition bootView :: "pg_db \<Rightarrow> ((string \<times> string \<times> int32) \<times> (string \<times> string \<times> string)) multiset" where
  "bootView d = mset (map (\<lambda>(n, g, c). (nodeKey n, cfgVals c)) (joinNodes d))"

lemma wf_bga_node: "wf_db d \<Longrightarrow> \<lparr>bga_BootGroupId = x, bga_NodeId = y\<rparr> \<in> set (t_bgas d) \<Longrightarrow>
    y \<in> n_Id ` set (t_nodes d) \<and> x \<in> bg_Id ` set (t_groups d)"
  by (force simp: wf_db_def)

lemma groupCfgs_wf: "wf_db d \<Longrightarrow> (g, c) \<in> set (groupCfgs d) \<Longrightarrow>
    g \<in> set (t_groups d) \<and> c \<in> set (t_configs d) \<and> bc_Id c = bg_BootConfigId g"
  by (auto simp: groupCfgs_def configOf_filter)

text \<open>A database \<open>d'\<close> that has the rows of \<open>d\<close> and, for new nodes, assignments to one group.\<close>

lemma joinNodes_added:
  assumes w: "wf_db d" and w': "wf_db d'"
    and nodes: "set (t_nodes d') = set (t_nodes d) \<union> set ns"
    and bgas: "set (t_bgas d') = set (t_bgas d) \<union> set (assignedTo g ns)"
    and groups: "set (t_groups d) \<subseteq> set (t_groups d')" "g \<in> set (t_groups d')"
    and configs: "set (t_configs d) \<subseteq> set (t_configs d')" "c \<in> set (t_configs d')"
    and gc: "bc_Id c = bg_BootConfigId g"
    and new: "\<And>n. n \<in> set ns \<Longrightarrow> n_Id n \<notin> db_ids d" and dist: "distinct (map n_Id ns)"
  shows "mset (joinNodes d') = mset (joinNodes d) + mset (map (\<lambda>n. (n, g, c)) ns)"
proof -
  let ?A = "joinNodes d @ map (\<lambda>n. (n, g, c)) ns"
  have old: "n \<notin> set ns" if "n \<in> set (t_nodes d)" for n
    using that new by (auto simp: db_ids_def)
  have sub: "set ?A \<subseteq> set (joinNodes d')"
    using nodes bgas groups configs gc by (auto simp: joinNodes_set)
  have "x \<in> set ?A" if x: "x \<in> set (joinNodes d')" for x
  proof -
    obtain n g' c' where xe: "x = (n, g', c')" by (cases x)
    have j: "n \<in> set (t_nodes d')" "\<lparr>bga_BootGroupId = bg_Id g', bga_NodeId = n_Id n\<rparr> \<in> set (t_bgas d')"
      using x unfolding xe joinNodes_set by blast+
    have uniq: "x = (m, h, e)" if "(m, h, e) \<in> set ?A" "m = n" for m h e
      using joinNodes_fun [OF w', of n g' c' h e] x sub that by (auto simp: xe)
    show ?thesis
    proof (cases "n \<in> set ns")
      case True
      then have "(n, g, c) \<in> set ?A" by simp
      with uniq [OF this] show ?thesis by simp
    next
      case False
      then have n: "n \<in> set (t_nodes d)" using j(1) nodes by blast
      have "n_Id n \<in> db_ids d" using n by (simp add: db_ids_def)
      then have "n_Id n \<notin> n_Id ` set ns" using new by force
      then have b: "\<lparr>bga_BootGroupId = bg_Id g', bga_NodeId = n_Id n\<rparr> \<in> set (t_bgas d)"
        using j(2) bgas by auto
      obtain g0 where g0: "g0 \<in> set (t_groups d)" "bg_Id g0 = bg_Id g'"
        using wf_bga_node [OF w b] by auto
      then have "(n, g0, configOf d g0) \<in> set (joinNodes d)"
        using n b by (simp add: joinNodes_wf [OF w])
      with uniq [of n g0 "configOf d g0"] show ?thesis by auto
    qed
  qed
  with sub have seq: "set (joinNodes d') = set ?A" by blast
  have "distinct (joinNodes d')" "distinct (joinNodes d)"
    using joinNodes_distinct [OF w'] joinNodes_distinct [OF w] by (auto simp: distinct_map)
  moreover have "distinct ns" using dist by (simp add: distinct_map)
  ultimately have "distinct ?A"
    using old by (auto simp: distinct_map inj_on_def joinNodes_set)
  with seq \<open>distinct (joinNodes d')\<close> have "mset (joinNodes d') = mset ?A"
    by (simp only: set_eq_iff_mset_eq_distinct)
  then show ?thesis by simp
qed

lemma addedNodes_view:
  assumes "wf_db d" and "wf_db d'" and "addedNodes d ns k i p r d'"
    and "\<And>n. n \<in> set ns \<Longrightarrow> n_Id n \<notin> db_ids d" and "distinct (map n_Id ns)"
  shows "bootView d' = bootView d + mset (map (\<lambda>n. (nodeKey n, (k, i, p))) ns)"
proof -
  obtain g c where gc: "sameCfg k i p (g, c)"
    and m: "mset (joinNodes d') = mset (joinNodes d) + mset (map (\<lambda>n. (n, g, c)) ns)"
  proof -
    from assms(3) obtain g c where s: "sameCfg k i p (g, c)"
      and "((g, c) \<in> set (groupCfgs d) \<and> r = [] \<and>
           d' = d\<lparr>t_nodes := t_nodes d @ ns, t_bgas := t_bgas d @ assignedTo g ns\<rparr>) \<or>
         (bg_BootConfigId g = bc_Id c \<and>
           d' = d\<lparr>t_configs := t_configs d @ [c], t_groups := t_groups d @ [g],
                  t_nodes := t_nodes d @ ns, t_bgas := t_bgas d @ assignedTo g ns\<rparr>)"
      unfolding addedNodes_def by blast
    then have "mset (joinNodes d') = mset (joinNodes d) + mset (map (\<lambda>n. (n, g, c)) ns)"
      using groupCfgs_wf [OF assms(1)]
      by (intro joinNodes_added [OF assms(1,2) _ _ _ _ _ _ _ assms(4,5)]) auto
    with s that show thesis by blast
  qed
  have "cfgVals c = (k, i, p)" using gc by (simp add: sameCfg_def cfgVals_def)
  then show ?thesis
    unfolding bootView_def mset_map m by (simp add: comp_def flip: mset_map)
qed

subsection \<open>Properties of Add\<close>

text \<open>What is asked of a request for nodes: no quote in a string, hosts are xnames of nodes.\<close>

definition nodeRequest :: "pg_env \<Rightarrow> BootParams \<Rightarrow> bool" where
  "nodeRequest E bp \<longleftrightarrow> bp_clean bp \<and> list_all (isNodeXname E) (Hosts bp)"

lemma Add_wp:
  assumes "env_ok E" and "wf E s" and "nodeRequest E bp"
  shows "wp (Add E bp)
     (\<lambda>r s'. wf E s' \<and> missingNodes bp (pdb s) \<noteq> [] \<and> Kernel bp \<noteq> [] \<and> length r \<le> 1 \<and>
        bootView (pdb s') = bootView (pdb s) +
          mset (map (\<lambda>n. (n, (Kernel bp, Initrd bp, Params bp))) (missingNodes bp (pdb s))) \<and>
        (\<exists>ns. map nodeKey ns = missingNodes bp (pdb s) \<and> t_nodes (pdb s') = t_nodes (pdb s) @ ns) \<and>
        (if \<exists>gc \<in> set (groupCfgs (pdb s)). sameCfg (Kernel bp) (Initrd bp) (Params bp) gc
         then r = [] \<and> t_groups (pdb s') = t_groups (pdb s) \<and> t_configs (pdb s') = t_configs (pdb s)
         else \<exists>g c. r = [(bg_Id g, bc_Id c)] \<and> t_groups (pdb s') = t_groups (pdb s) @ [g] \<and>
                t_configs (pdb s') = t_configs (pdb s) @ [c]))
     (\<lambda>e s'. wf E s' \<and> extends (pdb s) (pdb s') \<and>
        (\<not> no_faults E \<or> pdb s' = pdb s \<and>
          (if missingNodes bp (pdb s) = [] then e = ErrPostgresAdd (ErrPostgresDuplicate NoData) else Kernel bp = []))) s"
proof (rule wp_Add, goal_cases)
  case (5 r s' ns)
  have v: "bootView (pdb s') = bootView (pdb s) + mset (map (\<lambda>n. (nodeKey n, (Kernel bp, Initrd bp, Params bp))) ns)"
    by (rule addedNodes_view [OF wfu_db [OF assms(2)] wfu_db [OF 5(4)] 5(7,6,5)])
  have "map (\<lambda>n. (n, (Kernel bp, Initrd bp, Params bp))) (missingNodes bp (pdb s)) =
      map (\<lambda>n. (nodeKey n, (Kernel bp, Initrd bp, Params bp))) ns"
    unfolding 5(1) [symmetric] by simp
  moreover have "missingNodes bp (pdb s) \<noteq> []" using 5(1,2) by auto
  ultimately show ?case
    using 5(1,3,4,7) v by (auto simp: addedNodes_def)
qed (use assms in \<open>auto simp: nodeRequest_def\<close>)

text \<open>C1. A successful Add, whatever faults the database has, leaves a well-formed database in
  which the missing nodes of the request, and only they, boot with the requested
  kernel, initrd and parameters, and every other node boots as before.\<close>

theorem Add_correct:
  assumes "env_ok E" and "wf E s" and "nodeRequest E bp" and "Add E bp s = (Inr r, s')"
  shows "wf E s' \<and> missingNodes bp (pdb s) \<noteq> [] \<and>
     bootView (pdb s') = bootView (pdb s) +
       mset (map (\<lambda>n. (n, (Kernel bp, Initrd bp, Params bp))) (missingNodes bp (pdb s))) \<and>
     (\<exists>ns. map nodeKey ns = missingNodes bp (pdb s) \<and> t_nodes (pdb s') = t_nodes (pdb s) @ ns)"
  using wp_result(1) [OF Add_wp [OF assms(1-3)] assms(4)] by blast

lemma demo_request: "nodeRequest demoEnv demoBp"
  by code_simp

lemma Add_correct_witness:
  "fst (Add demoEnv demoBp emptySt) = Inr [(''u3'', ''u2'')] \<and>
   bootView (pdb (snd (Add demoEnv demoBp emptySt))) =
     bootView emptyDb + mset (map (\<lambda>n. (n, (''k'', ''i'', ''p''))) (missingNodes demoBp emptyDb))"
proof -
  have a: "Add demoEnv demoBp emptySt = (Inr [(''u3'', ''u2'')], snd (Add demoEnv demoBp emptySt))"
    by code_simp
  have v: "Kernel demoBp = ''k''" "Initrd demoBp = ''i''" "Params demoBp = ''p''" "pdb emptySt = emptyDb"
    by (simp_all add: demoBp_def emptySt_def)
  have "fst (Add demoEnv demoBp emptySt) = Inr [(''u3'', ''u2'')]"
    by (subst a) (rule fst_conv)
  with Add_correct [OF demoEnv_ok(1) emptySt_wf demo_request a, unfolded v] show ?thesis by blast
qed

text \<open>C25. Deduplication: when some group with its configuration already is exactly the one Add
  would create, the new nodes are assigned to it and no group or configuration is added;
  otherwise exactly one of each is, and the result reports their ids.\<close>

theorem Add_reuses_config:
  assumes "env_ok E" and "wf E s" and "nodeRequest E bp" and "Add E bp s = (Inr r, s')"
  shows "if \<exists>gc \<in> set (groupCfgs (pdb s)). sameCfg (Kernel bp) (Initrd bp) (Params bp) gc
         then r = [] \<and> t_groups (pdb s') = t_groups (pdb s) \<and> t_configs (pdb s') = t_configs (pdb s)
         else \<exists>g c. r = [(bg_Id g, bc_Id c)] \<and> t_groups (pdb s') = t_groups (pdb s) @ [g] \<and>
                t_configs (pdb s') = t_configs (pdb s) @ [c]"
  using wp_result(1) [OF Add_wp [OF assms(1-3)] assms(4)] by blast

definition demoSt :: pgst where
  "demoSt = snd (Add demoEnv demoBp emptySt)"

definition demoBp2 :: BootParams where
  "demoBp2 = demoBp\<lparr>Macs := [''cc'']\<rparr>"

lemma demoSt_wf: "wf demoEnv demoSt"
proof -
  have "Add demoEnv demoBp emptySt = (Inr [(''u3'', ''u2'')], demoSt)"
    unfolding demoSt_def by code_simp
  from wp_result(1) [OF Add_wp [OF demoEnv_ok(1) emptySt_wf demo_request] this] show ?thesis
    by blast
qed

lemma Add_reuses_config_witness:
  "fst (Add demoEnv demoBp2 demoSt) = Inr [] \<and>
   t_groups (pdb (snd (Add demoEnv demoBp2 demoSt))) = t_groups (pdb demoSt)"
proof -
  have a: "Add demoEnv demoBp2 demoSt = (Inr [], snd (Add demoEnv demoBp2 demoSt))"
    by code_simp
  have "nodeRequest demoEnv demoBp2" by code_simp
  from Add_reuses_config [OF demoEnv_ok(1) demoSt_wf this a]
  have "t_groups (pdb (snd (Add demoEnv demoBp2 demoSt))) = t_groups (pdb demoSt)"
    by (simp only: split: if_splits) simp
  moreover have "fst (Add demoEnv demoBp2 demoSt) = Inr []"
    by (subst a) (rule fst_conv)
  ultimately show ?thesis by blast
qed

text \<open>C26. When Add fails, whatever the faults, the database is still well formed and every row it
  had is still there: a failing Add can leave new rows behind (it runs in no transaction),
  but it neither changes nor removes anything. Without faults a failing Add has changed
  nothing, and it fails only because there is no node to add or no kernel given.\<close>

theorem Add_error:
  assumes "env_ok E" and "wf E s" and "nodeRequest E bp" and "Add E bp s = (Inl e, s')"
  shows "wf E s' \<and> extends (pdb s) (pdb s') \<and>
     (\<not> no_faults E \<or> pdb s' = pdb s \<and>
        (if missingNodes bp (pdb s) = [] then e = ErrPostgresAdd (ErrPostgresDuplicate NoData)
         else Kernel bp = []))"
  using wp_result(2) [OF Add_wp [OF assms(1-3)] assms(4)] .

lemma Add_error_witness:
  "fst (Add demoEnv demoBp demoSt) = Inl (ErrPostgresAdd (ErrPostgresDuplicate NoData)) \<and>
   pdb (snd (Add demoEnv demoBp demoSt)) = pdb demoSt"
proof -
  have a: "Add demoEnv demoBp demoSt = (Inl (ErrPostgresAdd (ErrPostgresDuplicate NoData)), snd (Add demoEnv demoBp demoSt))"
    by code_simp
  have "fst (Add demoEnv demoBp demoSt) = Inl (ErrPostgresAdd (ErrPostgresDuplicate NoData))"
    by (subst a) (rule fst_conv)
  with Add_error [OF demoEnv_ok(1) demoSt_wf demo_request a] demoEnv_ok(2) show ?thesis
    by blast
qed

text \<open>C27. Without faults Add succeeds exactly when the request names a node that the database does
  not have and gives a kernel.\<close>

theorem Add_succeeds_iff:
  assumes "env_ok E" and "wf E s" and "nodeRequest E bp" and "no_faults E"
  shows "(\<exists>r. fst (Add E bp s) = Inr r) \<longleftrightarrow> missingNodes bp (pdb s) \<noteq> [] \<and> Kernel bp \<noteq> []"
proof (cases "Add E bp s")
  case (Pair res s')
  show ?thesis
  proof (cases res)
    case (Inl e)
    with Pair wp_result(2) [OF Add_wp [OF assms(1-3)], of e s'] assms(4) show ?thesis
      by (auto split: if_splits)
  next
    case (Inr r)
    with Pair wp_result(1) [OF Add_wp [OF assms(1-3)], of r s'] show ?thesis by auto
  qed
qed

lemma Add_succeeds_iff_witness:
  "\<exists>r. fst (Add demoEnv demoBp2 demoSt) = Inr r"
proof -
  have "nodeRequest demoEnv demoBp2" by code_simp
  moreover have "missingNodes demoBp2 (pdb demoSt) \<noteq> [] \<and> Kernel demoBp2 \<noteq> []" by code_simp
  ultimately show ?thesis
    using Add_succeeds_iff [OF demoEnv_ok(1) demoSt_wf _ demoEnv_ok(2), of demoBp2] by blast
qed

end
