(* ===== verification/PgDelete.thy ===== *)
theory PgDelete
  imports PgAdd
begin

text \<open>
  Deleting boot parameters (internal/postgres/bootparams.go, from deleteBootGroupsByName to
  deleteNodesWithBootConfigs, and Delete). \<open>DELETE \<dots> RETURNING *\<close> is a query that also
  changes the database.
\<close>

subsection \<open>Single tables\<close>

definition deleteGroups :: "pg_env \<Rightarrow> string \<Rightarrow> BootGroup list pg" where
  "deleteGroups E txt =
     dbQuery E (Wrapped ''could not perform boot group deletion in database'')
       (Wrapped ''could not scan deletion results into BootGroup'')
       (Wrapped ''could not parse deletion query results'')
       (deleteStmt t_groups (\<lambda>rs d. d\<lparr>t_groups := rs\<rparr>) group_col txt)"

definition deleteConfigs :: "pg_env \<Rightarrow> string \<Rightarrow> BootConfig list pg" where
  "deleteConfigs E txt =
     dbQuery E (Wrapped ''could not perform boot config deletion in database'')
       (Wrapped ''could not scan deletion results into BootConfig'')
       (Wrapped ''could not parse deletion query results'')
       (deleteStmt t_configs (\<lambda>rs d. d\<lparr>t_configs := rs\<rparr>) config_col txt)"

definition deleteBgas :: "pg_env \<Rightarrow> string \<Rightarrow> BootGroupAssignment list pg" where
  "deleteBgas E txt =
     dbQuery E (Wrapped ''could not perform boot group assignment deletion in database'')
       (Wrapped ''could not scan deletion results into BootGroupAssignment'')
       (Wrapped ''could not parse deletion query results'')
       (deleteStmt t_bgas (\<lambda>rs d. d\<lparr>t_bgas := rs\<rparr>) bga_col txt)"

definition deleteNodes :: "pg_env \<Rightarrow> string \<Rightarrow> Node list pg" where
  "deleteNodes E txt =
     dbQuery E (Wrapped ''could not perform node deletion in database'')
       (Wrapped ''could not scan deletion results into Node'')
       (Wrapped ''could not parse deletion query results'')
       (deleteStmt t_nodes (\<lambda>rs d. d\<lparr>t_nodes := rs\<rparr>) node_col txt)"

definition deleteBootGroupsByName :: "pg_env \<Rightarrow> string list \<Rightarrow> BootGroup list pg" where
  "deleteBootGroupsByName E names =
     (if length names = 0 then fail (Err ''no boot group names specified to delete'')
      else deleteGroups E ('' name IN '' @ stringSliceToSql names))"

definition deleteBootGroupsById :: "pg_env \<Rightarrow> string list \<Rightarrow> BootGroup list pg" where
  "deleteBootGroupsById E bgIds =
     (if length bgIds = 0 then fail (Err ''no boot group IDs specified to delete'')
      else deleteGroups E ('' id IN '' @ stringSliceToSql bgIds))"

definition deleteBootConfigsById :: "pg_env \<Rightarrow> string list \<Rightarrow> BootConfig list pg" where
  "deleteBootConfigsById E bcIds =
     (if length bcIds = 0 then fail (Err ''no boot config IDs specified to delete'')
      else deleteConfigs E ('' id in '' @ stringSliceToSql bcIds))"

definition deleteBootGroupAssignmentsByGroupId :: "pg_env \<Rightarrow> string list \<Rightarrow> BootGroupAssignment list pg" where
  "deleteBootGroupAssignmentsByGroupId E bgIds =
     (if length bgIds = 0 then fail (Err ''no boot group IDs specified for deleting boot group assignments'')
      else deleteBgas E ('' boot_group_id IN '' @ stringSliceToSql bgIds))"

definition deleteBootGroupAssignmentsByNodeId :: "pg_env \<Rightarrow> string list \<Rightarrow> BootGroupAssignment list pg" where
  "deleteBootGroupAssignmentsByNodeId E nodeIds =
     (if length nodeIds = 0 then fail (Err ''no node IDs specified for deleting boot group assignments'')
      else deleteBgas E ('' node_id IN '' @ stringSliceToSql nodeIds))"

definition deleteNodesById :: "pg_env \<Rightarrow> string list \<Rightarrow> Node list pg" where
  "deleteNodesById E nodeIds =
     (if length nodeIds = 0 then fail (Err ''no node IDs specified for deletion'')
      else deleteNodes E ('' id IN '' @ stringSliceToSql nodeIds))"

definition deleteItemsWhere :: "string list \<Rightarrow> string list \<Rightarrow> int32 list \<Rightarrow> string" where
  "deleteItemsWhere hosts macs nids =
     glueLoop '' OR'' True
       [(length hosts > 0, '' xname IN '' @ stringSliceToSql hosts),
        (length macs > 0, '' boot_mac IN '' @ stringSliceToSql (map toLower macs)),
        (length nids > 0, '' nid IN '' @ int32SliceToSql nids)]"

definition deleteNodesByItems :: "pg_env \<Rightarrow> string list \<Rightarrow> string list \<Rightarrow> int32 list \<Rightarrow> Node list pg" where
  "deleteNodesByItems E hosts macs nids =
     (if length hosts = 0 \<and> length macs = 0 \<and> length nids = 0
      then fail (Err ''no hosts, MAC addresses, or NIDs specified to delete nodes'')
      else deleteNodes E (deleteItemsWhere hosts macs nids))"

subsection \<open>Configurations with what hangs on them\<close>

definition deleteBootConfigsByItems :: "pg_env \<Rightarrow> string \<Rightarrow> string \<Rightarrow> string \<Rightarrow>
    (Node list \<times> BootConfig list) pg" where
  "deleteBootConfigsByItems E kernelUri initrdUri cmdline =
     andThen (deleteConfigs E (glueLoop '' AND'' True (configParts kernelUri initrdUri cmdline))) (\<lambda>bcList.
     let bcIdList = map bc_Id bcList in
     andThen (dbQuery E (Wrapped ''could not perform boot group deletion'')
                (Wrapped ''could not scan deletion results into BootConfig'')
                (Wrapped ''could not parse deletion query results'')
                (deleteStmt t_groups (\<lambda>rs d. d\<lparr>t_groups := rs\<rparr>) group_col
                   ('' boot_config_id IN '' @ stringSliceToSql bcIdList))) (\<lambda>bgList.
     let bgIdList = map bg_Id bgList in
     andThen (dbQuery E (Wrapped ''could not perform boot group assignment deletion'')
                (Wrapped ''could not scan deletion results into BootGroupAssignment'')
                (Wrapped ''could not parse deletion query results'')
                (deleteStmt t_bgas (\<lambda>rs d. d\<lparr>t_bgas := rs\<rparr>) bga_col
                   ('' boot_group_id IN '' @ stringSliceToSql bgIdList))) (\<lambda>bgaList.
     let nodeIdList = map bga_NodeId bgaList in
     andThen (dbQuery E (Wrapped ''could not perform node deletion'')
                (Wrapped ''could not scan deletion results into Node'')
                (Wrapped ''could not parse deletion query results'')
                (deleteStmt t_nodes (\<lambda>rs d. d\<lparr>t_nodes := rs\<rparr>) node_col
                   ('' id IN '' @ stringSliceToSql nodeIdList))) (\<lambda>nodeList.
     ret (nodeList, bcList)))))"

definition deleteBootConfigByGroup :: "pg_env \<Rightarrow> string list \<Rightarrow> (Node list \<times> BootConfig list) pg" where
  "deleteBootConfigByGroup E groupNames =
     (if length groupNames = 0 then fail (Err ''no group names specified for deletion'')
      else
        andThen (mapErr (Wrapped ''error deleting BootGroup(s)'') (deleteBootGroupsByName E groupNames)) (\<lambda>bgList.
        andThen (mapErr (Wrapped ''error deleting BootConfig(s)'')
                   (deleteBootConfigsById E (map bg_BootConfigId bgList))) (\<lambda>bcList.
        andThen (mapErr (Wrapped ''error deleting BootGroupAssignment(s)'')
                   (deleteBootGroupAssignmentsByGroupId E (map bg_Id bgList))) (\<lambda>bgaList.
        andThen (mapErr (Wrapped ''error deleting Node(s)'')
                   (deleteNodesById E (map bga_NodeId bgaList))) (\<lambda>nodeList.
        ret (nodeList, bcList))))))"

text \<open>Collecting the groups that no remaining node is assigned to.\<close>

definition bgIdMapOf :: "BootGroupAssignment list \<Rightarrow> (string \<times> string) list" where
  "bgIdMapOf bgaList =
     foldl (\<lambda>m a. case map_of m (bga_BootGroupId a) of
                    None \<Rightarrow> AList.update (bga_BootGroupId a) (bga_BootGroupId a) m
                  | Some _ \<Rightarrow> m) [] bgaList"

definition uniqueStep :: "pg_env \<Rightarrow> string \<times> string \<Rightarrow> string list \<Rightarrow> string list pg" where
  "uniqueStep E kv uniqueBgIdList =
     andThen (mapErr (Wrapped ''could not get nodes by boot group ID'')
                (GetNodesByBootGroupId E (snd kv))) (\<lambda>nl.
     ret (if length nl = 0 then uniqueBgIdList @ [snd kv] else uniqueBgIdList))"

definition deleteNodesWithBootConfigs :: "pg_env \<Rightarrow> string list \<Rightarrow> string list \<Rightarrow> int32 list \<Rightarrow>
    (Node list \<times> BootConfig list) pg" where
  "deleteNodesWithBootConfigs E hosts macs nids =
     andThen (mapErr (Wrapped ''error deleting Node(s)'') (deleteNodesByItems E hosts macs nids)) (\<lambda>nodeList.
     andThen (mapErr (Wrapped ''error deleting BootGroupAssignment(s)'')
                (deleteBootGroupAssignmentsByNodeId E (map n_Id nodeList))) (\<lambda>bgaList.
     andThen (rangeMap E (bgIdMapOf bgaList)) (\<lambda>bgIdMap.
     andThen (foldEach (uniqueStep E) bgIdMap []) (\<lambda>uniqueBgIdList.
     if length uniqueBgIdList > 0 then
       andThen (mapErr (Wrapped ''error deleting BootGroup(s)'') (deleteBootGroupsById E uniqueBgIdList)) (\<lambda>bgList.
       andThen (mapErr (Wrapped ''error deleting BootConfig(s)'')
                  (deleteBootConfigsById E (map bg_BootConfigId bgList))) (\<lambda>bcList.
       ret (nodeList, bcList)))
     else ret (nodeList, [])))))"

definition Delete :: "pg_env \<Rightarrow> BootParams \<Rightarrow> (string list \<times> string list) pg" where
  "Delete E bp =
     (let ids = (\<lambda>(delNodes, delBcs). (map n_Id delNodes, map bc_Id delBcs));
          dbl = (\<lambda>(nodesDeleted, bcsDeleted). (nodesDeleted @ nodesDeleted, bcsDeleted @ bcsDeleted)) in
      if length (Hosts bp) > 0 then
        (case splitHosts E (Hosts bp) of (groupNames, xNames) \<Rightarrow>
           if length groupNames > 0 then
             andThen (mapErr ErrPostgresDelete (deleteBootConfigByGroup E groupNames)) (\<lambda>r. ret (ids r))
           else if length xNames > 0 then
             andThen (mapErr ErrPostgresDelete (deleteNodesWithBootConfigs E xNames [] [])) (\<lambda>r. ret (ids r))
           else ret ([], []))
      else if length (Macs bp) > 0 then
        andThen (mapErr ErrPostgresDelete (deleteNodesWithBootConfigs E [] (Macs bp) [])) (\<lambda>r. ret (dbl (ids r)))
      else if length (Nids bp) > 0 then
        andThen (mapErr ErrPostgresDelete (deleteNodesWithBootConfigs E [] [] (Nids bp))) (\<lambda>r. ret (dbl (ids r)))
      else if Kernel bp \<noteq> [] \<or> Initrd bp \<noteq> [] \<or> Params bp \<noteq> [] then
        andThen (mapErr ErrPostgresDelete
                   (deleteBootConfigsByItems E (Kernel bp) (Initrd bp) (Params bp))) (\<lambda>r. ret (ids r))
      else ret ([], []))"

subsection \<open>What a DELETE does\<close>

lemma deleteStmt_filter:
  assumes "\<And>rows. sql_filter txt col rows = Some (filter P rows)"
  shows "deleteStmt rd wrt col txt d = Inr (map Some (filter P (rd d)), wrt (filter (\<lambda>r. \<not> P r) (rd d)) d)"
proof -
  obtain w where w: "parse_where txt = Some w"
    using assms [of "[]"] by (auto simp: sql_filter_def)
  have "eval_where (col r) w = P r" for r
    using assms [of "[r]"] w by (auto simp: sql_filter_def split: if_splits)
  then show ?thesis by (simp add: deleteStmt_def w)
qed

lemma deleteStmt_IN:
  assumes "ident c" and "toLower kw = ''in''" and "list_all quote_free xs"
    and "\<And>r. col r c = VStr (key r)"
  shows "deleteStmt rd wrt col ('' '' @ c @ '' '' @ kw @ '' '' @ stringSliceToSql xs) d =
     Inr (map Some (filter (\<lambda>r. key r \<in> set xs \<or> xs = [] \<and> key r = []) (rd d)),
          wrt (filter (\<lambda>r. \<not> (key r \<in> set xs \<or> xs = [] \<and> key r = [])) (rd d)) d)"
proof (rule deleteStmt_filter)
  fix rows
  show "sql_filter ('' '' @ c @ '' '' @ kw @ '' '' @ stringSliceToSql xs) col rows =
      Some (filter (\<lambda>r. key r \<in> set xs \<or> xs = [] \<and> key r = []) rows)"
    unfolding sql_filter_IN [OF assms(1-3)] by (simp add: assms(4))
qed

lemma deleteItems_filter:
  assumes "list_all quote_free hosts" and "list_all quote_free macs"
    and "hosts \<noteq> [] \<or> macs \<noteq> [] \<or> nids \<noteq> []"
  shows "sql_filter (deleteItemsWhere hosts macs nids) node_col rows =
         Some (filter (nodeMatches macs hosts nids) rows)"
proof -
  let ?ps = "[(length hosts > 0, '' xname IN '' @ stringSliceToSql hosts, CIn ''xname'' (sql_strs hosts)),
              (length macs > 0, '' boot_mac IN '' @ stringSliceToSql (map toLower macs),
                 CIn ''boot_mac'' (sql_strs (map toLower macs))),
              (length nids > 0, '' nid IN '' @ int32SliceToSql nids, CIn ''nid'' (sql_ints nids))]"
  have ql: "list_all quote_free (map toLower macs)"
    using assms(2) by (simp add: list.pred_map comp_def)
  have "parts_ok ?ps"
    using denotes_IN_strings [of "''boot_mac''" "''IN''", OF _ _ ql]
      denotes_IN_strings [of "''xname''" "''IN''", OF _ _ assms(1)]
      denotes_IN_ints [of "''nid''" "''IN''" nids]
    by simp
  moreover have "parts_sp ?ps" by simp
  moreover have "list_ex fst ?ps" using assms(3) by simp
  ultimately have "sql_filter (glueLoop (CHR '' '' # ''OR'') True (parts_text ?ps)) node_col rows =
      Some (filter (\<lambda>r. if ''OR'' = ''OR'' then list_ex (eval_cond (node_col r)) (parts_conds ?ps)
                        else list_all (eval_cond (node_col r)) (parts_conds ?ps)) rows)"
    by (rule sql_filter_glue) simp
  then show ?thesis
    by (auto simp: deleteItemsWhere_def nodeMatches_def node_col_def intro!: filter_cong)
qed

lemma wp_delete:
  assumes "env_ok E" and "\<And>rows. sql_filter txt col rows = Some (filter P rows)"
    and "\<And>rs. mset rs = mset (filter P (rd (pdb s))) \<Longrightarrow>
           Q rs (s\<lparr>tick := Suc (tick s), pdb := wrt (filter (\<lambda>r. \<not> P r) (rd (pdb s))) (pdb s)\<rparr>)"
    and "\<And>e s'. \<not> no_faults E \<Longrightarrow> R e s'"
  shows "wp (dbQuery E wq ws wr (deleteStmt rd wrt col txt)) Q R s"
  by (rule wp_dbQuery [OF assms(1) deleteStmt_filter]) (use assms in auto)

lemma wp_delete_IN:
  assumes "env_ok E" and "ident c" and "toLower kw = ''in''" and "list_all quote_free xs"
    and "\<And>r. col r c = VStr (key r)" and "xs \<noteq> []"
    and "\<And>rs. mset rs = mset (filter (\<lambda>r. key r \<in> set xs) (rd (pdb s))) \<Longrightarrow>
           Q rs (s\<lparr>tick := Suc (tick s), pdb := wrt (filter (\<lambda>r. key r \<notin> set xs) (rd (pdb s))) (pdb s)\<rparr>)"
    and "\<And>e s'. \<not> no_faults E \<Longrightarrow> R e s'"
  shows "wp (dbQuery E wq ws wr (deleteStmt rd wrt col ('' '' @ c @ '' '' @ kw @ '' '' @ stringSliceToSql xs))) Q R s"
proof (rule wp_delete [OF assms(1)])
  fix rows
  show "sql_filter ('' '' @ c @ '' '' @ kw @ '' '' @ stringSliceToSql xs) col rows =
      Some (filter (\<lambda>r. key r \<in> set xs) rows)"
    unfolding sql_filter_IN [OF assms(2-4)] using assms(6) by (simp add: assms(5))
qed (use assms(7,8) in auto)

lemma wp_deleteBootGroupsById:
  assumes "env_ok E" and "list_all quote_free xs" and "xs \<noteq> []"
    and "\<And>rs. mset rs = mset (filter (\<lambda>g. bg_Id g \<in> set xs) (t_groups (pdb s))) \<Longrightarrow>
           Q rs (s\<lparr>tick := Suc (tick s), pdb := (pdb s)\<lparr>t_groups := filter (\<lambda>g. bg_Id g \<notin> set xs) (t_groups (pdb s))\<rparr>\<rparr>)"
    and "\<And>e s'. \<not> no_faults E \<Longrightarrow> R e s'"
  shows "wp (deleteBootGroupsById E xs) Q R s"
  unfolding deleteBootGroupsById_def deleteGroups_def wp_if using assms(3)
  using wp_delete_IN [of E "''id''" "''IN''" xs group_col bg_Id t_groups s Q "\<lambda>rs d. d\<lparr>t_groups := rs\<rparr>" R] assms
  by (simp add: group_col_def)

lemma wp_deleteBootConfigsById:
  assumes "env_ok E" and "list_all quote_free xs" and "xs \<noteq> []"
    and "\<And>rs. mset rs = mset (filter (\<lambda>c. bc_Id c \<in> set xs) (t_configs (pdb s))) \<Longrightarrow>
           Q rs (s\<lparr>tick := Suc (tick s), pdb := (pdb s)\<lparr>t_configs := filter (\<lambda>c. bc_Id c \<notin> set xs) (t_configs (pdb s))\<rparr>\<rparr>)"
    and "\<And>e s'. \<not> no_faults E \<Longrightarrow> R e s'"
  shows "wp (deleteBootConfigsById E xs) Q R s"
  unfolding deleteBootConfigsById_def deleteConfigs_def wp_if using assms(3)
  using wp_delete_IN [of E "''id''" "''in''" xs config_col bc_Id t_configs s Q "\<lambda>rs d. d\<lparr>t_configs := rs\<rparr>" R] assms
  by (simp add: config_col_def)

lemma wp_deleteBgasByNodeId:
  assumes "env_ok E" and "list_all quote_free xs" and "xs \<noteq> []"
    and "\<And>rs. mset rs = mset (filter (\<lambda>a. bga_NodeId a \<in> set xs) (t_bgas (pdb s))) \<Longrightarrow>
           Q rs (s\<lparr>tick := Suc (tick s), pdb := (pdb s)\<lparr>t_bgas := filter (\<lambda>a. bga_NodeId a \<notin> set xs) (t_bgas (pdb s))\<rparr>\<rparr>)"
    and "\<And>e s'. \<not> no_faults E \<Longrightarrow> R e s'"
  shows "wp (deleteBootGroupAssignmentsByNodeId E xs) Q R s"
  unfolding deleteBootGroupAssignmentsByNodeId_def deleteBgas_def wp_if using assms(3)
  using wp_delete_IN [of E "''node_id''" "''IN''" xs bga_col bga_NodeId t_bgas s Q "\<lambda>rs d. d\<lparr>t_bgas := rs\<rparr>" R] assms
  by (simp add: bga_col_def)

lemma bgIdMapOf_values: "snd ` set (bgIdMapOf as) = bga_BootGroupId ` set as"
proof -
  have "(\<forall>kv \<in> set (bgIdMapOf as). fst kv = snd kv) \<and> snd ` set (bgIdMapOf as) = bga_BootGroupId ` set as"
  proof (induction as rule: rev_induct)
    case (snoc a as)
    let ?m = "bgIdMapOf as"
    have s: "bgIdMapOf (as @ [a]) = (case map_of ?m (bga_BootGroupId a) of
        None \<Rightarrow> AList.update (bga_BootGroupId a) (bga_BootGroupId a) ?m | Some _ \<Rightarrow> ?m)"
      unfolding bgIdMapOf_def foldl_append foldl.simps by (rule refl)
    show ?case
    proof (cases "map_of ?m (bga_BootGroupId a)")
      case None
      then have "bga_BootGroupId a \<notin> fst ` set ?m" by (simp add: map_of_eq_None_iff)
      then have "bgIdMapOf (as @ [a]) = ?m @ [(bga_BootGroupId a, bga_BootGroupId a)]"
        unfolding s None option.case by (rule update_fresh)
      then show ?thesis using snoc by simp
    next
      case (Some x)
      then have "(bga_BootGroupId a, x) \<in> set ?m" by (rule map_of_SomeD)
      moreover from this have "x = bga_BootGroupId a" using snoc by fastforce
      ultimately have "bga_BootGroupId a \<in> bga_BootGroupId ` set as" using snoc by force
      then show ?thesis using snoc unfolding s Some by (simp add: insert_absorb)
    qed
  qed (simp add: bgIdMapOf_def)
  then show ?thesis by blast
qed

subsection \<open>Deleting nodes\<close>

text \<open>The groups that lose their last node, and the database without the nodes, their
  assignments, these groups and their configurations.\<close>

definition lonelyGroups :: "string set \<Rightarrow> pg_db \<Rightarrow> string set" where
  "lonelyGroups ids d = {i \<in> groupsOfNodes ids d. \<forall>a \<in> set (t_bgas d). bga_BootGroupId a = i \<longrightarrow> bga_NodeId a \<in> ids}"

definition configsOfGroups :: "string set \<Rightarrow> pg_db \<Rightarrow> string set" where
  "configsOfGroups gs d = bg_BootConfigId ` {g \<in> set (t_groups d). bg_Id g \<in> gs}"

definition withoutNodes :: "(Node \<Rightarrow> bool) \<Rightarrow> pg_db \<Rightarrow> pg_db" where
  "withoutNodes P d =
     (let X = n_Id ` set (filter P (t_nodes d)); U = lonelyGroups X d; C = configsOfGroups U d in
      d\<lparr>t_configs := filter (\<lambda>c. bc_Id c \<notin> C) (t_configs d),
        t_groups := filter (\<lambda>g. bg_Id g \<notin> U) (t_groups d),
        t_nodes := filter (\<lambda>n. \<not> P n) (t_nodes d),
        t_bgas := filter (\<lambda>a. bga_NodeId a \<notin> X) (t_bgas d)\<rparr>)"

lemma wp_uniqueLoop:
  assumes "env_ok E" and "\<And>kv. kv \<in> set kvs \<Longrightarrow> quote_free (snd kv) \<and> snd kv \<noteq> []"
    and "\<And>us k. set us = {i \<in> snd ` set kvs. \<forall>n \<in> set (t_nodes (pdb s)).
            \<lparr>bga_BootGroupId = i, bga_NodeId = n_Id n\<rparr> \<notin> set (t_bgas (pdb s))} \<Longrightarrow> Q us (s\<lparr>tick := k\<rparr>)"
    and "\<And>e s'. \<not> no_faults E \<Longrightarrow> R e s'"
  shows "wp (foldEach (uniqueStep E) kvs []) Q R s"
proof -
  let ?free = "\<lambda>i. \<forall>n \<in> set (t_nodes (pdb s)). \<lparr>bga_BootGroupId = i, bga_NodeId = n_Id n\<rparr> \<notin> set (t_bgas (pdb s))"
  let ?I = "\<lambda>xs us t. (\<exists>k. t = s\<lparr>tick := k\<rparr>) \<and> set us = {i \<in> snd ` set xs. ?free i}"
  have "wp (foldEach (uniqueStep E) kvs []) (?I kvs) R s"
  proof (rule wp_foldEach)
    have "s = s\<lparr>tick := tick s\<rparr>" by simp
    then have "\<exists>k. s = s\<lparr>tick := k\<rparr>" by blast
    then show "?I [] [] s" by simp
  next
    fix xs kv ys us t
    assume z: "kvs = xs @ kv # ys" and i: "?I xs us t"
    then obtain k where t: "t = s\<lparr>tick := k\<rparr>" by blast
    have kv: "quote_free (snd kv)" "snd kv \<noteq> []" using assms(2) z by auto
    show "wp (uniqueStep E kv us) (?I (xs @ [kv])) R t"
      unfolding uniqueStep_def wp_andThen wp_mapErr wp_ret
    proof (rule wp_GetNodesByBootGroupId [OF assms(1) kv], goal_cases)
      case (1 rs)
      then have "length rs = 0 \<longleftrightarrow> ?free (snd kv)" by (auto simp: t simp flip: set_empty)
      moreover have "\<exists>j. t\<lparr>tick := Suc (tick t)\<rparr> = s\<lparr>tick := j\<rparr>" by (auto simp: t)
      ultimately show ?case using i by auto
    next
      case (2 e)
      then show ?case by (rule assms(4))
    qed
  qed
  then show ?thesis by (rule wp_mono) (use assms(3) in auto)
qed

lemma wp_deleteNodesWithBootConfigs:
  assumes E: "env_ok E" and w: "wf E s"
    and q: "list_all quote_free hosts" "list_all quote_free macs" and ne: "hosts \<noteq> [] \<or> macs \<noteq> [] \<or> nids \<noteq> []"
    and Q: "\<And>ns cs s'. mset ns = mset (filter (nodeMatches macs hosts nids) (t_nodes (pdb s))) \<Longrightarrow> ns \<noteq> [] \<Longrightarrow>
           mset (map bc_Id cs) + mset (map bc_Id (t_configs (pdb s'))) = mset (map bc_Id (t_configs (pdb s))) \<Longrightarrow>
           pdb s' = withoutNodes (nodeMatches macs hosts nids) (pdb s) \<Longrightarrow> uctr s' = uctr s \<Longrightarrow> Q (ns, cs) s'"
    and R: "\<And>e s'. \<not> no_faults E \<or> pdb s' = pdb s \<and> uctr s' = uctr s \<and>
              filter (nodeMatches macs hosts nids) (t_nodes (pdb s)) = [] \<Longrightarrow> R e s'"
  shows "wp (deleteNodesWithBootConfigs E hosts macs nids) Q R s"
proof -
  define P where "P = nodeMatches macs hosts nids"
  define d where "d = pdb s"
  define X where "X = n_Id ` set (filter P (t_nodes d))"
  define U where "U = lonelyGroups X d"
  define C where "C = configsOfGroups U d"
  define d1 where "d1 = d\<lparr>t_nodes := filter (\<lambda>n. \<not> P n) (t_nodes d)\<rparr>"
  define d2 where "d2 = d1\<lparr>t_bgas := filter (\<lambda>a. bga_NodeId a \<notin> X) (t_bgas d)\<rparr>"
  have d2: "t_nodes d2 = filter (\<lambda>n. \<not> P n) (t_nodes d)" "t_bgas d2 = filter (\<lambda>a. bga_NodeId a \<notin> X) (t_bgas d)"
    "t_groups d2 = t_groups d" "t_configs d2 = t_configs d"
    by (simp_all add: d2_def d1_def)
  have wo: "withoutNodes P d = d2\<lparr>t_groups := filter (\<lambda>g. bg_Id g \<notin> U) (t_groups d), t_configs := filter (\<lambda>c. bc_Id c \<notin> C) (t_configs d)\<rparr>"
    by (simp add: withoutNodes_def d2_def d1_def X_def U_def C_def Let_def)
  have wd: "wf_db d" using wfu_db [OF w] by (simp add: d_def)
  have fault: "R e s'" if "\<not> no_faults E" for e s' using that by (intro R) simp
  have ids: "quote_free i \<and> i \<noteq> []" if "i \<in> db_ids d" for i using that wd by (simp add: wf_db_def)
  have inj: "m = n" if "m \<in> set (t_nodes d)" "n \<in> set (t_nodes d)" "n_Id m = n_Id n" for m n
    using wd that distinct_map_eqD [of n_Id "t_nodes d" m n] by (simp add: wf_db_def)
  have lonely: "(\<forall>n \<in> set (t_nodes d2). \<lparr>bga_BootGroupId = i, bga_NodeId = n_Id n\<rparr> \<notin> set (t_bgas d2)) \<longleftrightarrow> i \<in> U"
    if "i \<in> groupsOfNodes X d" for i
  proof -
    have "(\<exists>n \<in> set (t_nodes d2). \<lparr>bga_BootGroupId = i, bga_NodeId = n_Id n\<rparr> \<in> set (t_bgas d2)) \<longleftrightarrow>
        (\<exists>a \<in> set (t_bgas d). bga_BootGroupId a = i \<and> bga_NodeId a \<notin> X)" (is "?L = ?R")
    proof
      assume ?L
      then obtain n :: Node where "\<lparr>bga_BootGroupId = i, bga_NodeId = n_Id n\<rparr> \<in> set (t_bgas d2)" by blast
      then have "\<lparr>bga_BootGroupId = i, bga_NodeId = n_Id n\<rparr> \<in> set (t_bgas d)" "n_Id n \<notin> X" by (simp_all add: d2)
      then show ?R by (intro bexI [of _ "\<lparr>bga_BootGroupId = i, bga_NodeId = n_Id n\<rparr>"]) simp_all
    next
      assume ?R
      then obtain a where a: "a \<in> set (t_bgas d)" "bga_BootGroupId a = i" "bga_NodeId a \<notin> X" by blast
      then obtain n where n: "n \<in> set (t_nodes d)" "n_Id n = bga_NodeId a"
        using wd unfolding wf_db_def by (metis imageE)
      with a(3) have np: "\<not> P n" by (force simp: X_def)
      have "\<lparr>bga_BootGroupId = i, bga_NodeId = n_Id n\<rparr> = a" using a(2) n(2) by (cases a) simp
      then have "\<lparr>bga_BootGroupId = i, bga_NodeId = n_Id n\<rparr> \<in> set (t_bgas d2)"
        using a(1,3) by (simp add: d2)
      with n(1) np show ?L by (intro bexI [of _ n]) (simp_all add: d2)
    qed
    then show ?thesis using that by (auto simp: U_def lonelyGroups_def)
  qed
  have gsub: "groupsOfNodes X d \<subseteq> bg_Id ` set (t_groups d)"
    using wd by (auto simp: groupsOfNodes_def wf_db_def)
  have tail: "wp (foldEach (uniqueStep E) kvs []) (\<lambda>us. wp (if length us > 0 then
       andThen (mapErr (Wrapped ''error deleting BootGroup(s)'') (deleteBootGroupsById E us)) (\<lambda>bgList.
       andThen (mapErr (Wrapped ''error deleting BootConfig(s)'') (deleteBootConfigsById E (map bg_BootConfigId bgList))) (\<lambda>bcList.
       ret (ns, bcList))) else ret (ns, [])) Q R) R (s\<lparr>tick := k, pdb := d2\<rparr>)"
    if ns: "mset ns = mset (filter P (t_nodes d))" "ns \<noteq> []" and kvs: "snd ` set kvs = groupsOfNodes X d" for kvs ns k
  proof (rule wp_uniqueLoop [OF E], goal_cases)
    case (1 kv)
    then have "snd kv \<in> groupsOfNodes X d" using kvs by blast
    then have "snd kv \<in> db_ids d" using gsub by (auto simp: db_ids_def)
    then show ?case using ids by blast
  next
    case (2 us j)
    have p: "pdb (s\<lparr>tick := k, pdb := d2\<rparr>) = d2" by simp
    have "U \<subseteq> groupsOfNodes X d" by (auto simp: U_def lonelyGroups_def)
    then have us: "set us = U" using 2 [unfolded p kvs] lonely by blast
    show ?case
    proof (cases "us = []")
      case True
      then have "U = {}" using us by simp
      then have "withoutNodes P d = d2"
        by (simp add: wo C_def configsOfGroups_def flip: d2(3,4))
      have "Q (ns, []) (s\<lparr>tick := j, pdb := d2\<rparr>)"
        by (rule Q) (simp_all add: ns \<open>withoutNodes P d = d2\<close> d2 flip: P_def d_def)
      with True show ?thesis by simp
    next
      case False
      have qu: "list_all quote_free us"
        unfolding list_all_iff us using gsub ids by (auto simp: U_def lonelyGroups_def db_ids_def)
      have "wp (deleteBootGroupsById E us) (\<lambda>bgList. wp (deleteBootConfigsById E (map bg_BootConfigId bgList))
          (\<lambda>cs. Q (ns, cs)) (\<lambda>e. R (Wrapped ''error deleting BootConfig(s)'' e)))
          (\<lambda>e. R (Wrapped ''error deleting BootGroup(s)'' e)) (s\<lparr>tick := j, pdb := d2\<rparr>)"
      proof (rule wp_deleteBootGroupsById [OF E qu False], goal_cases)
        case (1 bgs)
        then have sb: "set bgs = {g \<in> set (t_groups d). bg_Id g \<in> U}"
          using mset_eq_setD [OF 1] by (auto simp: us d2)
        have cids: "set (map bg_BootConfigId bgs) = C" by (auto simp: sb C_def configsOfGroups_def)
        have "bgs \<noteq> []"
        proof -
          obtain i where "i \<in> U" using False us by (cases us) auto
          then obtain g where "g \<in> set (t_groups d)" "bg_Id g \<in> U"
            using gsub by (auto simp: U_def lonelyGroups_def)
          then have "g \<in> set bgs" using sb by simp
          then show ?thesis by auto
        qed
        moreover have "list_all quote_free (map bg_BootConfigId bgs)"
        proof -
          have "i \<in> db_ids d" if "i \<in> C" for i
            using that wd by (auto simp: C_def configsOfGroups_def wf_db_def db_ids_def)
          then show ?thesis using ids by (simp add: list_all_iff cids del: set_map)
        qed
        ultimately show ?case
        proof (intro wp_deleteBootConfigsById [OF E], goal_cases)
          case (3 cs)
          have "mset (map bc_Id cs) + mset (map bc_Id (filter (\<lambda>c. bc_Id c \<notin> C) (t_configs d))) = mset (map bc_Id (t_configs d))"
          proof -
            have "mset cs + mset (filter (\<lambda>c. bc_Id c \<notin> C) (t_configs d)) = mset (t_configs d)"
              using 3(3) by (simp add: cids d2 del: set_map)
            then show ?thesis by (metis image_mset_union mset_map)
          qed
          then show ?case
            by (intro Q ns [unfolded P_def d_def]) (simp_all add: wo us cids d2 flip: P_def d_def del: set_map)
        qed (use fault in auto)
      qed (use fault in auto)
      with False show ?thesis by simp
    qed
  qed (use fault in auto)
  have ne': "\<not> (length hosts = 0 \<and> length macs = 0 \<and> length nids = 0)" using ne by simp
  show ?thesis
    unfolding deleteNodesWithBootConfigs_def wp_andThen wp_mapErr deleteNodesByItems_def if_not_P [OF ne'] deleteNodes_def
  proof (rule wp_delete [OF E deleteItems_filter [OF q ne]], unfold P_def [symmetric] d_def [symmetric], goal_cases)
    case (1 ns)
    show ?case
    proof (cases "ns = []")
      case True
      then have "filter P (t_nodes d) = []" using 1 by (metis mset_zero_iff mset_zero_iff_right)
      then have "filter (\<lambda>n. \<not> P n) (t_nodes d) = t_nodes d"
        by (auto simp: filter_empty_conv intro: filter_True)
      with True \<open>filter P (t_nodes d) = []\<close> show ?thesis
        by (auto simp: deleteBootGroupAssignmentsByNodeId_def d_def P_def intro!: R)
    next
      case False
      have X: "set (map n_Id ns) = X" using mset_eq_setD [OF 1] by (simp add: X_def)
      have qn: "list_all quote_free (map n_Id ns)"
      proof -
        have "i \<in> db_ids d" if "i \<in> X" for i using that by (auto simp: X_def db_ids_def)
        then show ?thesis using ids by (simp add: list_all_iff X del: set_map)
      qed
      have "wp (deleteBootGroupAssignmentsByNodeId E (map n_Id ns)) (\<lambda>as. wp (rangeMap E (bgIdMapOf as))
          (\<lambda>kvs. wp (foldEach (uniqueStep E) kvs []) (\<lambda>us. wp (if length us > 0 then
       andThen (mapErr (Wrapped ''error deleting BootGroup(s)'') (deleteBootGroupsById E us)) (\<lambda>bgList.
       andThen (mapErr (Wrapped ''error deleting BootConfig(s)'') (deleteBootConfigsById E (map bg_BootConfigId bgList))) (\<lambda>bcList.
       ret (ns, bcList))) else ret (ns, [])) Q R) R) R)
       (\<lambda>e. R (Wrapped ''error deleting BootGroupAssignment(s)'' e)) (s\<lparr>tick := Suc (tick s), pdb := d1\<rparr>)"
      proof (rule wp_deleteBgasByNodeId [OF E qn], goal_cases)
        case (2 as)
        then have "set as = {a \<in> set (t_bgas d). bga_NodeId a \<in> X}"
          using mset_eq_setD [OF 2] by (auto simp: X d1_def simp del: set_map)
        then have "snd ` set (bgIdMapOf as) = groupsOfNodes X d"
          unfolding bgIdMapOf_values by (auto simp: groupsOfNodes_def)
        then have "snd ` set (permute (map_order E j) (bgIdMapOf as)) = groupsOfNodes X d" for j
          using E by simp
        from tail [OF 1 False this] show ?case
          by (simp add: X d2_def d1_def del: set_map wp_if wp_andThen)
      qed (use fault False in auto)
      then show ?thesis by (simp add: d1_def)
    qed
  qed (use fault in auto)
qed

subsection \<open>What remains\<close>

lemma withoutNodes_fields:
  fixes P d
  defines "X \<equiv> n_Id ` set (filter P (t_nodes d))"
  defines "U \<equiv> lonelyGroups X d"
  defines "C \<equiv> configsOfGroups U d"
  shows "t_nodes (withoutNodes P d) = filter (\<lambda>n. \<not> P n) (t_nodes d)"
    and "t_bgas (withoutNodes P d) = filter (\<lambda>a. bga_NodeId a \<notin> X) (t_bgas d)"
    and "t_groups (withoutNodes P d) = filter (\<lambda>g. bg_Id g \<notin> U) (t_groups d)"
    and "t_configs (withoutNodes P d) = filter (\<lambda>c. bc_Id c \<notin> C) (t_configs d)"
    and "t_access (withoutNodes P d) = t_access d"
  unfolding withoutNodes_def X_def U_def C_def Let_def by simp_all

lemma withoutNodes_kept:
  fixes P :: "Node \<Rightarrow> bool"
  assumes w: "wf_db d"
  defines "X \<equiv> n_Id ` set (filter P (t_nodes d))"
  defines "U \<equiv> lonelyGroups X d"
  defines "C \<equiv> configsOfGroups U d"
  shows "n \<in> set (t_nodes d) \<Longrightarrow> n_Id n \<in> X \<longleftrightarrow> P n"
    and "a \<in> set (t_bgas d) \<Longrightarrow> bga_NodeId a \<notin> X \<Longrightarrow> bga_BootGroupId a \<notin> U"
    and "g \<in> set (t_groups d) \<Longrightarrow> bg_BootConfigId g \<in> C \<longleftrightarrow> bg_Id g \<in> U"
proof -
  show "n \<in> set (t_nodes d) \<Longrightarrow> n_Id n \<in> X \<longleftrightarrow> P n"
    using w by (auto simp: X_def wf_db_def dest: distinct_map_eqD [of n_Id])
  show "a \<in> set (t_bgas d) \<Longrightarrow> bga_NodeId a \<notin> X \<Longrightarrow> bga_BootGroupId a \<notin> U"
    by (auto simp: U_def lonelyGroups_def)
  show "g \<in> set (t_groups d) \<Longrightarrow> bg_BootConfigId g \<in> C \<longleftrightarrow> bg_Id g \<in> U"
    using w by (auto simp: C_def configsOfGroups_def wf_db_def dest: distinct_map_eqD [of bg_BootConfigId])
qed

lemma wf_withoutNodes:
  assumes w: "wf_db d"
  shows "wf_db (withoutNodes P d)"
proof -
  let ?e = "withoutNodes P d"
  note f = withoutNodes_fields [of P d] and k = withoutNodes_kept [OF w, of _ P]
  have "db_ids ?e \<subseteq> db_ids d" by (auto simp: db_ids_def f)
  moreover have "bga_NodeId a \<in> n_Id ` set (t_nodes ?e) \<and> bga_BootGroupId a \<in> bg_Id ` set (t_groups ?e)"
    if "a \<in> set (t_bgas ?e)" for a
  proof -
    from that have a: "a \<in> set (t_bgas d)" "bga_NodeId a \<notin> n_Id ` set (filter P (t_nodes d))"
      by (simp_all add: f)
    then have "bga_NodeId a \<in> n_Id ` set (t_nodes d)" "bga_BootGroupId a \<in> bg_Id ` set (t_groups d)"
      using w by (auto simp: wf_db_def)
    then obtain n g where n: "n \<in> set (t_nodes d)" "n_Id n = bga_NodeId a"
      and g: "g \<in> set (t_groups d)" "bg_Id g = bga_BootGroupId a"
      by (metis imageE)
    have "n \<in> set (t_nodes ?e)" using n a(2) k(1) [OF n(1)] by (simp add: f)
    moreover have "g \<in> set (t_groups ?e)" using g k(2) [OF a] by (simp add: f)
    ultimately show ?thesis using n(2) g(2) by (metis imageI)
  qed
  moreover have "bg_BootConfigId g \<in> bc_Id ` set (t_configs ?e)" if "g \<in> set (t_groups ?e)" for g
  proof -
    from that have g: "g \<in> set (t_groups d)" "bg_Id g \<notin> lonelyGroups (n_Id ` set (filter P (t_nodes d))) d"
      by (simp_all add: f)
    then obtain c where "c \<in> set (t_configs d)" "bc_Id c = bg_BootConfigId g"
      using w unfolding wf_db_def by (metis imageE)
    with g k(3) [OF g(1)] show ?thesis unfolding f by (intro image_eqI [of _ _ c]) simp_all
  qed
  ultimately show ?thesis
    using w unfolding wf_db_def f by (auto simp: distinct_map_filter_sub)
qed

definition keyMatches :: "string list \<Rightarrow> string list \<Rightarrow> int32 list \<Rightarrow> string \<times> string \<times> int32 \<Rightarrow> bool" where
  "keyMatches macs xnames nids k \<longleftrightarrow>
     fst k \<in> toLower ` set macs \<or> fst (snd k) \<in> set xnames \<or> snd (snd k) \<in> set nids"

lemma nodeMatches_key: "nodeMatches macs xnames nids n = keyMatches macs xnames nids (nodeKey n)"
  by (simp add: nodeMatches_def keyMatches_def nodeKey_def)

lemma joinNodes_without:
  assumes w: "wf_db d"
  shows "mset (joinNodes (withoutNodes P d)) = mset (filter (\<lambda>(n, g, c). \<not> P n) (joinNodes d))"
proof -
  let ?e = "withoutNodes P d"
  note f = withoutNodes_fields [of P d] and k = withoutNodes_kept [OF w, of _ P]
  have "set (joinNodes ?e) = set (filter (\<lambda>(n, g, c). \<not> P n) (joinNodes d))" (is "?A = ?B")
  proof (intro equalityI subsetI)
    fix x assume x: "x \<in> ?A"
    obtain n g c where "x = (n, g, c)" by (cases x)
    with x show "x \<in> ?B" by (simp add: joinNodes_set f)
  next
    fix x assume x: "x \<in> ?B"
    obtain n g c where xe: "x = (n, g, c)" by (cases x)
    from x have *: "n \<in> set (t_nodes d)" "\<not> P n" "g \<in> set (t_groups d)" "c \<in> set (t_configs d)"
      "\<lparr>bga_BootGroupId = bg_Id g, bga_NodeId = n_Id n\<rparr> \<in> set (t_bgas d)" "bc_Id c = bg_BootConfigId g"
      by (auto simp: xe joinNodes_set)
    from *(1,2) k(1) have nx: "n_Id n \<notin> n_Id ` set (filter P (t_nodes d))" by blast
    with k(2) [OF *(5)] have "bg_Id g \<notin> lonelyGroups (n_Id ` set (filter P (t_nodes d))) d" by simp
    with * nx k(3) [OF *(3)] show "x \<in> ?A" unfolding xe joinNodes_set f by simp
  qed
  moreover have "distinct (joinNodes ?e)" "distinct (filter (\<lambda>(n, g, c). \<not> P n) (joinNodes d))"
    using joinNodes_distinct [OF w] joinNodes_distinct [OF wf_withoutNodes [OF w, of P]]
    by (simp_all add: distinct_map)
  ultimately show ?thesis by (simp only: set_eq_iff_mset_eq_distinct)
qed

lemma bootView_without:
  assumes "wf_db d"
  shows "bootView (withoutNodes (nodeMatches macs xnames nids) d) =
     filter_mset (\<lambda>(k, v). \<not> keyMatches macs xnames nids k) (bootView d)"
proof -
  have "filter_mset (\<lambda>(k, v). \<not> keyMatches macs xnames nids k) (bootView d) =
      mset (map (\<lambda>(n, g, c). (nodeKey n, cfgVals c)) (filter (\<lambda>(n, g, c). \<not> nodeMatches macs xnames nids n) (joinNodes d)))"
    unfolding bootView_def mset_filter [symmetric] filter_map
    by (auto simp: comp_def case_prod_unfold nodeMatches_key)
  then show ?thesis
    unfolding bootView_def mset_map joinNodes_without [OF assms] by simp
qed

lemma wfu_withoutNodes: "wfu E u d \<Longrightarrow> wfu E u (withoutNodes P d)"
proof -
  assume w: "wfu E u d"
  have "db_ids (withoutNodes P d) \<subseteq> db_ids d" by (auto simp: db_ids_def withoutNodes_fields)
  with w wf_withoutNodes [OF wfu_db [OF w]] show ?thesis by (auto simp: wfu_def)
qed

subsection \<open>Properties of Delete\<close>

text \<open>Which nodes a request names: Delete looks at the hosts, else at the MACs, else at the NIDs.\<close>

definition named :: "BootParams \<Rightarrow> string \<times> string \<times> int32 \<Rightarrow> bool" where
  "named bp =
     (if Hosts bp \<noteq> [] then keyMatches [] (Hosts bp) []
      else if Macs bp \<noteq> [] then keyMatches (Macs bp) [] []
      else keyMatches [] [] (Nids bp))"

definition namesNodes :: "BootParams \<Rightarrow> bool" where
  "namesNodes bp \<longleftrightarrow> Hosts bp \<noteq> [] \<or> Macs bp \<noteq> [] \<or> Nids bp \<noteq> []"

definition namedNodes :: "BootParams \<Rightarrow> pg_db \<Rightarrow> Node list" where
  "namedNodes bp d = filter (\<lambda>n. named bp (nodeKey n)) (t_nodes d)"

lemma Delete_wp:
  assumes E: "env_ok E" and w: "wf E s" and r: "nodeRequest E bp" and n: "namesNodes bp"
  shows "wp (Delete E bp)
     (\<lambda>(ns, bcs) s'. wf E s' \<and> namedNodes bp (pdb s) \<noteq> [] \<and>
        pdb s' = withoutNodes (\<lambda>n. named bp (nodeKey n)) (pdb s) \<and>
        bootView (pdb s') = filter_mset (\<lambda>(k, v). \<not> named bp k) (bootView (pdb s)) \<and>
        (\<exists>xs ys. mset xs = mset (map n_Id (namedNodes bp (pdb s))) \<and>
           mset ys + mset (map bc_Id (t_configs (pdb s'))) = mset (map bc_Id (t_configs (pdb s))) \<and>
           (if Hosts bp \<noteq> [] then ns = xs \<and> bcs = ys else ns = xs @ xs \<and> bcs = ys @ ys)))
     (\<lambda>e s'. \<not> no_faults E \<or> wf E s' \<and> pdb s' = pdb s \<and> namedNodes bp (pdb s) = []) s"
    (is "wp _ ?Q ?R s")
proof -
  have q: "list_all quote_free (Macs bp)" "list_all quote_free (Hosts bp)" "list_all quote_free ([] :: string list)"
    using r by (simp_all add: nodeRequest_def bp_clean_def)
  have split: "splitHosts E (Hosts bp) = ([], Hosts bp)"
    using r by (auto simp: nodeRequest_def splitHosts_def list_all_iff filter_empty_conv)
  have step: "wp (deleteNodesWithBootConfigs E hosts macs nids)
      (\<lambda>r. ?Q (case r of (delNodes, delBcs) \<Rightarrow> if Hosts bp \<noteq> [] then (map n_Id delNodes, map bc_Id delBcs)
           else (map n_Id delNodes @ map n_Id delNodes, map bc_Id delBcs @ map bc_Id delBcs))) ?R s"
    if "list_all quote_free hosts" "list_all quote_free macs" "hosts \<noteq> [] \<or> macs \<noteq> [] \<or> nids \<noteq> []"
      and nm: "named bp = keyMatches macs hosts nids" for hosts macs nids
  proof -
    have P: "nodeMatches macs hosts nids = (\<lambda>n. named bp (nodeKey n))"
      by (rule ext) (simp add: nodeMatches_key nm)
    show ?thesis
    proof (rule wp_deleteNodesWithBootConfigs [OF E w that(1-3)], goal_cases)
      case (1 ns cs s')
      have "namedNodes bp (pdb s) \<noteq> []"
        using 1(1,2) by (auto simp: namedNodes_def P simp flip: mset_filter)
      moreover have "mset (map n_Id ns) = mset (map n_Id (namedNodes bp (pdb s)))"
        using 1(1) by (simp only: namedNodes_def P mset_map)
      moreover have "wf E s'" unfolding 1(4,5) by (rule wfu_withoutNodes [OF w])
      moreover have "bootView (pdb s') = filter_mset (\<lambda>(k, v). \<not> named bp k) (bootView (pdb s))"
        unfolding 1(4) bootView_without [OF wfu_db [OF w]] nm ..
      ultimately show ?case
        using 1(3,4) unfolding P
        by (simp split: if_split, intro conjI impI exI [of _ "map n_Id ns"] exI [of _ "map bc_Id cs"] refl) simp_all
    next
      case (2 e s')
      then show ?case using w by (auto simp: namedNodes_def P)
    qed
  qed
  show ?thesis
  proof (cases "Hosts bp = []")
    case False
    then have nm: "named bp = keyMatches [] (Hosts bp) []" by (simp add: named_def)
    have "(?Q (case r of (a, b) \<Rightarrow> if Hosts bp \<noteq> [] then (map n_Id a, map bc_Id b)
           else (map n_Id a @ map n_Id a, map bc_Id b @ map bc_Id b))) =
          (?Q (case r of (a, b) \<Rightarrow> (map n_Id a, map bc_Id b)))" for r :: "Node list \<times> BootConfig list"
      using False by simp
    with step [OF q(2,3) _ nm] False show ?thesis
      unfolding Delete_def Let_def split by simp
  next
    case True
    have eq: "(?Q (case r of (a, b) \<Rightarrow> if Hosts bp \<noteq> [] then (map n_Id a, map bc_Id b)
           else (map n_Id a @ map n_Id a, map bc_Id b @ map bc_Id b))) =
          (?Q (case (case r of (a, b) \<Rightarrow> (map n_Id a, map bc_Id b)) of (x, y) \<Rightarrow> (x @ x, y @ y)))" for r :: "Node list \<times> BootConfig list"
      using True by (cases r) simp
    show ?thesis
    proof (cases "Macs bp = []")
      case False
      then have nm: "named bp = keyMatches (Macs bp) [] []" using True by (simp add: named_def)
      from step [OF q(3,1) _ nm] False True show ?thesis
        unfolding Delete_def Let_def eq by simp
    next
      case m: True
      then have nm: "named bp = keyMatches [] [] (Nids bp)" using True by (simp add: named_def)
      have "Nids bp \<noteq> []" using n True m by (simp add: namesNodes_def)
      with step [OF q(3,3) _ nm] m True show ?thesis
        unfolding Delete_def Let_def eq by simp
    qed
  qed
qed

text \<open>C4. A successful Delete of nodes (by xname, MAC address or NID), whatever faults the database
  has: the named nodes are gone, every other node boots as before, and the database is
  well formed, so no assignment, group or configuration refers to a deleted row.\<close>

theorem Delete_correct:
  assumes "env_ok E" and "wf E s" and "nodeRequest E bp" and "namesNodes bp"
    and "Delete E bp s = (Inr r, s')"
  shows "wf E s' \<and> namedNodes bp (pdb s) \<noteq> [] \<and>
     t_nodes (pdb s') = filter (\<lambda>n. \<not> named bp (nodeKey n)) (t_nodes (pdb s)) \<and>
     bootView (pdb s') = filter_mset (\<lambda>(k, v). \<not> named bp k) (bootView (pdb s))"
  using wp_result(1) [OF Delete_wp [OF assms(1-4)] assms(5)]
  by (auto simp: withoutNodes_fields split: prod.splits)

definition demoDel :: BootParams where
  "demoDel = noBootParams\<lparr>Macs := [''AA'']\<rparr>"

lemma demoDel_request: "nodeRequest demoEnv demoDel" "namesNodes demoDel"
  by code_simp+

lemma demoDel_result:
  "Delete demoEnv demoDel demoSt = (Inr ([''u0'', ''u0''], []), snd (Delete demoEnv demoDel demoSt))"
  by code_simp

lemma Delete_correct_witness:
  "wf demoEnv (snd (Delete demoEnv demoDel demoSt)) \<and>
   t_nodes (pdb (snd (Delete demoEnv demoDel demoSt))) =
     filter (\<lambda>n. \<not> named demoDel (nodeKey n)) (t_nodes (pdb demoSt))"
  using Delete_correct [OF demoEnv_ok(1) demoSt_wf demoDel_request demoDel_result] by blast

text \<open>C28. Garbage collection: Delete of nodes removes a boot group, with its configuration, exactly when it
  takes away its last node; a configuration that another node still uses stays. This is so for every request
  that names nodes, whether it gives a kernel, an initrd or parameters or not: the code does not look at them then, although the
  comment on Delete says that the configurations matching them are removed too, and api/swagger.yaml that the references of all hosts
  to the image are.\<close>

theorem Delete_collects_groups:
  assumes "env_ok E" and "wf E s" and "nodeRequest E bp" and "namesNodes bp"
    and "Delete E bp s = (Inr r, s')"
  shows "set (t_groups (pdb s')) =
     {g \<in> set (t_groups (pdb s)).
        (\<forall>a \<in> set (t_bgas (pdb s)). bga_BootGroupId a \<noteq> bg_Id g) \<or>
        (\<exists>a \<in> set (t_bgas (pdb s')). bga_BootGroupId a = bg_Id g)} \<and>
   set (t_configs (pdb s')) =
     {c \<in> set (t_configs (pdb s)).
        (\<forall>g \<in> set (t_groups (pdb s)). bg_BootConfigId g \<noteq> bc_Id c) \<or>
        (\<exists>g \<in> set (t_groups (pdb s')). bg_BootConfigId g = bc_Id c)}"
proof -
  let ?P = "\<lambda>n. named bp (nodeKey n)"
  have e: "pdb s' = withoutNodes ?P (pdb s)"
    using wp_result(1) [OF Delete_wp [OF assms(1-4)] assms(5)] by (auto split: prod.splits)
  note w = wfu_db [OF assms(2)]
  note f = withoutNodes_fields [of ?P "pdb s"] 
  have inj: "g = h" if "bg_BootConfigId g = bg_BootConfigId h" "g \<in> set (t_groups (pdb s))" "h \<in> set (t_groups (pdb s))" for g h
    using w that distinct_map_eqD [of bg_BootConfigId "t_groups (pdb s)"] by (simp add: wf_db_def)
  have g: "bg_Id g \<notin> lonelyGroups (n_Id ` set (filter ?P (t_nodes (pdb s)))) (pdb s) \<longleftrightarrow>
      (\<forall>a \<in> set (t_bgas (pdb s)). bga_BootGroupId a \<noteq> bg_Id g) \<or>
      (\<exists>a \<in> set (t_bgas (pdb s')). bga_BootGroupId a = bg_Id g)" for g :: BootGroup
    unfolding e f lonelyGroups_def groupsOfNodes_def by auto
  have c: "bc_Id c \<notin> configsOfGroups (lonelyGroups (n_Id ` set (filter ?P (t_nodes (pdb s)))) (pdb s)) (pdb s) \<longleftrightarrow>
      (\<forall>g \<in> set (t_groups (pdb s)). bg_BootConfigId g \<noteq> bc_Id c) \<or>
      (\<exists>g \<in> set (t_groups (pdb s')). bg_BootConfigId g = bc_Id c)" for c :: BootConfig
    unfolding e f configsOfGroups_def image_iff by (auto dest: inj)
  show ?thesis
    using g c by (auto simp: e f)
qed

text \<open>A node of two with the same configuration, whose values the request gives: the configuration stays.\<close>

definition demoDelAll :: BootParams where
  "demoDelAll = demoDel\<lparr>Kernel := ''k'', Initrd := ''i'', Params := ''p''\<rparr>"

lemma Delete_collects_groups_witness:
  "set (t_groups (pdb (snd (Delete demoEnv demoDelAll demoSt)))) = set (t_groups (pdb demoSt)) \<and>
   set (t_configs (pdb (snd (Delete demoEnv demoDelAll demoSt)))) = set (t_configs (pdb demoSt)) \<and>
   list_ex (\<lambda>c. bc_KernelUri c = ''k'' \<and> bc_InitrdUri c = ''i'' \<and> bc_Cmdline c = ''p'') (t_configs (pdb demoSt))"
proof -
  let ?s = "snd (Delete demoEnv demoDelAll demoSt)"
  have q: "nodeRequest demoEnv demoDelAll" "namesNodes demoDelAll" by code_simp+
  have r: "Delete demoEnv demoDelAll demoSt = (Inr ([''u0'', ''u0''], []), ?s)" by code_simp
  have "{g \<in> set (t_groups (pdb demoSt)).
      (\<forall>a \<in> set (t_bgas (pdb demoSt)). bga_BootGroupId a \<noteq> bg_Id g) \<or>
      (\<exists>a \<in> set (t_bgas (pdb ?s)). bga_BootGroupId a = bg_Id g)} = set (t_groups (pdb demoSt))"
    by code_simp
  moreover have "{c \<in> set (t_configs (pdb demoSt)).
      (\<forall>g \<in> set (t_groups (pdb demoSt)). bg_BootConfigId g \<noteq> bc_Id c) \<or>
      (\<exists>g \<in> set (t_groups (pdb ?s)). bg_BootConfigId g = bc_Id c)} = set (t_configs (pdb demoSt))"
    by code_simp
  moreover have "list_ex (\<lambda>c. bc_KernelUri c = ''k'' \<and> bc_InitrdUri c = ''i'' \<and> bc_Cmdline c = ''p'') (t_configs (pdb demoSt))"
    by code_simp
  ultimately show ?thesis
    using Delete_collects_groups [OF demoEnv_ok(1) demoSt_wf q r] by simp
qed

text \<open>What Delete reports: for hosts every deleted node and configuration once, but for MAC
  addresses and for NIDs the two lists are built twice, so every id is reported twice.\<close>

lemma Delete_report:
  assumes "env_ok E" and "wf E s" and "nodeRequest E bp" and "namesNodes bp"
    and "Delete E bp s = (Inr (ns, bcs), s')"
  shows "\<exists>xs ys. mset xs = mset (map n_Id (namedNodes bp (pdb s))) \<and>
     mset ys + mset (map bc_Id (t_configs (pdb s'))) = mset (map bc_Id (t_configs (pdb s))) \<and>
     (if Hosts bp \<noteq> [] then ns = xs \<and> bcs = ys else ns = xs @ xs \<and> bcs = ys @ ys)"
  using wp_result(1) [OF Delete_wp [OF assms(1-4)] assms(5)] unfolding prod.case by blast

lemma Delete_report_witness:
  "\<exists>xs ys. mset xs = mset (map n_Id (namedNodes demoDel (pdb demoSt))) \<and>
     [''u0'', ''u0''] = xs @ xs \<and> ([] :: string list) = ys @ ys"
proof -
  have "Hosts demoDel = []" by code_simp
  with Delete_report [OF demoEnv_ok(1) demoSt_wf demoDel_request demoDel_result] show ?thesis
    by auto
qed

text \<open>C30. Without faults a Delete that names nodes fails only when none of them exists, and then it
  has changed nothing.\<close>

theorem Delete_error:
  assumes "env_ok E" and "wf E s" and "nodeRequest E bp" and "namesNodes bp" and "no_faults E"
    and "Delete E bp s = (Inl e, s')"
  shows "pdb s' = pdb s \<and> namedNodes bp (pdb s) = []"
  using wp_result(2) [OF Delete_wp [OF assms(1-4)] assms(6)] assms(5) by blast

definition demoDel2 :: BootParams where
  "demoDel2 = noBootParams\<lparr>Nids := [7]\<rparr>"

lemma Delete_error_witness:
  "\<exists>e. fst (Delete demoEnv demoDel2 demoSt) = Inl e \<and> pdb (snd (Delete demoEnv demoDel2 demoSt)) = pdb demoSt"
proof -
  obtain e where e: "fst (Delete demoEnv demoDel2 demoSt) = Inl e"
  proof -
    have "isl (fst (Delete demoEnv demoDel2 demoSt))" by code_simp
    then show thesis using that by (auto simp: isl_def)
  qed
  have "Delete demoEnv demoDel2 demoSt = (Inl e, snd (Delete demoEnv demoDel2 demoSt))"
    by (simp flip: e)
  moreover have "nodeRequest demoEnv demoDel2" "namesNodes demoDel2" by code_simp+
  ultimately have "pdb (snd (Delete demoEnv demoDel2 demoSt)) = pdb demoSt"
    using Delete_error [OF demoEnv_ok(1) demoSt_wf _ _ demoEnv_ok(2)] by blast
  with e show ?thesis by blast
qed





end
