(* ===== verification/PgUpdate.thy ===== *)
theory PgUpdate
  imports PgDelete
begin

text \<open>
  Updating boot parameters (internal/postgres/bootparams.go, Update). Update is long;
  it is written here as the loop body \<open>updateStep\<close>, the deletion \<open>delConfigsStmt\<close>, the
  re-assignment loop \<open>reassignLoop\<close> and the frame that runs them.
\<close>

subsection \<open>Update\<close>

definition fmtStrs :: "string list \<Rightarrow> string" where
  "fmtStrs xs = ''['' @ strJoin '' '' xs @ '']''"

definition fmtInts :: "int32 list \<Rightarrow> string" where
  "fmtInts xs = ''['' @ strJoin '' '' (map (\<lambda>i. int_str (sint i)) xs) @ '']''"

definition notExistsText :: "string list \<Rightarrow> string list \<Rightarrow> int32 list \<Rightarrow> string" where
  "notExistsText macs xnames nids =
     ''nodes table: macs='' @ fmtStrs macs @ '' xnames='' @ fmtStrs xnames @ '' nids='' @ fmtInts nids"

text \<open>The configurations of the query, with the id blanked out, as keys of their groups.\<close>

definition similarMap :: "(BootGroup \<times> BootConfig) list \<Rightarrow> (BootConfig \<times> BootGroup) list" where
  "similarMap sBs = foldl (\<lambda>m (g, c). AList.update (c\<lparr>bc_Id := []\<rparr>) g m) [] sBs"

text \<open>The nodes of a list that are to be updated are appended to the list that a map has for a key.\<close>

definition pushNodes :: "(Node \<times> bgbc) list \<Rightarrow> bgbc \<Rightarrow> Node list \<Rightarrow> (bgbc \<times> Node list) list \<Rightarrow>
    (bgbc \<times> Node list) list" where
  "pushNodes nToBgbc key nList m =
     foldl (\<lambda>m n. if map_of nToBgbc n \<noteq> None then pushAt key n m else m) m nList"

type_synonym upd_acc = "bgbc list \<times> (bgbc \<times> Node list) list \<times> (bgbc \<times> Node list) list"

definition updateStep :: "pg_env \<Rightarrow> BootParams \<Rightarrow> (Node \<times> bgbc) list \<Rightarrow> (BootConfig \<times> BootGroup) list \<Rightarrow>
    bgbc \<times> Node list \<Rightarrow> upd_acc \<Rightarrow> upd_acc pg" where
  "updateStep E bp nToBgbc similarBcs entry acc =
     (case (entry, acc) of ((ncfg, nList), (bgbcToDel, bgbcToAdd, existingBgbcToNode)) \<Rightarrow>
       let delBgbc = \<not> list_ex (\<lambda>n. map_of nToBgbc n \<noteq> None) nList;
           del = (if delBgbc then bgbcToDel @ [ncfg] else bgbcToDel);
           newKernel = (if Kernel bp \<noteq> [] then Kernel bp else bc_KernelUri (Bc ncfg));
           newInitrd = (if Initrd bp \<noteq> [] then Initrd bp else bc_InitrdUri (Bc ncfg));
           newParams = (if Params bp \<noteq> [] then Params bp else bc_Cmdline (Bc ncfg));
           newBgName = nodeGroupName newKernel newInitrd newParams;
           newBgDesc = nodeGroupDesc newKernel newInitrd newParams in
       andThen (mapErr (\<lambda>e. ErrPostgresUpdate (Wrapped ''could not create new BootConfig'' e))
                  (NewBootConfig E newKernel newInitrd newParams)) (\<lambda>bc.
       andThen (NewBootGroup E (bc_Id bc) newBgName newBgDesc) (\<lambda>bg.
       ret (case map_of similarBcs (bc\<lparr>bc_Id := []\<rparr>) of
              Some tmp \<Rightarrow>
                if bg_Name tmp = newBgName \<and> bg_Description tmp = newBgDesc
                then (del, bgbcToAdd, pushNodes nToBgbc \<lparr>Bg = tmp, Bc = bc\<rparr> nList existingBgbcToNode)
                else (del, pushNodes nToBgbc \<lparr>Bg = bg, Bc = bc\<rparr> nList bgbcToAdd, existingBgbcToNode)
            | None \<Rightarrow> (del, pushNodes nToBgbc \<lparr>Bg = bg, Bc = bc\<rparr> nList bgbcToAdd, existingBgbcToNode)))))"

text \<open>The two statements that delete configurations and their groups, sent as one text.\<close>

definition delConfigsStmt :: "string list \<Rightarrow> pg_db \<Rightarrow> goerr + pg_db" where
  "delConfigsStmt bcIds d =
     (case (parse_where ('' bc.id IN '' @ stringSliceToSql bcIds),
            parse_where ('' bg.boot_config_id IN '' @ stringSliceToSql bcIds)) of
        (Some w1, Some w2) \<Rightarrow>
          Inr (d\<lparr>t_configs := filter (\<lambda>c. \<not> (eval_where (qual ''bc'' (config_col c)) w1 \<and>
                                (\<exists>g \<in> set (t_groups d). bg_BootConfigId g = bc_Id c))) (t_configs d),
                 t_groups := filter (\<lambda>g. \<not> eval_where (qual ''bg'' (group_col g)) w2) (t_groups d)\<rparr>)
      | _ \<Rightarrow> Inl sqlRefused)"

definition reassignStep :: "pg_env \<Rightarrow> bgbc \<times> Node list \<Rightarrow> string list \<Rightarrow> string list pg" where
  "reassignStep E entry nodesUpdated =
     (case entry of (b, nodeList) \<Rightarrow>
       let nodeIds = map n_Id nodeList in
       andThen (mapErr (\<lambda>e. ErrPostgresUpdate (Wrapped ''could not update boot group assignments'' e))
                  (updateNodeAssignment E nodeIds (bg_Id (Bg b)))) (\<lambda>_.
       ret (nodesUpdated @ nodeIds)))"

definition updErr :: "string \<Rightarrow> goerr \<Rightarrow> goerr" where
  "updErr msg e = ErrPostgresUpdate (Wrapped msg e)"

text \<open>The second half of Update: applying what the loop has decided.\<close>

definition applyUpdate :: "pg_env \<Rightarrow> upd_acc \<Rightarrow> string list pg" where
  "applyUpdate E acc =
     (case acc of (bgbcToDel, bgbcToAdd, existingBgbcToNode) \<Rightarrow>
       andThen (dbExec E (updErr ''could not perform boot group/config deletion'')
                  (delConfigsStmt (map (\<lambda>b. bc_Id (Bc b)) bgbcToDel))) (\<lambda>_.
       andThen (rangeMap E bgbcToAdd) (\<lambda>adds.
       andThen (mapErr (updErr ''could not add boot config(s)'') (addBootConfigs E (map (\<lambda>(b, _). Bc b) adds))) (\<lambda>_.
       andThen (mapErr (updErr ''could not add boot config(s)'') (addBootGroups E (map (\<lambda>(b, _). Bg b) adds))) (\<lambda>_.
       andThen (rangeMap E bgbcToAdd) (\<lambda>adds2.
       andThen (foldEach (reassignStep E) adds2 []) (\<lambda>nodesUpdated.
       andThen (rangeMap E existingBgbcToNode) (\<lambda>exs.
       foldEach (reassignStep E) exs nodesUpdated))))))))"

definition Update :: "pg_env \<Rightarrow> BootParams \<Rightarrow> string list pg" where
  "Update E bp =
     andThen (mapErr ErrPostgresUpdate (CheckNodeExistence E (Macs bp) (Hosts bp) (Nids bp)))
       (\<lambda>(_, missingMacs, missingXnames, missingNids).
     if length missingMacs > 0 \<or> length missingXnames > 0 \<or> length missingNids > 0 then
       fail (ErrPostgresUpdate (ErrPostgresNotExists
               (StrData (notExistsText missingMacs missingXnames missingNids))))
     else if length (Params bp) = 0 \<and> length (Kernel bp) = 0 \<and> length (Initrd bp) = 0 then
       fail (ErrPostgresUpdate (Err ''must specify at least one of params, kernel, or initrd''))
     else
       andThen (mapErr ErrPostgresUpdate (getNodesWithConfigs E (Macs bp) (Hosts bp) (Nids bp))) (\<lambda>nToBgbc.
       andThen (rangeMap E nToBgbc) (\<lambda>ranged.
       andThen (mapErr ErrPostgresUpdate (getConfigsWithNodes E (map (\<lambda>(n, _). n_Id n) ranged))) (\<lambda>bgbcToN.
       andThen (mapErr ErrPostgresUpdate (GetBootConfigsByItems E (Kernel bp) (Initrd bp) (Params bp))) (\<lambda>sBs.
       andThen (rangeMap E bgbcToN) (\<lambda>entries.
       andThen (foldEach (updateStep E bp nToBgbc (similarMap sBs)) entries ([], [], []))
         (applyUpdate E)))))))"

subsection \<open>Re-assigning nodes\<close>

text \<open>\<open>f\<close> moves the assignments of the nodes in each entry to the group of the entry.\<close>

definition retargets :: "(bgbc \<times> Node list) list \<Rightarrow> (BootGroupAssignment \<Rightarrow> BootGroupAssignment) \<Rightarrow> bool" where
  "retargets es f \<longleftrightarrow>
     (\<forall>a. bga_NodeId (f a) = bga_NodeId a \<and>
        (\<forall>(b, ns) \<in> set es. bga_NodeId a \<in> n_Id ` set ns \<longrightarrow> bga_BootGroupId (f a) = bg_Id (Bg b)) \<and>
        ((\<forall>(b, ns) \<in> set es. bga_NodeId a \<notin> n_Id ` set ns) \<longrightarrow> f a = a))"

lemma retargets_Nil: "retargets [] (\<lambda>a. a)"
  by (simp add: retargets_def)

lemma retargets_set: "set es = set es' \<Longrightarrow> retargets es f = retargets es' f"
  by (simp add: retargets_def)

definition nodeIdsOf :: "(bgbc \<times> Node list) list \<Rightarrow> string set" where
  "nodeIdsOf es = (\<Union>(b, ns) \<in> set es. n_Id ` set ns)"

lemma set_nodeIds: "set (concat (map (\<lambda>(b, ns). map n_Id ns) es)) = nodeIdsOf es"
  by (auto simp: nodeIdsOf_def)

lemma retargets_append:
  assumes "retargets es f" and "retargets es' g" and "nodeIdsOf es \<inter> nodeIdsOf es' = {}"
  shows "retargets (es @ es') (\<lambda>a. g (f a))"
  unfolding retargets_def
proof (intro allI conjI ballI impI)
  fix a
  note F = assms(1) [unfolded retargets_def, THEN spec, of a]
  note G = assms(2) [unfolded retargets_def, THEN spec, of "f a"]
  show "bga_NodeId (g (f a)) = bga_NodeId a" using F G by simp
  show "g (f a) = a" if "\<forall>(b, ns) \<in> set (es @ es'). bga_NodeId a \<notin> n_Id ` set ns"
    using F G that by (auto simp: ball_Un)
  fix e assume e: "e \<in> set (es @ es')"
  obtain b ns where be: "e = (b, ns)" by (cases e)
  show "case e of (b, ns) \<Rightarrow> bga_NodeId a \<in> n_Id ` set ns \<longrightarrow> bga_BootGroupId (g (f a)) = bg_Id (Bg b)"
    unfolding be prod.case
  proof
    assume a: "bga_NodeId a \<in> n_Id ` set ns"
    show "bga_BootGroupId (g (f a)) = bg_Id (Bg b)"
    proof (cases "(b, ns) \<in> set es'")
      case True
      then show ?thesis using F G a by auto
    next
      case False
      then have i: "(b, ns) \<in> set es" using e be by simp
      then have "bga_NodeId a \<in> nodeIdsOf es" using a by (auto simp: nodeIdsOf_def)
      then have "bga_NodeId a \<notin> nodeIdsOf es'" using assms(3) by blast
      then have "\<forall>(b, ns) \<in> set es'. bga_NodeId (f a) \<notin> n_Id ` set ns"
        using F by (auto simp: nodeIdsOf_def)
      then have "g (f a) = f a" using G by blast
      then show ?thesis using F a i by auto
    qed
  qed
qed

lemma wfu_retarget:
  assumes "wfu E u d" and "\<And>a. a \<in> set (t_bgas d) \<Longrightarrow> bga_NodeId (f a) = bga_NodeId a \<and> bga_BootGroupId (f a) \<in> bg_Id ` set (t_groups d)"
  shows "wfu E u (d\<lparr>t_bgas := map f (t_bgas d)\<rparr>)"
proof -
  have w: "wf_db d" using assms(1) by (rule wfu_db)
  have "map bga_NodeId (map f (t_bgas d)) = map bga_NodeId (t_bgas d)" using assms(2) by simp
  then have "distinct (map bga_NodeId (map f (t_bgas d)))" using w by (simp only: wf_db_def)
  moreover have "db_ids (d\<lparr>t_bgas := map f (t_bgas d)\<rparr>) = db_ids d" by (simp add: db_ids_def)
  ultimately show ?thesis
    using w assms unfolding wfu_def wf_db_def by auto
qed

lemma retargets_wfu:
  assumes "wfu E u d" and "retargets es f" and "\<And>b ns. (b, ns) \<in> set es \<Longrightarrow> bg_Id (Bg b) \<in> bg_Id ` set (t_groups d)"
  shows "wfu E u (d\<lparr>t_bgas := map f (t_bgas d)\<rparr>)"
proof (rule wfu_retarget [OF assms(1)])
  fix a assume a: "a \<in> set (t_bgas d)"
  note F = assms(2) [unfolded retargets_def, THEN spec, of a]
  have "bga_BootGroupId (f a) \<in> bg_Id ` set (t_groups d)"
  proof (cases "\<exists>(b, ns) \<in> set es. bga_NodeId a \<in> n_Id ` set ns")
    case True
    then obtain b ns where "(b, ns) \<in> set es" "bga_NodeId a \<in> n_Id ` set ns" by blast
    with F have "bga_BootGroupId (f a) = bg_Id (Bg b)" by blast
    with assms(3) \<open>(b, ns) \<in> set es\<close> show ?thesis by simp
  next
    case False
    with F have "f a = a" by auto
    with a wfu_db [OF assms(1)] show ?thesis by (simp add: wf_db_def)
  qed
  with F show "bga_NodeId (f a) = bga_NodeId a \<and> bga_BootGroupId (f a) \<in> bg_Id ` set (t_groups d)" by blast
qed

lemma reassignStmt_eq:
  assumes "list_all quote_free ids" and "ids \<noteq> []"
  shows "reassignStmt ids i d =
     Inr (d\<lparr>t_bgas := map (\<lambda>a. if bga_NodeId a \<in> set ids then a\<lparr>bga_BootGroupId := i\<rparr> else a) (t_bgas d)\<rparr>)"
proof -
  note f = sql_filter_IN [of "''node_id''" "''IN''" ids bga_col, OF _ _ assms(1)]
  obtain w where w: "parse_where ('' node_id IN '' @ stringSliceToSql ids) = Some w"
    using f [of "[]"] by (auto simp: sql_filter_def)
  have "eval_where (bga_col a) w \<longleftrightarrow> bga_NodeId a \<in> set ids" for a
    using f [of "[a]"] w assms(2) by (auto simp: sql_filter_def bga_col_def split: if_splits)
  then show ?thesis unfolding reassignStmt_def w by (auto cong: map_cong)
qed

lemma wp_reassignLoop:
  assumes w: "wf E s"
    and es: "\<And>b ns. (b, ns) \<in> set es \<Longrightarrow> bg_Id (Bg b) \<in> bg_Id ` set (t_groups (pdb s)) \<and> ns \<noteq> [] \<and>
              list_all quote_free (map n_Id ns)"
    and dist: "distinct (concat (map (\<lambda>(b, ns). map n_Id ns) es))"
    and Q: "\<And>f k. retargets es f \<Longrightarrow> wfu E (uctr s) ((pdb s)\<lparr>t_bgas := map f (t_bgas (pdb s))\<rparr>) \<Longrightarrow>
           Q (acc @ concat (map (\<lambda>(b, ns). map n_Id ns) es)) (s\<lparr>tick := k, pdb := (pdb s)\<lparr>t_bgas := map f (t_bgas (pdb s))\<rparr>\<rparr>)"
    and R: "\<And>e f k. \<not> no_faults E \<Longrightarrow> wfu E (uctr s) ((pdb s)\<lparr>t_bgas := map f (t_bgas (pdb s))\<rparr>) \<Longrightarrow>
           R e (s\<lparr>tick := k, pdb := (pdb s)\<lparr>t_bgas := map f (t_bgas (pdb s))\<rparr>\<rparr>)"
  shows "wp (foldEach (reassignStep E) es acc) Q R s"
proof -
  let ?d = "pdb s"
  let ?st = "\<lambda>k f. s\<lparr>tick := k, pdb := ?d\<lparr>t_bgas := map f (t_bgas ?d)\<rparr>\<rparr>"
  let ?ids = "\<lambda>xs. concat (map (\<lambda>(b :: bgbc, ns). map n_Id ns) xs)"
  let ?I = "\<lambda>xs r t. r = acc @ ?ids xs \<and> (\<exists>f k. retargets xs f \<and> t = ?st k f)"
  have "wp (foldEach (reassignStep E) es acc) (?I es) R s"
  proof (rule wp_foldEach)
    have "s = ?st (tick s) (\<lambda>a. a)" by simp
    then show "?I [] acc s" using retargets_Nil by fastforce
  next
    fix xs e ys r t
    assume z: "es = xs @ e # ys" and i: "?I xs r t"
    obtain b ns where be: "e = (b, ns)" by (cases e)
    from i obtain f k where f: "retargets xs f" and t: "t = ?st k f" by blast
    let ?h = "\<lambda>a. if bga_NodeId a \<in> set (map n_Id ns) then a\<lparr>bga_BootGroupId := bg_Id (Bg b)\<rparr> else a"
    have b: "bg_Id (Bg b) \<in> bg_Id ` set (t_groups ?d)" "map n_Id ns \<noteq> []" "list_all quote_free (map n_Id ns)"
      using es [of b ns] z be by auto
    have "bg_Id (Bg b) \<noteq> []" using b(1) wfu_db [OF w] by (auto simp: wf_db_def db_ids_def)
    have h: "retargets [e] ?h" by (auto simp: retargets_def be)
    have "?ids es = ?ids xs @ map n_Id ns @ ?ids ys" by (simp add: z be)
    then have "set (?ids xs) \<inter> set (map n_Id ns) = {}"
      using dist by (simp only: distinct_append set_append) blast
    then have "nodeIdsOf xs \<inter> nodeIdsOf [e] = {}"
      unfolding set_nodeIds by (simp add: be nodeIdsOf_def)
    from retargets_append [OF f h this] have hf: "retargets (xs @ [e]) (\<lambda>a. ?h (f a))" .
    have wx: "wfu E (uctr s) (?d\<lparr>t_bgas := map f (t_bgas ?d)\<rparr>)"
      by (rule retargets_wfu [OF w f]) (use es z in auto)
    have wy: "wfu E (uctr s) (?d\<lparr>t_bgas := map (\<lambda>a. ?h (f a)) (t_bgas ?d)\<rparr>)"
      by (rule retargets_wfu [OF w hf]) (use es z in auto)
    have upd: "t\<lparr>tick := j, pdb := (pdb t)\<lparr>t_bgas := map ?h (t_bgas (pdb t))\<rparr>\<rparr> = ?st j (\<lambda>a. ?h (f a))" for j
      by (simp add: t comp_def)
    show "wp (reassignStep E e r) (?I (xs @ [e])) R t"
      unfolding reassignStep_def be prod.case Let_def wp_andThen wp_mapErr wp_ret updateNodeAssignment_def
      using b(2) \<open>bg_Id (Bg b) \<noteq> []\<close>
    proof (simp only: length_0_conv if_False, intro wp_dbExec [where d = "(pdb t)\<lparr>t_bgas := map ?h (t_bgas (pdb t))\<rparr>"])
      show "reassignStmt (map n_Id ns) (bg_Id (Bg b)) (pdb t) = Inr ((pdb t)\<lparr>t_bgas := map ?h (t_bgas (pdb t))\<rparr>)"
        by (rule reassignStmt_eq [OF b(3,2)])
    next
      show "r @ map n_Id ns = acc @ ?ids (xs @ [(b, ns)]) \<and>
          (\<exists>f k. retargets (xs @ [(b, ns)]) f \<and>
             t\<lparr>tick := Suc (tick t), pdb := (pdb t)\<lparr>t_bgas := map ?h (t_bgas (pdb t))\<rparr>\<rparr> = ?st k f)"
        unfolding upd using i hf be by auto
    next
      fix x assume "\<not> no_faults E"
      from R [OF this wx, of _ "Suc k"] show "R (ErrPostgresUpdate (Wrapped ''could not update boot group assignments''
          (Wrapped ''error executing update on boot group assignments'' (Err x)))) (t\<lparr>tick := Suc (tick t)\<rparr>)"
        by (simp add: t)
    next
      fix x assume "\<not> no_faults E"
      from R [OF this wy] show "R (ErrPostgresUpdate (Wrapped ''could not update boot group assignments''
          (Wrapped ''error executing update on boot group assignments'' (Err x))))
          (t\<lparr>tick := Suc (tick t), pdb := (pdb t)\<lparr>t_bgas := map ?h (t_bgas (pdb t))\<rparr>\<rparr>)"
        unfolding upd .
    qed
  qed
  then show ?thesis
  proof (rule wp_mono)
    fix r t assume "?I es r t"
    then obtain f k where "r = acc @ ?ids es" "retargets es f" "t = ?st k f" by blast
    moreover have "wfu E (uctr s) (?d\<lparr>t_bgas := map f (t_bgas ?d)\<rparr>)"
      by (rule retargets_wfu [OF w \<open>retargets es f\<close>]) (use es in blast)
    ultimately show "Q r t" using Q by simp
  qed
qed

lemma delConfigsStmt_Nil:
  assumes "wf_db d"
  shows "delConfigsStmt [] d = Inr d"
proof -
  have f: "sql_filter ('' '' @ c @ '' '' @ ''IN'' @ '' '' @ stringSliceToSql []) col rows =
      Some (filter (\<lambda>r. eval_cond (col r) (CIn c [VStr []])) rows)" if "ident c"
    for c and col :: "'r \<Rightarrow> string \<Rightarrow> sqlval" and rows
    using sql_filter_IN [OF that, of "''IN''" "[]" col rows] by (simp add: sql_strs_def)
  have i: "ident ''bc.id''" "ident ''bg.boot_config_id''"
    by (simp_all add: ident_def ident_char_def less_eq_char_def)
  have ev: "\<exists>w. parse_where ('' '' @ c @ '' '' @ ''IN'' @ '' '' @ stringSliceToSql []) = Some w \<and>
      (\<forall>col. eval_where col w = eval_cond col (CIn c [VStr []]))" if c: "ident c" for c
  proof -
    obtain w where w: "parse_where ('' '' @ c @ '' '' @ ''IN'' @ '' '' @ stringSliceToSql []) = Some w"
      using f [OF c, of "\<lambda>_ :: unit. \<lambda>_. VNull" "[]"] by (auto simp: sql_filter_def)
    have "eval_where col w = eval_cond col (CIn c [VStr []])" for col
      using f [OF c, of "\<lambda>_ :: unit. col" "[()]"] w by (auto simp: sql_filter_def split: if_splits)
    with w show ?thesis by blast
  qed
  obtain w1 where w1: "parse_where ('' bc.id IN '' @ stringSliceToSql []) = Some w1"
    "\<And>col. eval_where col w1 = eval_cond col (CIn ''bc.id'' [VStr []])"
    using ev [OF i(1)] by auto
  obtain w2 where w2: "parse_where ('' bg.boot_config_id IN '' @ stringSliceToSql []) = Some w2"
    "\<And>col. eval_where col w2 = eval_cond col (CIn ''bg.boot_config_id'' [VStr []])"
    using ev [OF i(2)] by auto
  have ids: "bc_Id c \<noteq> []" if "c \<in> set (t_configs d)" for c
    using assms that by (auto simp: wf_db_def db_ids_def)
  have "bg_BootConfigId g \<noteq> []" if "g \<in> set (t_groups d)" for g
    using assms that ids by (fastforce simp: wf_db_def)
  then have "filter (\<lambda>g. \<not> eval_where (qual ''bg'' (group_col g)) w2) (t_groups d) = t_groups d"
    by (auto simp: w2 qual_def hasPrefix_def group_col_def intro!: filter_True)
  moreover have "filter (\<lambda>c. \<not> (eval_where (qual ''bc'' (config_col c)) w1 \<and>
        (\<exists>g \<in> set (t_groups d). bg_BootConfigId g = bc_Id c))) (t_configs d) = t_configs d"
    using ids by (auto simp: w1 qual_def hasPrefix_def config_col_def intro!: filter_True)
  ultimately show ?thesis
    unfolding delConfigsStmt_def w1(1) w2(1) by simp
qed

text \<open>What the loop must have prepared for \<open>applyUpdate\<close>.\<close>

definition addsOk :: "pg_env \<Rightarrow> nat \<Rightarrow> pg_db \<Rightarrow> (bgbc \<times> Node list) list \<Rightarrow> bool" where
  "addsOk E u d adds \<longleftrightarrow>
     distinct (map (\<lambda>(b, _). bc_Id (Bc b)) adds) \<and> distinct (map (\<lambda>(b, _). bg_Id (Bg b)) adds) \<and>
     (\<forall>(b, ns) \<in> set adds. \<forall>(b', ns') \<in> set adds. bg_Id (Bg b) \<noteq> bc_Id (Bc b')) \<and>
     (\<forall>(b, ns) \<in> set adds. bg_BootConfigId (Bg b) = bc_Id (Bc b) \<and> bc_KernelUri (Bc b) \<noteq> [] \<and>
        new_id E u d (bc_Id (Bc b)) \<and> new_id E u d (bg_Id (Bg b)))"

lemma addsOk_mset: "mset adds = mset adds' \<Longrightarrow> addsOk E u d adds = addsOk E u d adds'"
proof -
  assume m: "mset adds = mset adds'"
  have "distinct (map f adds) = distinct (map f adds')" for f :: "bgbc \<times> Node list \<Rightarrow> string"
    using m by (metis mset_map mset_eq_imp_distinct_iff)
  with mset_eq_setD [OF m] show ?thesis unfolding addsOk_def by simp
qed

lemma wfu_adds:
  assumes E: "env_ok E" and w: "wfu E u d" and a: "addsOk E u d adds"
  shows "map (\<lambda>(b, _). Bc b) adds = xs @ ys \<Longrightarrow> wfu E u (d\<lparr>t_configs := t_configs d @ xs\<rparr>)"
    and "map (\<lambda>(b, _). Bg b) adds = xs' @ ys' \<Longrightarrow>
      wfu E u (d\<lparr>t_configs := t_configs d @ map (\<lambda>(b, _). Bc b) adds, t_groups := t_groups d @ xs'\<rparr>)"
proof -
  have cs: "distinct (map bc_Id (map (\<lambda>(b, _). Bc b) adds))" "distinct (map bg_Id (map (\<lambda>(b, _). Bg b) adds))"
    using a by (simp_all add: addsOk_def comp_def case_prod_unfold)
  have c: "new_id E u d (bc_Id c) \<and> bc_KernelUri c \<noteq> []" if "c \<in> set (map (\<lambda>(b, _). Bc b) adds)" for c
    using that a by (auto simp: addsOk_def)
  show wc: "wfu E u (d\<lparr>t_configs := t_configs d @ xs\<rparr>)" if e: "map (\<lambda>(b, _). Bc b) adds = xs @ ys" for xs ys
    by (rule wfu_addConfigs [OF E w]) (use cs(1) c in \<open>simp_all add: e\<close>)
  let ?d = "d\<lparr>t_configs := t_configs d @ map (\<lambda>(b, _). Bc b) adds\<rparr>"
  assume e: "map (\<lambda>(b, _). Bg b) adds = xs' @ ys'"
  have "wfu E u (?d\<lparr>t_groups := t_groups ?d @ xs'\<rparr>)"
  proof (rule wfu_addGroups [OF E wc [of _ "[]"]])
    have "map bg_BootConfigId (map (\<lambda>(b, _). Bg b) adds) = map bc_Id (map (\<lambda>(b, _). Bc b) adds)"
      using a by (auto simp: addsOk_def)
    then have "distinct (map bg_BootConfigId (xs' @ ys'))" using cs(1) by (simp only: e)
    then show "distinct (map bg_BootConfigId xs')" by simp
    show "distinct (map bg_Id xs')" using cs(2) by (simp add: e)
    fix g assume "g \<in> set xs'"
    then have "g \<in> set (map (\<lambda>(b, _). Bg b) adds)" by (simp add: e)
    then obtain b ns where b: "(b, ns) \<in> set adds" "g = Bg b" by auto
    have cfg: "bg_BootConfigId ` set (t_groups d) \<subseteq> bc_Id ` set (t_configs d)"
      using wfu_db [OF w] by (auto simp: wf_db_def)
    have n: "new_id E u d (bg_Id g)" "new_id E u d (bg_BootConfigId g)" "bg_BootConfigId g = bc_Id (Bc b)"
      using a b unfolding addsOk_def by auto
    have "bg_Id g \<notin> bc_Id ` set (map (\<lambda>(b, _). Bc b) adds)"
      using a b unfolding addsOk_def by fastforce
    then have "new_id E u ?d (bg_Id g)" using n(1) by (auto simp: new_id_def db_ids_def)
    moreover have "bg_BootConfigId g \<in> bc_Id ` set (t_configs ?d)" using b n(3) by force
    moreover have "bg_BootConfigId g \<notin> bg_BootConfigId ` set (t_groups ?d)"
      using n(2) cfg by (auto simp: new_id_def db_ids_def)
    ultimately show "new_id E u ?d (bg_Id g) \<and> bg_BootConfigId g \<in> bc_Id ` set (t_configs ?d) \<and>
        bg_BootConfigId g \<notin> bg_BootConfigId ` set (t_groups ?d)" by blast
  qed simp
  then show "wfu E u (d\<lparr>t_configs := t_configs d @ map (\<lambda>(b, _). Bc b) adds, t_groups := t_groups d @ xs'\<rparr>)"
    by simp
qed

lemma mset_concat_map: "mset (concat (map f xs)) = sum_mset (image_mset (\<lambda>x. mset (f x)) (mset xs))"
  by (induction xs) auto

lemma perm_concat: "mset xs = mset ys \<Longrightarrow> mset (concat (map f xs)) = mset (concat (map f ys))"
  by (simp add: mset_concat_map)

definition updated :: "pg_db \<Rightarrow> (bgbc \<times> Node list) list \<Rightarrow> (bgbc \<times> Node list) list \<Rightarrow> pg_db \<Rightarrow> bool" where
  "updated d adds exs d' \<longleftrightarrow>
     (\<exists>cs gs h. set cs = (\<lambda>(b, _). Bc b) ` set adds \<and> set gs = (\<lambda>(b, _). Bg b) ` set adds \<and>
        length cs = length adds \<and> length gs = length adds \<and> retargets (adds @ exs) h \<and>
        d' = d\<lparr>t_configs := t_configs d @ cs, t_groups := t_groups d @ gs, t_bgas := map h (t_bgas d)\<rparr>)"

lemma wp_applyUpdate:
  assumes E: "env_ok E" and w: "wf E s" and a: "addsOk E (uctr s) (pdb s) adds"
    and x: "\<And>b ns. (b, ns) \<in> set exs \<Longrightarrow> Bg b \<in> set (t_groups (pdb s))"
    and ne: "\<And>b ns. (b, ns) \<in> set adds \<union> set exs \<Longrightarrow> ns \<noteq> [] \<and> list_all quote_free (map n_Id ns)"
    and dist: "distinct (concat (map (\<lambda>(b, ns). map n_Id ns) (adds @ exs)))"
    and Q: "\<And>r s'. wf E s' \<Longrightarrow> updated (pdb s) adds exs (pdb s') \<Longrightarrow>
           mset r = mset (concat (map (\<lambda>(b, ns). map n_Id ns) (adds @ exs))) \<Longrightarrow> Q r s'"
    and R: "\<And>e s'. \<not> no_faults E \<Longrightarrow> wf E s' \<Longrightarrow> t_nodes (pdb s') = t_nodes (pdb s) \<Longrightarrow> R e s'"
  shows "wp (applyUpdate E ([], adds, exs)) Q R s"
proof -
  define d where "d = pdb s"
  define u where "u = uctr s"
  let ?cs = "\<lambda>as. map (\<lambda>(b, _). Bc b) as" and ?gs = "\<lambda>as. map (\<lambda>(b, _). Bg b) as"
  let ?ids = "\<lambda>as. concat (map (\<lambda>(b :: bgbc, ns). map n_Id ns) as)"
  have wd: "wfu E u d" using w by (simp add: d_def u_def)
  have fault: "R e (s\<lparr>tick := k, pdb := d'\<rparr>)" if "\<not> no_faults E" "wfu E u d'" "t_nodes d' = t_nodes d" for e k d'
    by (rule R) (use that in \<open>simp_all add: d_def u_def\<close>)
  have main: "wp (addBootConfigs E (?cs as)) (\<lambda>_. wp (addBootGroups E (?gs as)) (\<lambda>_. wp (rangeMap E adds) (\<lambda>adds2.
      wp (foldEach (reassignStep E) adds2 []) (\<lambda>r. wp (rangeMap E exs) (\<lambda>xs. wp (foldEach (reassignStep E) xs r) Q R) R) R) R)
      (\<lambda>e. R (updErr ''could not add boot config(s)'' e))) (\<lambda>e. R (updErr ''could not add boot config(s)'' e))
      (s\<lparr>tick := k, pdb := d\<rparr>)"
    if as: "mset as = mset adds" for as k
  proof -
    have a': "addsOk E u d as" using a addsOk_mset [OF as] by (simp add: d_def u_def)
    note wa = wfu_adds [OF E wd a']
    let ?d2 = "d\<lparr>t_configs := t_configs d @ ?cs as, t_groups := t_groups d @ ?gs as\<rparr>"
    have w2: "wfu E u ?d2" using wa(2) [of "?gs as" "[]"] by simp
    have bs: "set adds = set as" using as by (metis mset_eq_setD)
    have loops: "wp (foldEach (reassignStep E) adds2 []) (\<lambda>r. wp (rangeMap E exs) (\<lambda>xs. wp (foldEach (reassignStep E) xs r) Q R) R) R
        (s\<lparr>tick := j, pdb := ?d2\<rparr>)" if a2: "mset adds2 = mset adds" for adds2 j
    proof (rule wp_reassignLoop)
      have s2: "set adds2 = set adds" using a2 by (metis mset_eq_setD)
      show "wf E (s\<lparr>tick := j, pdb := ?d2\<rparr>)" using w2 by (simp add: u_def)
      show "bg_Id (Bg b) \<in> bg_Id ` set (t_groups (pdb (s\<lparr>tick := j, pdb := ?d2\<rparr>))) \<and> ns \<noteq> [] \<and> list_all quote_free (map n_Id ns)"
        if "(b, ns) \<in> set adds2" for b ns
        using that ne [of b ns] by (force simp: s2 bs)
      have "mset (?ids adds2) = mset (?ids adds)" by (rule perm_concat [OF a2])
      then show "distinct (?ids adds2)"
        using dist by (metis (no_types, lifting) concat_append distinct_append map_append mset_eq_imp_distinct_iff)
      fix f i
      assume f: "retargets adds2 f" and "wfu E (uctr (s\<lparr>tick := j, pdb := ?d2\<rparr>)) ((pdb (s\<lparr>tick := j, pdb := ?d2\<rparr>))\<lparr>t_bgas := map f (t_bgas (pdb (s\<lparr>tick := j, pdb := ?d2\<rparr>)))\<rparr>)"
      then have w3: "wfu E u (?d2\<lparr>t_bgas := map f (t_bgas d)\<rparr>)" by (simp add: u_def)
      let ?s3 = "s\<lparr>tick := Suc i, pdb := ?d2\<lparr>t_bgas := map f (t_bgas d)\<rparr>\<rparr>"
      have "wp (foldEach (reassignStep E) xs ([] @ ?ids adds2)) Q R ?s3" if m: "mset xs = mset exs" for xs
      proof (rule wp_reassignLoop)
        have sx: "set xs = set exs" using m by (metis mset_eq_setD)
        show "wf E ?s3" using w3 by (simp add: u_def)
        show "bg_Id (Bg b) \<in> bg_Id ` set (t_groups (pdb ?s3)) \<and> ns \<noteq> [] \<and> list_all quote_free (map n_Id ns)"
          if "(b, ns) \<in> set xs" for b ns
          using that ne [of b ns] x [of b ns] by (auto simp: sx d_def)
        have "mset (?ids xs) = mset (?ids exs)" by (rule perm_concat [OF m])
        then show "distinct (?ids xs)"
          using dist by (metis (no_types, lifting) concat_append distinct_append map_append mset_eq_imp_distinct_iff)
        fix g l
        assume g: "retargets xs g" and "wfu E (uctr ?s3) ((pdb ?s3)\<lparr>t_bgas := map g (t_bgas (pdb ?s3))\<rparr>)"
        then have w4: "wfu E u (?d2\<lparr>t_bgas := map (\<lambda>a. g (f a)) (t_bgas d)\<rparr>)"
          by (simp add: u_def comp_def)
        have "retargets adds f" "retargets exs g"
          using f g retargets_set [OF s2] retargets_set [OF sx] by simp_all
        moreover have "nodeIdsOf adds \<inter> nodeIdsOf exs = {}"
          using dist unfolding set_nodeIds [symmetric] map_append concat_append distinct_append by simp
        ultimately have gf: "retargets (adds @ exs) (\<lambda>a. g (f a))" by (rule retargets_append)
        have mr: "mset (([] @ ?ids adds2) @ ?ids xs) = mset (?ids (adds @ exs))"
          using perm_concat [OF a2, of "\<lambda>(b, ns). map n_Id ns"] perm_concat [OF m, of "\<lambda>(b, ns). map n_Id ns"]
          by (simp only: append_Nil mset_append map_append concat_append)
        have "updated d adds exs (?d2\<lparr>t_bgas := map (\<lambda>a. g (f a)) (t_bgas d)\<rparr>)"
          unfolding updated_def
          by (intro exI [of _ "?cs as"] exI [of _ "?gs as"] exI [of _ "\<lambda>a. g (f a)"])
            (use gf bs as in \<open>auto dest: mset_eq_length\<close>)
        then show "Q (([] @ ?ids adds2) @ ?ids xs) (?s3\<lparr>tick := l, pdb := (pdb ?s3)\<lparr>t_bgas := map g (t_bgas (pdb ?s3))\<rparr>\<rparr>)"
          by (intro Q) (use w4 mr in \<open>simp_all add: d_def u_def comp_def\<close>)
      next
        fix e g l
        assume "\<not> no_faults E" "wfu E (uctr ?s3) ((pdb ?s3)\<lparr>t_bgas := map g (t_bgas (pdb ?s3))\<rparr>)"
        then show "R e (?s3\<lparr>tick := l, pdb := (pdb ?s3)\<lparr>t_bgas := map g (t_bgas (pdb ?s3))\<rparr>\<rparr>)"
          by (intro R) (simp_all add: d_def)
      qed
      then show "wp (rangeMap E exs) (\<lambda>xs. wp (foldEach (reassignStep E) xs ([] @ ?ids adds2)) Q R) R
          (s\<lparr>tick := j, pdb := ?d2, tick := i, pdb := (pdb (s\<lparr>tick := j, pdb := ?d2\<rparr>))\<lparr>t_bgas := map f (t_bgas (pdb (s\<lparr>tick := j, pdb := ?d2\<rparr>)))\<rparr>\<rparr>)"
        using E by (simp add: mset_permute)
    next
      fix e f i
      assume "\<not> no_faults E" "wfu E (uctr (s\<lparr>tick := j, pdb := ?d2\<rparr>)) ((pdb (s\<lparr>tick := j, pdb := ?d2\<rparr>))\<lparr>t_bgas := map f (t_bgas (pdb (s\<lparr>tick := j, pdb := ?d2\<rparr>)))\<rparr>)"
      then show "R e (s\<lparr>tick := j, pdb := ?d2, tick := i, pdb := (pdb (s\<lparr>tick := j, pdb := ?d2\<rparr>))\<lparr>t_bgas := map f (t_bgas (pdb (s\<lparr>tick := j, pdb := ?d2\<rparr>)))\<rparr>\<rparr>)"
        by (intro R) (simp_all add: d_def)
    qed
    have ci: "new_id E u d (bc_Id c)" if "c \<in> set (?cs as)" for c using a' that by (auto simp: addsOk_def)
    have gi: "new_id E u d (bg_Id c)" if "c \<in> set (?gs as)" for c using a' that by (auto simp: addsOk_def)
    show ?thesis
    proof (rule wp_addBootConfigs, goal_cases)
      case 1
      show ?case using a' by (simp add: addsOk_def comp_def case_prod_unfold)
    next
      case 2
      show ?case using ci by (auto simp: new_id_def db_ids_def)
    next
      case (3 k')
      show ?case
      proof (rule wp_addBootGroups, goal_cases)
        case 1
        show ?case using a' by (simp add: addsOk_def comp_def case_prod_unfold)
      next
        case 2
        show ?case using gi by (auto simp: new_id_def db_ids_def)
      next
        case (3 l)
        show ?case using loops [of "permute (map_order E l) adds" "Suc l"] E by (simp add: mset_permute)
      next
        case (4 e l xs ys)
        then show ?case using wa(2) [OF 4(2)] by (auto intro!: fault)
      qed
    next
      case (4 e k' xs ys)
      then show ?case using wa(1) [OF 4(2)] by (auto intro!: fault)
    qed
  qed
  show ?thesis
    unfolding applyUpdate_def prod.case wp_andThen wp_mapErr
  proof (rule wp_dbExec [where d = d])
    show "delConfigsStmt (map (\<lambda>b. bc_Id (Bc b)) []) (pdb s) = Inr d"
      using delConfigsStmt_Nil [OF wfu_db [OF w]] by (simp add: d_def)
  next
    show "wp (rangeMap E adds) (\<lambda>as. wp (addBootConfigs E (?cs as)) (\<lambda>_. wp (addBootGroups E (?gs as)) (\<lambda>_. wp (rangeMap E adds) (\<lambda>adds2.
      wp (foldEach (reassignStep E) adds2 []) (\<lambda>r. wp (rangeMap E exs) (\<lambda>xs. wp (foldEach (reassignStep E) xs r) Q R) R) R) R)
      (\<lambda>e. R (updErr ''could not add boot config(s)'' e))) (\<lambda>e. R (updErr ''could not add boot config(s)'' e))) R
      (s\<lparr>tick := Suc (tick s), pdb := d\<rparr>)"
      using main [of "permute (map_order E (Suc (tick s))) adds" "Suc (Suc (tick s))"] E by (simp add: mset_permute)
  next
    fix e assume f: "\<not> no_faults E"
    show "R (updErr ''could not perform boot group/config deletion'' (Err e)) (s\<lparr>tick := Suc (tick s)\<rparr>)"
      using f w by (intro R) simp_all
    show "R (updErr ''could not perform boot group/config deletion'' (Err e)) (s\<lparr>tick := Suc (tick s), pdb := d\<rparr>)"
      using fault [OF f wd] by simp
  qed
qed

subsection \<open>The loop over the configurations\<close>

definition mergeVals :: "BootParams \<Rightarrow> string \<times> string \<times> string \<Rightarrow> string \<times> string \<times> string" where
  "mergeVals bp v =
     (if Kernel bp \<noteq> [] then Kernel bp else fst v,
      if Initrd bp \<noteq> [] then Initrd bp else fst (snd v),
      if Params bp \<noteq> [] then Params bp else snd (snd v))"

lemma pushAt_append:
  "k \<notin> fst ` set m \<Longrightarrow> pushAt k v (m @ [(k, vs)]) = m @ [(k, vs @ [v])]"
proof -
  assume k: "k \<notin> fst ` set m"
  then have "map_of m k = None" by (simp add: map_of_eq_None_iff)
  then have "map_of (m @ [(k, vs)]) k = Some vs" by (simp add: map_add_def)
  moreover have "AList.update k w (m @ [(k, vs)]) = m @ [(k, w)]" for w
    using k by (induction m) auto
  ultimately show ?thesis by (simp add: pushAt_def)
qed

lemma pushAt_fresh: "k \<notin> fst ` set m \<Longrightarrow> pushAt k v m = m @ [(k, [v])]"
proof -
  assume k: "k \<notin> fst ` set m"
  then have "map_of m k = None" by (simp add: map_of_eq_None_iff)
  with k show ?thesis by (simp add: pushAt_def update_fresh)
qed

lemma pushNodes_fresh:
  assumes "key \<notin> fst ` set m" and "filter (\<lambda>n. map_of N n \<noteq> None) ns \<noteq> []"
  shows "pushNodes N key ns m = m @ [(key, filter (\<lambda>n. map_of N n \<noteq> None) ns)]"
proof -
  have app: "foldl (\<lambda>m n. if P n then pushAt key n m else m) (m @ [(key, vs)]) xs = m @ [(key, vs @ filter P xs)]"
    for vs xs P
    by (induction xs arbitrary: vs) (simp_all add: pushAt_append [OF assms(1)])
  have "foldl (\<lambda>m n. if P n then pushAt key n m else m) m xs = m @ [(key, filter P xs)]"
    if "filter P xs \<noteq> []" for P xs
    using that by (induction xs) (simp_all add: pushAt_fresh [OF assms(1)] app split: if_splits)
  from this [OF assms(2)] show ?thesis by (simp add: pushNodes_def)
qed

lemma similarMap_Some:
  assumes "map_of (similarMap sBs) c0 = Some g"
  shows "\<exists>c. (g, c) \<in> set sBs \<and> c\<lparr>bc_Id := []\<rparr> = c0"
proof -
  have "similarMap sBs = foldl (\<lambda>m x. AList.update ((snd x)\<lparr>bc_Id := []\<rparr>) (fst x) m) [] sBs"
    by (simp add: similarMap_def case_prod_unfold)
  with assms have m: "(case filter (\<lambda>x. (snd x)\<lparr>bc_Id := []\<rparr> = c0) (rev sBs) of
      [] \<Rightarrow> map_of [] c0 | x # _ \<Rightarrow> Some (fst x)) = Some g"
    by (simp only: map_of_foldl_update)
  then obtain x xs where f: "filter (\<lambda>x. (snd x)\<lparr>bc_Id := []\<rparr> = c0) (rev sBs) = x # xs"
    by (cases "filter (\<lambda>x. (snd x)\<lparr>bc_Id := []\<rparr> = c0) (rev sBs)") auto
  then have "x \<in> set (filter (\<lambda>x. (snd x)\<lparr>bc_Id := []\<rparr> = c0) (rev sBs))" by simp
  then have "x \<in> set sBs" "(snd x)\<lparr>bc_Id := []\<rparr> = c0" by simp_all
  moreover have "g = fst x" using f m by simp
  ultimately show ?thesis by (intro exI [of _ "snd x"]) simp
qed

text \<open>The invariant of the loop over the entries of \<open>bgbcToN\<close>: nothing is marked for deletion;
  every prepared entry holds the nodes to update of one entry seen so far, and
  its configuration is the merged one; ids are new; no node is lost.\<close>

definition planOk :: "BootParams \<Rightarrow> (Node \<Rightarrow> bool) \<Rightarrow> (bgbc \<times> Node list) list \<Rightarrow> bgbc \<times> Node list \<Rightarrow> bool" where
  "planOk bp sel xs e \<longleftrightarrow> snd e \<noteq> [] \<and>
     (\<exists>(ncfg, nl) \<in> set xs. snd e = filter sel nl \<and> cfgVals (Bc (fst e)) = mergeVals bp (cfgVals (Bc ncfg)))"

definition idRange :: "pg_env \<Rightarrow> nat \<Rightarrow> nat \<Rightarrow> string set" where
  "idRange E u v = gen_uuid E ` {u..<v}"

definition updInv :: "pg_env \<Rightarrow> BootParams \<Rightarrow> (Node \<Rightarrow> bool) \<Rightarrow> pg_db \<Rightarrow> nat \<Rightarrow> (bgbc \<times> Node list) list \<Rightarrow>
    upd_acc \<Rightarrow> pgst \<Rightarrow> bool" where
  "updInv E bp sel d u xs acc t \<longleftrightarrow>
     (case acc of (del, adds, exs) \<Rightarrow>
        del = [] \<and> pdb t = d \<and> u \<le> uctr t \<and>
        (\<forall>e \<in> set adds \<union> set exs. planOk bp sel xs e \<and> bc_Id (Bc (fst e)) \<in> idRange E u (uctr t)) \<and>
        (\<forall>e \<in> set adds. bg_BootConfigId (Bg (fst e)) = bc_Id (Bc (fst e)) \<and> bc_KernelUri (Bc (fst e)) \<noteq> [] \<and>
           bg_Id (Bg (fst e)) \<in> idRange E u (uctr t)) \<and>
        (\<forall>e \<in> set exs. \<exists>c. (Bg (fst e), c) \<in> set (groupCfgs d) \<and> cfgVals c = cfgVals (Bc (fst e))) \<and>
        distinct (map (\<lambda>e. bc_Id (Bc (fst e))) adds) \<and> distinct (map (\<lambda>e. bg_Id (Bg (fst e))) adds) \<and>
        (\<forall>e \<in> set adds. \<forall>e' \<in> set adds. bg_Id (Bg (fst e)) \<noteq> bc_Id (Bc (fst e'))) \<and>
        mset (concat (map snd adds)) + mset (concat (map snd exs)) =
          mset (concat (map (\<lambda>e. filter sel (snd e)) xs)))"

lemma idRange_mono: "i \<in> idRange E u v \<Longrightarrow> v \<le> v' \<Longrightarrow> i \<in> idRange E u v'"
  by (auto simp: idRange_def)

lemma idRange_new: "env_ok E \<Longrightarrow> u \<le> v \<Longrightarrow> v < v' \<Longrightarrow> gen_uuid E v \<in> idRange E u v'"
  by (auto simp: idRange_def)

lemma idRange_not: "env_ok E \<Longrightarrow> v \<le> k \<Longrightarrow> gen_uuid E k \<notin> idRange E u v"
  by (auto simp: idRange_def)

lemma idRange_neq: "env_ok E \<Longrightarrow> i \<in> idRange E u v \<Longrightarrow> v \<le> k \<Longrightarrow> i \<noteq> gen_uuid E k"
  by (auto simp: idRange_def)

lemma planOk_snoc: "planOk bp sel xs e \<Longrightarrow> planOk bp sel (xs @ ys) e"
  by (auto simp: planOk_def)

lemma wp_updateStep:
  assumes E: "env_ok E" and I: "updInv E bp sel d u xs acc t"
    and sel: "sel = (\<lambda>n. map_of N n \<noteq> None)" and sBs: "set sBs \<subseteq> set (groupCfgs d)"
    and ne: "filter sel nl \<noteq> []" and k: "bc_KernelUri (Bc ncfg) \<noteq> []"
  shows "wp (updateStep E bp N (similarMap sBs) (ncfg, nl) acc) (updInv E bp sel d u (xs @ [(ncfg, nl)])) R t"
proof -
  obtain del adds exs where acc: "acc = (del, adds, exs)" by (cases acc)
  let ?v = "mergeVals bp (cfgVals (Bc ncfg))"
  let ?c = "\<lparr>bc_Id = gen_uuid E (uctr t), bc_KernelUri = fst ?v, bc_InitrdUri = fst (snd ?v), bc_Cmdline = snd (snd ?v)\<rparr>"
  let ?g = "\<lparr>bg_Id = gen_uuid E (Suc (uctr t)), bg_BootConfigId = gen_uuid E (uctr t),
             bg_Name = nodeGroupName (fst ?v) (fst (snd ?v)) (snd (snd ?v)),
             bg_Description = nodeGroupDesc (fst ?v) (fst (snd ?v)) (snd (snd ?v))\<rparr>"
  let ?t = "t\<lparr>uctr := Suc (Suc (uctr t))\<rparr>"
  let ?new = "[(ncfg, nl)]"
  have i: "del = []" "pdb t = d" "u \<le> uctr t"
    using I by (simp_all add: updInv_def acc)
  have kv: "fst ?v \<noteq> []" using k by (simp add: mergeVals_def cfgVals_def)
  have vals: "(if Kernel bp \<noteq> [] then Kernel bp else bc_KernelUri (Bc ncfg)) = fst ?v"
    "(if Initrd bp \<noteq> [] then Initrd bp else bc_InitrdUri (Bc ncfg)) = fst (snd ?v)"
    "(if Params bp \<noteq> [] then Params bp else bc_Cmdline (Bc ncfg)) = snd (snd ?v)"
    by (simp_all add: mergeVals_def cfgVals_def)
  have ex: "list_ex (\<lambda>n. map_of N n \<noteq> None) nl"
    using ne by (auto simp: sel list_ex_iff filter_empty_conv)
  have cv: "cfgVals ?c = ?v" by (simp add: cfgVals_def)
  have plan: "planOk bp sel (xs @ ?new) (b, filter sel nl)" if "Bc b = ?c" for b
    using ne cv that by (simp add: planOk_def)
  have fresh: "b \<notin> fst ` set adds" "b \<notin> fst ` set exs" if "Bc b = ?c" for b
  proof -
    have "bc_Id (Bc (fst e)) \<noteq> gen_uuid E (uctr t)" if "e \<in> set adds \<union> set exs" for e
      using I that idRange_neq [OF E _ order_refl] unfolding updInv_def acc prod.case by blast
    then show "b \<notin> fst ` set adds" "b \<notin> fst ` set exs" using \<open>Bc b = ?c\<close> by fastforce+
  qed
  have push: "pushNodes N b nl m = m @ [(b, filter sel nl)]" if "b \<notin> fst ` set m" for b m
    using pushNodes_fresh [OF that, of N nl] ne by (simp add: sel)
  have rng: "i \<in> idRange E u (Suc (Suc (uctr t)))" if "i \<in> idRange E u (uctr t)" for i
    using idRange_mono [OF that] by simp
  have new: "gen_uuid E (uctr t) \<in> idRange E u (Suc (Suc (uctr t)))" "gen_uuid E (Suc (uctr t)) \<in> idRange E u (Suc (Suc (uctr t)))"
    using idRange_new [OF E i(3)] idRange_new [OF E, of u "Suc (uctr t)"] i(3) by simp_all
  have case_add: "updInv E bp sel d u (xs @ ?new) ([], adds @ [(\<lparr>Bg = ?g, Bc = ?c\<rparr>, filter sel nl)], exs) ?t"
  proof -
    note J = I [unfolded updInv_def acc prod.case]
    have n: "bc_Id (Bc (fst e)) \<noteq> gen_uuid E (uctr t)" "bc_Id (Bc (fst e)) \<noteq> gen_uuid E (Suc (uctr t))"
      "bg_Id (Bg (fst e)) \<noteq> gen_uuid E (uctr t)" "bg_Id (Bg (fst e)) \<noteq> gen_uuid E (Suc (uctr t))"
      if "e \<in> set adds" for e
      using J that idRange_neq [OF E, of "bc_Id (Bc (fst e))" u "uctr t"]
        idRange_neq [OF E, of "bg_Id (Bg (fst e))" u "uctr t"] by simp_all
    show ?thesis
      unfolding updInv_def prod.case
    proof (intro conjI)
      show "\<forall>e \<in> set (adds @ [(\<lparr>Bg = ?g, Bc = ?c\<rparr>, filter sel nl)]) \<union> set exs.
          planOk bp sel (xs @ ?new) e \<and> bc_Id (Bc (fst e)) \<in> idRange E u (uctr ?t)"
        using J planOk_snoc [of bp sel xs _ ?new] plan [of "\<lparr>Bg = ?g, Bc = ?c\<rparr>"] rng new(1) by auto
      show "\<forall>e \<in> set (adds @ [(\<lparr>Bg = ?g, Bc = ?c\<rparr>, filter sel nl)]).
          bg_BootConfigId (Bg (fst e)) = bc_Id (Bc (fst e)) \<and> bc_KernelUri (Bc (fst e)) \<noteq> [] \<and>
          bg_Id (Bg (fst e)) \<in> idRange E u (uctr ?t)"
        using J rng new(2) kv by auto
      show "distinct (map (\<lambda>e. bc_Id (Bc (fst e))) (adds @ [(\<lparr>Bg = ?g, Bc = ?c\<rparr>, filter sel nl)]))"
        using J n(1) by force
      show "distinct (map (\<lambda>e. bg_Id (Bg (fst e))) (adds @ [(\<lparr>Bg = ?g, Bc = ?c\<rparr>, filter sel nl)]))"
        using J n(4) by force
      show "\<forall>e \<in> set (adds @ [(\<lparr>Bg = ?g, Bc = ?c\<rparr>, filter sel nl)]).
          \<forall>e' \<in> set (adds @ [(\<lparr>Bg = ?g, Bc = ?c\<rparr>, filter sel nl)]). bg_Id (Bg (fst e)) \<noteq> bc_Id (Bc (fst e'))"
      proof (intro ballI)
        fix e e'
        assume "e \<in> set (adds @ [(\<lparr>Bg = ?g, Bc = ?c\<rparr>, filter sel nl)])"
          and "e' \<in> set (adds @ [(\<lparr>Bg = ?g, Bc = ?c\<rparr>, filter sel nl)])"
        then have "e \<in> set adds \<or> bg_Id (Bg (fst e)) = gen_uuid E (Suc (uctr t))"
          and "e' \<in> set adds \<or> bc_Id (Bc (fst e')) = gen_uuid E (uctr t)" by auto
        then show "bg_Id (Bg (fst e)) \<noteq> bc_Id (Bc (fst e'))"
          using J n(3) [of e] n(2) [of e'] E by auto
      qed
    qed (use J in \<open>simp_all add: ac_simps\<close>)
  qed
  have case_ex: "updInv E bp sel d u (xs @ ?new) ([], adds, exs @ [(\<lparr>Bg = tmp, Bc = ?c\<rparr>, filter sel nl)]) ?t"
    if sim: "map_of (similarMap sBs) (?c\<lparr>bc_Id := []\<rparr>) = Some tmp" for tmp
  proof -
    obtain c where "(tmp, c) \<in> set sBs" "c\<lparr>bc_Id := []\<rparr> = ?c\<lparr>bc_Id := []\<rparr>"
      using similarMap_Some [OF sim] by blast
    then have "(tmp, c) \<in> set (groupCfgs d)" "cfgVals c = cfgVals ?c"
      using sBs by (auto simp: cfgVals_def) (cases c, auto)+
    then show ?thesis
      using I plan [of "\<lparr>Bg = tmp, Bc = ?c\<rparr>"] rng new planOk_snoc
      unfolding updInv_def acc prod.case by auto
  qed
  have nb: "NewBootConfig E (fst ?v) (fst (snd ?v)) (snd (snd ?v)) t = (Inr ?c, t\<lparr>uctr := Suc (uctr t)\<rparr>)"
    using kv by (simp add: NewBootConfig_def andThen_def freshId_def ret_def)
  have ng: "NewBootGroup E (bc_Id ?c) n ds (t\<lparr>uctr := Suc (uctr t)\<rparr>) =
      (Inr \<lparr>bg_Id = gen_uuid E (Suc (uctr t)), bg_BootConfigId = bc_Id ?c, bg_Name = n, bg_Description = ds\<rparr>, ?t)" for n ds
    by (simp add: NewBootGroup_def andThen_def freshId_def ret_def)
  show ?thesis
    unfolding updateStep_def acc prod.case Let_def vals wp_def andThen_def mapErr_def nb sum.case ng ret_def
    using case_add case_ex ex i(1) push [OF fresh(1)] push [OF fresh(2)]
    by (auto split: option.split)
qed

subsection \<open>Multisets of rows\<close>

lemma mset_update_append:
  "distinct (map fst m) \<Longrightarrow> map_of m k = Some vs \<Longrightarrow>
   mset (concat (map snd (AList.update k (vs @ [v]) m))) = mset (concat (map snd m)) + {#v#}"
  by (induction m) (auto split: if_splits)

lemma mset_pushAt:
  assumes "distinct (map fst m)"
  shows "mset (concat (map snd (pushAt k v m))) = mset (concat (map snd m)) + {#v#}"
proof (cases "map_of m k")
  case None
  then have "k \<notin> fst ` set m" by (simp add: map_of_eq_None_iff)
  then show ?thesis by (simp add: pushAt_fresh)
next
  case (Some vs)
  then show ?thesis using mset_update_append [OF assms Some] by (simp add: pushAt_def)
qed

lemma mset_grouped: "mset (concat (map snd (grouped k v xs))) = mset (map v xs)"
proof (induction xs rule: rev_induct)
  case (snoc x xs)
  then show ?case unfolding grouped_snoc mset_pushAt [OF distinct_grouped] by simp
qed (simp add: grouped_def)

lemma mset_map_by_key:
  assumes "distinct (map fst xs)" and "distinct (map fst ys)" and "fst ` set xs = fst ` set ys"
    and "\<And>x. x \<in> set xs \<Longrightarrow> \<exists>y \<in> set ys. fst y = fst x \<and> v y = w x"
  shows "mset (map v ys) = mset (map w xs)"
proof -
  let ?f = "\<lambda>k. the (map_of (map (\<lambda>y. (fst y, v y)) ys) k)"
  have d: "distinct (map fst (map (\<lambda>y. (fst y, v y)) ys))" using assms(2) by (simp add: comp_def)
  have f: "?f (fst y) = v y" if "y \<in> set ys" for y
    using map_of_is_SomeI [OF d, of "fst y" "v y"] that by auto
  have "mset (map v ys) = image_mset ?f (mset (map fst ys))"
    using f by (simp flip: mset_map) (metis (mono_tags, lifting) comp_apply map_eq_conv)
  also have "mset (map fst ys) = mset (map fst xs)"
    using assms(1-3) by (metis set_eq_iff_mset_eq_distinct set_map)
  also have "image_mset ?f (mset (map fst xs)) = mset (map w xs)"
  proof -
    have "?f (fst x) = w x" if "x \<in> set xs" for x
      using assms(4) [OF that] f by fastforce
    then have "map (?f \<circ> fst) xs = map w xs" by simp
    then show ?thesis by (metis map_map mset_map)
  qed
  finally show ?thesis .
qed

lemma joinNodes_nodes:
  assumes "wf_db d"
  shows "fst ` set (joinNodes d) = {n \<in> set (t_nodes d). n_Id n \<in> bga_NodeId ` set (t_bgas d)}" (is "?A = ?B")
proof (intro equalityI subsetI)
  fix n assume "n \<in> ?A"
  then show "n \<in> ?B" by (force simp: joinNodes_set)
next
  fix n assume "n \<in> ?B"
  then obtain a where a: "n \<in> set (t_nodes d)" "a \<in> set (t_bgas d)" "bga_NodeId a = n_Id n" by auto
  then obtain g where g: "g \<in> set (t_groups d)" "bg_Id g = bga_BootGroupId a"
    using assms unfolding wf_db_def by (metis imageE)
  have "\<lparr>bga_BootGroupId = bg_Id g, bga_NodeId = n_Id n\<rparr> = a" using a(3) g(2) by (cases a) simp
  then have "\<lparr>bga_BootGroupId = bg_Id g, bga_NodeId = n_Id n\<rparr> \<in> set (t_bgas d)" using a(2) by simp
  then have "(n, g, configOf d g) \<in> set (joinNodes d)" using a(1) g(1) by (simp add: joinNodes_wf [OF assms])
  then show "n \<in> ?A" by force
qed

subsection \<open>The effect of Update\<close>

definition selected :: "BootParams \<Rightarrow> string \<times> string \<times> int32 \<Rightarrow> bool" where
  "selected bp k \<longleftrightarrow> Macs bp = [] \<and> Hosts bp = [] \<and> Nids bp = [] \<or> keyMatches (Macs bp) (Hosts bp) (Nids bp) k"

lemma wantedNodes_selected:
  "n \<in> set (wantedNodes (Macs bp) (Hosts bp) (Nids bp) d) \<longleftrightarrow> n \<in> set (t_nodes d) \<and> selected bp (nodeKey n)"
  by (auto simp: wantedNodes_def selected_def nodeMatches_key)

text \<open>The entries that the loop has prepared say of every selected node that it moves to a group
  with the merged configuration.\<close>

lemma updated_view:
  assumes w: "wf_db d" and w': "wf_db d'" and u: "updated d adds exs d'"
    and adds: "\<And>e. e \<in> set adds \<Longrightarrow> bg_BootConfigId (Bg (fst e)) = bc_Id (Bc (fst e))"
    and exs: "\<And>e. e \<in> set exs \<Longrightarrow> \<exists>c. (Bg (fst e), c) \<in> set (groupCfgs d) \<and> cfgVals c = cfgVals (Bc (fst e))"
    and sel: "\<And>n g c. (n, g, c) \<in> set (joinNodes d) \<Longrightarrow> P n \<Longrightarrow>
        \<exists>e \<in> set (adds @ exs). n \<in> set (snd e) \<and> cfgVals (Bc (fst e)) = M (cfgVals c)"
    and unsel: "\<And>n e. e \<in> set (adds @ exs) \<Longrightarrow> n \<in> set (snd e) \<Longrightarrow> P n \<and> n \<in> set (t_nodes d)"
  shows "bootView d' = mset (map (\<lambda>(n, g, c). (nodeKey n, if P n then M (cfgVals c) else cfgVals c)) (joinNodes d))"
proof -
  obtain cs gs h where cs: "set cs = (\<lambda>(b, _). Bc b) ` set adds" and gs: "set gs = (\<lambda>(b, _). Bg b) ` set adds"
    and h: "retargets (adds @ exs) h"
    and d': "d' = d\<lparr>t_configs := t_configs d @ cs, t_groups := t_groups d @ gs, t_bgas := map h (t_bgas d)\<rparr>"
    using u unfolding updated_def by blast
  have hn: "bga_NodeId (h a) = bga_NodeId a" for a using h by (simp add: retargets_def)
  have nodes: "fst ` set (joinNodes d) = fst ` set (joinNodes d')"
    unfolding joinNodes_nodes [OF w] joinNodes_nodes [OF w'] by (simp add: d' image_image hn)
  have row: "\<exists>y \<in> set (joinNodes d'). fst y = n \<and> cfgVals (snd (snd y)) = (if P n then M (cfgVals c) else cfgVals c)"
    if x: "(n, g, c) \<in> set (joinNodes d)" for n g c
  proof -
    let ?a = "\<lparr>bga_BootGroupId = bg_Id g, bga_NodeId = n_Id n\<rparr>"
    have j: "n \<in> set (t_nodes d)" "g \<in> set (t_groups d)" "c \<in> set (t_configs d)" "?a \<in> set (t_bgas d)" "bc_Id c = bg_BootConfigId g"
      using x by (simp_all add: joinNodes_set)
    have ha: "h ?a \<in> set (t_bgas d')" using j(4) by (simp add: d')
    show ?thesis
    proof (cases "P n")
      case False
      have "\<forall>(b, ns) \<in> set (adds @ exs). bga_NodeId ?a \<notin> n_Id ` set ns"
      proof (intro ballI, clarify)
        fix b ns m assume e: "(b, ns) \<in> set (adds @ exs)" "m \<in> set ns" "bga_NodeId ?a = n_Id m"
        have "P m" "m \<in> set (t_nodes d)" using unsel [OF e(1), of m] e(2) by simp_all
        moreover have "m = n"
          using w j(1) \<open>m \<in> set (t_nodes d)\<close> e(3) distinct_map_eqD [of n_Id "t_nodes d" m n] by (simp add: wf_db_def)
        ultimately show False using False by simp
      qed
      then have "h ?a = ?a" using h unfolding retargets_def by blast
      then have "(n, g, c) \<in> set (joinNodes d')" using j ha by (simp add: joinNodes_set d')
      then show ?thesis using False by force
    next
      case True
      from sel [OF x True] obtain b ns where e: "(b, ns) \<in> set (adds @ exs)" "n \<in> set ns" "cfgVals (Bc b) = M (cfgVals c)"
        by (metis fst_conv snd_conv surj_pair)
      have "bga_BootGroupId (h ?a) = bg_Id (Bg b)"
      proof -
        have "\<forall>(b, ns) \<in> set (adds @ exs). bga_NodeId ?a \<in> n_Id ` set ns \<longrightarrow> bga_BootGroupId (h ?a) = bg_Id (Bg b)"
          using h unfolding retargets_def by blast
        from bspec [OF this e(1)] e(2) show ?thesis by simp
      qed
      then have a': "\<lparr>bga_BootGroupId = bg_Id (Bg b), bga_NodeId = n_Id n\<rparr> \<in> set (t_bgas d')"
        using ha hn [of ?a] by (cases "h ?a") simp
      obtain c' where "Bg b \<in> set (t_groups d')" "c' \<in> set (t_configs d')" "bc_Id c' = bg_BootConfigId (Bg b)" "cfgVals c' = cfgVals (Bc b)"
      proof (cases "(b, ns) \<in> set adds")
        case True
        then have "Bg b \<in> set gs" "Bc b \<in> set cs" unfolding cs gs by force+
        moreover have "bc_Id (Bc b) = bg_BootConfigId (Bg b)" using adds [OF True] by simp
        ultimately show thesis using that [of "Bc b"] by (simp add: d')
      next
        case False
        then have "(b, ns) \<in> set exs" using e(1) by simp
        then obtain c' where "(Bg b, c') \<in> set (groupCfgs d)" "cfgVals c' = cfgVals (Bc b)" using exs by fastforce
        then show thesis using that [of c'] groupCfgs_wf [OF w] by (auto simp: d')
      qed
      then have "(n, Bg b, c') \<in> set (joinNodes d')" using j(1) a' by (simp add: joinNodes_set d')
      then show ?thesis using True e(3) \<open>cfgVals c' = cfgVals (Bc b)\<close> by force
    qed
  qed
  have "mset (map (\<lambda>(n, g, c). (nodeKey n, cfgVals c)) (joinNodes d')) =
        mset (map (\<lambda>(n, g, c). (nodeKey n, if P n then M (cfgVals c) else cfgVals c)) (joinNodes d))"
  proof (rule mset_map_by_key [OF joinNodes_distinct [OF w] joinNodes_distinct [OF w'] nodes])
    fix x assume x: "x \<in> set (joinNodes d)"
    obtain n g c where xe: "x = (n, g, c)" by (cases x)
    from row [OF x [unfolded xe]] obtain y where "y \<in> set (joinNodes d')" "fst y = n"
      "cfgVals (snd (snd y)) = (if P n then M (cfgVals c) else cfgVals c)" by blast
    then show "\<exists>y \<in> set (joinNodes d'). fst y = fst x \<and> (case y of (n, g, c) \<Rightarrow> (nodeKey n, cfgVals c)) =
        (case x of (n, g, c) \<Rightarrow> (nodeKey n, if P n then M (cfgVals c) else cfgVals c))"
      by (intro bexI [of _ y]) (auto simp: case_prod_unfold xe)
  qed
  then show ?thesis by (simp add: bootView_def)
qed

lemma Update_entries:
  assumes w: "wf_db d"
    and rows: "mset rows = mset (wantedJoin macs xnames nids d)"
    and rows2: "mset rows2 = mset (rowsOfGroups (groupsOfNodes (n_Id ` fst ` set rows) d) d)"
  defines "sel \<equiv> (\<lambda>n. map_of (map (\<lambda>(n, gc). (n, asBgbc gc)) rows) n \<noteq> None)"
  defines "G \<equiv> grouped (\<lambda>(n, gc). asBgbc gc) fst rows2"
  shows "(n, g, c) \<in> set (joinNodes d) \<Longrightarrow> sel n \<longleftrightarrow> n \<in> set (wantedNodes macs xnames nids d)"
    and "(n, g, c) \<in> set (joinNodes d) \<Longrightarrow> sel n \<Longrightarrow> (n, g, c) \<in> set rows2"
    and "(ncfg, nl) \<in> set G \<Longrightarrow> filter sel nl \<noteq> [] \<and> bc_KernelUri (Bc ncfg) \<noteq> []"
    and "(ncfg, nl) \<in> set G \<Longrightarrow> n \<in> set nl \<Longrightarrow> \<exists>g. (n, g, Bc ncfg) \<in> set (joinNodes d)"
    and "mset (concat (map (\<lambda>e. filter sel (snd e)) G)) = mset (map fst (wantedJoin macs xnames nids d))"
proof -
  let ?W = "wantedJoin macs xnames nids d" and ?X = "n_Id ` fst ` set rows"
  have r1: "set rows = set ?W" and r2: "set rows2 = set (rowsOfGroups (groupsOfNodes ?X d) d)"
    using mset_eq_setD [OF rows] mset_eq_setD [OF rows2] by simp_all
  have seliff: "sel n \<longleftrightarrow> n \<in> fst ` set ?W" for n
  proof -
    have "sel n \<longleftrightarrow> n \<in> fst ` set (map (\<lambda>(n, gc). (n, asBgbc gc)) rows)"
      unfolding sel_def by (auto simp: map_of_eq_None_iff simp del: set_map not_None_eq)
    then show ?thesis by (simp add: image_image case_prod_unfold r1)
  qed
  have sel_iff: "sel n \<longleftrightarrow> n \<in> set (wantedNodes macs xnames nids d)" if "(n, g, c) \<in> set (joinNodes d)" for n g c
    using that unfolding seliff by (force simp: wantedJoin_def)
  show "(n, g, c) \<in> set (joinNodes d) \<Longrightarrow> sel n \<longleftrightarrow> n \<in> set (wantedNodes macs xnames nids d)"
    by (rule sel_iff)
  have in2: "(n, g, c) \<in> set rows2" if "(n, g, c) \<in> set (joinNodes d)" "sel n" for n g c
  proof -
    have "n_Id n \<in> ?X" using that(2) unfolding seliff r1 by blast
    moreover have "\<lparr>bga_BootGroupId = bg_Id g, bga_NodeId = n_Id n\<rparr> \<in> set (t_bgas d)"
      using that(1) by (simp add: joinNodes_set)
    ultimately have "bg_Id g \<in> groupsOfNodes ?X d" unfolding groupsOfNodes_def by force
    then show ?thesis using that(1) by (simp add: r2 rowsOfGroups_def)
  qed
  show "(n, g, c) \<in> set (joinNodes d) \<Longrightarrow> sel n \<Longrightarrow> (n, g, c) \<in> set rows2"
    by (rule in2)
  have sub2: "set rows2 \<subseteq> set (joinNodes d)" by (auto simp: r2 rowsOfGroups_def)
  have entry: "\<exists>gc. (n, gc) \<in> set rows2 \<and> ncfg = asBgbc gc" if e1: "(ncfg, nl) \<in> set G" and e2: "n \<in> set nl" for ncfg nl n
  proof -
    have "nl = map fst (filter (\<lambda>x. (case x of (n, gc) \<Rightarrow> asBgbc gc) = ncfg) rows2)"
      using e1 unfolding G_def grouped_mem by blast
    then obtain x where "x \<in> set rows2" "(case x of (n, gc) \<Rightarrow> asBgbc gc) = ncfg" "n = fst x"
      using e2 by auto
    then show ?thesis by (intro exI [of _ "snd x"]) (auto simp: case_prod_unfold)
  qed
  have bc: "Bc (asBgbc (g, c)) = c" "Bg (asBgbc (g, c)) = g" for g c by (simp_all add: asBgbc_def)
  show "\<exists>g. (n, g, Bc ncfg) \<in> set (joinNodes d)" if e: "(ncfg, nl) \<in> set G" "n \<in> set nl" for ncfg nl n
  proof -
    obtain g c where "(n, g, c) \<in> set rows2" "ncfg = asBgbc (g, c)"
      using entry [OF e] by (metis surj_pair)
    then show ?thesis using sub2 bc by auto
  qed
  show "filter sel nl \<noteq> [] \<and> bc_KernelUri (Bc ncfg) \<noteq> []" if e: "(ncfg, nl) \<in> set G" for ncfg nl
  proof
    from e obtain n g c where x: "(n, g, c) \<in> set rows2" "ncfg = asBgbc (g, c)"
      and nl: "nl = map fst (filter (\<lambda>x. (case x of (n, gc) \<Rightarrow> asBgbc gc) = ncfg) rows2)"
      unfolding G_def grouped_mem by auto
    from x(1) have j: "(n, g, c) \<in> set (joinNodes d)" "bg_Id g \<in> groupsOfNodes ?X d"
      by (auto simp: r2 rowsOfGroups_def)
    then show "bc_KernelUri (Bc ncfg) \<noteq> []" using w by (simp add: x(2) bc joinNodes_set wf_db_def)
    from j(2) obtain a where a: "a \<in> set (t_bgas d)" "bga_BootGroupId a = bg_Id g" "bga_NodeId a \<in> ?X"
      unfolding groupsOfNodes_def by force
    then obtain m gc where m: "(m, gc) \<in> set ?W" "bga_NodeId a = n_Id m"
      unfolding r1 by force
    then obtain g' c' where m': "(m, g', c') \<in> set (joinNodes d)" "sel m"
      using seliff [of m] by (cases gc) (force simp: wantedJoin_def)
    have "\<lparr>bga_BootGroupId = bg_Id g, bga_NodeId = n_Id m\<rparr> = a" using a(2) m(2) by (cases a) simp
    then have "\<lparr>bga_BootGroupId = bg_Id g, bga_NodeId = n_Id m\<rparr> \<in> set (t_bgas d)" using a(1) by simp
    then have mj: "(m, g, c) \<in> set (joinNodes d)" using m'(1) j(1) by (simp add: joinNodes_set)
    then have "(m, g, c) \<in> set rows2" using m'(2) by (rule in2)
    then have "m \<in> set nl" unfolding nl x(2) by force
    with m'(2) show "filter sel nl \<noteq> []" by (auto simp: filter_empty_conv)
  qed
  have "mset (concat (map (\<lambda>e. filter sel (snd e)) G)) = mset (filter sel (concat (map snd G)))"
    by (simp add: filter_concat comp_def)
  also have "\<dots> = filter_mset sel (mset (map fst rows2))"
    unfolding mset_filter G_def mset_grouped ..
  also have "\<dots> = mset (map fst ?W)"
  proof -
    have "distinct (map fst ?W)" unfolding wantedJoin_def
      by (rule distinct_map_filter_sub [OF joinNodes_distinct [OF w]])
    moreover have "distinct (map fst rows2)"
    proof -
      have "distinct (map fst (rowsOfGroups (groupsOfNodes ?X d) d))" unfolding rowsOfGroups_def
        by (rule distinct_map_filter_sub [OF joinNodes_distinct [OF w]])
      then show ?thesis using rows2 by (metis mset_eq_imp_distinct_iff mset_map)
    qed
    moreover have "set (filter sel (map fst rows2)) = set (map fst ?W)"
    proof (intro equalityI subsetI)
      fix n assume "n \<in> set (map fst ?W)"
      then have "sel n" by (simp add: seliff)
      moreover obtain g c where "(n, g, c) \<in> set (joinNodes d)" using \<open>n \<in> set (map fst ?W)\<close> by (force simp: wantedJoin_def)
      ultimately show "n \<in> set (filter sel (map fst rows2))" using in2 by force
    qed (simp add: seliff)
    ultimately show ?thesis by (metis distinct_filter mset_filter set_eq_iff_mset_eq_distinct)
  qed
  finally show "mset (concat (map (\<lambda>e. filter sel (snd e)) G)) = mset (map fst ?W)" .
qed

definition allExist :: "BootParams \<Rightarrow> pg_db \<Rightarrow> bool" where
  "allExist bp d \<longleftrightarrow>
     (\<forall>m \<in> set (Macs bp). toLower m \<in> n_BootMac ` set (t_nodes d)) \<and>
     (\<forall>x \<in> set (Hosts bp). x \<in> n_Xname ` set (t_nodes d)) \<and>
     (\<forall>i \<in> set (Nids bp). i \<in> n_Nid ` set (t_nodes d))"

definition blankConfig :: "BootParams \<Rightarrow> bool" where
  "blankConfig bp \<longleftrightarrow> Params bp = [] \<and> Kernel bp = [] \<and> Initrd bp = []"

text \<open>The nodes that an Update is about: the selected ones that have a configuration.\<close>

definition bootNodes :: "BootParams \<Rightarrow> pg_db \<Rightarrow> Node list" where
  "bootNodes bp d = map fst (wantedJoin (Macs bp) (Hosts bp) (Nids bp) d)"

definition updView :: "BootParams \<Rightarrow> ((string \<times> string \<times> int32) \<times> (string \<times> string \<times> string)) multiset \<Rightarrow>
    ((string \<times> string \<times> int32) \<times> (string \<times> string \<times> string)) multiset" where
  "updView bp V = image_mset (\<lambda>(k, v). (k, if selected bp k then mergeVals bp v else v)) V"

lemma updInv_final:
  assumes E: "env_ok E" and w: "wfu E u d" and I: "updInv E bp sel d u G (del, adds, exs) t"
    and G: "\<forall>(ncfg, nl) \<in> set G. \<forall>n \<in> set nl. \<exists>g. (n, g, Bc ncfg) \<in> set (joinNodes d)"
    and nodes: "mset (concat (map (\<lambda>e. filter sel (snd e)) G)) = mset (map fst (wantedJoin macs xnames nids d))"
  shows "del = []" and "addsOk E (uctr t) d adds" and "wfu E (uctr t) d"
    and "\<And>b ns. (b, ns) \<in> set exs \<Longrightarrow> Bg b \<in> set (t_groups d)"
    and "\<And>b ns. (b, ns) \<in> set adds \<union> set exs \<Longrightarrow> ns \<noteq> [] \<and> list_all quote_free (map n_Id ns)"
    and "distinct (concat (map (\<lambda>(b, ns). map n_Id ns) (adds @ exs)))"
    and "mset (concat (map (\<lambda>(b, ns). map n_Id ns) (adds @ exs))) = mset (map n_Id (map fst (wantedJoin macs xnames nids d)))"
    and "mset (concat (map snd (adds @ exs))) = mset (map fst (wantedJoin macs xnames nids d))"
proof -
  note J = I [unfolded updInv_def prod.case]
  have wd: "wf_db d" using w by (rule wfu_db)
  show "del = []" using J by blast
  have ut: "u \<le> uctr t" using J by blast
  then show "wfu E (uctr t) d" using wfu_mono [OF w] by blast
  have new: "new_id E (uctr t) d i" if "i \<in> idRange E u (uctr t)" for i
    using that new_id_gen [OF E w] by (auto simp: idRange_def)
  show "addsOk E (uctr t) d adds"
    using J new unfolding addsOk_def by (auto simp: case_prod_unfold)
  show "Bg b \<in> set (t_groups d)" if "(b, ns) \<in> set exs" for b ns
    using J that groupCfgs_group by fastforce
  have ni: "quote_free (n_Id n)" if "n \<in> set (t_nodes d)" for n
    using wd that by (auto simp: wf_db_def db_ids_def)
  show "ns \<noteq> [] \<and> list_all quote_free (map n_Id ns)" if e: "(b, ns) \<in> set adds \<union> set exs" for b ns
  proof -
    have "planOk bp sel G (b, ns)" using J e by blast
    then obtain ncfg nl where p: "ns \<noteq> []" "(ncfg, nl) \<in> set G" "ns = filter sel nl"
      unfolding planOk_def by auto
    have "quote_free (n_Id n)" if "n \<in> set ns" for n
    proof -
      have "n \<in> set nl" using that p(3) by simp
      then obtain g where "(n, g, Bc ncfg) \<in> set (joinNodes d)" using G p(2) by blast
      then show ?thesis using ni by (simp add: joinNodes_set)
    qed
    with p(1) show ?thesis by (simp add: list_all_iff)
  qed
  show m: "mset (concat (map snd (adds @ exs))) = mset (map fst (wantedJoin macs xnames nids d))"
    using J nodes by simp
  have c: "concat (map (\<lambda>(b, ns). map n_Id ns) xs) = map n_Id (concat (map snd xs))" for xs :: "(bgbc \<times> Node list) list"
    by (simp add: map_concat comp_def case_prod_unfold)
  show m2: "mset (concat (map (\<lambda>(b, ns). map n_Id ns) (adds @ exs))) = mset (map n_Id (map fst (wantedJoin macs xnames nids d)))"
    unfolding c using m by (metis mset_map)
  have "distinct (map n_Id (map fst (wantedJoin macs xnames nids d)))"
  proof -
    have "distinct (map fst (wantedJoin macs xnames nids d))" unfolding wantedJoin_def
      by (rule distinct_map_filter_sub [OF joinNodes_distinct [OF wd]])
    moreover have "inj_on n_Id (set (map fst (wantedJoin macs xnames nids d)))"
    proof (rule inj_on_subset)
      show "inj_on n_Id (set (t_nodes d))" using wd by (simp add: wf_db_def distinct_map)
      show "set (map fst (wantedJoin macs xnames nids d)) \<subseteq> set (t_nodes d)"
        by (auto simp: wantedJoin_def joinNodes_set)
    qed
    ultimately show ?thesis by (simp only: distinct_map)
  qed
  then show "distinct (concat (map (\<lambda>(b, ns). map n_Id ns) (adds @ exs)))"
    using m2 by (metis mset_eq_imp_distinct_iff)
qed

lemma updView_rows:
  "updView bp (bootView d) = mset (map (\<lambda>(n, g, c). (nodeKey n, if selected bp (nodeKey n) then mergeVals bp (cfgVals c) else cfgVals c)) (joinNodes d))"
  by (simp add: updView_def bootView_def comp_def case_prod_unfold multiset.map_comp flip: mset_map cong: if_cong)

lemma wp_Update:
  assumes E: "env_ok E" and w: "wf E s" and c: "bp_clean bp"
    and Q: "\<And>r s'. wf E s' \<Longrightarrow> allExist bp (pdb s) \<Longrightarrow> \<not> blankConfig bp \<Longrightarrow> bootNodes bp (pdb s) \<noteq> [] \<Longrightarrow>
           bootView (pdb s') = updView bp (bootView (pdb s)) \<Longrightarrow> t_nodes (pdb s') = t_nodes (pdb s) \<Longrightarrow>
           mset r = mset (map n_Id (bootNodes bp (pdb s))) \<Longrightarrow>
           (\<exists>cs. t_configs (pdb s') = t_configs (pdb s) @ cs) \<Longrightarrow> (\<exists>gs. t_groups (pdb s') = t_groups (pdb s) @ gs) \<Longrightarrow> Q r s'"
    and R: "\<And>e s'. wf E s' \<Longrightarrow> t_nodes (pdb s') = t_nodes (pdb s) \<Longrightarrow>
           \<not> no_faults E \<or> pdb s' = pdb s \<and> (\<not> allExist bp (pdb s) \<or> blankConfig bp \<or> bootNodes bp (pdb s) = []) \<Longrightarrow> R e s'"
  shows "wp (Update E bp) Q R s"
proof -
  define d where "d = pdb s"
  define u where "u = uctr s"
  let ?M = "Macs bp" and ?H = "Hosts bp" and ?N = "Nids bp"
  have wu: "wfu E u d" and wd: "wf_db d" using w wfu_db by (simp_all add: d_def u_def)
  have q: "list_all quote_free ?M" "list_all quote_free ?H" "quote_free (Kernel bp)" "quote_free (Initrd bp)" "quote_free (Params bp)"
    using c by (simp_all add: bp_clean_def)
  have err: "R e (s\<lparr>tick := k\<rparr>)"
    if "\<not> no_faults E \<or> \<not> allExist bp d \<or> blankConfig bp \<or> bootNodes bp d = []" for e k
    by (rule R) (use w that in \<open>auto simp: d_def\<close>)
  show ?thesis
    unfolding Update_def wp_andThen wp_mapErr
  proof (rule wp_CheckNodeExistence [OF E q(1,2)], goal_cases)
    case (1 ex)
    let ?mm = "filter (\<lambda>m. toLower m \<notin> n_BootMac ` set (t_nodes (pdb s))) ?M"
    let ?mx = "filter (\<lambda>x. x \<notin> n_Xname ` set (t_nodes (pdb s))) ?H"
    let ?mn = "filter (\<lambda>i. i \<notin> n_Nid ` set (t_nodes (pdb s))) ?N"
    have all: "?mm = [] \<and> ?mx = [] \<and> ?mn = [] \<longleftrightarrow> allExist bp d"
      by (auto simp: allExist_def d_def filter_empty_conv)
    show ?case
    proof (cases "allExist bp d \<and> \<not> blankConfig bp")
      case False
      then have "length ?mm > 0 \<or> length ?mx > 0 \<or> length ?mn > 0 \<or> blankConfig bp" using all by blast
      with False show ?thesis
        using err [of _ "Suc (tick s)"] by (auto simp: blankConfig_def)
    next
      case True
      let ?rest = "\<lambda>nToBgbc. andThen (rangeMap E nToBgbc) (\<lambda>ranged.
          andThen (mapErr ErrPostgresUpdate (getConfigsWithNodes E (map (\<lambda>(n, _). n_Id n) ranged))) (\<lambda>bgbcToN.
          andThen (mapErr ErrPostgresUpdate (GetBootConfigsByItems E (Kernel bp) (Initrd bp) (Params bp))) (\<lambda>sBs.
          andThen (rangeMap E bgbcToN) (\<lambda>entries.
          andThen (foldEach (updateStep E bp nToBgbc (similarMap sBs)) entries ([], [], []))
            (applyUpdate E)))))"
      have "wp (getNodesWithConfigs E ?M ?H ?N) (\<lambda>nToBgbc. wp (?rest nToBgbc) Q R) (\<lambda>e. R (ErrPostgresUpdate e)) (s\<lparr>tick := Suc (tick s)\<rparr>)"
      proof (rule wp_getNodesWithConfigs [OF E _ q(1,2)], goal_cases)
        case 1
        show ?case using wd by (simp add: d_def)
      next
        case (2 rows)
        then have rows: "mset rows = mset (wantedJoin ?M ?H ?N d)" by (simp add: d_def)
        let ?NB = "map (\<lambda>(n, gc). (n, asBgbc gc)) rows"
        let ?sel = "\<lambda>n. map_of ?NB n \<noteq> None"
        let ?ranged = "permute (map_order E (Suc (Suc (tick s)))) ?NB"
        let ?ids = "map (\<lambda>(n, _). n_Id n) ?ranged"
        have sids: "set ?ids = n_Id ` fst ` set rows"
          using E by (simp add: image_image case_prod_unfold)
        show ?case
        proof (cases "rows = []")
          case True
          then have "bootNodes bp d = []" using rows by (simp add: bootNodes_def)
          then have e: "R x (s\<lparr>tick := k\<rparr>)" for x k using err by blast
          have p: "permute (map_order E k) ([] :: (Node \<times> bgbc) list) = []" for k using E by simp
          show ?thesis
            unfolding True by (simp add: p getConfigsWithNodes_def e)
        next
          case False
          have idn: "?ids \<noteq> []" using False E by simp
          have qids: "list_all quote_free ?ids"
          proof -
            have "set rows \<subseteq> set (joinNodes d)"
              using mset_eq_setD [OF rows] by (auto simp: wantedJoin_def)
            then have "i \<in> db_ids d" if "i \<in> n_Id ` fst ` set rows" for i
              using that by (force simp: joinNodes_set db_ids_def)
            then show ?thesis using wd unfolding list_all_iff sids by (simp add: wf_db_def)
          qed
          let ?t = "s\<lparr>tick := Suc (Suc (Suc (tick s)))\<rparr>"
          have "wp (getConfigsWithNodes E ?ids) (\<lambda>bgbcToN.
              wp (andThen (mapErr ErrPostgresUpdate (GetBootConfigsByItems E (Kernel bp) (Initrd bp) (Params bp))) (\<lambda>sBs.
                andThen (rangeMap E bgbcToN) (\<lambda>entries.
                andThen (foldEach (updateStep E bp ?NB (similarMap sBs)) entries ([], [], []))
                  (applyUpdate E)))) Q R) (\<lambda>e. R (ErrPostgresUpdate e)) ?t"
          proof (rule wp_getConfigsWithNodes [OF E _ idn qids], goal_cases)
            case 1
            show ?case using wd by (simp add: d_def)
          next
            case (2 rows2)
            then have rows2: "mset rows2 = mset (rowsOfGroups (groupsOfNodes (n_Id ` fst ` set rows) d) d)"
              unfolding sids by (simp add: d_def)
            let ?G = "grouped (\<lambda>(n, gc). asBgbc gc) fst rows2"
            note ent = Update_entries [OF wd rows rows2]
            show ?case
              unfolding wp_andThen wp_mapErr
            proof (rule wp_GetBootConfigsByItems [OF E _ q(3-5)], goal_cases)
              case 1
              show ?case using wd by (simp add: d_def)
            next
              case (2 sBs)
              then have sB: "set sBs \<subseteq> set (groupCfgs d)"
                using mset_eq_setD [OF 2] by (auto simp: wantedCfgs_def d_def split: if_splits)
              let ?t5 = "s\<lparr>tick := Suc (Suc (Suc (Suc (Suc (Suc (tick s))))))\<rparr>"
              have "wp (foldEach (updateStep E bp ?NB (similarMap sBs)) entries ([], [], [])) (\<lambda>acc. wp (applyUpdate E acc) Q R) R
                  (s\<lparr>tick := k\<rparr>)" if en: "mset entries = mset ?G" for entries k
              proof -
                have eset: "set entries = set ?G" using en by (rule mset_eq_setD)
                have "wp (foldEach (updateStep E bp ?NB (similarMap sBs)) entries ([], [], []))
                    (updInv E bp ?sel d u entries) R (s\<lparr>tick := k\<rparr>)"
                proof (rule wp_foldEach)
                  show "updInv E bp ?sel d u [] ([], [], []) (s\<lparr>tick := k\<rparr>)"
                    by (simp add: updInv_def d_def u_def)
                next
                  fix xs y ys acc t
                  assume z: "entries = xs @ y # ys" and I: "updInv E bp ?sel d u xs acc t"
                  obtain ncfg nl where y: "y = (ncfg, nl)" by (cases y)
                  have "(ncfg, nl) \<in> set ?G" using z y eset by force
                  from ent(3) [OF this] show "wp (updateStep E bp ?NB (similarMap sBs) y acc) (updInv E bp ?sel d u (xs @ [y])) R t"
                    unfolding y by (intro wp_updateStep [OF E I refl sB]) simp_all
                qed
                then show ?thesis
                proof (rule wp_mono)
                  fix acc t
                  assume I: "updInv E bp ?sel d u entries acc t"
                  obtain del adds exs where acc: "acc = (del, adds, exs)" by (cases acc)
                  have G: "\<forall>(ncfg, nl) \<in> set entries. \<forall>n \<in> set nl. \<exists>g. (n, g, Bc ncfg) \<in> set (joinNodes d)"
                    using ent(4) by (auto simp: eset)
                  have nodes: "mset (concat (map (\<lambda>e. filter ?sel (snd e)) entries)) = mset (map fst (wantedJoin ?M ?H ?N d))"
                    using perm_concat [OF en, of "\<lambda>e. filter ?sel (snd e)"] ent(5) by (simp only:)
                  note fin = updInv_final [OF E wu I [unfolded acc] G nodes]
                  have pt: "pdb t = d" using I by (simp add: updInv_def acc)
                  have del: "del = []" by (rule fin(1))
                  show "wp (applyUpdate E acc) Q R t"
                    unfolding acc del
                  proof (rule wp_applyUpdate [OF E], goal_cases)
                    case 1
                    show ?case using fin(3) by (simp add: pt)
                  next
                    case 2
                    show ?case using fin(2) by (simp add: pt)
                  next
                    case (3 b ns)
                    then show ?case using fin(4) by (simp add: pt)
                  next
                    case (4 b ns)
                    then show ?case by (rule fin(5))
                  next
                    case 5
                    show ?case by (rule fin(6))
                  next
                    case (6 r s')
                    then have u': "updated d adds exs (pdb s')" by (simp add: pt)
                    have v: "bootView (pdb s') = mset (map (\<lambda>(n, g, c). (nodeKey n,
                        if selected bp (nodeKey n) then mergeVals bp (cfgVals c) else cfgVals c)) (joinNodes d))"
                    proof (rule updated_view [OF wd wfu_db [OF 6(1)] u'])
                      note J = I [unfolded acc updInv_def prod.case]
                      show "bg_BootConfigId (Bg (fst e)) = bc_Id (Bc (fst e))" if "e \<in> set adds" for e
                        using J that by blast
                      show "\<exists>c. (Bg (fst e), c) \<in> set (groupCfgs d) \<and> cfgVals c = cfgVals (Bc (fst e))" if "e \<in> set exs" for e
                        using J that by blast
                      have plan: "planOk bp ?sel entries e" if "e \<in> set (adds @ exs)" for e
                        using J that by simp
                      show "\<exists>e \<in> set (adds @ exs). n \<in> set (snd e) \<and> cfgVals (Bc (fst e)) = mergeVals bp (cfgVals c)"
                        if j: "(n, g, c) \<in> set (joinNodes d)" and sl: "selected bp (nodeKey n)" for n g c
                      proof -
                        have "(n, g, c) \<in> set (wantedJoin ?M ?H ?N d)"
                          using j sl by (simp add: wantedJoin_def wantedNodes_selected joinNodes_set)
                        then have "n \<in> set (map fst (wantedJoin ?M ?H ?N d))" by force
                        then have "n \<in> set (concat (map snd (adds @ exs)))"
                          using mset_eq_setD [OF fin(8)] by blast
                        then obtain e where e: "e \<in> set (adds @ exs)" "n \<in> set (snd e)" by auto
                        from plan [OF e(1)] obtain ncfg nl where p: "(ncfg, nl) \<in> set entries" "snd e = filter ?sel nl"
                          "cfgVals (Bc (fst e)) = mergeVals bp (cfgVals (Bc ncfg))"
                          unfolding planOk_def by blast
                        then have "n \<in> set nl" using e(2) by simp
                        then obtain g' where "(n, g', Bc ncfg) \<in> set (joinNodes d)" using G p(1) by blast
                        then have "Bc ncfg = c" using joinNodes_fun [OF wd j] by blast
                        with p(3) have "cfgVals (Bc (fst e)) = mergeVals bp (cfgVals c)" by simp
                        with e show ?thesis by blast
                      qed
                      show "selected bp (nodeKey n) \<and> n \<in> set (t_nodes d)" if "e \<in> set (adds @ exs)" "n \<in> set (snd e)" for n e
                      proof -
                        have "n \<in> set (concat (map snd (adds @ exs)))" using that by auto
                        then have "n \<in> set (map fst (wantedJoin ?M ?H ?N d))"
                          using mset_eq_setD [OF fin(8)] by blast
                        then show ?thesis by (auto simp: wantedJoin_def wantedNodes_selected)
                      qed
                    qed
                    have ne: "bootNodes bp d \<noteq> []" using False rows by (auto simp: bootNodes_def)
                    obtain cs gs h where "pdb s' = d\<lparr>t_configs := t_configs d @ cs, t_groups := t_groups d @ gs, t_bgas := map h (t_bgas d)\<rparr>"
                      using u' unfolding updated_def by blast
                    then have ext: "\<exists>cs. t_configs (pdb s') = t_configs d @ cs" "\<exists>gs. t_groups (pdb s') = t_groups d @ gs"
                      "t_nodes (pdb s') = t_nodes d" by auto
                    show ?case
                      by (rule Q) (use 6 v ne ext True fin(7) in \<open>simp_all add: updView_rows d_def bootNodes_def\<close>)
                  next
                    case (7 e s')
                    then show ?case by (intro R) (simp_all add: pt d_def)
                  qed
                qed
              qed
              from this [of "permute (map_order E (Suc (Suc (Suc (Suc (Suc (Suc (tick s))))))) ) ?G"] E
              show ?case by (simp add: mset_permute)
            next
              case (3 e)
              then show ?case using err by simp
            qed
          next
            case (3 e t)
            then show ?case using err by simp
          qed
          then show ?thesis by simp
        qed
      next
        case (3 e)
        then show ?case using err by simp
      qed
      moreover have "?mm = []" "?mx = []" "?mn = []" using all True by blast+
      ultimately show ?thesis using True by (auto simp: blankConfig_def)
    qed
  next
    case (2 e)
    then show ?case using err by simp
  qed
qed

subsection \<open>Properties of Update\<close>

lemma bootNodes_view: "bootNodes bp d = [] \<longleftrightarrow> (\<forall>x \<in># bootView d. \<not> selected bp (fst x))"
  by (auto simp: bootNodes_def wantedJoin_def bootView_def wantedNodes_selected joinNodes_set
      filter_empty_conv)

lemma Update_wp:
  assumes "env_ok E" and "wf E s" and "bp_clean bp"
  shows "wp (Update E bp)
     (\<lambda>r s'. wf E s' \<and> allExist bp (pdb s) \<and> \<not> blankConfig bp \<and>
        (\<exists>x \<in># bootView (pdb s). selected bp (fst x)) \<and>
        bootView (pdb s') = updView bp (bootView (pdb s)) \<and> t_nodes (pdb s') = t_nodes (pdb s) \<and>
        mset r = mset (map n_Id (bootNodes bp (pdb s))) \<and>
        (\<exists>cs. t_configs (pdb s') = t_configs (pdb s) @ cs) \<and> (\<exists>gs. t_groups (pdb s') = t_groups (pdb s) @ gs))
     (\<lambda>e s'. wf E s' \<and> t_nodes (pdb s') = t_nodes (pdb s) \<and>
        (\<not> no_faults E \<or> pdb s' = pdb s \<and>
          (\<not> allExist bp (pdb s) \<or> blankConfig bp \<or> (\<forall>x \<in># bootView (pdb s). \<not> selected bp (fst x))))) s"
proof (rule wp_Update [OF assms], goal_cases)
  case (1 r s')
  then show ?case using bootNodes_view [of bp "pdb s"] by blast
next
  case (2 e s')
  then show ?case using bootNodes_view [of bp "pdb s"] by blast
qed

text \<open>C3. When Update succeeds, all nodes that it names existed and have the given kernel, initrd and
  parameters, the ones that are not given stay as they were; every other node keeps its boot
  parameters, and the node table is unchanged.\<close>

theorem Update_correct:
  assumes "env_ok E" and "wf E s" and "bp_clean bp" and "Update E bp s = (Inr r, s')"
  shows "wf E s' \<and> allExist bp (pdb s) \<and> t_nodes (pdb s') = t_nodes (pdb s) \<and>
     mset r = mset (map n_Id (bootNodes bp (pdb s))) \<and>
     bootView (pdb s') =
       image_mset (\<lambda>(k, v). (k, if selected bp k then mergeVals bp v else v)) (bootView (pdb s))"
  using wp_result(1) [OF Update_wp [OF assms(1-3)] assms(4)] by (simp add: updView_def)

definition demoUpd :: BootParams where
  "demoUpd = noBootParams\<lparr>Macs := [''AA''], Params := ''q''\<rparr>"

lemma demoUpd_clean: "bp_clean demoUpd"
  by code_simp

lemma demoUpd_result: "Update demoEnv demoUpd demoSt = (Inr [''u0''], snd (Update demoEnv demoUpd demoSt))"
  by code_simp

lemma Update_correct_witness:
  "bootView (pdb (snd (Update demoEnv demoUpd demoSt))) =
     {# ((''aa'', [], 0), (''k'', ''i'', ''q'')), ((''bb'', [], 0), (''k'', ''i'', ''p'')) #}"
proof -
  have "image_mset (\<lambda>(k, v). (k, if selected demoUpd k then mergeVals demoUpd v else v)) (bootView (pdb demoSt)) =
     {# ((''aa'', [], 0), (''k'', ''i'', ''q'')), ((''bb'', [], 0), (''k'', ''i'', ''p'')) #}"
    by code_simp
  then show ?thesis
    using Update_correct [OF demoEnv_ok(1) demoSt_wf demoUpd_clean demoUpd_result] by (simp only:)
qed

text \<open>C32. Update never removes a boot group or a boot configuration: the old rows stay, also those
  that no node uses any more, although the code collects configurations to delete.\<close>

theorem Update_never_deletes:
  assumes "env_ok E" and "wf E s" and "bp_clean bp" and "Update E bp s = (Inr r, s')"
  shows "\<exists>cs gs. t_configs (pdb s') = t_configs (pdb s) @ cs \<and> t_groups (pdb s') = t_groups (pdb s) @ gs"
  using wp_result(1) [OF Update_wp [OF assms(1-3)] assms(4)] by blast

definition demoUpd2 :: BootParams where
  "demoUpd2 = noBootParams\<lparr>Macs := [''aa'', ''bb''], Kernel := ''k2''\<rparr>"

lemma Update_never_deletes_witness:
  "\<exists>cs gs. t_configs (pdb (snd (Update demoEnv demoUpd2 demoSt))) = t_configs (pdb demoSt) @ cs \<and>
     t_groups (pdb (snd (Update demoEnv demoUpd2 demoSt))) = t_groups (pdb demoSt) @ gs"
proof -
  have c: "bp_clean demoUpd2" by code_simp
  have r: "Update demoEnv demoUpd2 demoSt = (Inr [''u0'', ''u1''], snd (Update demoEnv demoUpd2 demoSt))"
    by code_simp
  show ?thesis by (rule Update_never_deletes [OF demoEnv_ok(1) demoSt_wf c r])
qed

text \<open>C29. A failing Update keeps the database well formed and its nodes; if no statement failed, it
  has changed nothing, and a named node is missing, or no new value was given, or no named node
  has boot parameters to update.\<close>

theorem Update_error:
  assumes "env_ok E" and "wf E s" and "bp_clean bp" and "Update E bp s = (Inl e, s')"
  shows "wf E s' \<and> t_nodes (pdb s') = t_nodes (pdb s) \<and>
     (\<not> no_faults E \<or> pdb s' = pdb s \<and>
        (\<not> allExist bp (pdb s) \<or> blankConfig bp \<or> (\<forall>x \<in># bootView (pdb s). \<not> selected bp (fst x))))"
  using wp_result(2) [OF Update_wp [OF assms(1-3)] assms(4)] .

definition demoUpd3 :: BootParams where
  "demoUpd3 = noBootParams\<lparr>Macs := [''aa'', ''zz''], Kernel := ''k2''\<rparr>"

lemma Update_error_witness:
  "\<not> allExist demoUpd3 (pdb demoSt) \<and> (\<exists>e. fst (Update demoEnv demoUpd3 demoSt) = Inl e) \<and>
     pdb (snd (Update demoEnv demoUpd3 demoSt)) = pdb demoSt"
proof -
  have c: "bp_clean demoUpd3" by code_simp
  have "isl (fst (Update demoEnv demoUpd3 demoSt))" by code_simp
  then obtain e where e: "Update demoEnv demoUpd3 demoSt = (Inl e, snd (Update demoEnv demoUpd3 demoSt))"
    by (metis isl_def prod.collapse)
  have "\<not> allExist demoUpd3 (pdb demoSt)" by code_simp
  moreover have "fst (Update demoEnv demoUpd3 demoSt) = Inl e" using e by (metis fst_conv)
  ultimately show ?thesis using Update_error [OF demoEnv_ok(1) demoSt_wf c e] demoEnv_ok by blast
qed

end
