(* ===== verification/PgSet.thy ===== *)
theory PgSet
  imports PgUpdate
begin

text \<open>
  Setting boot parameters (internal/postgres/bootparams.go, Set): nodes that are not in the
  database are added, the nodes that are there are updated. Below the definition: the two requests
  that Set derives from its own, and the effect of Set on the boot parameters of all nodes.
\<close>

text \<open>Set: the missing nodes are added, the existing ones updated.\<close>

definition Set :: "pg_env \<Rightarrow> BootParams \<Rightarrow> unit pg" where
  "Set E bp =
     (if length (Params bp) = 0 \<and> length (Kernel bp) = 0 \<and> length (Initrd bp) = 0 then
        fail (ErrPostgresUpdate (Err ''must specify at least one of params, kernel, or initrd''))
      else
        andThen (mapErr ErrPostgresUpdate (CheckNodeExistence E (Macs bp) (Hosts bp) (Nids bp)))
          (\<lambda>(_, addMacs, addHosts, addNids).
        let newBp = noBootParams\<lparr>Kernel := Kernel bp, Initrd := Initrd bp, Params := Params bp\<rparr>;
            addBp = newBp\<lparr>Macs := addMacs, Hosts := addHosts, Nids := addNids\<rparr> in
        andThen (mapErr ErrPostgresAdd (GetNodesByItems E (Macs bp) (Hosts bp) (Nids bp))) (\<lambda>existing.
        let updateBp = newBp\<lparr>Macs := map n_BootMac (filter (\<lambda>n. n_BootMac n \<noteq> []) existing),
                             Hosts := map n_Xname (filter (\<lambda>n. n_Xname n \<noteq> []) existing),
                             Nids := map n_Nid (filter (\<lambda>n. n_Nid n \<noteq> 0) existing)\<rparr> in
        andThen (if length (Macs addBp) > 0 \<or> length (Hosts addBp) > 0 \<or> length (Nids addBp) > 0
                 then andThen (mapErr (\<lambda>e. ErrPostgresSet (Wrapped ''failed to add new boot configuration'' e))
                                 (Add E addBp)) (\<lambda>_. ret ())
                 else ret ()) (\<lambda>_.
        if length existing > 0
        then andThen (mapErr (\<lambda>e. ErrPostgresSet (Wrapped ''failed to update existing boot configuration'' e))
                        (Update E updateBp)) (\<lambda>_. ret ())
        else ret ()))))"


subsection \<open>The two halves of a request\<close>

definition newVals :: "BootParams \<Rightarrow> BootParams" where
  "newVals bp = noBootParams\<lparr>Kernel := Kernel bp, Initrd := Initrd bp, Params := Params bp\<rparr>"

definition setAdds :: "BootParams \<Rightarrow> pg_db \<Rightarrow> BootParams" where
  "setAdds bp d = (newVals bp)\<lparr>
     Macs := filter (\<lambda>m. toLower m \<notin> n_BootMac ` set (t_nodes d)) (Macs bp),
     Hosts := filter (\<lambda>x. x \<notin> n_Xname ` set (t_nodes d)) (Hosts bp),
     Nids := filter (\<lambda>i. i \<notin> n_Nid ` set (t_nodes d)) (Nids bp)\<rparr>"

definition setUpds :: "BootParams \<Rightarrow> Node list \<Rightarrow> BootParams" where
  "setUpds bp existing = (newVals bp)\<lparr>
     Macs := map n_BootMac (filter (\<lambda>n. n_BootMac n \<noteq> []) existing),
     Hosts := map n_Xname (filter (\<lambda>n. n_Xname n \<noteq> []) existing),
     Nids := map n_Nid (filter (\<lambda>n. n_Nid n \<noteq> 0) existing)\<rparr>"

text \<open>The nodes whose parameters Set replaces: the existing nodes that the request names, and all
  that share a MAC address, an xname or a NID with one of them; all nodes of the database if the
  existing ones have none of the three.\<close>

definition setSelects :: "BootParams \<Rightarrow> pg_db \<Rightarrow> string \<times> string \<times> int32 \<Rightarrow> bool" where
  "setSelects bp d k \<longleftrightarrow>
     (let ex = wantedNodes (Macs bp) (Hosts bp) (Nids bp) d in
      ex \<noteq> [] \<and> selected (setUpds bp ex) k)"

definition storedClean :: "pg_db \<Rightarrow> bool" where
  "storedClean d \<longleftrightarrow> (\<forall>n \<in> set (t_nodes d). quote_free (n_BootMac n) \<and> quote_free (n_Xname n))"

lemma setUpds_cong: "set xs = set ys \<Longrightarrow> selected (setUpds bp xs) = selected (setUpds bp ys)"
  by (rule ext) (auto simp: selected_def keyMatches_def setUpds_def filter_empty_conv split: prod.splits)

lemma setUpds_fields [simp]:
  "Kernel (setUpds bp ex) = Kernel bp" "Initrd (setUpds bp ex) = Initrd bp" "Params (setUpds bp ex) = Params bp"
  "Kernel (setAdds bp d) = Kernel bp" "Initrd (setAdds bp d) = Initrd bp" "Params (setAdds bp d) = Params bp"
  by (simp_all add: setUpds_def setAdds_def newVals_def)

lemma setUpds_merge: "mergeVals (setUpds bp ex) = mergeVals bp"
  by (rule ext) (simp add: mergeVals_def)

lemma setUpds_exist:
  assumes "wf_db d" and "set ex \<subseteq> set (t_nodes d)"
  shows "allExist (setUpds bp ex) d"
  using assms by (auto simp: allExist_def setUpds_def wf_db_def)

lemma setUpds_clean:
  assumes "bp_clean bp" and "storedClean d" and "set ex \<subseteq> set (t_nodes d)"
  shows "bp_clean (setUpds bp ex)"
  using assms by (auto simp: bp_clean_def storedClean_def setUpds_def newVals_def list_all_iff)

lemma setAdds_request:
  assumes "nodeRequest E bp" shows "nodeRequest E (setAdds bp d)"
  using assms by (auto simp: nodeRequest_def bp_clean_def setAdds_def newVals_def list_all_iff)

lemma missing_setAdds:
  "missingNodes (setAdds bp d) d = [] \<longleftrightarrow>
   Macs (setAdds bp d) = [] \<and> Hosts (setAdds bp d) = [] \<and> Nids (setAdds bp d) = []"
  by (auto simp: missingNodes_def setAdds_def filter_empty_conv)

text \<open>A database that has got rows with the keys \<open>ks\<close> for new nodes.\<close>

definition grownBy :: "pg_db \<Rightarrow> (string \<times> string \<times> int32) list \<Rightarrow> pg_db \<Rightarrow> bool" where
  "grownBy d ks d' \<longleftrightarrow> (\<exists>ns. map nodeKey ns = ks \<and> t_nodes d' = t_nodes d @ ns)"

lemma grownBy_Nil [simp]: "grownBy d [] d"
  by (simp add: grownBy_def)

lemma grownBy_subset: "grownBy d ks d' \<Longrightarrow> set (t_nodes d) \<subseteq> set (t_nodes d')"
  by (auto simp: grownBy_def)

text \<open>The second half, on such a database.\<close>

lemma wp_setUpdate:
  assumes E: "env_ok E" and w: "wf E s" and c: "bp_clean bp" and sc: "storedClean d"
    and nb: "\<not> blankConfig bp" and ex: "set ex = set (wantedNodes (Macs bp) (Hosts bp) (Nids bp) d)"
    and n: "grownBy d ks (pdb s)"
    and v: "bootView (pdb s) = bootView d + mset (map (\<lambda>k. (k, (Kernel bp, Initrd bp, Params bp))) ks)"
    and Q: "\<And>s'. wf E s' \<Longrightarrow> grownBy d ks (pdb s') \<Longrightarrow> bootView (pdb s') =
           image_mset (\<lambda>(k, v). (k, if setSelects bp d k then mergeVals bp v else v)) (bootView d) +
           mset (map (\<lambda>k. (k, (Kernel bp, Initrd bp, Params bp))) ks) \<Longrightarrow> Q () s'"
    and R: "\<And>e s'. wf E s' \<Longrightarrow> \<not> no_faults E \<or> pdb s' = pdb s \<and> ex \<noteq> [] \<and>
           (\<forall>x \<in># bootView d. \<not> setSelects bp d (fst x)) \<Longrightarrow> R e s'"
  shows "wp (if length ex > 0
        then andThen (mapErr (\<lambda>e. ErrPostgresSet (Wrapped ''failed to update existing boot configuration'' e))
                        (Update E (setUpds bp ex))) (\<lambda>_. ret ())
        else ret ()) Q R s"
proof (cases "ex = []")
  case True
  then have "wantedNodes (Macs bp) (Hosts bp) (Nids bp) d = []" using ex by simp
  then have "\<not> setSelects bp d k" for k by (simp add: setSelects_def)
  then show ?thesis using True Q [OF w n] v by (simp add: case_prod_unfold)
next
  case False
  let ?u = "setUpds bp ex"
  have sub: "set ex \<subseteq> set (t_nodes d)" unfolding ex by (auto simp: wantedNodes_def split: if_splits)
  have sel: "selected ?u k \<longleftrightarrow> setSelects bp d k" for k
    using False ex setUpds_cong [OF ex] by (auto simp: setSelects_def Let_def)
  have all: "allExist ?u (pdb s)"
    by (rule setUpds_exist [OF wfu_db [OF w]]) (use sub grownBy_subset [OF n] in blast)
  have nb': "\<not> blankConfig ?u" using nb by (simp add: blankConfig_def)
  have "wp (Update E ?u) (\<lambda>_. Q ()) (\<lambda>e. R (ErrPostgresSet (Wrapped ''failed to update existing boot configuration'' e))) s"
  proof (rule wp_mono [OF Update_wp [OF E w setUpds_clean [OF c sc sub]]], goal_cases)
    case (1 r s')
    have "updView ?u (mset (map (\<lambda>k. (k, (Kernel bp, Initrd bp, Params bp))) ks)) =
        mset (map (\<lambda>k. (k, (Kernel bp, Initrd bp, Params bp))) ks)"
      unfolding updView_def setUpds_merge
      by (simp add: multiset.map_comp comp_def mergeVals_def flip: mset_map cong: if_cong)
    then show ?case
      using 1 v n by (intro Q) (simp_all add: updView_def setUpds_merge sel grownBy_def cong: if_cong)
  next
    case (2 e s')
    then show ?case using all nb' False by (intro R) (auto simp: v sel)
  qed
  with False show ?thesis by simp
qed

text \<open>The nodes and the view of the database in which the first half leaves a state.\<close>

lemma wp_Set:
  assumes E: "env_ok E" and w: "wf E s" and c: "nodeRequest E bp" and sc: "storedClean (pdb s)"
    and Q: "\<And>s'. wf E s' \<Longrightarrow> grownBy (pdb s) (missingNodes (setAdds bp (pdb s)) (pdb s)) (pdb s') \<Longrightarrow> bootView (pdb s') =
           image_mset (\<lambda>(k, v). (k, if setSelects bp (pdb s) k then mergeVals bp v else v)) (bootView (pdb s)) +
           mset (map (\<lambda>k. (k, (Kernel bp, Initrd bp, Params bp))) (missingNodes (setAdds bp (pdb s)) (pdb s))) \<Longrightarrow> Q () s'"
    and R: "\<And>e s'. wf E s' \<Longrightarrow>
           \<not> no_faults E \<or> pdb s' = pdb s \<and> (blankConfig bp \<or> missingNodes (setAdds bp (pdb s)) (pdb s) \<noteq> [] \<and> Kernel bp = []) \<or>
           (\<forall>x \<in># bootView (pdb s). \<not> setSelects bp (pdb s) (fst x)) \<and>
           wantedNodes (Macs bp) (Hosts bp) (Nids bp) (pdb s) \<noteq> [] \<and>
           bootView (pdb s') = bootView (pdb s) +
             mset (map (\<lambda>k. (k, (Kernel bp, Initrd bp, Params bp))) (missingNodes (setAdds bp (pdb s)) (pdb s))) \<Longrightarrow> R e s'"
  shows "wp (Set E bp) Q R s"
proof (cases "blankConfig bp")
  case True
  then show ?thesis using w by (simp add: Set_def blankConfig_def R)
next
  case False
  define d where "d = pdb s"
  let ?ks = "missingNodes (setAdds bp d) d"
  let ?vals = "\<lambda>ks. mset (map (\<lambda>k. (k, (Kernel bp, Initrd bp, Params bp))) ks)"
  have q: "list_all quote_free (Macs bp)" "list_all quote_free (Hosts bp)" "bp_clean bp"
    using c by (simp_all add: nodeRequest_def bp_clean_def)
  have second: "wp (if length ex > 0
        then andThen (mapErr (\<lambda>e. ErrPostgresSet (Wrapped ''failed to update existing boot configuration'' e))
                        (Update E (setUpds bp ex))) (\<lambda>_. ret ())
        else ret ()) Q R t"
    if ex: "set ex = set (wantedNodes (Macs bp) (Hosts bp) (Nids bp) d)" and t: "wf E t"
      and n: "grownBy d ?ks (pdb t)" and v: "bootView (pdb t) = bootView d + ?vals ?ks" for ex t
    by (rule wp_setUpdate [OF E t q(3) sc [folded d_def] False ex n v])
      (use ex v in \<open>auto intro!: Q R simp: d_def\<close>)
  have first: "wp (if length (Macs (setAdds bp d)) > 0 \<or> length (Hosts (setAdds bp d)) > 0 \<or> length (Nids (setAdds bp d)) > 0
                 then andThen (mapErr (\<lambda>e. ErrPostgresSet (Wrapped ''failed to add new boot configuration'' e))
                                 (Add E (setAdds bp d))) (\<lambda>_. ret ())
                 else ret ()) (\<lambda>_ t. wf E t \<and> grownBy d ?ks (pdb t) \<and> bootView (pdb t) = bootView d + ?vals ?ks) R t"
    if t: "wf E t" "pdb t = d" for t
  proof (cases "?ks = []")
    case True
    then have "Macs (setAdds bp d) = [] \<and> Hosts (setAdds bp d) = [] \<and> Nids (setAdds bp d) = []"
      unfolding missing_setAdds .
    with True t show ?thesis by simp
  next
    case False
    have "wp (Add E (setAdds bp d)) (\<lambda>_ t. wf E t \<and> grownBy d ?ks (pdb t) \<and> bootView (pdb t) = bootView d + ?vals ?ks)
        (\<lambda>e. R (ErrPostgresSet (Wrapped ''failed to add new boot configuration'' e))) t"
      by (rule wp_mono [OF Add_wp [OF E t(1) setAdds_request [OF c]]])
        (use False t(2) in \<open>auto intro!: R simp: d_def grownBy_def split: if_splits\<close>)
    with False show ?thesis unfolding missing_setAdds by auto
  qed
  have nb: "\<not> (length (Params bp) = 0 \<and> length (Kernel bp) = 0 \<and> length (Initrd bp) = 0)"
    using False by (simp add: blankConfig_def)
  show ?thesis
    unfolding Set_def if_not_P [OF nb] wp_andThen wp_mapErr
  proof (rule wp_CheckNodeExistence [OF E q(1,2)], goal_cases)
      case (1 ex)
      show ?case
        unfolding prod.case Let_def wp_andThen wp_mapErr
      proof (rule wp_GetNodesByItems [OF E q(1,2)], goal_cases)
        case (1 rs)
        then have rs: "set rs = set (wantedNodes (Macs bp) (Hosts bp) (Nids bp) d)"
          using mset_eq_setD [OF 1] by (simp add: d_def)
        have "wp (if length (Macs (setAdds bp d)) > 0 \<or> length (Hosts (setAdds bp d)) > 0 \<or> length (Nids (setAdds bp d)) > 0
                 then andThen (mapErr (\<lambda>e. ErrPostgresSet (Wrapped ''failed to add new boot configuration'' e))
                                 (Add E (setAdds bp d))) (\<lambda>_. ret ())
                 else ret ()) (\<lambda>_. wp (if length rs > 0
              then andThen (mapErr (\<lambda>e. ErrPostgresSet (Wrapped ''failed to update existing boot configuration'' e))
                        (Update E (setUpds bp rs))) (\<lambda>_. ret ())
              else ret ()) Q R) R (s\<lparr>tick := Suc (tick s)\<rparr>\<lparr>tick := Suc (tick (s\<lparr>tick := Suc (tick s)\<rparr>))\<rparr>)"
          by (rule wp_mono [OF first]) (use w second [OF rs] in \<open>auto simp: d_def\<close>)
        then show ?case
          by (simp only: setAdds_def setUpds_def newVals_def d_def wp_andThen wp_mapErr wp_if)
      next
        case (2 e)
        then show ?case using w by (intro R) simp_all
      qed
    next
      case (2 e)
      then show ?case using w by (intro R) simp_all
    qed
qed

subsection \<open>Properties of Set\<close>

lemma Set_wp:
  assumes "env_ok E" and "wf E s" and "nodeRequest E bp" and "storedClean (pdb s)"
  shows "wp (Set E bp)
     (\<lambda>_ s'. wf E s' \<and> grownBy (pdb s) (missingNodes (setAdds bp (pdb s)) (pdb s)) (pdb s') \<and> bootView (pdb s') =
        image_mset (\<lambda>(k, v). (k, if setSelects bp (pdb s) k then mergeVals bp v else v)) (bootView (pdb s)) +
        mset (map (\<lambda>k. (k, (Kernel bp, Initrd bp, Params bp))) (missingNodes (setAdds bp (pdb s)) (pdb s))))
     (\<lambda>_ s'. wf E s' \<and>
        (\<not> no_faults E \<or> pdb s' = pdb s \<and> (blankConfig bp \<or> missingNodes (setAdds bp (pdb s)) (pdb s) \<noteq> [] \<and> Kernel bp = []) \<or>
           (\<forall>x \<in># bootView (pdb s). \<not> setSelects bp (pdb s) (fst x)) \<and>
           wantedNodes (Macs bp) (Hosts bp) (Nids bp) (pdb s) \<noteq> [] \<and>
           bootView (pdb s') = bootView (pdb s) +
             mset (map (\<lambda>k. (k, (Kernel bp, Initrd bp, Params bp))) (missingNodes (setAdds bp (pdb s)) (pdb s))))) s"
  by (rule wp_Set [OF assms]) simp_all

text \<open>C2. When Set succeeds, the named nodes that were not stored have boot parameters with the given
  kernel, initrd and parameters, the stored ones have the given values in place of theirs, a value
  that is not given stays, and the boot parameters of every other node are unchanged. So a PUT that omits a value keeps the stored
  one. The documentation promises that of PATCH only (docs/examples.adoc, api/swagger.yaml: PUT replaces, and what is
  not given is removed), and the key-value store does what it says: there the theorem Store_then_lookup yields an empty value.\<close>

theorem Set_correct:
  assumes "env_ok E" and "wf E s" and "nodeRequest E bp" and "storedClean (pdb s)" and "Set E bp s = (Inr r, s')"
  shows "wf E s' \<and> bootView (pdb s') =
     image_mset (\<lambda>(k, v). (k, if setSelects bp (pdb s) k then mergeVals bp v else v)) (bootView (pdb s)) +
     mset (map (\<lambda>k. (k, (Kernel bp, Initrd bp, Params bp))) (missingNodes (setAdds bp (pdb s)) (pdb s)))"
  using wp_result(1) [OF Set_wp [OF assms(1-4)] assms(5)] by blast

definition demoSet :: BootParams where
  "demoSet = noBootParams\<lparr>Macs := [''aa'', ''cc''], Kernel := ''k3''\<rparr>"

lemma demoSet_ok: "nodeRequest demoEnv demoSet" "storedClean (pdb demoSt)"
  by code_simp+

lemma Set_correct_witness:
  "bootView (pdb (snd (Set demoEnv demoSet demoSt))) =
     {# ((''aa'', [], 0), (''k3'', ''i'', ''p'')), ((''bb'', [], 0), (''k'', ''i'', ''p'')),
        ((''cc'', [], 0), (''k3'', [], [])) #}"
proof -
  have r: "Set demoEnv demoSet demoSt = (Inr (), snd (Set demoEnv demoSet demoSt))" by code_simp
  have "image_mset (\<lambda>(k, v). (k, if setSelects demoSet (pdb demoSt) k then mergeVals demoSet v else v)) (bootView (pdb demoSt)) +
     mset (map (\<lambda>k. (k, (Kernel demoSet, Initrd demoSet, Params demoSet))) (missingNodes (setAdds demoSet (pdb demoSt)) (pdb demoSt))) =
     {# ((''aa'', [], 0), (''k3'', ''i'', ''p'')), ((''bb'', [], 0), (''k'', ''i'', ''p'')),
        ((''cc'', [], 0), (''k3'', [], [])) #}"
    by code_simp
  then show ?thesis
    using Set_correct [OF demoEnv_ok(1) demoSt_wf demoSet_ok r] by (simp only:)
qed

text \<open>C31. If no statement fails, Set fails without an effect when it was given no value or would have
  to add a node without a kernel; otherwise it fails after having added the missing nodes, because
  none of the stored nodes that it selects has boot parameters.\<close>

theorem Set_error:
  assumes "env_ok E" and "wf E s" and "nodeRequest E bp" and "storedClean (pdb s)" and "no_faults E"
    and "Set E bp s = (Inl e, s')"
  shows "pdb s' = pdb s \<and> (blankConfig bp \<or> missingNodes (setAdds bp (pdb s)) (pdb s) \<noteq> [] \<and> Kernel bp = []) \<or>
     (\<forall>x \<in># bootView (pdb s). \<not> setSelects bp (pdb s) (fst x)) \<and>
     wantedNodes (Macs bp) (Hosts bp) (Nids bp) (pdb s) \<noteq> [] \<and>
     bootView (pdb s') = bootView (pdb s) +
       mset (map (\<lambda>k. (k, (Kernel bp, Initrd bp, Params bp))) (missingNodes (setAdds bp (pdb s)) (pdb s)))"
  using wp_result(2) [OF Set_wp [OF assms(1-4)] assms(6)] assms(5) by blast

definition demoSet2 :: BootParams where
  "demoSet2 = noBootParams\<lparr>Macs := [''aa'', ''cc''], Params := ''p2''\<rparr>"

lemma Set_error_witness:
  "pdb (snd (Set demoEnv demoSet2 demoSt)) = pdb demoSt \<and> Kernel demoSet2 = [] \<or>
   (\<forall>x \<in># bootView (pdb demoSt). \<not> setSelects demoSet2 (pdb demoSt) (fst x))"
proof -
  have n: "nodeRequest demoEnv demoSet2" by code_simp
  have k: "Kernel demoSet2 = []" by code_simp
  have "isl (fst (Set demoEnv demoSet2 demoSt))" by code_simp
  then obtain e where e: "Set demoEnv demoSet2 demoSt = (Inl e, snd (Set demoEnv demoSet2 demoSt))"
    by (metis isl_def prod.collapse)
  from Set_error [OF demoEnv_ok(1) demoSt_wf n demoSet_ok(2) demoEnv_ok(2) e] k show ?thesis by blast
qed

end
