(* ===== verification/PgEndpoints.thy ===== *)
theory PgEndpoints
  imports PgReads
begin

text \<open>
  The history of accesses to the endpoints (internal/postgres/endpoints.go): the search with its
  conditions, and logging an access with the current time. The column last_epoch is declared
  \<open>int\<close> in migrations/postgres, which is 32 bits wide, while the code sends 64 bits; the server
  refuses a value that does not fit.
\<close>

definition accessParts :: "string \<Rightarrow> string \<Rightarrow> (bool \<times> string) list" where
  "accessParts name endpointType =
     [(name \<noteq> [], '' name = '' @ [sq] @ name @ [sq]),
      (endpointType \<noteq> [], '' endpoint = '' @ [sq] @ endpointType @ [sq])]"

definition accessErr :: "string \<Rightarrow> goerr \<Rightarrow> goerr" where
  "accessErr msg e = Wrapped (''postgres.SearchEndpointAccesses: '' @ msg) e"

definition SearchEndpointAccesses :: "pg_env \<Rightarrow> string \<Rightarrow> string \<Rightarrow> EndpointAccess list pg" where
  "SearchEndpointAccesses E name endpointType =
     dbQuery E (accessErr ''Could not query endpoint access table in boot database'')
       (accessErr ''Could not scan results into EndpointAccess'')
       (accessErr ''Could not parse query results'')
       (selectStmt (\<lambda>d.
          if name \<noteq> [] \<or> endpointType \<noteq> []
          then sql_filter (glueLoop '' AND'' True (accessParts name endpointType)) access_col (t_access d)
          else Some (t_access d)))"

definition outOfRange :: goerr where
  "outOfRange = Err ''integer out of range''"

definition insertAccess :: "EndpointAccess \<Rightarrow> pg_db \<Rightarrow> goerr + pg_db" where
  "insertAccess a d =
     (if - (2 ^ 31) \<le> ea_LastEpoch a \<and> ea_LastEpoch a < 2 ^ 31
      then Inr (d\<lparr>t_access := t_access d @ [a]\<rparr>) else Inl outOfRange)"

definition accessText :: "EndpointAccess \<Rightarrow> string" where
  "accessText ea = CHR ''{'' # ea_Name ea @ '' '' @ ea_Endpoint ea @ '' '' @ int_str (ea_LastEpoch ea) @ ''}''"

definition addEndpointAccess :: "pg_env \<Rightarrow> EndpointAccess \<Rightarrow> unit pg" where
  "addEndpointAccess E ea =
     dbExec E (Wrapped (''Error executing query to add endpoint access '' @ accessText ea)) (insertAccess ea)"

definition LogEndpointAccess :: "pg_env \<Rightarrow> string \<Rightarrow> string \<Rightarrow> unit pg" where
  "LogEndpointAccess E name endpointType s =
     (if name = [] then
        fail (Err ''postgres.LogEndpointAccess: Argument 'name' cannot be empty'') s
      else if endpointType = [] then
        fail (Err ''postgres.LogEndpointAccess: Argument 'endpointType' cannot be empty'') s
      else
        mapErr (Wrapped ''postgres.LogEndpointAccess'')
          (addEndpointAccess E \<lparr>ea_Name = name, ea_Endpoint = endpointType,
                                ea_LastEpoch = unix_now E (tick s)\<rparr>) s)"

subsection \<open>What a search finds\<close>

definition accessMatches :: "string \<Rightarrow> string \<Rightarrow> EndpointAccess \<Rightarrow> bool" where
  "accessMatches name endpointType a \<longleftrightarrow>
     (name = [] \<or> ea_Name a = name) \<and> (endpointType = [] \<or> ea_Endpoint a = endpointType)"

abbreviation accessPreds :: "string \<Rightarrow> string \<Rightarrow> (bool \<times> string \<times> cond) list" where
  "accessPreds n e \<equiv>
     [(n \<noteq> [], '' name = '' @ [sq] @ n @ [sq], CEq ''name'' (VStr n)),
      (e \<noteq> [], '' endpoint = '' @ [sq] @ e @ [sq], CEq ''endpoint'' (VStr e))]"

lemma accessParts_filter:
  assumes "quote_free n" and "quote_free e" and "n \<noteq> [] \<or> e \<noteq> []"
  shows "sql_filter (glueLoop '' AND'' True (accessParts n e)) access_col rows =
         Some (filter (accessMatches n e) rows)"
proof -
  have ok: "parts_ok (accessPreds n e)" "parts_sp (accessPreds n e)" "parts_text (accessPreds n e) = accessParts n e"
    using denotes_EQ [of "''name''" n "'' ''"] denotes_EQ [of "''endpoint''" e "'' ''"] assms
    by (simp_all add: accessParts_def)
  have "sql_filter (glueLoop (CHR '' '' # ''AND'') True (parts_text (accessPreds n e))) access_col rows =
      Some (filter (\<lambda>r. if ''AND'' = ''OR'' then list_ex (eval_cond (access_col r)) (parts_conds (accessPreds n e))
                        else list_all (eval_cond (access_col r)) (parts_conds (accessPreds n e))) rows)"
    by (rule sql_filter_glue [OF ok(1,2)]) (use assms(3) in auto)
  then show ?thesis
    unfolding ok(3) by (auto simp: accessMatches_def access_col_def intro!: filter_cong)
qed

lemma wp_SearchEndpointAccesses:
  assumes "env_ok E" and "quote_free n" and "quote_free e"
    and "\<And>as. mset as = mset (filter (accessMatches n e) (t_access (pdb s))) \<Longrightarrow> Q as (s\<lparr>tick := Suc (tick s)\<rparr>)"
    and "\<And>err. \<not> no_faults E \<Longrightarrow> R err (s\<lparr>tick := Suc (tick s)\<rparr>)"
  shows "wp (SearchEndpointAccesses E n e) Q R s"
proof -
  have "(if n \<noteq> [] \<or> e \<noteq> [] then sql_filter (glueLoop '' AND'' True (accessParts n e)) access_col (t_access (pdb s))
         else Some (t_access (pdb s))) = Some (filter (accessMatches n e) (t_access (pdb s)))"
    using accessParts_filter [OF assms(2,3)] by (auto simp: accessMatches_def [abs_def])
  then show ?thesis
    unfolding SearchEndpointAccesses_def by (intro wp_select [OF assms(1)]) (use assms(4,5) in auto)
qed

definition logged :: "pg_env \<Rightarrow> string \<Rightarrow> string \<Rightarrow> pgst \<Rightarrow> EndpointAccess" where
  "logged E n e s = \<lparr>ea_Name = n, ea_Endpoint = e, ea_LastEpoch = unix_now E (tick s)\<rparr>"

definition fits32 :: "int \<Rightarrow> bool" where
  "fits32 t \<longleftrightarrow> - (2 ^ 31) \<le> t \<and> t < 2 ^ 31"

lemma LogEndpointAccess_Inr:
  assumes "LogEndpointAccess E n e s = (Inr u, s')"
  shows "pdb s' = (pdb s)\<lparr>t_access := t_access (pdb s) @ [logged E n e s]\<rparr>" and "n \<noteq> []" and "e \<noteq> []"
  using assms
  by (auto simp: LogEndpointAccess_def addEndpointAccess_def mapErr_def fail_def dbExec_def Let_def
      insertAccess_def logged_def split: if_splits fault.splits sum.splits prod.splits)

lemma LogEndpointAccess_ok:
  "no_faults E \<Longrightarrow> isl (fst (LogEndpointAccess E n e s)) \<longleftrightarrow> n = [] \<or> e = [] \<or> \<not> fits32 (unix_now E (tick s))"
  by (auto simp: LogEndpointAccess_def addEndpointAccess_def mapErr_def fail_def dbExec_def Let_def
      insertAccess_def no_faults_def fits32_def)

subsection \<open>Properties\<close>

text \<open>A search returns exactly the stored accesses with the given name and the given endpoint,
  where an empty argument stands for any value, each as often as it was logged.\<close>

lemma SearchEndpointAccesses_correct:
  assumes "env_ok E" and "quote_free n" and "quote_free e" and "SearchEndpointAccesses E n e s = (Inr as, s')"
  shows "mset as = filter_mset (\<lambda>a. (n = [] \<or> ea_Name a = n) \<and> (e = [] \<or> ea_Endpoint a = e)) (mset (t_access (pdb s)))"
    (is "?P as s'")
proof -
  have "wp (SearchEndpointAccesses E n e) ?P (\<lambda>_ _. True) s"
    by (rule wp_SearchEndpointAccesses [OF assms(1-3)]) (simp_all add: accessMatches_def)
  from wp_result(1) [OF this assms(4)] show ?thesis .
qed

definition logEnv :: pg_env where
  "logEnv = \<lparr>gen_uuid = (\<lambda>k. CHR ''u'' # nat_str k), db_fault = (\<lambda>_. NoFault),
     row_order = (\<lambda>_ n. rev [0..<n]), map_order = (\<lambda>_ n. [0..<n]),
     xname_type = (\<lambda>_. None), unix_now = (\<lambda>t. 1000 + int t)\<rparr>"

definition logSt :: pgst where
  "logSt = \<lparr>pdb = \<lparr>t_nodes = [], t_bgas = [], t_groups = [], t_configs = [],
     t_access = [\<lparr>ea_Name = ''x0'', ea_Endpoint = ''bootscript'', ea_LastEpoch = 7\<rparr>,
                 \<lparr>ea_Name = ''x1'', ea_Endpoint = ''user-data'', ea_LastEpoch = 8\<rparr>]\<rparr>, tick = 0, uctr = 0\<rparr>"

lemma logEnv_ok: "env_ok logEnv" "no_faults logEnv" "quote_free ''x0''" "quote_free ''bootscript''"
proof -
  have "\<not> is_digit sq" by code_simp
  then have "sq \<notin> set (nat_str k)" for k using nat_str_digits [of sq k] by auto
  then show "env_ok logEnv"
    by (auto simp: env_ok_def logEnv_def perm_ok_def inj_def quote_free_def sq_def intro: nat_str_inj)
qed (simp_all add: no_faults_def logEnv_def quote_free_def sq_def)

lemma SearchEndpointAccesses_correct_witness:
  "\<exists>as. fst (SearchEndpointAccesses logEnv ''x0'' ''bootscript'' logSt) = Inr as \<and>
     mset as = {# \<lparr>ea_Name = ''x0'', ea_Endpoint = ''bootscript'', ea_LastEpoch = 7\<rparr> #}"
proof -
  let ?r = "SearchEndpointAccesses logEnv ''x0'' ''bootscript'' logSt"
  have r: "?r = (Inr [\<lparr>ea_Name = ''x0'', ea_Endpoint = ''bootscript'', ea_LastEpoch = 7\<rparr>], snd ?r)"
    by code_simp
  have "filter_mset (\<lambda>a. (''x0'' = [] \<or> ea_Name a = ''x0'') \<and> (''bootscript'' = [] \<or> ea_Endpoint a = ''bootscript''))
     (mset (t_access (pdb logSt))) = {# \<lparr>ea_Name = ''x0'', ea_Endpoint = ''bootscript'', ea_LastEpoch = 7\<rparr> #}"
    by code_simp
  note trans [OF SearchEndpointAccesses_correct [OF logEnv_ok(1,3,4) r] this]
  moreover note arg_cong [OF r, of fst, unfolded fst_conv]
  ultimately show ?thesis by blast
qed

text \<open>What has been logged is found: a search for the name and the endpoint of a logged access
  returns it with its time, next to the earlier accesses of that name and endpoint.\<close>

lemma LogEndpointAccess_found:
  assumes "env_ok E" and "quote_free n" and "quote_free e"
    and "LogEndpointAccess E n e s = (Inr u, s1)" and "SearchEndpointAccesses E n e s1 = (Inr as, s2)"
  shows "mset as = add_mset \<lparr>ea_Name = n, ea_Endpoint = e, ea_LastEpoch = unix_now E (tick s)\<rparr>
     (filter_mset (\<lambda>a. ea_Name a = n \<and> ea_Endpoint a = e) (mset (t_access (pdb s))))" (is "?P as s2")
proof -
  note L = LogEndpointAccess_Inr [OF assms(4)]
  have "wp (SearchEndpointAccesses E n e) ?P (\<lambda>_ _. True) s1"
    by (rule wp_SearchEndpointAccesses [OF assms(1-3)]) (use L in \<open>auto simp: accessMatches_def logged_def\<close>)
  from wp_result(1) [OF this assms(5)] show ?thesis .
qed

lemma LogEndpointAccess_found_witness:
  "\<exists>as. mset as = {# \<lparr>ea_Name = ''x0'', ea_Endpoint = ''bootscript'', ea_LastEpoch = 1000\<rparr>,
                     \<lparr>ea_Name = ''x0'', ea_Endpoint = ''bootscript'', ea_LastEpoch = 7\<rparr> #} \<and>
     fst (SearchEndpointAccesses logEnv ''x0'' ''bootscript'' (snd (LogEndpointAccess logEnv ''x0'' ''bootscript'' logSt))) = Inr as"
proof -
  let ?l = "LogEndpointAccess logEnv ''x0'' ''bootscript'' logSt"
  let ?r = "SearchEndpointAccesses logEnv ''x0'' ''bootscript'' (snd ?l)"
  let ?as = "[\<lparr>ea_Name = ''x0'', ea_Endpoint = ''bootscript'', ea_LastEpoch = 1000\<rparr>,
              \<lparr>ea_Name = ''x0'', ea_Endpoint = ''bootscript'', ea_LastEpoch = 7\<rparr>]"
  have l: "?l = (Inr (), snd ?l)" and r: "?r = (Inr ?as, snd ?r)" by code_simp+
  have "add_mset \<lparr>ea_Name = ''x0'', ea_Endpoint = ''bootscript'', ea_LastEpoch = unix_now logEnv (tick logSt)\<rparr>
     (filter_mset (\<lambda>a. ea_Name a = ''x0'' \<and> ea_Endpoint a = ''bootscript'') (mset (t_access (pdb logSt)))) =
     {# \<lparr>ea_Name = ''x0'', ea_Endpoint = ''bootscript'', ea_LastEpoch = 1000\<rparr>,
        \<lparr>ea_Name = ''x0'', ea_Endpoint = ''bootscript'', ea_LastEpoch = 7\<rparr> #}"
    by code_simp
  note trans [OF LogEndpointAccess_found [OF logEnv_ok(1,3,4) l r] this]
  moreover note arg_cong [OF r, of fst, unfolded fst_conv]
  ultimately show ?thesis by blast
qed

text \<open>C34. When no statement fails, logging fails exactly for an empty name or endpoint and when the
  time in seconds does not fit into 32 bits, which is the case from January 2038 on.\<close>

theorem LogEndpointAccess_fails_iff:
  assumes "no_faults E"
  shows "isl (fst (LogEndpointAccess E n e s)) \<longleftrightarrow>
     n = [] \<or> e = [] \<or> unix_now E (tick s) < - (2 ^ 31) \<or> 2 ^ 31 \<le> unix_now E (tick s)"
  using LogEndpointAccess_ok [OF assms, of n e s] by (auto simp: fits32_def)

lemma LogEndpointAccess_fails_iff_witness:
  "isl (fst (LogEndpointAccess (logEnv\<lparr>unix_now := \<lambda>_. 2147483648\<rparr>) ''x0'' ''bootscript'' logSt))"
proof -
  have "no_faults (logEnv\<lparr>unix_now := \<lambda>_. 2147483648\<rparr>)" by (simp add: no_faults_def logEnv_def)
  from LogEndpointAccess_fails_iff [OF this] show ?thesis by simp
qed

end
