(* ===== verification/ParamStore.thy ===== *)
theory ParamStore
  imports BssTypes
begin

text \<open>
  What the service relies on in a store of boot parameters, whichever of the two it is configured with: hosts are
  given boot parameters (PUT) and lose them (DELETE), and a lookup sees the last change of each host. The contract
  is the locale \<open>param_store\<close>; the stores are the interpretations of it in PgParams and
  KvParams. The kernel parameters of a host are what the contract looks at: a set of at
  most one text for a host of a well-formed store.
\<close>

type_synonym bootVals = "string \<times> string \<times> string"

text \<open>A request for hosts, with a kernel, an initrd and kernel parameters.\<close>

definition hostRequest :: "string list \<Rightarrow> bootVals \<Rightarrow> BootParams" where
  "hostRequest hosts v =
     noBootParams\<lparr>Hosts := hosts, Kernel := fst v, Initrd := fst (snd v), Params := snd (snd v)\<rparr>"

lemma hostRequest_simps [simp]:
  "Hosts (hostRequest hs v) = hs" "Kernel (hostRequest hs v) = fst v" "Initrd (hostRequest hs v) = fst (snd v)"
  "Params (hostRequest hs v) = snd (snd v)" "Macs (hostRequest hs v) = []" "Nids (hostRequest hs v) = []"
  "bpCloudInit (hostRequest hs v) = bpCloudInit noBootParams"
  by (simp_all add: hostRequest_def noBootParams_def)

datatype change = Put "string list" bootVals | Del "string list"

fun hostsOf :: "change \<Rightarrow> string list" where
  "hostsOf (Put hs v) = hs"
| "hostsOf (Del hs) = hs"

text \<open>The abstract store: the effect of changes on the parameters of every host.\<close>

fun changed :: "change \<Rightarrow> (string \<Rightarrow> string set) \<Rightarrow> string \<Rightarrow> string set" where
  "changed (Put hs v) f = (\<lambda>h. if h \<in> set hs then {snd (snd v)} else f h)"
| "changed (Del hs) f = (\<lambda>h. if h \<in> set hs then {} else f h)"

text \<open>A store runs changes one after the other and stops at one that fails.\<close>

fun runChange :: "(string list \<Rightarrow> bootVals \<Rightarrow> 's \<Rightarrow> 's option) \<Rightarrow> (string list \<Rightarrow> 's \<Rightarrow> 's option) \<Rightarrow> change \<Rightarrow> 's \<Rightarrow> 's option" where
  "runChange put del (Put hs v) s = put hs v s"
| "runChange put del (Del hs) s = del hs s"

fun runChanges :: "(string list \<Rightarrow> bootVals \<Rightarrow> 's \<Rightarrow> 's option) \<Rightarrow> (string list \<Rightarrow> 's \<Rightarrow> 's option) \<Rightarrow> change list \<Rightarrow> 's \<Rightarrow> 's option" where
  "runChanges put del [] s = Some s"
| "runChanges put del (c # cs) s = Option.bind (runChange put del c s) (runChanges put del cs)"

lemma changed_frame: "h \<notin> set (hostsOf c) \<Longrightarrow> changed c f h = f h"
  by (cases c) simp_all

lemma fold_changed_frame: "\<forall>c\<in>set cs. h \<notin> set (hostsOf c) \<Longrightarrow> fold changed cs f h = f h"
  by (induction cs arbitrary: f) (simp_all add: changed_frame)

locale param_store =
  fixes inv :: "'s \<Rightarrow> bool"
    and params :: "'s \<Rightarrow> string \<Rightarrow> string set"
    and legal :: "change \<Rightarrow> bool"
    and put :: "string list \<Rightarrow> bootVals \<Rightarrow> 's \<Rightarrow> 's option"
    and del :: "string list \<Rightarrow> 's \<Rightarrow> 's option"
  assumes put_inv: "inv s \<Longrightarrow> legal (Put hs v) \<Longrightarrow> put hs v s = Some s' \<Longrightarrow> inv s'"
    and put_params: "inv s \<Longrightarrow> legal (Put hs v) \<Longrightarrow> put hs v s = Some s' \<Longrightarrow> params s' = changed (Put hs v) (params s)"
    and del_inv: "inv s \<Longrightarrow> legal (Del hs) \<Longrightarrow> del hs s = Some s' \<Longrightarrow> inv s'"
    and del_params: "inv s \<Longrightarrow> legal (Del hs) \<Longrightarrow> del hs s = Some s' \<Longrightarrow> params s' = changed (Del hs) (params s)"
begin

lemma runChange_inv: "inv s \<Longrightarrow> legal c \<Longrightarrow> runChange put del c s = Some s' \<Longrightarrow> inv s'"
proof (cases c)
  case (Put hs v)
  assume "inv s" "legal c" "runChange put del c s = Some s'"
  then show ?thesis unfolding Put runChange.simps by (rule put_inv)
next
  case (Del hs)
  assume "inv s" "legal c" "runChange put del c s = Some s'"
  then show ?thesis unfolding Del runChange.simps by (rule del_inv)
qed

lemma runChange_params:
  "inv s \<Longrightarrow> legal c \<Longrightarrow> runChange put del c s = Some s' \<Longrightarrow> params s' = changed c (params s)"
proof (cases c)
  case (Put hs v)
  assume "inv s" "legal c" "runChange put del c s = Some s'"
  then show ?thesis unfolding Put runChange.simps by (rule put_params)
next
  case (Del hs)
  assume "inv s" "legal c" "runChange put del c s = Some s'"
  then show ?thesis unfolding Del runChange.simps by (rule del_params)
qed

text \<open>The store refines the abstract one.\<close>

lemma runChanges_params:
  assumes "inv s" and "\<forall>c\<in>set cs. legal c" and "runChanges put del cs s = Some s'"
  shows "inv s' \<and> params s' = fold changed cs (params s)"
  using assms
proof (induction cs arbitrary: s)
  case (Cons c cs)
  from Cons.prems(3) obtain t where t: "runChange put del c s = Some t" "runChanges put del cs t = Some s'"
    by (auto simp: Option.bind_eq_Some_conv)
  have "inv t" "params t = changed c (params s)"
    using runChange_inv [OF Cons.prems(1) _ t(1)] runChange_params [OF Cons.prems(1) _ t(1)] Cons.prems(2) by simp_all
  with Cons.IH [OF _ _ t(2)] Cons.prems(2) show ?case by simp
qed simp

text \<open>The last change that names a host decides.\<close>

lemma last_change:
  assumes "inv s" and "\<forall>c\<in>set (cs @ c # ds). legal c" and "runChanges put del (cs @ c # ds) s = Some s'"
    and "h \<in> set (hostsOf c)" and "\<forall>d\<in>set ds. h \<notin> set (hostsOf d)"
  shows "params s' h = (case c of Put hs v \<Rightarrow> {snd (snd v)} | Del hs \<Rightarrow> {})"
proof -
  have "params s' h = changed c (fold changed cs (params s)) h"
    using runChanges_params [OF assms(1-3)] fold_changed_frame [OF assms(5)] by simp
  with assms(4) show ?thesis by (cases c) simp_all
qed

end

end
