(* ===== verification/PgParams.thy ===== *)
theory PgParams
  imports PgSet ParamStore
begin

text \<open>
  The Postgres database keeps the contract of a store of boot parameters: \<open>Set\<close> is PUT and \<open>Delete\<close>
  is DELETE for hosts, on a database whose nodes are known by their xnames and all have boot parameters. The
  names are xnames of nodes, and a PUT has a kernel, an initrd and parameters, since a value
  that is not given leaves the stored one. These values are valid UTF-8, as all that come from a decoded request and all that
  a database with that encoding accepts.
\<close>

definition pgParams :: "pgst \<Rightarrow> string \<Rightarrow> string set" where
  "pgParams s h = {p. \<exists>m n k i. ((m, h, n), (k, i, p)) \<in># bootView (pdb s)}"

definition hostsOnly :: "pg_db \<Rightarrow> bool" where
  "hostsOnly d \<longleftrightarrow> (\<forall>n\<in>set (t_nodes d). n_BootMac n = [] \<and> n_Nid n = 0 \<and> n_Xname n \<noteq> [] \<and> quote_free (n_Xname n) \<and>
     (\<exists>v. (nodeKey n, v) \<in># bootView d))"

definition pgInv :: "pg_env \<Rightarrow> pgst \<Rightarrow> bool" where
  "pgInv E s \<longleftrightarrow> env_ok E \<and> wf E s \<and> hostsOnly (pdb s)"

definition pgName :: "pg_env \<Rightarrow> string \<Rightarrow> bool" where
  "pgName E h \<longleftrightarrow> h \<noteq> [] \<and> quote_free h \<and> isNodeXname E h"

definition pgLegal :: "pg_env \<Rightarrow> change \<Rightarrow> bool" where
  "pgLegal E c \<longleftrightarrow> hostsOf c \<noteq> [] \<and> list_all (pgName E) (hostsOf c) \<and>
     (case c of Put _ (k, i, p) \<Rightarrow> list_all (\<lambda>t. t \<noteq> [] \<and> quote_free t \<and> utf8_ok t) [k, i, p] | Del _ \<Rightarrow> True)"

definition pgPut :: "pg_env \<Rightarrow> string list \<Rightarrow> bootVals \<Rightarrow> pgst \<Rightarrow> pgst option" where
  "pgPut E hs v s = (case Set E (hostRequest hs v) s of (Inr _, s') \<Rightarrow> Some s' | _ \<Rightarrow> None)"

definition pgDel :: "pg_env \<Rightarrow> string list \<Rightarrow> pgst \<Rightarrow> pgst option" where
  "pgDel E hs s = (case Delete E (hostRequest hs ([], [], [])) s of (Inr _, s') \<Rightarrow> Some s' | _ \<Rightarrow> None)"

subsection \<open>The keys of such a database\<close>

lemma quote_free_Nil [simp]: "quote_free []"
  by (simp add: quote_free_def)

lemma view_node: "(key, v) \<in># bootView d \<Longrightarrow> \<exists>n\<in>set (t_nodes d). key = nodeKey n"
  by (auto simp: bootView_def joinNodes_set)

lemma hostsOnly_key:
  "hostsOnly d \<Longrightarrow> n \<in> set (t_nodes d) \<Longrightarrow> nodeKey n = ([], n_Xname n, 0)"
  by (simp add: hostsOnly_def nodeKey_def)

lemma hostsOnly_view:
  assumes "hostsOnly d" and "((m, h, n), v) \<in># bootView d"
  shows "m = [] \<and> n = 0 \<and> h \<in> n_Xname ` set (t_nodes d)"
  using view_node [OF assms(2)] hostsOnly_key [OF assms(1)] by fastforce

lemma hostsOnly_covered:
  assumes "hostsOnly d" and "h \<in> n_Xname ` set (t_nodes d)"
  shows "\<exists>v. (([], h, 0), v) \<in># bootView d"
  using assms hostsOnly_key [OF assms(1)] unfolding hostsOnly_def by (metis imageE)

subsection \<open>PUT\<close>

lemma missing_hosts:
  "missingNodes (setAdds (hostRequest hs v) d) d = map (\<lambda>x. ([], x, 0)) (filter (\<lambda>x. x \<notin> n_Xname ` set (t_nodes d)) hs)"
  by (auto simp: missingNodes_def setAdds_def newVals_def noBootParams_def)

lemma image_update_iff:
  "(key, w) \<in># image_mset (\<lambda>(k, w). (k, if S k then v else w)) M \<longleftrightarrow>
     (if S key then w = v \<and> (\<exists>w'. (key, w') \<in># M) else (key, w) \<in># M)"
proof -
  have "(key, w) \<in># image_mset (\<lambda>(k, w). (k, if S k then v else w)) M \<longleftrightarrow>
      (\<exists>w'. (key, w') \<in># M \<and> w = (if S key then v else w'))"
    by (auto simp: set_image_mset image_def intro!: bexI)
  then show ?thesis by auto
qed

lemma setSelects_hosts:
  assumes "hostsOnly d" and "hs \<noteq> []" and "h \<in> n_Xname ` set (t_nodes d)"
  shows "setSelects (hostRequest hs v) d ([], h, 0) \<longleftrightarrow> h \<in> set hs"
proof -
  let ?ex = "filter (\<lambda>n. n_Xname n \<in> set hs) (t_nodes d)"
  have ex: "wantedNodes [] hs [] d = ?ex"
    using assms(2) by (auto simp: wantedNodes_def nodeMatches_key keyMatches_def nodeKey_def intro!: filter_cong)
  have u: "Macs (setUpds b ?ex) = []" "Nids (setUpds b ?ex) = []" "Hosts (setUpds b ?ex) = map n_Xname ?ex" for b
    using assms(1) by (auto simp: setUpds_def newVals_def noBootParams_def hostsOnly_def filter_empty_conv intro!: map_cong filter_cong)
  show ?thesis
    using assms(3) by (auto simp: setSelects_def ex selected_def keyMatches_def u Let_def filter_empty_conv)
qed

lemma mergeVals_full:
  assumes "pgLegal E (Put hs v)"
  shows "mergeVals (hostRequest hs v) w = v"
  using assms by (cases v) (simp add: pgLegal_def mergeVals_def)

lemma pgPut_result:
  assumes i: "pgInv E s" and l: "pgLegal E (Put hs v)" and p: "pgPut E hs v s = Some s'"
  shows "pgInv E s' \<and> pgParams s' = changed (Put hs v) (pgParams s)"
proof -
  let ?d = "pdb s" and ?d' = "pdb s'" and ?new = "filter (\<lambda>x. x \<notin> n_Xname ` set (t_nodes (pdb s))) hs"
  have E: "env_ok E" "wf E s" "hostsOnly ?d" using i by (simp_all add: pgInv_def)
  have hs: "hs \<noteq> []" "\<And>h. h \<in> set hs \<Longrightarrow> pgName E h" using l by (auto simp: pgLegal_def list_all_iff)
  have r: "nodeRequest E (hostRequest hs v)"
    using l by (cases v) (auto simp: nodeRequest_def bp_clean_def pgLegal_def pgName_def list_all_iff)
  have c: "storedClean ?d" using E(3) by (auto simp: storedClean_def hostsOnly_def)
  obtain u where "Set E (hostRequest hs v) s = (Inr u, s')"
    using p by (auto simp: pgPut_def split: prod.splits sum.splits)
  from wp_result(1) [OF Set_wp [OF E(1,2) r c] this]
  have w: "wf E s'" and g: "grownBy ?d (map (\<lambda>x. ([], x, 0)) ?new) ?d'" and
    b: "bootView ?d' = image_mset (\<lambda>(k, w). (k, if setSelects (hostRequest hs v) ?d k then v else w)) (bootView ?d) +
      mset (map (\<lambda>k. (k, v)) (map (\<lambda>x. ([], x, 0)) ?new))"
    by (simp_all add: missing_hosts mergeVals_full [OF l] cong: if_cong)
  have mem: "(key, w) \<in># bootView ?d' \<longleftrightarrow>
      (if setSelects (hostRequest hs v) ?d key then w = v \<and> (\<exists>w'. (key, w') \<in># bootView ?d) else (key, w) \<in># bootView ?d) \<or>
      (\<exists>x\<in>set ?new. key = ([], x, 0) \<and> w = v)" for key w
    unfolding b union_iff image_update_iff by auto
  have old: "(([], h, 0), w) \<in># bootView ?d' \<longleftrightarrow>
      (if h \<in> set hs then w = v else (([], h, 0), w) \<in># bootView ?d)" for h w
  proof (cases "h \<in> n_Xname ` set (t_nodes ?d)")
    case True
    then have "\<exists>w'. (([], h, 0), w') \<in># bootView ?d" by (rule hostsOnly_covered [OF E(3)])
    with True show ?thesis unfolding mem setSelects_hosts [OF E(3) hs(1) True] by auto
  next
    case False
    then have "(([], h, 0), w') \<notin># bootView ?d" for w' using hostsOnly_view [OF E(3)] by blast
    with False show ?thesis unfolding mem by auto
  qed
  have key: "((m, h, n), w) \<in># bootView ?d' \<Longrightarrow> m = [] \<and> n = 0" for m h n w
    using hostsOnly_view [OF E(3)] unfolding mem by (cases w) (auto split: if_splits)
  have eq: "pgParams s' h = changed (Put hs v) (pgParams s) h" for h
  proof -
    have "pgParams t h = {p. \<exists>k i. (([], h, 0), (k, i, p)) \<in># bootView (pdb t)}" if "t = s \<or> t = s'" for t
      using that key hostsOnly_view [OF E(3)] unfolding pgParams_def by blast
    with old show ?thesis by (cases v) auto
  qed
  obtain ns where ns: "map nodeKey ns = map (\<lambda>x. ([], x, 0)) ?new" "t_nodes ?d' = t_nodes ?d @ ns"
    using g unfolding grownBy_def by blast
  have "hostsOnly ?d'"
    unfolding hostsOnly_def
  proof
    fix n assume n: "n \<in> set (t_nodes ?d')"
    have k: "\<exists>x. nodeKey n = ([], x, 0) \<and> x \<noteq> [] \<and> quote_free x"
    proof (cases "n \<in> set (t_nodes ?d)")
      case True
      with E(3) hostsOnly_key show ?thesis unfolding hostsOnly_def by blast
    next
      case False
      then have "nodeKey n \<in> set (map nodeKey ns)" using n ns(2) by simp
      then show ?thesis using hs(2) unfolding ns(1) by (auto simp: pgName_def)
    qed
    then obtain x where x: "nodeKey n = ([], x, 0)" "x \<noteq> []" "quote_free x" by blast
    have "\<exists>w. (([], x, 0), w) \<in># bootView ?d'"
    proof (cases "x \<in> set hs")
      case True
      then show ?thesis using old by metis
    next
      case False
      have "n \<in> set (t_nodes ?d)"
      proof (rule ccontr)
        assume "n \<notin> set (t_nodes ?d)"
        then have "nodeKey n \<in> set (map nodeKey ns)" using n ns(2) by simp
        with False x(1) show False unfolding ns(1) by auto
      qed
      then have "\<exists>w. (nodeKey n, w) \<in># bootView ?d" using E(3) by (simp add: hostsOnly_def)
      with False old x(1) show ?thesis by auto
    qed
    with x show "n_BootMac n = [] \<and> n_Nid n = 0 \<and> n_Xname n \<noteq> [] \<and> quote_free (n_Xname n) \<and> (\<exists>v. (nodeKey n, v) \<in># bootView ?d')"
      by (auto simp: nodeKey_def)
  qed
  with E(1) w eq show ?thesis by (auto simp: pgInv_def simp del: changed.simps)
qed

subsection \<open>DELETE\<close>

lemma pgDel_result:
  assumes i: "pgInv E s" and l: "pgLegal E (Del hs)" and p: "pgDel E hs s = Some s'"
  shows "pgInv E s' \<and> pgParams s' = changed (Del hs) (pgParams s)"
proof -
  let ?bp = "hostRequest hs ([], [], [])"
  have E: "env_ok E" "wf E s" "hostsOnly (pdb s)" using i by (simp_all add: pgInv_def)
  have r: "nodeRequest E ?bp" "namesNodes ?bp"
    using l by (auto simp: nodeRequest_def bp_clean_def pgLegal_def pgName_def namesNodes_def list_all_iff)
  have nm: "named ?bp (m, h, n) \<longleftrightarrow> h \<in> set hs" for m h n
    using l by (simp add: named_def keyMatches_def pgLegal_def)
  obtain u where "Delete E ?bp s = (Inr u, s')"
    using p by (auto simp: pgDel_def split: prod.splits sum.splits)
  from wp_result(1) [OF Delete_wp [OF E(1,2) r] this]
  have w: "wf E s'" and n: "t_nodes (pdb s') = filter (\<lambda>n. \<not> named ?bp (nodeKey n)) (t_nodes (pdb s))"
    and b: "bootView (pdb s') = filter_mset (\<lambda>(k, v). \<not> named ?bp k) (bootView (pdb s))"
    by (auto simp: withoutNodes_fields split: prod.splits)
  have "pgParams s' h = changed (Del hs) (pgParams s) h" for h
    by (auto simp: pgParams_def b nm)
  moreover have "hostsOnly (pdb s')"
    using E(3) unfolding hostsOnly_def n b by auto
  ultimately show ?thesis using E(1) w by (auto simp: pgInv_def simp del: changed.simps)
qed

interpretation postgres: param_store "pgInv E" pgParams "pgLegal E" "pgPut E" "pgDel E" for E :: pg_env
proof (unfold_locales, goal_cases)
  case (1 s hs v s')
  then show ?case using pgPut_result [of E s hs v s'] by simp
next
  case (2 s hs v s')
  then show ?case using pgPut_result [of E s hs v s'] by (simp del: changed.simps)
next
  case (3 s hs s')
  then show ?case using pgDel_result [of E s hs s'] by simp
next
  case (4 s hs s')
  then show ?case using pgDel_result [of E s hs s'] by (simp del: changed.simps)
qed

text \<open>Without faults a PUT always succeeds, and a DELETE does if it names a host that has parameters.\<close>

lemma pgPut_possible:
  assumes i: "pgInv E s" and l: "pgLegal E (Put hs v)" and nf: "no_faults E"
  shows "pgPut E hs v s \<noteq> None"
proof
  let ?d = "pdb s" and ?bp = "hostRequest hs v"
  assume p: "pgPut E hs v s = None"
  have E: "env_ok E" "wf E s" "hostsOnly ?d" using i by (simp_all add: pgInv_def)
  have hs: "hs \<noteq> []" and vals: "Kernel ?bp \<noteq> []" "Params ?bp \<noteq> []" using l by (cases v; simp add: pgLegal_def)+
  have r: "nodeRequest E ?bp"
    using l by (cases v) (auto simp: nodeRequest_def bp_clean_def pgLegal_def pgName_def list_all_iff)
  have c: "storedClean ?d" using E(3) by (auto simp: storedClean_def hostsOnly_def)
  obtain e s' where "Set E ?bp s = (Inl e, s')"
    using p by (auto simp: pgPut_def split: prod.splits sum.splits)
  from wp_result(2) [OF Set_wp [OF E(1,2) r c] this] nf vals
  have none: "\<forall>x\<in>#bootView ?d. \<not> setSelects ?bp ?d (fst x)" and w: "wantedNodes [] hs [] ?d \<noteq> []"
    by (auto simp: blankConfig_def)
  obtain n where n: "n \<in> set (t_nodes ?d)" "n_Xname n \<in> set hs"
    using w hs by (auto simp: wantedNodes_def nodeMatches_key keyMatches_def nodeKey_def filter_empty_conv)
  then obtain w' where "(([], n_Xname n, 0), w') \<in># bootView ?d" using hostsOnly_covered [OF E(3)] by blast
  with none have "\<not> setSelects ?bp ?d ([], n_Xname n, 0)" by (metis fst_conv)
  with setSelects_hosts [OF E(3) hs, of "n_Xname n" v] n show False by simp
qed

lemma pgDel_possible:
  assumes i: "pgInv E s" and l: "pgLegal E (Del hs)" and nf: "no_faults E" and h: "h \<in> set hs" "pgParams s h \<noteq> {}"
  shows "pgDel E hs s \<noteq> None"
proof
  let ?bp = "hostRequest hs ([], [], [])"
  assume p: "pgDel E hs s = None"
  have E: "env_ok E" "wf E s" using i by (simp_all add: pgInv_def)
  have r: "nodeRequest E ?bp" "namesNodes ?bp"
    using l by (auto simp: nodeRequest_def bp_clean_def pgLegal_def pgName_def namesNodes_def list_all_iff)
  obtain e s' where "Delete E ?bp s = (Inl e, s')"
    using p by (auto simp: pgDel_def split: prod.splits sum.splits)
  from wp_result(2) [OF Delete_wp [OF E r] this] nf have none: "namedNodes ?bp (pdb s) = []" by blast
  obtain m n v where "((m, h, n), v) \<in># bootView (pdb s)" using h(2) by (auto simp: pgParams_def)
  then obtain nd where "nd \<in> set (t_nodes (pdb s))" "nodeKey nd = (m, h, n)" using view_node by metis
  moreover have "named ?bp (m, h, n)" using h(1) by (auto simp: named_def keyMatches_def)
  ultimately show False using none by (force simp: namedNodes_def filter_empty_conv)
qed

end
