(* ===== verification/Codec.thy ===== *)
theory Codec
  imports BssTypes
begin

text \<open>
  How the service stores and transmits its data: the stored forms of boot data and images
  (cmd/boot-script-service/boot_data.go) and the request type of pkg/bssTypes, as encoding/json
  writes and reads them by their field tags. A decoder starts from a value and returns it with
  what could be read and whether all of it had the right type, since Go goes on after a type
  error. An object decoded into a map keeps its keys in order, as Go prints them.
\<close>

record BootDataStore =
  ds_Params :: string
  ds_Kernel :: string
  ds_Initrd :: string
  ds_CloudInit :: CloudInit
  ds_ReferralToken :: string

record ImageData =
  im_Path :: string
  im_Params :: string

record BootData =
  bd_Params :: string
  bd_Kernel :: ImageData
  bd_Initrd :: ImageData
  bd_CloudInit :: CloudInit
  bd_ReferralToken :: string

definition noBootDataStore :: BootDataStore where
  "noBootDataStore = \<lparr>ds_Params = [], ds_Kernel = [], ds_Initrd = [], ds_CloudInit = noCloudInit, ds_ReferralToken = []\<rparr>"

definition noImage :: ImageData where
  "noImage = \<lparr>im_Path = [], im_Params = []\<rparr>"

definition noBootData :: BootData where
  "noBootData = \<lparr>bd_Params = [], bd_Kernel = noImage, bd_Initrd = noImage, bd_CloudInit = noCloudInit, bd_ReferralToken = []\<rparr>"

subsection \<open>Values of Go's interface type\<close>

fun putKey :: "string \<Rightarrow> 'a \<Rightarrow> (string \<times> 'a) list \<Rightarrow> (string \<times> 'a) list" where
  "putKey k v [] = [(k, v)]"
| "putKey k v ((k', v') # m) =
     (if k = k' then (k, v) # m else if k < k' then (k, v) # (k', v') # m else (k', v') # putKey k v m)"

fun iface :: "json \<Rightarrow> json"
  and ifaces :: "json list \<Rightarrow> json list"
  and imembers :: "(string \<times> json) list \<Rightarrow> (string \<times> json) list \<Rightarrow> (string \<times> json) list" where
  "iface (JArr xs) = JArr (ifaces xs)"
| "iface (JObj ms) = JObj (imembers [] ms)"
| "iface j = j"
| "ifaces [] = []"
| "ifaces (x # xs) = iface x # ifaces xs"
| "imembers acc [] = acc"
| "imembers acc ((k, v) # ms) = imembers (putKey k (iface v) acc) ms"

subsection \<open>Decoding structs\<close>

type_synonym 'a dec = "json \<Rightarrow> 'a \<Rightarrow> 'a \<times> bool"

definition decStr :: "string dec" where
  "decStr j cur = (case j of JStr s \<Rightarrow> (s, True) | JNull \<Rightarrow> (cur, True) | _ \<Rightarrow> (cur, False))"

definition int_literal :: "string \<Rightarrow> int option" where
  "int_literal t =
     (let neg = hasPrefix t ''-''; ds = (if neg then tl t else t) in
      if ds \<noteq> [] \<and> list_all is_digit ds
      then Some (if neg then - int (str_nat ds) else int (str_nat ds)) else None)"

definition decInt32 :: "int32 dec" where
  "decInt32 j cur =
     (case j of
        JNum t \<Rightarrow> (case int_literal t of
                     Some i \<Rightarrow> if - (2 ^ 31) \<le> i \<and> i < 2 ^ 31 then (word_of_int i, True) else (cur, False)
                   | None \<Rightarrow> (cur, False))
      | JNull \<Rightarrow> (cur, True) | _ \<Rightarrow> (cur, False))"

definition decList :: "'a dec \<Rightarrow> 'a \<Rightarrow> 'a list dec" where
  "decList d z j cur =
     (case j of JArr xs \<Rightarrow> (map (\<lambda>x. fst (d x z)) xs, list_all (\<lambda>x. snd (d x z)) xs)
              | JNull \<Rightarrow> ([], True) | _ \<Rightarrow> (cur, False))"

definition decMap :: "CloudDataType dec" where
  "decMap j cur =
     (case j of JObj ms \<Rightarrow> (Some (imembers (case cur of None \<Rightarrow> [] | Some m \<Rightarrow> m) ms), True)
              | JNull \<Rightarrow> (None, True) | _ \<Rightarrow> (cur, False))"

text \<open>A key selects the field with its name, or else one whose name differs in case only.\<close>

definition fieldFor :: "(string \<times> 'f) list \<Rightarrow> string \<Rightarrow> 'f option" where
  "fieldFor fs k =
     (case map_of fs k of
        Some f \<Rightarrow> Some f
      | None \<Rightarrow> (case filter (\<lambda>(n, f). equalFold n k) fs of [] \<Rightarrow> None | (n, f) # _ \<Rightarrow> Some f))"

fun decFields :: "(string \<times> 'a dec) list \<Rightarrow> (string \<times> json) list \<Rightarrow> 'a \<Rightarrow> 'a \<times> bool" where
  "decFields fs [] x = (x, True)"
| "decFields fs ((k, v) # ms) x =
     (case fieldFor fs k of
        None \<Rightarrow> decFields fs ms x
      | Some d \<Rightarrow> (case d v x of (x', ok) \<Rightarrow> (case decFields fs ms x' of (y, ok') \<Rightarrow> (y, ok \<and> ok'))))"

definition decStruct :: "(string \<times> 'a dec) list \<Rightarrow> 'a dec" where
  "decStruct fs j x = (case j of JObj ms \<Rightarrow> decFields fs ms x | JNull \<Rightarrow> (x, True) | _ \<Rightarrow> (x, False))"

text \<open>A field of a struct: its decoder applied to the component, the result put back.\<close>

definition field :: "'f dec \<Rightarrow> ('a \<Rightarrow> 'f) \<Rightarrow> ('f \<Rightarrow> 'a \<Rightarrow> 'a) \<Rightarrow> 'a dec" where
  "field d get put j x = (case d j (get x) of (y, ok) \<Rightarrow> (put y x, ok))"

definition decPhoneHome :: "PhoneHome dec" where
  "decPhoneHome = decStruct
     [(''pub_key_dsa'', field decStr PublicKeyDSA (\<lambda>v p. p\<lparr>PublicKeyDSA := v\<rparr>)),
      (''pub_key_rsa'', field decStr PublicKeyRSA (\<lambda>v p. p\<lparr>PublicKeyRSA := v\<rparr>)),
      (''pub_key_ecdsa'', field decStr PublicKeyECDSA (\<lambda>v p. p\<lparr>PublicKeyECDSA := v\<rparr>)),
      (''pub_key_ed25519'', field decStr PublicKeyED25519 (\<lambda>v p. p\<lparr>PublicKeyED25519 := v\<rparr>)),
      (''instance_id'', field decStr InstanceID (\<lambda>v p. p\<lparr>InstanceID := v\<rparr>)),
      (''hostname'', field decStr Hostname (\<lambda>v p. p\<lparr>Hostname := v\<rparr>)),
      (''fqdn'', field decStr FQDN (\<lambda>v p. p\<lparr>FQDN := v\<rparr>))]"

definition decCloudInit :: "CloudInit dec" where
  "decCloudInit = decStruct
     [(''meta-data'', field decMap MetaData (\<lambda>v c. c\<lparr>MetaData := v\<rparr>)),
      (''user-data'', field decMap UserData (\<lambda>v c. c\<lparr>UserData := v\<rparr>)),
      (''phone-home'', field decPhoneHome ciPhoneHome (\<lambda>v c. c\<lparr>ciPhoneHome := v\<rparr>))]"

definition decBootParams :: "BootParams dec" where
  "decBootParams = decStruct
     [(''hosts'', field (decList decStr []) Hosts (\<lambda>v b. b\<lparr>Hosts := v\<rparr>)),
      (''macs'', field (decList decStr []) Macs (\<lambda>v b. b\<lparr>Macs := v\<rparr>)),
      (''nids'', field (decList decInt32 0) Nids (\<lambda>v b. b\<lparr>Nids := v\<rparr>)),
      (''params'', field decStr Params (\<lambda>v b. b\<lparr>Params := v\<rparr>)),
      (''kernel'', field decStr Kernel (\<lambda>v b. b\<lparr>Kernel := v\<rparr>)),
      (''initrd'', field decStr Initrd (\<lambda>v b. b\<lparr>Initrd := v\<rparr>)),
      (''cloud-init'', field decCloudInit bpCloudInit (\<lambda>v b. b\<lparr>bpCloudInit := v\<rparr>))]"

definition decBootDataStore :: "BootDataStore dec" where
  "decBootDataStore = decStruct
     [(''params'', field decStr ds_Params (\<lambda>v b. b\<lparr>ds_Params := v\<rparr>)),
      (''kernel'', field decStr ds_Kernel (\<lambda>v b. b\<lparr>ds_Kernel := v\<rparr>)),
      (''initrd'', field decStr ds_Initrd (\<lambda>v b. b\<lparr>ds_Initrd := v\<rparr>)),
      (''cloud-init'', field decCloudInit ds_CloudInit (\<lambda>v b. b\<lparr>ds_CloudInit := v\<rparr>)),
      (''referral-token'', field decStr ds_ReferralToken (\<lambda>v b. b\<lparr>ds_ReferralToken := v\<rparr>))]"

definition decImageData :: "ImageData dec" where
  "decImageData = decStruct
     [(''path'', field decStr im_Path (\<lambda>v i. i\<lparr>im_Path := v\<rparr>)),
      (''params'', field decStr im_Params (\<lambda>v i. i\<lparr>im_Params := v\<rparr>))]"

text \<open>\<open>json.Unmarshal\<close> into a zero value: nothing is decoded from a text that is not JSON.\<close>

definition unmarshal :: "'a dec \<Rightarrow> 'a \<Rightarrow> string \<Rightarrow> 'a \<times> bool" where
  "unmarshal d z s = (case json_parse s of None \<Rightarrow> (z, False) | Some j \<Rightarrow> d j z)"

subsection \<open>Encoding\<close>

definition omitStr :: "string \<Rightarrow> string \<Rightarrow> (string \<times> json) list" where
  "omitStr k s = (if s = [] then [] else [(k, JStr s)])"

definition omitList :: "string \<Rightarrow> json list \<Rightarrow> (string \<times> json) list" where
  "omitList k xs = (if xs = [] then [] else [(k, JArr xs)])"

definition mapJson :: "CloudDataType \<Rightarrow> json" where
  "mapJson m = (case m of None \<Rightarrow> JNull | Some ms \<Rightarrow> JObj ms)"

definition phoneHomeJson :: "PhoneHome \<Rightarrow> json" where
  "phoneHomeJson p = JObj
     ([(''pub_key_dsa'', JStr (PublicKeyDSA p)), (''pub_key_rsa'', JStr (PublicKeyRSA p)),
       (''pub_key_ecdsa'', JStr (PublicKeyECDSA p))] @ omitStr ''pub_key_ed25519'' (PublicKeyED25519 p) @
      [(''instance_id'', JStr (InstanceID p)), (''hostname'', JStr (Hostname p)), (''fqdn'', JStr (FQDN p))])"

definition cloudInitJson :: "CloudInit \<Rightarrow> json" where
  "cloudInitJson c = JObj
     [(''meta-data'', mapJson (MetaData c)), (''user-data'', mapJson (UserData c)),
      (''phone-home'', phoneHomeJson (ciPhoneHome c))]"

definition bootParamsJson :: "BootParams \<Rightarrow> json" where
  "bootParamsJson b = JObj
     (omitList ''hosts'' (map JStr (Hosts b)) @ omitList ''macs'' (map JStr (Macs b)) @
      omitList ''nids'' (map (\<lambda>i. JNum (int_str (sint i))) (Nids b)) @
      omitStr ''params'' (Params b) @ omitStr ''kernel'' (Kernel b) @ omitStr ''initrd'' (Initrd b) @
      [(''cloud-init'', cloudInitJson (bpCloudInit b))])"

definition bootDataStoreJson :: "BootDataStore \<Rightarrow> json" where
  "bootDataStoreJson b = JObj
     (omitStr ''params'' (ds_Params b) @ omitStr ''kernel'' (ds_Kernel b) @ omitStr ''initrd'' (ds_Initrd b) @
      [(''cloud-init'', cloudInitJson (ds_CloudInit b))] @ omitStr ''referral-token'' (ds_ReferralToken b))"

definition imageDataJson :: "ImageData \<Rightarrow> json" where
  "imageDataJson i = JObj ((''path'', JStr (im_Path i)) # omitStr ''params'' (im_Params i))"

definition bootDataJson :: "BootData \<Rightarrow> json" where
  "bootDataJson b = JObj
     (omitStr ''params'' (bd_Params b) @
      [(''kernel'', imageDataJson (bd_Kernel b)), (''initrd'', imageDataJson (bd_Initrd b))])"

subsection \<open>Canonical values\<close>

text \<open>A value that decoding into an interface leaves as it is: the keys of every object ascend.\<close>

fun canon :: "json \<Rightarrow> bool"
  and canons :: "json list \<Rightarrow> bool"
  and cmembers :: "(string \<times> json) list \<Rightarrow> bool" where
  "canon (JArr xs) = canons xs"
| "canon (JObj ms) = (sorted_wrt (<) (map fst ms) \<and> cmembers ms)"
| "canon _ = True"
| "canons [] = True"
| "canons (x # xs) = (canon x \<and> canons xs)"
| "cmembers [] = True"
| "cmembers ((k, v) # ms) = (canon v \<and> cmembers ms)"

lemma putKey_last: "(\<And>k'. k' \<in> fst ` set m \<Longrightarrow> k' < k) \<Longrightarrow> putKey k v m = m @ [(k, v)]"
proof (induction m)
  case (Cons a m)
  obtain k' v' where a: "a = (k', v')" by (cases a)
  have "k' < k" using Cons.prems [of k'] by (simp add: a)
  then have "k \<noteq> k'" "\<not> k < k'" by auto
  with Cons show ?case by (simp add: a)
qed simp

lemma iface_canon:
  "canon j \<Longrightarrow> iface j = j"
  "canons xs \<Longrightarrow> ifaces xs = xs"
  "cmembers ms \<Longrightarrow> sorted_wrt (<) (map fst (acc @ ms)) \<Longrightarrow> imembers acc ms = acc @ ms"
proof (induction j and xs and acc ms rule: iface_ifaces_imembers.induct)
  case (7 acc k v ms)
  have "k' < k" if "k' \<in> fst ` set acc" for k'
    using 7(4) that by (auto simp: sorted_wrt_append)
  then have "putKey k v acc = acc @ [(k, v)]" by (rule putKey_last)
  with 7 show ?case by simp
qed simp_all

lemma fst_putKey: "fst ` set (putKey k v m) = insert k (fst ` set m)"
  by (induction m) (force split: if_splits)+

lemma putKey_sorted: "sorted_wrt (<) (map fst m) \<Longrightarrow> sorted_wrt (<) (map fst (putKey k v m))"
proof (induction m)
  case (Cons a m)
  obtain k' v' where a: "a = (k', v')" by (cases a)
  show ?case
  proof (cases "k = k' \<or> k < k'")
    case True
    with Cons show ?thesis by (auto simp: a intro: less_trans)
  next
    case False
    then have "k' < k" by auto
    moreover have "\<forall>x \<in> fst ` set (putKey k v m). k' < x"
      using Cons.prems \<open>k' < k\<close> unfolding fst_putKey by (auto simp: a)
    ultimately show ?thesis using Cons False by (auto simp: a)
  qed
qed simp

lemma putKey_members:
  "cmembers m \<Longrightarrow> canon v \<Longrightarrow> cmembers (putKey k v m)"
  "jmems_ok m \<Longrightarrow> utf8_ok k \<Longrightarrow> json_ok v \<Longrightarrow> jmems_ok (putKey k v m)"
  by (induction m) auto

lemma canon_iface:
  "canon (iface j)"
  "canons (ifaces xs)"
  "sorted_wrt (<) (map fst acc) \<Longrightarrow> cmembers acc \<Longrightarrow> sorted_wrt (<) (map fst (imembers acc ms)) \<and> cmembers (imembers acc ms)"
  by (induction j and xs and acc ms rule: iface_ifaces_imembers.induct)
    (simp_all add: putKey_sorted putKey_members)

lemma json_ok_iface:
  "json_ok j \<Longrightarrow> json_ok (iface j)"
  "jsons_ok xs \<Longrightarrow> jsons_ok (ifaces xs)"
  "jmems_ok acc \<Longrightarrow> jmems_ok ms \<Longrightarrow> jmems_ok (imembers acc ms)"
  by (induction j and xs and acc ms rule: iface_ifaces_imembers.induct) (simp_all add: putKey_members)

definition map_ok :: "CloudDataType \<Rightarrow> bool" where
  "map_ok m = (case m of None \<Rightarrow> True | Some ms \<Rightarrow> sorted_wrt (<) (map fst ms) \<and> cmembers ms \<and> jmems_ok ms)"

text \<open>Values whose texts are valid UTF-8; everything that has been decoded from JSON is of this kind.\<close>

definition phone_ok :: "PhoneHome \<Rightarrow> bool" where
  "phone_ok p \<longleftrightarrow> list_all utf8_ok [PublicKeyDSA p, PublicKeyRSA p, PublicKeyECDSA p, PublicKeyED25519 p,
     InstanceID p, Hostname p, FQDN p]"

definition cloud_ok :: "CloudInit \<Rightarrow> bool" where
  "cloud_ok c \<longleftrightarrow> map_ok (MetaData c) \<and> map_ok (UserData c) \<and> phone_ok (ciPhoneHome c)"

definition values_ok :: "BootParams \<Rightarrow> bool" where
  "values_ok b \<longleftrightarrow> list_all utf8_ok [Params b, Kernel b, Initrd b] \<and> cloud_ok (bpCloudInit b)"

definition request_ok :: "BootParams \<Rightarrow> bool" where
  "request_ok b \<longleftrightarrow> list_all utf8_ok (Hosts b) \<and> list_all utf8_ok (Macs b) \<and> values_ok b"

definition stored_ok :: "BootDataStore \<Rightarrow> bool" where
  "stored_ok b \<longleftrightarrow> list_all utf8_ok [ds_Params b, ds_Kernel b, ds_Initrd b, ds_ReferralToken b] \<and> cloud_ok (ds_CloudInit b)"

definition image_ok :: "ImageData \<Rightarrow> bool" where
  "image_ok i \<longleftrightarrow> list_all utf8_ok [im_Path i, im_Params i]"

lemma map_ok_None [simp]: "map_ok None"
  by (simp add: map_ok_def)

lemma phone_ok_none [simp]: "phone_ok noPhoneHome"
  by (simp add: phone_ok_def noPhoneHome_def)

lemma cloud_ok_none [simp]: "cloud_ok noCloudInit"
  by (simp add: cloud_ok_def noCloudInit_def)

subsection \<open>Round trips\<close>

lemma decMap_mapJson: "map_ok m \<Longrightarrow> decMap (mapJson m) None = (m, True)"
  using iface_canon(3) [of _ "[]"] by (auto simp: decMap_def mapJson_def map_ok_def split: option.splits)

lemma fieldFor_exact: "map_of fs k = Some f \<Longrightarrow> fieldFor fs k = Some f"
  by (simp add: fieldFor_def)

lemma decPhoneHome_json: "decPhoneHome (phoneHomeJson p) noPhoneHome = (p, True)"
  by (cases p) (simp add: decPhoneHome_def phoneHomeJson_def decStruct_def omitStr_def fieldFor_def field_def
      decStr_def noPhoneHome_def)

lemma decCloudInit_json: "cloud_ok c \<Longrightarrow> decCloudInit (cloudInitJson c) noCloudInit = (c, True)"
  by (cases c) (simp add: decCloudInit_def cloudInitJson_def decStruct_def fieldFor_def field_def
      decMap_mapJson decPhoneHome_json noCloudInit_def cloud_ok_def)

lemma decBootDataStore_json:
  "stored_ok b \<Longrightarrow> decBootDataStore (bootDataStoreJson b) noBootDataStore = (b, True)"
  by (cases b) (simp add: decBootDataStore_def bootDataStoreJson_def decStruct_def omitStr_def fieldFor_def field_def
      decStr_def decCloudInit_json noBootDataStore_def stored_ok_def)

lemma decImageData_json: "decImageData (imageDataJson i) noImage = (i, True)"
  by (cases i) (simp add: decImageData_def imageDataJson_def decStruct_def omitStr_def fieldFor_def field_def
      decStr_def noImage_def)

lemma jmems_ok_append [simp]: "jmems_ok (xs @ ys) \<longleftrightarrow> jmems_ok xs \<and> jmems_ok ys"
  by (induction xs) auto

lemma jmems_ok_omitStr [simp]: "utf8_ok k \<Longrightarrow> jmems_ok (omitStr k s) \<longleftrightarrow> utf8_ok s"
  by (simp add: omitStr_def)

lemma json_ok_mapJson [simp]: "map_ok m \<Longrightarrow> json_ok (mapJson m)"
  by (auto simp: map_ok_def mapJson_def split: option.splits)

lemma json_ok_phoneHome [simp]: "phone_ok p \<Longrightarrow> json_ok (phoneHomeJson p)"
  by (simp add: phoneHomeJson_def phone_ok_def)

lemma json_ok_cloudInit [simp]: "cloud_ok c \<Longrightarrow> json_ok (cloudInitJson c)"
  by (simp add: cloudInitJson_def cloud_ok_def)

lemma json_ok_stored [simp]:
  "stored_ok b \<Longrightarrow> json_ok (bootDataStoreJson b)" "image_ok i \<Longrightarrow> json_ok (imageDataJson i)"
  by (simp_all add: bootDataStoreJson_def imageDataJson_def stored_ok_def image_ok_def)

definition readStore :: "string \<Rightarrow> BootDataStore \<times> bool" where
  "readStore = unmarshal decBootDataStore noBootDataStore"

definition readImage :: "string \<Rightarrow> ImageData \<times> bool" where
  "readImage = unmarshal decImageData noImage"

lemma readStore_print [simp]:
  "stored_ok b \<Longrightarrow> readStore (jprint (bootDataStoreJson b)) = (b, True)"
  by (simp add: readStore_def unmarshal_def decBootDataStore_json)

lemma readImage_print [simp]: "image_ok i \<Longrightarrow> readImage (jprint (imageDataJson i)) = (i, True)"
  by (simp add: readImage_def unmarshal_def decImageData_json)

text \<open>Decoding keeps a property that every field keeps.\<close>

lemma fieldFor_mem: "fieldFor fs k = Some d \<Longrightarrow> \<exists>n. (n, d) \<in> set fs"
proof (cases "map_of fs k")
  case None
  assume "fieldFor fs k = Some d"
  with None obtain n r where "filter (\<lambda>(n, f). equalFold n k) fs = (n, d) # r"
    by (auto simp: fieldFor_def split: list.splits)
  then have "(n, d) \<in> set (filter (\<lambda>(n, f). equalFold n k) fs)" by simp
  then show ?thesis by auto
next
  case (Some f)
  assume "fieldFor fs k = Some d"
  with Some show ?thesis by (auto simp: fieldFor_def dest: map_of_SomeD)
qed

lemma decFields_inv:
  assumes "\<And>n d j y. (n, d) \<in> set fs \<Longrightarrow> json_ok j \<Longrightarrow> P y \<Longrightarrow> P (fst (d j y))"
  shows "jmems_ok ms \<Longrightarrow> P x \<Longrightarrow> P (fst (decFields fs ms x))"
proof (induction ms arbitrary: x)
  case (Cons m ms)
  obtain k v where m: "m = (k, v)" by (cases m)
  show ?case
  proof (cases "fieldFor fs k")
    case None
    with Cons show ?thesis by (simp add: m)
  next
    case (Some d)
    from fieldFor_mem [OF this] obtain n where n: "(n, d) \<in> set fs" by blast
    have "P (fst (d v x))" by (rule assms [OF n]) (use Cons.prems m in auto)
    with Cons.IH [of "fst (d v x)"] Cons.prems Some show ?thesis by (auto simp: m split: prod.splits)
  qed
qed simp

lemma decStruct_inv:
  assumes "\<And>n d j y. (n, d) \<in> set fs \<Longrightarrow> json_ok j \<Longrightarrow> P y \<Longrightarrow> P (fst (d j y))"
    and "json_ok j" and "P x"
  shows "P (fst (decStruct fs j x))"
proof (cases "\<exists>ms. j = JObj ms")
  case True
  then obtain ms where j: "j = JObj ms" by blast
  have "P (fst (decFields fs ms x))"
    by (rule decFields_inv [where P = P]) (use assms j in auto)
  then show ?thesis by (simp add: decStruct_def j)
next
  case False
  then show ?thesis using assms(3) by (simp add: decStruct_def split: json.splits)
qed

lemma decMap_ok: "json_ok j \<Longrightarrow> map_ok m \<Longrightarrow> map_ok (fst (decMap j m))"
  using canon_iface(3) [of "case m of None \<Rightarrow> [] | Some ms \<Rightarrow> ms"] json_ok_iface(3) [of "case m of None \<Rightarrow> [] | Some ms \<Rightarrow> ms"]
  by (auto simp: decMap_def map_ok_def split: json.splits option.splits)

lemma decStr_ok: "json_ok j \<Longrightarrow> utf8_ok s \<Longrightarrow> utf8_ok (fst (decStr j s))"
  by (auto simp: decStr_def split: json.split)

lemma decPhoneHome_ok: "json_ok j \<Longrightarrow> phone_ok p \<Longrightarrow> phone_ok (fst (decPhoneHome j p))"
  unfolding decPhoneHome_def
  by (rule decStruct_inv) (auto simp: field_def phone_ok_def case_prod_beta intro: decStr_ok)

lemma decCloudInit_ok: "json_ok j \<Longrightarrow> cloud_ok c \<Longrightarrow> cloud_ok (fst (decCloudInit j c))"
  unfolding decCloudInit_def
  by (rule decStruct_inv) (auto simp: field_def cloud_ok_def case_prod_beta intro: decMap_ok decPhoneHome_ok)

lemma decStrs_ok: "json_ok j \<Longrightarrow> list_all utf8_ok xs \<Longrightarrow> list_all utf8_ok (fst (decList decStr [] j xs))"
proof (cases j)
  case (JArr ys)
  assume "json_ok j"
  then have "jsons_ok ys" using JArr by simp
  then have "list_all (\<lambda>y. utf8_ok (fst (decStr y []))) ys" by (induction ys) (simp_all add: decStr_ok)
  then show ?thesis using JArr by (simp add: decList_def list.pred_map comp_def)
qed (simp_all add: decList_def)

lemma int_literal_int_str: "int_literal (int_str i) = Some i"
proof (cases "i < 0")
  case True
  then have "hasPrefix (int_str i) ''-''" "tl (int_str i) = nat_str (nat (- i))"
    by (simp_all add: int_str_def hasPrefix_def)
  with True show ?thesis
    by (simp add: int_literal_def list_all_iff nat_str_digits)
next
  case False
  obtain c u where c: "nat_str (nat i) = c # u" by (metis list.exhaust nat_str_nonempty)
  then have "c \<noteq> CHR ''-''" using nat_str_digits [of c "nat i"] by auto
  then have "\<not> hasPrefix (nat_str (nat i)) ''-''" by (simp add: hasPrefix_def c)
  with False show ?thesis
    by (simp add: int_str_def int_literal_def list_all_iff nat_str_digits)
qed

lemma decInt32_json: "decInt32 (JNum (int_str (sint i))) z = (i, True)"
proof -
  have "- (2 ^ 31) \<le> sint i" "sint i < 2 ^ 31"
    using sint_greater_eq [of i] sint_less [of i] by simp_all
  then show ?thesis by (simp add: decInt32_def int_literal_int_str)
qed

lemma nat_str_number: "\<exists>c u. nat_str n = c # u \<and> is_digit c \<and> (c = CHR ''0'' \<longrightarrow> u = [])"
proof (induction n rule: nat_str.induct)
  case (1 n)
  show ?case
  proof (cases "n < 10")
    case True
    then show ?thesis by (simp add: nat_str.simps [of n])
  next
    case False
    with 1 obtain c u where c: "nat_str (n div 10) = c # u" "is_digit c" "c = CHR ''0'' \<longrightarrow> u = []" by auto
    have "c \<noteq> CHR ''0''"
    proof
      assume "c = CHR ''0''"
      with c have "str_nat (nat_str (n div 10)) = 0" by (simp add: str_nat_def digit_val_def)
      with False show False by simp
    qed
    with c False show ?thesis by (simp add: nat_str.simps [of n])
  qed
qed

lemma dropWhile_nat_str: "nat_str n = c # u \<Longrightarrow> dropWhile is_digit u = []"
  using nat_str_digits [of _ n] by (simp add: dropWhile_eq_Nil_conv)

lemma jint_nat_str: "jint_part (nat_str n) = Some []"
proof -
  obtain c u where c: "nat_str n = c # u" "is_digit c" "c = CHR ''0'' \<longrightarrow> u = []" using nat_str_number by blast
  then show ?thesis using dropWhile_nat_str [OF c(1)] by (simp add: jint_part_def)
qed

lemma json_ok_int: "json_ok (JNum (int_str i))"
proof -
  have n: "list_all num_char (nat_str n)" for n
    using nat_str_digits [of _ n] by (auto simp: list_all_iff num_char_def)
  have m: "num_char CHR ''-''" by (simp add: num_char_def)
  have h: "\<not> hasPrefix (nat_str n) ''-''" for n
    using nat_str_number [of n] by (auto simp: hasPrefix_def is_digit_def less_eq_char_def)
  show ?thesis
    using jint_nat_str h n m by (simp add: int_str_def json_number_def jfrac_part_def jexp_part_def hasPrefix_def)
qed

lemma decList_json:
  assumes "\<And>x. x \<in> set xs \<Longrightarrow> d (f x) z = (x, True)"
  shows "decList d z (JArr (map f xs)) cur = (xs, True)"
  using assms by (simp add: decList_def list_all_iff comp_def cong: map_cong)

lemma decStrs_json: "decList decStr [] (JArr (map JStr xs)) cur = (xs, True)"
  by (rule decList_json) (simp add: decStr_def)

lemma decInts_json: "decList decInt32 0 (JArr (map (\<lambda>i. JNum (int_str (sint i))) is)) cur = (is, True)"
  by (rule decList_json) (rule decInt32_json)

lemma decBootParams_json:
  "request_ok b \<Longrightarrow> decBootParams (bootParamsJson b) noBootParams = (b, True)"
  by (cases b) (simp add: decBootParams_def bootParamsJson_def decStruct_def omitStr_def omitList_def fieldFor_def
      field_def decStr_def [of "JStr _"] decCloudInit_json noBootParams_def decStrs_json decInts_json
      request_ok_def values_ok_def)

lemma jsons_ok_map: "(\<And>x. x \<in> set xs \<Longrightarrow> json_ok (f x)) \<Longrightarrow> jsons_ok (map f xs)"
  by (induction xs) auto

lemma json_ok_bootParams [simp]: "request_ok b \<Longrightarrow> json_ok (bootParamsJson b)"
  by (auto simp: bootParamsJson_def omitList_def jsons_ok_map json_ok_int request_ok_def values_ok_def list_all_iff
      simp del: json_ok.simps(1))

text \<open>What has been decoded from JSON is of the kind above.\<close>

lemma decBootParams_ok: "json_ok j \<Longrightarrow> request_ok b \<Longrightarrow> request_ok (fst (decBootParams j b))"
  unfolding decBootParams_def
  by (rule decStruct_inv)
    (auto simp: field_def request_ok_def values_ok_def case_prod_beta intro: decCloudInit_ok decStr_ok decStrs_ok)

lemma decBootDataStore_ok: "json_ok j \<Longrightarrow> stored_ok b \<Longrightarrow> stored_ok (fst (decBootDataStore j b))"
  unfolding decBootDataStore_def
  by (rule decStruct_inv) (auto simp: field_def stored_ok_def case_prod_beta intro: decCloudInit_ok decStr_ok)

lemma noBootDataStore_ok [simp]: "stored_ok noBootDataStore"
  by (simp add: stored_ok_def noBootDataStore_def)

lemma noBootParams_ok [simp]: "request_ok noBootParams"
  by (simp add: request_ok_def values_ok_def noBootParams_def)

lemma readStore_ok: "stored_ok (fst (readStore s))"
  using decBootDataStore_ok [OF json_parse_ok]
  by (auto simp: readStore_def unmarshal_def split: option.splits)

lemma unmarshal_request_ok: "request_ok (fst (unmarshal decBootParams noBootParams s))"
  using decBootParams_ok [OF json_parse_ok] by (auto simp: unmarshal_def split: option.splits)

subsection \<open>Properties\<close>

text \<open>C35. Requests are read back as they were written: whatever the text of a request, what is decoded from
  it is a request with texts of valid UTF-8 and cloud-init data with ascending keys, and every such request, whatever
  integers of 32 bits its NIDs are, is the same after having been written as JSON and read again. (encoding/json puts U+FFFD
  in the place of invalid bytes, so that the condition on the texts is needed.)\<close>

theorem request_roundtrip:
  assumes "request_ok bp"
  shows "unmarshal decBootParams noBootParams (jprint (bootParamsJson bp)) = (bp, True) \<and>
    request_ok (fst (unmarshal decBootParams noBootParams text))"
  using assms unmarshal_request_ok by (simp add: unmarshal_def decBootParams_json)

definition demoJsonReq :: BootParams where
  "demoJsonReq = noBootParams\<lparr>Hosts := [''x1''], Nids := [-7], Params := ''a<b'' @ utf8 0xE9 @ utf8 0x2028,
     bpCloudInit := noCloudInit\<lparr>MetaData := Some [(''k'', JArr [JNum ''1'', JNull])]\<rparr>\<rparr>"

lemma demoJsonReq_ok: "request_ok demoJsonReq"
proof -
  have "utf8_ok (''a<b'' @ utf8 0xE9 @ utf8 0x2028 @ [])" by (simp del: append_Nil2 add: utf8_ok_utf8)
  then show ?thesis
    by (simp add: demoJsonReq_def request_ok_def values_ok_def noBootParams_def cloud_ok_def noCloudInit_def map_ok_def
        json_number_def jint_part_def jfrac_part_def jexp_part_def hasPrefix_def num_char_def is_digit_def less_eq_char_def)
qed

lemma request_roundtrip_witness:
  "unmarshal decBootParams noBootParams (jprint (bootParamsJson demoJsonReq)) = (demoJsonReq, True)"
  by (rule conjunct1 [OF request_roundtrip [OF demoJsonReq_ok]])

text \<open>An invalid byte is not kept.\<close>

lemma invalid_byte_replaced:
  "unmarshal decStr [] (jprint (JStr [CHR 0xFF])) = (utf8 0xFFFD, True)"
proof -
  have "toValid [CHR 0xFF] = utf8 0xFFFD" by (subst toValid.simps) (simp add: runeText_def badByte_def runeLen_def)
  then have "pval (Suc n) (dq # jescs [CHR 0xFF] @ [dq]) = Some (JStr (utf8 0xFFFD), [])" for n
    using pstr_escaped [of "[CHR 0xFF]" "[]"] by (simp add: jws_Cons is_ws_def dq_def)
  then show ?thesis by (simp add: unmarshal_def json_parse_def jquote_def decStr_def jws_def)
qed

text \<open>C36. Boot data and images that are stored as JSON are read back unchanged, if their texts are valid UTF-8 and the
  cloud-init data as decoding leaves it. This holds of all boot data that the service reads from the store.\<close>

theorem stored_roundtrip:
  assumes "stored_ok b" and "image_ok i"
  shows "unmarshal decBootDataStore noBootDataStore (jprint (bootDataStoreJson b)) = (b, True) \<and>
     unmarshal decImageData noImage (jprint (imageDataJson i)) = (i, True)"
  using assms by (simp add: unmarshal_def decBootDataStore_json decImageData_json)

definition demoStored :: BootDataStore where
  "demoStored = \<lparr>ds_Params = ''quiet'', ds_Kernel = ''/kernel/1'', ds_Initrd = [],
     ds_CloudInit = noCloudInit\<lparr>UserData := Some [(''a'', JBool True), (''b'', JStr ''<&>'')]\<rparr>, ds_ReferralToken = ''t1''\<rparr>"

lemma demoStored_ok: "stored_ok demoStored" "image_ok \<lparr>im_Path = ''http://s/k'', im_Params = []\<rparr>"
  by (simp_all add: demoStored_def stored_ok_def cloud_ok_def noCloudInit_def map_ok_def image_ok_def)

lemma stored_roundtrip_witness:
  "unmarshal decBootDataStore noBootDataStore (jprint (bootDataStoreJson demoStored)) = (demoStored, True) \<and>
   unmarshal decImageData noImage (jprint (imageDataJson \<lparr>im_Path = ''http://s/k'', im_Params = []\<rparr>)) =
     (\<lparr>im_Path = ''http://s/k'', im_Params = []\<rparr>, True)"
  by (rule stored_roundtrip [OF demoStored_ok])

end
