(* ===== verification/GoNet.thy ===== *)
theory GoNet
  imports Json
begin

text \<open>
  The parts of net/url and net that the program uses: \<open>url.Parse\<close> with its scheme, host
  and path, and hardware addresses.
\<close>

subsection \<open>url.Parse\<close>

record url =
  u_Scheme :: string
  u_Host :: string
  u_Path :: string

definition cutAt :: "char \<Rightarrow> string \<Rightarrow> string \<times> string" where
  "cutAt c s = (takeWhile (\<lambda>x. x \<noteq> c) s, tl (dropWhile (\<lambda>x. x \<noteq> c) s))"

definition isAlpha :: "char \<Rightarrow> bool" where
  "isAlpha c \<longleftrightarrow> CHR ''a'' \<le> toLowerChar c \<and> toLowerChar c \<le> CHR ''z''"

text \<open>\<open>getScheme\<close>: \<open>None\<close> when the colon comes first.\<close>

fun schemeScan :: "nat \<Rightarrow> string \<Rightarrow> string \<Rightarrow> string \<Rightarrow> (string \<times> string) option" where
  "schemeScan i raw acc [] = Some ([], raw)"
| "schemeScan i raw acc (c # r) =
     (if isAlpha c then schemeScan (Suc i) raw (acc @ [c]) r
      else if is_digit c \<or> c = CHR ''+'' \<or> c = CHR ''-'' \<or> c = CHR ''.'' then
        (if i = 0 then Some ([], raw) else schemeScan (Suc i) raw (acc @ [c]) r)
      else if c = CHR '':'' then (if i = 0 then None else Some (acc, r))
      else Some ([], raw))"

definition hexPair :: "string \<Rightarrow> nat option" where
  "hexPair r =
     (case r of a # b # _ \<Rightarrow>
        (case (digit_in 16 a, digit_in 16 b) of (Some x, Some y) \<Rightarrow> Some (x * 16 + y) | _ \<Rightarrow> None)
      | _ \<Rightarrow> None)"

datatype urlPart = InPath | InFragment | InUser | InHost | InZone

text \<open>The ASCII bytes of a host that need no escape.\<close>

definition hostByte :: "char \<Rightarrow> bool" where
  "hostByte c \<longleftrightarrow> isAlpha c \<or> is_digit c \<or> c \<in> set ''!$&()*+,;=:[]<>-_.~'' \<or> c = CHR 0x27 \<or> c = CHR 0x22"

function unescape :: "urlPart \<Rightarrow> string \<Rightarrow> string option" where
  "unescape m s =
     (case s of
        [] \<Rightarrow> Some []
      | c # r \<Rightarrow>
          if c = CHR ''%'' then
            (case hexPair r of
               None \<Rightarrow> None
             | Some v \<Rightarrow>
                 if m = InHost \<and> v < 128 \<and> v \<noteq> 37 then None
                 else if m = InZone \<and> v \<noteq> 37 \<and> v \<noteq> 32 \<and> v < 128 \<and> \<not> hostByte (char_of v) then None
                 else map_option ((#) (char_of v)) (unescape m (drop 2 r)))
          else if (m = InHost \<or> m = InZone) \<and> (of_char c :: nat) < 128 \<and> \<not> hostByte c then None
          else map_option ((#) c) (unescape m r))"
  by pat_completeness auto
termination
  by (relation "measure (\<lambda>(m, s). length s)") auto

declare unescape.simps [simp del]

definition lastIndex :: "char \<Rightarrow> string \<Rightarrow> nat option" where
  "lastIndex c s = (if c \<in> set s then Some (length s - 1 - length (takeWhile (\<lambda>x. x \<noteq> c) (rev s))) else None)"

definition validOptionalPort :: "string \<Rightarrow> bool" where
  "validOptionalPort p \<longleftrightarrow> (case p of [] \<Rightarrow> True | c # r \<Rightarrow> c = CHR '':'' \<and> list_all is_digit r)"

definition parseHost :: "string \<Rightarrow> string option" where
  "parseHost h =
     (if hasPrefix h ''['' then
        (case lastIndex CHR '']'' h of
           None \<Rightarrow> None
         | Some i \<Rightarrow>
             if \<not> validOptionalPort (drop (Suc i) h) then None
             else (case strIndex (take i h) ''%25'' of
                     None \<Rightarrow> unescape InHost h
                   | Some z \<Rightarrow>
                       (case (unescape InHost (take z h), unescape InZone (drop z (take i h)), unescape InHost (drop i h)) of
                          (Some a, Some b, Some c) \<Rightarrow> Some (a @ b @ c)
                        | _ \<Rightarrow> None)))
      else (case lastIndex CHR '':'' h of
              Some i \<Rightarrow> if validOptionalPort (drop i h) then unescape InHost h else None
            | None \<Rightarrow> unescape InHost h))"

definition validUser :: "string \<Rightarrow> bool" where
  "validUser s \<longleftrightarrow> list_all (\<lambda>c. isAlpha c \<or> is_digit c \<or> c \<in> set ''-._:~!$&()*+,;=%@'' \<or> c = CHR 0x27) s"

definition parseAuthority :: "string \<Rightarrow> string option" where
  "parseAuthority a =
     (case lastIndex CHR ''@'' a of
        None \<Rightarrow> parseHost a
      | Some i \<Rightarrow>
          (case parseHost (drop (Suc i) a) of
             None \<Rightarrow> None
           | Some h \<Rightarrow>
               (let u = take i a; (name, pass) = cutAt CHR '':'' u in
                if validUser u \<and> unescape InUser name \<noteq> None \<and> unescape InUser pass \<noteq> None then Some h else None)))"

definition urlRest :: "string \<Rightarrow> string \<Rightarrow> url option" where
  "urlRest scheme rest =
     (if \<not> hasPrefix rest ''/'' \<and> scheme \<noteq> [] then Some \<lparr>u_Scheme = scheme, u_Host = [], u_Path = []\<rparr>
      else if \<not> hasPrefix rest ''/'' \<and> CHR '':'' \<in> set (fst (cutAt CHR ''/'' rest)) then None
      else
        (let authority = (hasPrefix rest ''//'' \<and> (scheme \<noteq> [] \<or> \<not> hasPrefix rest ''///''));
             auth = (if authority then takeWhile (\<lambda>x. x \<noteq> CHR ''/'') (drop 2 rest) else []);
             path = (if authority then dropWhile (\<lambda>x. x \<noteq> CHR ''/'') (drop 2 rest) else rest) in
         case (if authority then parseAuthority auth else Some [], unescape InPath path) of
           (Some h, Some p) \<Rightarrow> Some \<lparr>u_Scheme = scheme, u_Host = h, u_Path = p\<rparr>
         | _ \<Rightarrow> None))"

definition urlParse :: "string \<Rightarrow> url option" where
  "urlParse raw =
     (let (u, frag) = cutAt CHR ''#'' raw in
      if list_ex (\<lambda>c. (of_char c :: nat) < 32 \<or> (of_char c :: nat) = 127) u then None
      else if unescape InFragment frag = None then None
      else if u = ''*'' then Some \<lparr>u_Scheme = [], u_Host = [], u_Path = ''*''\<rparr>
      else (case schemeScan 0 u [] u of
              None \<Rightarrow> None
            | Some (scheme, rest) \<Rightarrow> urlRest (toLower scheme) (fst (cutAt CHR ''?'' rest))))"

subsection \<open>net.ParseMAC\<close>

fun parsePairs :: "char \<Rightarrow> string \<Rightarrow> nat list option" where
  "parsePairs sep [a, b] = map_option (\<lambda>x. [x]) (hexPair [a, b])"
| "parsePairs sep (a # b # c # r) =
     (if c = sep then (case (hexPair [a, b], parsePairs sep r) of
                         (Some x, Some xs) \<Rightarrow> Some (x # xs)
                       | _ \<Rightarrow> None)
      else None)"
| "parsePairs sep _ = None"

fun parseQuads :: "string \<Rightarrow> nat list option" where
  "parseQuads [a, b, c, d] =
     (case (hexPair [a, b], hexPair [c, d]) of (Some x, Some y) \<Rightarrow> Some [x, y] | _ \<Rightarrow> None)"
| "parseQuads (a # b # c # d # e # r) =
     (if e = CHR ''.'' then (case (hexPair [a, b], hexPair [c, d], parseQuads r) of
                               (Some x, Some y, Some xs) \<Rightarrow> Some (x # y # xs)
                             | _ \<Rightarrow> None)
      else None)"
| "parseQuads _ = None"

text \<open>The octets of an address of 6, 8 or 20 of them.\<close>

definition parseMAC :: "string \<Rightarrow> nat list option" where
  "parseMAC s =
     (let legal = (\<lambda>x. case x of None \<Rightarrow> None | Some ns \<Rightarrow> if length ns \<in> {6, 8, 20} then Some ns else None) in
      if length s < 14 then None
      else if s ! 2 = CHR '':'' \<or> s ! 2 = CHR ''-'' then legal (parsePairs (s ! 2) s)
      else if s ! 4 = CHR ''.'' then legal (parseQuads s)
      else None)"

definition macText :: "nat list \<Rightarrow> string" where
  "macText ns = strJoin '':'' (map byte_hex ns)"

subsection \<open>Facts\<close>

lemma hexPair_byte_hex: "n < 256 \<Longrightarrow> hexPair (byte_hex n) = Some n"
proof -
  have "\<forall>n\<in>{0..<16}. digit_in 16 (hex_char n) = Some n"
    by code_simp
  then have d: "m < 16 \<Longrightarrow> digit_in 16 (hex_char m) = Some m" for m by simp
  assume "n < 256"
  then have "n div 16 < 16" "n mod 16 < 16" by simp_all
  then show ?thesis by (simp add: hexPair_def byte_hex_def d mult.commute [of _ 16])
qed

lemma byte_hex_pair: "\<exists>a b. byte_hex n = [a, b]"
  by (simp add: byte_hex_def)

lemma hexPair_less:
  assumes "hexPair [a, b] = Some n"
  shows "n < 256"
proof -
  have d: "digit_in 16 c = Some v \<Longrightarrow> v < 16" for c v
    by (auto simp: digit_in_def Let_def split: option.splits if_splits)
  obtain x y where "digit_in 16 a = Some x" "digit_in 16 b = Some y" "n = x * 16 + y"
    using assms by (auto simp: hexPair_def split: option.splits)
  with d [of a x] d [of b y] show ?thesis by simp
qed

lemma parsePairs_less: "parsePairs sep s = Some ns \<Longrightarrow> list_all (\<lambda>n. n < 256) ns"
  by (induction sep s arbitrary: ns rule: parsePairs.induct) (auto split: option.splits if_splits dest: hexPair_less)

lemma parseQuads_less: "parseQuads s = Some ns \<Longrightarrow> list_all (\<lambda>n. n < 256) ns"
  by (induction s arbitrary: ns rule: parseQuads.induct) (auto split: option.splits if_splits dest: hexPair_less)

lemma parseMAC_octets:
  "parseMAC s = Some ns \<Longrightarrow> list_all (\<lambda>n. n < 256) ns \<and> length ns \<in> {6, 8, 20}"
  by (auto simp: parseMAC_def Let_def split: if_splits option.splits dest: parsePairs_less parseQuads_less)

lemma parsePairs_macText: "ns \<noteq> [] \<Longrightarrow> list_all (\<lambda>n. n < 256) ns \<Longrightarrow> parsePairs CHR '':'' (macText ns) = Some ns"
proof (induction ns)
  case (Cons n ns)
  obtain a b where ab: "byte_hex n = [a, b]" using byte_hex_pair by blast
  have h: "hexPair [a, b] = Some n" using Cons.prems hexPair_byte_hex [of n] by (simp add: ab)
  show ?case
  proof (cases ns)
    case Nil
    then show ?thesis by (simp add: macText_def ab h)
  next
    case (Cons m ms)
    then have "macText (n # ns) = a # b # CHR '':'' # macText ns" by (simp add: macText_def ab)
    moreover have "parsePairs CHR '':'' (macText ns) = Some ns" using Cons.IH Cons.prems Cons by simp
    moreover have "\<exists>x y z. macText ns = x # y # z"
      using byte_hex_pair [of m] Cons by (cases ms) (auto simp: macText_def)
    ultimately show ?thesis by (auto simp: h)
  qed
qed simp

lemma length_macText: "length (macText ns) = 3 * length ns - 1"
proof (induction ns)
  case (Cons n ns)
  then show ?case by (cases ns) (auto simp: macText_def byte_hex_def)
qed (simp add: macText_def)

lemma parseMAC_macText:
  assumes "list_all (\<lambda>n. n < 256) ns" and "length ns \<in> {6, 8, 20}"
  shows "parseMAC (macText ns) = Some ns"
proof -
  obtain n m ms where ns: "ns = n # m # ms" using assms(2) by (cases ns; cases "tl ns") auto
  have "macText ns ! 2 = CHR '':''" by (simp add: ns macText_def byte_hex_def)
  moreover have "parsePairs CHR '':'' (macText ns) = Some ns"
    by (rule parsePairs_macText) (use assms ns in auto)
  ultimately show ?thesis using assms by (auto simp: parseMAC_def length_macText)
qed

end
