(* ===== verification/Inventory.thy ===== *)
theory Inventory
  imports GoErrors GoNet
begin

text \<open>
  Where the service gets its picture of the hardware from (cmd/boot-script-service/sm.go): the
  choice of the source, the test whether the state manager wants authentication, and how its three
  answers (components, component endpoints, ethernet interfaces) are merged into one \<open>SMData\<close>.

  The HTTP exchanges and the decoding of the answers into the types of hms-base and smd are
  outside: a record \<open>hsm\<close> holds what they give. \<open>ce_NICs\<close> is the list of MAC addresses
  under the \<open>RedfishSystemInfo\<close> or \<open>RedfishManagerInfo\<close> of an endpoint, \<open>None\<close> when
  that pointer is nil.
\<close>

datatype panic = NilPointer | IndexOutOfRange | BadAssertion

subsection \<open>Components\<close>

record SMComponent =
  sc_ID :: string
  sc_State :: string
  sc_Role :: string
  sc_SubRole :: string
  sc_NID :: string
  sc_Fqdn :: string
  sc_Mac :: "string list option"
  sc_EndpointEnabled :: bool

record EthIface =
  eth_MACAddr :: string
  eth_CompID :: string
  eth_IPAddrs :: "string list"

record SMData =
  sm_Components :: "SMComponent list"
  sm_IPAddrs :: "(string \<times> EthIface) list"

definition noComp :: SMComponent where
  "noComp = \<lparr>sc_ID = [], sc_State = [], sc_Role = [], sc_SubRole = [], sc_NID = [], sc_Fqdn = [],
     sc_Mac = None, sc_EndpointEnabled = False\<rparr>"

definition macsOf :: "SMComponent \<Rightarrow> string list" where
  "macsOf c = (case sc_Mac c of None \<Rightarrow> [] | Some ms \<Rightarrow> ms)"

definition addMac :: "string \<Rightarrow> SMComponent \<Rightarrow> SMComponent" where
  "addMac m c = c\<lparr>sc_Mac := Some (macsOf c @ [m])\<rparr>"

definition makeSmMap :: "SMData \<Rightarrow> (string \<times> SMComponent) list" where
  "makeSmMap st = foldl (\<lambda>m v. AList.update (sc_ID v) v m) [] (sm_Components st)"

text \<open>\<open>NID.Int64()\<close>: \<open>ParseInt\<close> of the number's text with base 10 and 64 bits.\<close>

definition nidInt :: "SMComponent \<Rightarrow> int option" where
  "nidInt c =
     (let t = sc_NID c;
          u = (if hasPrefix t ''-'' \<or> hasPrefix t ''+'' then tl t else t) in
      if u \<noteq> [] \<and> list_all is_digit u
      then (let i = (if hasPrefix t ''-'' then - int (str_nat u) else int (str_nat u)) in
            if - (2 ^ 63) \<le> i \<and> i < 2 ^ 63 then Some i else None)
      else None)"

subsection \<open>MAC addresses\<close>

definition badMAC :: string where "badMAC = ''not available''"
definition undefinedMAC :: string where "undefinedMAC = ''ff:ff:ff:ff:ff:ff''"

definition getMacs :: "SMComponent \<Rightarrow> string list \<Rightarrow> SMComponent" where
  "getMacs c0 eth =
     foldl (\<lambda>c m. if m = [] \<or> equalFold m badMAC then c
                  else if m \<in> set (macsOf c) then c else addMac m c) c0 eth"

text \<open>The text in pieces: a piece ends with a rune at an odd position; what is left over at the end
  is dropped.\<close>

function macPieces :: "nat \<Rightarrow> string \<Rightarrow> string \<Rightarrow> string list" where
  "macPieces i cur s =
     (if s = [] then []
      else (let cur' = cur @ runeText s; rest = drop (runeLen s) s; i' = i + runeLen s in
            if i mod 2 = 1 then cur' # macPieces i' [] rest else macPieces i' cur' rest))"
  by pat_completeness auto
termination
  by (relation "measure (\<lambda>(i, cur, s). length s)") (auto simp: runeLen_pos)

declare macPieces.simps [simp del]

definition ensureLegalMAC :: "string \<Rightarrow> string" where
  "ensureLegalMAC mac =
     (case parseMAC mac of
        Some hw \<Rightarrow> macText hw
      | None \<Rightarrow>
          (case parseMAC (strJoin '':'' (macPieces 0 [] mac)) of
             Some hw \<Rightarrow> macText hw
           | None \<Rightarrow> badMAC))"

subsection \<open>Does the state manager want authentication?\<close>

datatype epType = CompEPTypeSystem | CompEPTypeManager | CompEPTypeChassis | CompEPTypeOther

record endpoint =
  ce_ID :: string
  ce_FQDN :: string
  ce_MACAddr :: string
  ce_Enabled :: "bool option"
  ce_Type :: epType
  ce_NICs :: "string list option"
  ce_RfEndpointID :: string

record hsm =
  hs_client :: bool
  hs_BaseURL :: string
  hs_retryCount :: "64 word"
  hs_retryWait :: "64 word"
  hs_probe :: "nat \<Rightarrow> goerr + nat"
  hs_refreshJWT :: "goerr option"
  hs_components :: "SMComponent list option"
  hs_endpoints :: "endpoint list option"
  hs_ethifaces :: "EthIface list option"
  hs_file :: "SMData option"

text \<open>The loop of \<open>TestSMAuthEnabled\<close> from attempt \<open>retry\<close> on, with \<open>n\<close> attempts left.\<close>

fun authLoop :: "(nat \<Rightarrow> goerr + nat) \<Rightarrow> nat \<Rightarrow> nat \<Rightarrow> bool option" where
  "authLoop probe retry 0 = None"
| "authLoop probe retry (Suc n) =
     (case probe retry of
        Inl _ \<Rightarrow> authLoop probe (Suc retry) n
      | Inr status \<Rightarrow> Some (status = 401))"

text \<open>\<open>time.ParseDuration\<close> of a number of seconds: nanoseconds have to fit in 63 bits.\<close>

definition durationOk :: "64 word \<Rightarrow> bool" where
  "durationOk w \<longleftrightarrow> unat w * 10 ^ 9 < 2 ^ 63"

definition TestSMAuthEnabled :: "hsm \<Rightarrow> goerr + bool" where
  "TestSMAuthEnabled h =
     (if \<not> hs_client h then Inl (Err ''smClient nil. Has a connection been opened yet?'')
      else if urlParse (hs_BaseURL h) = None then Inl (Err (''Could not join URL paths '' @ hs_BaseURL h))
      else if \<not> durationOk (hs_retryWait h) then Inl (Err ''Invalid retry interval'')
      else (case authLoop (hs_probe h) 0 (unat (hs_retryCount h)) of
              Some auth \<Rightarrow> Inr auth
            | None \<Rightarrow> Inl (Err (''Number of retries ('' @ nat_str (unat (hs_retryCount h)) @
                '') exhausted when testing if SMD auth is enabled''))))"

text \<open>The test of the access token, which no other function calls. \<open>do_request\<close> is the exchange: the
  answer is not looked at, so a refusal counts as success.\<close>

definition TestSMProtectedAccess :: "hsm \<Rightarrow> string \<Rightarrow> goerr + nat \<Rightarrow> goerr option" where
  "TestSMProtectedAccess h accessToken do_request =
     (if accessToken = [] then Some (Err ''Access token is empty'')
      else if \<not> hs_client h then Some (Err ''smClient nil. Has a connection been opened yet?'')
      else if urlParse (hs_BaseURL h) = None then Some (Err (''Could not join URL paths '' @ hs_BaseURL h))
      else (case do_request of
              Inl e \<Rightarrow> Some (Wrapped ''Could not execute request'' e)
            | Inr status \<Rightarrow> None))"

subsection \<open>Merging the answers\<close>

definition compIndex :: "SMComponent list \<Rightarrow> string \<Rightarrow> nat option" where
  "compIndex cs x = List.find (\<lambda>i. sc_ID (cs ! i) = x) (rev [0..<length cs])"

definition updateComp :: "SMComponent \<Rightarrow> endpoint \<Rightarrow> panic + SMComponent" where
  "updateComp c e =
     (let c1 = c\<lparr>sc_Fqdn := ce_FQDN e\<rparr>;
          c2 = (if ce_MACAddr e \<noteq> [] \<and> \<not> equalFold (ce_MACAddr e) badMAC \<and> \<not> equalFold (ce_MACAddr e) undefinedMAC
                then addMac (ce_MACAddr e) c1 else c1);
          c3 = c2\<lparr>sc_EndpointEnabled := (case ce_Enabled e of None \<Rightarrow> True | Some b \<Rightarrow> b)\<rparr> in
      if ce_Type e = CompEPTypeSystem \<or> ce_Type e = CompEPTypeManager
      then (case ce_NICs e of None \<Rightarrow> Inl NilPointer | Some ms \<Rightarrow> Inr (getMacs c3 ms))
      else Inr c3)"

text \<open>The loop over the endpoints: the components, and the Redfish endpoints seen (\<open>cMap\<close>).\<close>

fun mergeEndpoints :: "endpoint list \<Rightarrow> SMComponent list \<Rightarrow> string list \<Rightarrow> panic + SMComponent list \<times> string list" where
  "mergeEndpoints [] cs cMap = Inr (cs, cMap)"
| "mergeEndpoints (e # es) cs cMap =
     (case compIndex cs (ce_ID e) of
        None \<Rightarrow> mergeEndpoints es cs cMap
      | Some i \<Rightarrow>
          (case updateComp (cs ! i) e of
             Inl p \<Rightarrow> Inl p
           | Inr c \<Rightarrow> mergeEndpoints es (cs[i := c])
               (if ce_RfEndpointID e \<noteq> [] then List.insert (ce_RfEndpointID e) cMap else cMap)))"

definition mergeEth :: "EthIface \<Rightarrow> SMComponent list \<times> (string \<times> EthIface) list \<Rightarrow>
    SMComponent list \<times> (string \<times> EthIface) list" where
  "mergeEth e x =
     (case x of (cs, addresses) \<Rightarrow>
        (map (\<lambda>c. if sc_ID c = eth_CompID e then addMac (ensureLegalMAC (eth_MACAddr e)) c else c) cs,
         foldl (\<lambda>m ip. if ip \<noteq> [] then AList.update ip e m else m) addresses (eth_IPAddrs e)))"

text \<open>The data, and the components to subscribe to.\<close>

definition mergeState :: "SMComponent list \<Rightarrow> endpoint list \<Rightarrow> EthIface list \<Rightarrow> panic + SMData \<times> string list" where
  "mergeState cs es eths =
     (case mergeEndpoints es cs [] of
        Inl p \<Rightarrow> Inl p
      | Inr (cs1, cMap) \<Rightarrow>
          (case fold mergeEth eths (cs1, []) of (cs2, addresses) \<Rightarrow>
             Inr (\<lparr>sm_Components = cs2, sm_IPAddrs = addresses\<rparr>, map sc_ID cs2 @ cMap)))"

definition getStateFromHSM :: "hsm \<Rightarrow> panic + (SMData \<times> string list) option" where
  "getStateFromHSM h =
     (if \<not> hs_client h then Inr None
      else (case TestSMAuthEnabled h of
              Inl _ \<Rightarrow> Inr None
            | Inr authEnabled \<Rightarrow>
                if authEnabled \<and> hs_refreshJWT h \<noteq> None then Inr None
                else (case (hs_components h, hs_endpoints h, hs_ethifaces h) of
                        (Some cs, Some es, Some eths) \<Rightarrow> map_sum id Some (mergeState cs es eths)
                      | (Some cs, Some es, None) \<Rightarrow>
                          map_sum id (\<lambda>_. None) (mergeEndpoints es cs [])
                      | _ \<Rightarrow> Inr None)))"

definition getStateFromFile :: "hsm \<Rightarrow> SMData option" where
  "getStateFromFile h = hs_file h"

text \<open>The state, and the subscription to make if it came from the state manager.\<close>

definition getStateInfo :: "hsm \<Rightarrow> panic + SMData option \<times> string list option" where
  "getStateInfo h =
     map_sum id (\<lambda>r. case r of Some (d, l) \<Rightarrow> (Some d, Some l) | None \<Rightarrow> (getStateFromFile h, None)) (getStateFromHSM h)"

subsection \<open>Opening the source\<close>

datatype smSource = MemSource | FileSource string | HsmSource bool string

text \<open>\<open>insecure\<close> among the options, as words separated by commas.\<close>

definition insecureOpt :: "string \<Rightarrow> bool" where
  "insecureOpt opts \<longleftrightarrow> list_ex (\<lambda>opt. equalFold opt ''insecure'') (strSplit CHR '','' opts)"

definition SmOpen :: "hsm \<Rightarrow> string \<Rightarrow> string \<Rightarrow> goerr + smSource" where
  "SmOpen h base options =
     (case urlParse base of
        None \<Rightarrow> Inl (Err (''Unknown HSM URL: '' @ base))
      | Some u \<Rightarrow>
          if u_Scheme u = ''mem'' then Inr MemSource
          else if u_Scheme u = ''file'' then Inr (FileSource (u_Path u))
          else
            (let src = HsmSource (u_Scheme u = ''https'' \<and> insecureOpt options) (base @ ''/hsm/v2'') in
             case TestSMAuthEnabled (h\<lparr>hs_client := True, hs_BaseURL := base @ ''/hsm/v2''\<rparr>) of
               Inl e \<Rightarrow> Inl (Wrapped ''Failed testing if HSM auth is enabled'' e)
             | Inr auth \<Rightarrow>
                 (case (if auth then hs_refreshJWT h else None) of
                    Some e \<Rightarrow> Inl (Wrapped ''Failed refreshing JWT'' e)
                  | None \<Rightarrow> Inr src)))"

end
