(* ===== verification/Notifier.thy ===== *)
theory Notifier
  imports Inventory
begin

text \<open>
  The subscription to state change notifications (cmd/boot-script-service/scn.go). The exchange
  with hmnfd is a function from the method and the payload of a request to the status of the
  answer, or the error of sending it.
\<close>

record ScnNotifier =
  sn_SubscriberName :: string
  sn_SubscriberURL :: string
  sn_NotifierURL :: string
  sn_Components :: "string list"
  sn_insecure :: bool

record ScnSubscribe =
  sub_Subscriber :: string
  sub_Components :: "string list"
  sub_Url :: string
  sub_States :: "string list"
  sub_Enabled :: "bool option"

definition newNotifier :: "string \<Rightarrow> string \<Rightarrow> string \<Rightarrow> string \<Rightarrow> panic + ScnNotifier" where
  "newNotifier name subscriberURL notifierURL opts =
     (if length subscriberURL < 6 then Inl IndexOutOfRange
      else Inr \<lparr>sn_SubscriberName = name, sn_SubscriberURL = subscriberURL, sn_NotifierURL = notifierURL,
                sn_Components = [], sn_insecure = (take 6 subscriberURL = ''https:'' \<and> insecureOpt opts)\<rparr>)"

text \<open>The headers that the variable \<open>HMS_CUSTOM_HDRS\<close> asks for, one on each line.\<close>

definition headerCut :: string where
  "headerCut = [CHR '' '', CHR 0x09, CHR 0x0D, CHR 0x0A, CHR '':'']"

definition customHeaders :: "string \<Rightarrow> (string \<times> string) list" where
  "customHeaders hdrs =
     (if hdrs = [] then []
      else concat (map (\<lambda>line.
        case strIndex line '':'' of
          None \<Rightarrow> []
        | Some n \<Rightarrow> if n > 0 then [(strTrim (take n line) headerCut, strTrim (drop n line) headerCut)] else [])
        (strSplit CHR 0x0A hdrs)))"

text \<open>\<open>POST\<close>, then \<open>PATCH\<close> if the answer to that was not one of success.\<close>

fun sendSub :: "(string \<Rightarrow> goerr + nat) \<Rightarrow> string list \<Rightarrow> goerr option \<Rightarrow> goerr option" where
  "sendSub send [] err = err"
| "sendSub send (method # ms) err =
     (case send method of
        Inl e \<Rightarrow> Some e
      | Inr status \<Rightarrow>
          if status \<in> {200, 204, 202} then None
          else sendSub send ms (Some (Err (''ERROR reponse from hmnfd, status: '' @ nat_str status))))"

definition subscribe :: "(string \<Rightarrow> ScnSubscribe \<Rightarrow> goerr + nat) \<Rightarrow> ScnNotifier \<Rightarrow> string list \<Rightarrow>
    goerr option \<times> ScnNotifier" where
  "subscribe hmnfd notifier comps =
     (if comps = [] then (Some (Err ''Empty component subscription list''), notifier)
      else
        (let cs = sort comps in
         if cs = sn_Components notifier then (None, notifier)
         else
           (let sub = \<lparr>sub_Subscriber = sn_SubscriberName notifier @ ''@x0'', sub_Components = cs,
                       sub_Url = sn_NotifierURL notifier,
                       sub_States = [''on'', ''off'', ''empty'', ''unknown'', ''populated''], sub_Enabled = Some True\<rparr>;
                err = sendSub (\<lambda>method. hmnfd method sub) [''POST'', ''PATCH''] None in
            (err, if err = None then notifier\<lparr>sn_Components := cs\<rparr> else notifier))))"

end
