(* ===== verification/Service.thy ===== *)
theory Service
  imports PgSet PgEndpoints Codec Notifier
begin

text \<open>
  The state of the running service (cmd/boot-script-service), what it takes from outside, and its
  cache of the hardware state manager (sm.go, scn.go).

  The key-value store of hms-hmetcd is the argument \<open>kvi\<close> of the environment: the four
  operations the code calls, on a state of any type. The state manager answers through
  \<open>hsmAt\<close>, hmnfd through \<open>hmnfdAt\<close>, the clock through \<open>nowAt\<close>, the UUID library through
  \<open>newUuid\<close>, the spire token service through \<open>spirePost\<close> (the body of its answer), the S3
  library through \<open>s3Connect\<close> (whether a client could be made) and \<open>s3GetURL\<close>; each is
  indexed by a counter of the state, so that successive calls may differ. RFC 7396 merging is the
  library json-patch, YAML printing the library yaml; the texts of HMS errors and the JSON form of
  a component come from hms-base. \<open>hsmClass\<close> is the answer of the state manager to the probe of
  the status page (an error of the exchange, or of reading the body), \<open>versionFile\<close> the files
  that the version page reads, \<open>routedPath\<close> the path that the router chi sees after its
  middlewares. A Go panic is the left result of an operation; errors are values.

  \<open>go refreshState(ts)\<close> in checkState starts a goroutine: it is put on the list
  \<open>pending\<close> of the state, from which \<open>runPending\<close> takes it at some later moment.
\<close>

datatype svcerr = GoErr goerr | HMSErr string goerr nat

subsection \<open>Environment and state\<close>

record 'k kvi =
  kvGet :: "string \<Rightarrow> 'k \<Rightarrow> (string \<times> bool \<times> goerr option) \<times> 'k"
  kvStore :: "string \<Rightarrow> string \<Rightarrow> 'k \<Rightarrow> goerr option \<times> 'k"
  kvDelete :: "string \<Rightarrow> 'k \<Rightarrow> goerr option \<times> 'k"
  kvRange :: "string \<Rightarrow> string \<Rightarrow> 'k \<Rightarrow> ((string \<times> string) list \<times> goerr option) \<times> 'k"

record 'k senv =
  kvi :: "'k kvi"
  useSQL :: bool
  pgEnv :: pg_env
  nowAt :: "nat \<Rightarrow> int"
  newUuid :: "nat \<Rightarrow> string"
  hsmAt :: "nat \<Rightarrow> hsm"
  hmnfdAt :: "nat \<Rightarrow> string \<Rightarrow> ScnSubscribe \<Rightarrow> goerr + nat"
  rangeOrder :: "nat \<Rightarrow> nat \<Rightarrow> nat list"
  mergePatch :: "json \<Rightarrow> json \<Rightarrow> json option"
  spireTokensBaseURL :: string
  spirePost :: "nat \<Rightarrow> string \<Rightarrow> string \<Rightarrow> goerr + string"
  s3Connect :: "nat \<Rightarrow> string \<Rightarrow> bool"
  s3GetURL :: "nat \<Rightarrow> string \<Rightarrow> string \<Rightarrow> goerr + string"
  randBytes :: "nat \<Rightarrow> string"
  writeOk :: "nat \<Rightarrow> bool"
  hmsText :: "string \<Rightarrow> string \<Rightarrow> string"
  compJson :: "SMComponent \<Rightarrow> json"
  yamlText :: "json \<Rightarrow> string option"
  xnameType :: "string \<Rightarrow> string option"
  advertiseAddress :: string
  ipxeServer :: string
  chainProto :: string
  gwURI :: string
  retryDelay :: nat
  hsmRetrievalDelay :: nat
  blockedRoles :: "string list"
  hsmClass :: "nat \<Rightarrow> goerr + goerr option"
  randIntn :: "nat \<Rightarrow> nat"
  buildVersion :: string
  versionFile :: "nat \<Rightarrow> string option"
  jwksURL :: string
  routedPath :: "string \<Rightarrow> string"

record 'k svc =
  kvs :: 'k
  imageCache :: "(string \<times> string) list"
  smTimeStamp :: int
  smData :: "SMData option"
  smDataMap :: "(string \<times> SMComponent) list"
  notifier :: ScnNotifier
  s3Client :: bool
  pending :: "int list"
  ticks :: nat
  sqlSt :: pgst

type_synonym ('k, 'a) sv = "('k svc, panic, 'a) eff"

definition clockNow :: "'k senv \<Rightarrow> ('k, int) sv" where
  "clockNow E s = (Inr (nowAt E (ticks s)), s\<lparr>ticks := Suc (ticks s)\<rparr>)"

definition uuidNew :: "'k senv \<Rightarrow> ('k, string) sv" where
  "uuidNew E s = (Inr (newUuid E (ticks s)), s\<lparr>ticks := Suc (ticks s)\<rparr>)"

definition rangeGo :: "'k senv \<Rightarrow> 'a list \<Rightarrow> ('k, 'a list) sv" where
  "rangeGo E m s = (Inr (permute (rangeOrder E (ticks s)) m), s\<lparr>ticks := Suc (ticks s)\<rparr>)"

text \<open>With Postgres the store is never opened, and a call on it is a call on a nil interface.\<close>

definition kv_Get :: "'k senv \<Rightarrow> string \<Rightarrow> ('k, string \<times> bool \<times> goerr option) sv" where
  "kv_Get E key s =
     (if useSQL E then (Inl NilPointer, s)
      else case kvGet (kvi E) key (kvs s) of (r, k) \<Rightarrow> (Inr r, s\<lparr>kvs := k\<rparr>))"

definition kv_Store :: "'k senv \<Rightarrow> string \<Rightarrow> string \<Rightarrow> ('k, goerr option) sv" where
  "kv_Store E key v s =
     (if useSQL E then (Inl NilPointer, s)
      else case kvStore (kvi E) key v (kvs s) of (r, k) \<Rightarrow> (Inr r, s\<lparr>kvs := k\<rparr>))"

definition kv_Delete :: "'k senv \<Rightarrow> string \<Rightarrow> ('k, goerr option) sv" where
  "kv_Delete E key s =
     (if useSQL E then (Inl NilPointer, s)
      else case kvDelete (kvi E) key (kvs s) of (r, k) \<Rightarrow> (Inr r, s\<lparr>kvs := k\<rparr>))"

definition kv_Range :: "'k senv \<Rightarrow> string \<Rightarrow> string \<Rightarrow> ('k, (string \<times> string) list \<times> goerr option) sv" where
  "kv_Range E a b s =
     (if useSQL E then (Inl NilPointer, s)
      else case kvRange (kvi E) a b (kvs s) of (r, k) \<Rightarrow> (Inr r, s\<lparr>kvs := k\<rparr>))"

text \<open>A call of package postgres.\<close>

definition inSQL :: "(pgst, goerr, 'a) eff \<Rightarrow> ('k, goerr + 'a) sv" where
  "inSQL m s = (case m (sqlSt s) of (r, q) \<Rightarrow> (Inr r, s\<lparr>sqlSt := q\<rparr>))"

subsection \<open>The cached state of the state manager\<close>

definition newState :: "SMData option \<Rightarrow> 'k svc \<Rightarrow> 'k svc" where
  "newState d s = (case d of None \<Rightarrow> s | Some new \<Rightarrow> s\<lparr>smData := Some new, smDataMap := makeSmMap new\<rparr>)"

text \<open>The subscription that a retrieval from the state manager makes; its error is only logged.\<close>

definition resubscribe :: "'k senv \<Rightarrow> nat \<Rightarrow> string list option \<Rightarrow> 'k svc \<Rightarrow> 'k svc" where
  "resubscribe E t l s =
     (case l of None \<Rightarrow> s | Some comps \<Rightarrow> s\<lparr>notifier := snd (subscribe (hmnfdAt E t) (notifier s) comps)\<rparr>)"

definition protectedGetState :: "'k senv \<Rightarrow> int \<Rightarrow> ('k, SMData option \<times> (string \<times> SMComponent) list) sv" where
  "protectedGetState E ts s =
     (if ts < 0 \<or> ts > smTimeStamp s \<or> smData s = None then
        (let t = ticks s;
             s1 = s\<lparr>smTimeStamp := (if ts \<le> 0 then nowAt E t else ts), ticks := Suc t\<rparr> in
         case getStateInfo (hsmAt E t) of
           Inl p \<Rightarrow> (Inl p, s1)
         | Inr (d, l) \<Rightarrow>
             (let s2 = newState d (resubscribe E t l s1) in (Inr (smData s2, smDataMap s2), s2)))
      else (Inr (smData s, smDataMap s), s))"

definition getStateAndMap :: "'k senv \<Rightarrow> ('k, SMData option \<times> (string \<times> SMComponent) list) sv" where
  "getStateAndMap E = protectedGetState E 0"

definition refreshState :: "'k senv \<Rightarrow> int \<Rightarrow> ('k, SMData option) sv" where
  "refreshState E ts = andThen (protectedGetState E ts) (\<lambda>(data, _). ret data)"

definition getState :: "'k senv \<Rightarrow> ('k, SMData option) sv" where
  "getState E = andThen (protectedGetState E 0) (\<lambda>(data, _). ret data)"

text \<open>Reading a field of the state panics when there is none.\<close>

definition deref :: "'a option \<Rightarrow> ('k, 'a) sv" where
  "deref x = (case x of None \<Rightarrow> fail NilPointer | Some y \<Rightarrow> ret y)"

definition found :: "SMComponent option \<Rightarrow> SMComponent \<times> bool" where
  "found c = (case c of None \<Rightarrow> (noComp, False) | Some v \<Rightarrow> (v, True))"

definition compByMAC :: "SMComponent list \<Rightarrow> string \<Rightarrow> SMComponent option" where
  "compByMAC cs mac =
     List.find (\<lambda>v. \<not> equalFold (sc_State v) ''empty'' \<and> list_ex (equalFold mac) (macsOf v)) cs"

definition FindSMCompByMAC :: "'k senv \<Rightarrow> string \<Rightarrow> ('k, SMComponent \<times> bool) sv" where
  "FindSMCompByMAC E mac =
     andThen (getState E) (\<lambda>st. andThen (deref st) (\<lambda>st.
     ret (found (compByMAC (sm_Components st) mac))))"

definition FindSMCompByNameInCache :: "'k senv \<Rightarrow> string \<Rightarrow> ('k, SMComponent \<times> bool) sv" where
  "FindSMCompByNameInCache E host =
     andThen (getStateAndMap E) (\<lambda>(_, stateMap). ret (found (map_of stateMap host)))"

definition FindSMCompByName :: "'k senv \<Rightarrow> string \<Rightarrow> ('k, SMComponent \<times> bool) sv" where
  "FindSMCompByName E host =
     andThen (getState E) (\<lambda>st. andThen (deref st) (\<lambda>st.
     ret (found (List.find (\<lambda>v. sc_ID v = host) (sm_Components st)))))"

definition FindSMCompByNid :: "'k senv \<Rightarrow> int \<Rightarrow> ('k, SMComponent \<times> bool) sv" where
  "FindSMCompByNid E nid =
     andThen (getState E) (\<lambda>st. andThen (deref st) (\<lambda>st.
     ret (found (List.find (\<lambda>v. nidInt v = Some nid) (sm_Components st)))))"

definition noEth :: EthIface where
  "noEth = \<lparr>eth_MACAddr = [], eth_CompID = [], eth_IPAddrs = []\<rparr>"

definition FindXnameByIP :: "'k senv \<Rightarrow> string \<Rightarrow> ('k, string \<times> bool) sv" where
  "FindXnameByIP E ip =
     andThen (clockNow E) (\<lambda>now.
     andThen (refreshState E (now - 600)) (\<lambda>st. andThen (deref st) (\<lambda>st.
     case map_of (sm_IPAddrs st) ip of
       Some e \<Rightarrow> ret (eth_CompID e, True)
     | None \<Rightarrow>
         andThen (clockNow E) (\<lambda>now.
         andThen (refreshState E now) (\<lambda>st. andThen (deref st) (\<lambda>st.
         case map_of (sm_IPAddrs st) ip of
           Some e \<Rightarrow> ret (eth_CompID e, True)
         | None \<Rightarrow> ret ([], False)))))))"

subsection \<open>State change notifications (scn.go)\<close>

definition UpdateTimestampKey :: string where
  "UpdateTimestampKey = ''/UpdateTimestamp''"

definition fmtInt :: "int \<Rightarrow> string" where
  "fmtInt = int_str"

text \<open>A notification is answered with 400 when its body is not JSON of the right shape; otherwise
  only the time is stored.\<close>

definition decScn :: "unit dec" where
  "decScn = decStruct
     [(''Components'', field (decList decStr []) (\<lambda>_. []) (\<lambda>_ u. u)),
      (''Enabled'', (\<lambda>j u. ((), case j of JBool _ \<Rightarrow> True | JNull \<Rightarrow> True | _ \<Rightarrow> False))),
      (''Role'', field decStr (\<lambda>_. []) (\<lambda>_ u. u)), (''SubRole'', field decStr (\<lambda>_. []) (\<lambda>_ u. u)),
      (''SoftwareStatus'', field decStr (\<lambda>_. []) (\<lambda>_ u. u)), (''State'', field decStr (\<lambda>_. []) (\<lambda>_ u. u))]"

definition stateChangeNotification :: "'k senv \<Rightarrow> goerr + string \<Rightarrow> ('k, nat) sv" where
  "stateChangeNotification E body =
     (case body of
        Inl _ \<Rightarrow> ret 200
      | Inr p \<Rightarrow>
          if \<not> snd (unmarshal decScn () p) then ret 400
          else andThen (clockNow E) (\<lambda>now.
               andThen (kv_Store E UpdateTimestampKey (fmtInt now)) (\<lambda>_. ret 200)))"

definition checkState :: "'k senv \<Rightarrow> bool \<Rightarrow> ('k, bool) sv" where
  "checkState E force =
     (let start = (\<lambda>ts s. (Inr True, s\<lparr>pending := pending s @ [ts]\<rparr>)) in
      if force then start (-1)
      else andThen (kv_Get E UpdateTimestampKey) (\<lambda>(timestamp, exists, _).
           case parseInt0 timestamp of (err, ts) \<Rightarrow>
             (\<lambda>s. if exists \<and> err = None \<and> smTimeStamp s < ts then start ts s else (Inr False, s))))"

text \<open>A goroutine started by checkState runs.\<close>

definition runPending :: "'k senv \<Rightarrow> nat \<Rightarrow> ('k, unit) sv" where
  "runPending E i s =
     (if i < length (pending s)
      then andThen (refreshState E (pending s ! i)) (\<lambda>_. ret ())
             (s\<lparr>pending := take i (pending s) @ drop (Suc i) (pending s)\<rparr>)
      else ret () s)"

end
