(* ===== verification/BootStore.thy ===== *)
theory BootStore
  imports Service
begin

text \<open>
  Boot data in the key-value store (cmd/boot-script-service/boot_data.go): keys, images, the boot
  data of hosts, and the operations Remove, StoreNew, Store and Update, which go to Postgres when
  the service runs with it. Locks are left out: each operation here is one step.
\<close>

subsection \<open>Keys\<close>

definition kernelImageType :: string where "kernelImageType = ''kernel''"
definition initrdImageType :: string where "initrdImageType = ''initrd''"
definition keyMin :: string where "keyMin = '' ''"
definition keyMax :: string where "keyMax = ''~''"
definition paramsPfx :: string where "paramsPfx = ''/params/''"
definition endpointAccessPfx :: string where "endpointAccessPfx = ''/endpoint-access''"
definition unknownPrefix :: string where "unknownPrefix = ''Unknown-''"
definition DefaultTag :: string where "DefaultTag = ''Default''"
definition GlobalTag :: string where "GlobalTag = ''Global''"

definition makeKey :: "string \<Rightarrow> string \<Rightarrow> string" where
  "makeKey key subkey =
     (let r = (if key \<noteq> [] \<and> hd key \<noteq> CHR ''/'' then CHR ''/'' # key else key) in
      if subkey \<noteq> [] then r @ (if hd subkey \<noteq> CHR ''/'' then ''/'' else []) @ subkey else r)"

text \<open>FNV-64a (hash/fnv), and \<open>%x\<close> of its eight bytes.\<close>

definition fnv64a :: "string \<Rightarrow> 64 word" where
  "fnv64a s = foldl (\<lambda>h c. (xor h (word_of_nat (of_char c))) * 1099511628211) 14695981039346656037 s"

definition hex64 :: "64 word \<Rightarrow> string" where
  "hex64 w = concat (map (\<lambda>i. byte_hex (unat w div 2 ^ (8 * i) mod 256)) (rev [0..<8]))"

definition makeImageKey :: "string \<Rightarrow> string \<Rightarrow> string" where
  "makeImageKey imtype path = makeKey imtype (hex64 (fnv64a path))"

definition nidName :: "int \<Rightarrow> string" where
  "nidName nid = ''nid'' @ int_str nid"

definition extractParamName :: "string \<times> string \<Rightarrow> string" where
  "extractParamName x = (if hasPrefix (fst x) paramsPfx then trimPrefix (fst x) paramsPfx else [])"

subsection \<open>Reading and writing records\<close>

definition storageErr :: "string \<Rightarrow> nat \<Rightarrow> goerr \<Rightarrow> svcerr" where
  "storageErr msg status e = HMSErr ''Storage'' (Wrapped msg e) status"

definition jsonErr :: goerr where "jsonErr = Err ''invalid JSON''"

definition noKey :: "string \<Rightarrow> goerr" where
  "noKey key = Err (''Key '' @ key @ '' does not exist'')"

definition storeData :: "'k senv \<Rightarrow> string \<Rightarrow> json \<Rightarrow> ('k, svcerr option) sv" where
  "storeData E key v =
     andThen (kv_Store E key (jprint v)) (\<lambda>err.
     ret (map_option (storageErr (''Key '' @ key @ '' storage failed'') 500) err))"

definition getImages :: "'k senv \<Rightarrow> string \<Rightarrow> ('k, (string \<times> string) list \<times> goerr option) sv" where
  "getImages E imtype = kv_Range E (makeKey imtype keyMin) (makeKey imtype keyMax)"

definition unknownKeys :: "'k senv \<Rightarrow> ('k, (string \<times> string) list \<times> goerr option) sv" where
  "unknownKeys E = kv_Range E (paramsPfx @ unknownPrefix @ keyMin) (paramsPfx @ unknownPrefix @ keyMax)"

definition getTags :: "'k senv \<Rightarrow> ('k, (string \<times> string) list \<times> goerr option) sv" where
  "getTags E = kv_Range E (paramsPfx @ keyMin) (paramsPfx @ keyMax)"

fun imageLookup :: "string \<Rightarrow> (string \<times> string) list \<Rightarrow> string \<times> ImageData" where
  "imageLookup path [] = ([], noImage)"
| "imageLookup path ((key, v) # kvl) =
     (case readImage v of (imdata, ok) \<Rightarrow>
        if ok \<and> im_Path imdata = path then (key, imdata) else imageLookup path kvl)"

text \<open>The image cache is a second in-memory store; nothing is ever stored in it.\<close>

definition getImage :: "'k senv \<Rightarrow> string \<Rightarrow> string \<Rightarrow> ('k, ImageData \<times> svcerr option) sv" where
  "getImage E imtype subkey s =
     (let key = makeKey imtype subkey;
          lookupErr = (\<lambda>e. Some (storageErr (''Error looking up key '' @ key) 500 e));
          decode = (\<lambda>v. case readImage v of (im, ok) \<Rightarrow> ret (im, if ok then None else lookupErr jsonErr)) in
      (case map_of (imageCache s) key of
         Some v \<Rightarrow> decode v
       | None \<Rightarrow>
           andThen (kv_Get E key) (\<lambda>(v, exists, err).
           case err of
             Some e \<Rightarrow> ret (noImage, lookupErr e)
           | None \<Rightarrow> if exists then decode v else ret (noImage, lookupErr (noKey key)))) s)"

definition getImageInfo :: "'k senv \<Rightarrow> string \<Rightarrow> ('k, ImageData list) sv" where
  "getImageInfo E imtype =
     andThen (getImages E imtype) (\<lambda>(kvl, err).
     ret (if err = None then map fst (filter snd (map (\<lambda>(_, v). readImage v) kvl)) else []))"

definition GetKernelInfo :: "'k senv \<Rightarrow> ('k, ImageData list) sv" where
  "GetKernelInfo E = getImageInfo E kernelImageType"

definition GetInitrdInfo :: "'k senv \<Rightarrow> ('k, ImageData list) sv" where
  "GetInitrdInfo E = getImageInfo E initrdImageType"

definition imageFind :: "'k senv \<Rightarrow> string \<Rightarrow> string \<Rightarrow> ('k, string) sv" where
  "imageFind E path imtype =
     andThen (getImages E imtype) (\<lambda>(kvl, _). ret (fst (imageLookup path kvl)))"

definition imageStore :: "'k senv \<Rightarrow> string \<Rightarrow> string \<Rightarrow> ('k, string) sv" where
  "imageStore E path imtype =
     andThen (getImages E imtype) (\<lambda>(kvl, err).
     let k = (if err = None then fst (imageLookup path kvl) else []) in
     if k \<noteq> [] then ret k
     else
       let key = makeImageKey imtype path in
       andThen (storeData E key (imageDataJson \<lparr>im_Path = path, im_Params = []\<rparr>)) (\<lambda>err.
       ret (if err = None then key else [])))"

subsection \<open>The boot data of a host\<close>

definition lookupHost :: "'k senv \<Rightarrow> string \<Rightarrow> ('k, BootDataStore \<times> svcerr option) sv" where
  "lookupHost E name =
     (let key = paramsPfx @ name;
          notFound = (\<lambda>e. Some (storageErr (''Error looking up '' @ name) 404 e)) in
      andThen (kv_Get E key) (\<lambda>(v, exists, err).
      case err of
        Some e \<Rightarrow> ret (noBootDataStore, notFound e)
      | None \<Rightarrow>
          if \<not> exists then ret (noBootDataStore, notFound (noKey key))
          else (case readStore v of (bds, ok) \<Rightarrow> ret (bds, if ok then None else notFound jsonErr))))"

definition bdConvert :: "'k senv \<Rightarrow> BootDataStore \<Rightarrow> ('k, BootData) sv" where
  "bdConvert E bds =
     (let image = (\<lambda>key. if key \<noteq> []
                   then andThen (getImage E key []) (\<lambda>(im, err). ret (if err = None then im else noImage))
                   else ret noImage) in
      andThen (image (ds_Kernel bds)) (\<lambda>k.
      andThen (image (ds_Initrd bds)) (\<lambda>i.
      ret \<lparr>bd_Params = ds_Params bds, bd_Kernel = k, bd_Initrd = i, bd_CloudInit = ds_CloudInit bds,
           bd_ReferralToken = ds_ReferralToken bds\<rparr>)))"

definition orElse :: "('k, BootDataStore \<times> svcerr option) sv \<Rightarrow> bool \<Rightarrow> ('k, BootDataStore \<times> svcerr option) sv \<Rightarrow>
    ('k, BootDataStore \<times> svcerr option) sv" where
  "orElse m c alt = andThen m (\<lambda>(bds, err). if err \<noteq> None \<and> c then alt else ret (bds, err))"

definition lookup :: "'k senv \<Rightarrow> string \<Rightarrow> string \<Rightarrow> string \<Rightarrow> string \<Rightarrow> ('k, BootData) sv" where
  "lookup E name altName role defaultTag =
     andThen
       (orElse
         (orElse
           (orElse (lookupHost E name) (name \<noteq> altName \<and> altName \<noteq> []) (lookupHost E altName))
           (role \<noteq> []) (lookupHost E role))
         (defaultTag \<noteq> []) (lookupHost E defaultTag))
       (\<lambda>(bds, err). if err = None then bdConvert E bds else ret noBootData)"

definition LookupBootData :: "'k senv \<Rightarrow> string \<Rightarrow> ('k, BootData \<times> svcerr option) sv" where
  "LookupBootData E name =
     andThen (lookupHost E name) (\<lambda>(bds, err).
     case err of Some e \<Rightarrow> ret (noBootData, Some e)
               | None \<Rightarrow> andThen (bdConvert E bds) (\<lambda>bd. ret (bd, None)))"

definition LookupByRole :: "'k senv \<Rightarrow> string \<Rightarrow> ('k, BootData \<times> svcerr option) sv" where
  "LookupByRole E role = LookupBootData E role"

definition LookupGlobalData :: "'k senv \<Rightarrow> ('k, BootData \<times> svcerr option) sv" where
  "LookupGlobalData E = LookupByRole E GlobalTag"

definition LookupComponentByName :: "'k senv \<Rightarrow> string \<Rightarrow> ('k, SMComponent) sv" where
  "LookupComponentByName E name = andThen (FindSMCompByNameInCache E name) (\<lambda>(comp, _). ret comp)"

text \<open>The result of the three lookups with Postgres: the first row, images by their paths.\<close>

definition fromSQL :: "(goerr + BootParams list) \<Rightarrow> BootData" where
  "fromSQL r =
     (case r of
        Inr (bp # _) \<Rightarrow> noBootData\<lparr>bd_Kernel := \<lparr>im_Path = Kernel bp, im_Params = []\<rparr>,
                          bd_Initrd := \<lparr>im_Path = Initrd bp, im_Params = []\<rparr>, bd_Params := Params bp\<rparr>
      | _ \<Rightarrow> noBootData)"

definition idAndRole :: "string \<Rightarrow> SMComponent \<times> bool \<Rightarrow> string \<times> string" where
  "idAndRole name c = (if snd c then (sc_ID (fst c), sc_Role (fst c)) else (name, []))"

definition LookupByName :: "'k senv \<Rightarrow> string \<Rightarrow> ('k, BootData \<times> SMComponent) sv" where
  "LookupByName E name =
     andThen (FindSMCompByName E name) (\<lambda>c.
     case idAndRole name c of (comp_name, role) \<Rightarrow>
       if useSQL E
       then andThen (inSQL (GetBootParamsByName (pgEnv E) [name])) (\<lambda>r. ret (fromSQL r, fst c))
       else andThen (lookup E comp_name name role DefaultTag) (\<lambda>bd. ret (bd, fst c)))"

definition LookupByMAC :: "'k senv \<Rightarrow> string \<Rightarrow> ('k, BootData \<times> SMComponent) sv" where
  "LookupByMAC E mac =
     andThen (FindSMCompByMAC E mac) (\<lambda>c.
     case idAndRole mac c of (comp_name, role) \<Rightarrow>
       if useSQL E
       then andThen (inSQL (GetBootParamsByMac (pgEnv E) [mac])) (\<lambda>r. ret (fromSQL r, fst c))
       else andThen (lookup E comp_name mac role DefaultTag) (\<lambda>bd. ret (bd, fst c)))"

definition LookupByNid :: "'k senv \<Rightarrow> int \<Rightarrow> ('k, BootData \<times> SMComponent) sv" where
  "LookupByNid E nid =
     andThen (FindSMCompByNid E nid) (\<lambda>c.
     case idAndRole (nidName nid) c of (comp_name, role) \<Rightarrow>
       if useSQL E
       then andThen (inSQL (GetBootParamsByNid (pgEnv E) [word_of_int nid])) (\<lambda>r. ret (fromSQL r, fst c))
       else andThen (lookup E comp_name (nidName nid) role DefaultTag) (\<lambda>bd. ret (bd, fst c)))"

definition GetNamesAndValues :: "'k senv \<Rightarrow> ('k, (string \<times> string) list) sv" where
  "GetNamesAndValues E =
     andThen (getTags E) (\<lambda>(kvl, err).
     ret (if err = None then foldl (\<lambda>m x. AList.update (extractParamName x) (snd x) m) [] kvl else []))"

definition GetNames :: "'k senv \<Rightarrow> ('k, string list) sv" where
  "GetNames E =
     andThen (getTags E) (\<lambda>(kvl, err). ret (if err = None then map extractParamName kvl else []))"

type_synonym images = "(string \<times> ImageData) list"

definition cachedImage :: "'k senv \<Rightarrow> string \<Rightarrow> images \<Rightarrow> ('k, ImageData \<times> images) sv" where
  "cachedImage E key images =
     (if key = [] then ret (noImage, images)
      else (case map_of images key of
              Some value \<Rightarrow> ret (value, images)
            | None \<Rightarrow> andThen (getImage E key []) (\<lambda>(im, err).
                      ret (if err = None then (im, AList.update key im images) else (noImage, images)))))"

definition bdConvertUsingImageCache :: "'k senv \<Rightarrow> BootDataStore \<Rightarrow> images \<times> images \<Rightarrow>
    ('k, BootData \<times> images \<times> images) sv" where
  "bdConvertUsingImageCache E bds caches =
     (case caches of (kernelImages, initrdImages) \<Rightarrow>
        andThen (cachedImage E (ds_Kernel bds) kernelImages) (\<lambda>(k, kernelImages').
        andThen (cachedImage E (ds_Initrd bds) initrdImages) (\<lambda>(i, initrdImages').
        ret (\<lparr>bd_Params = ds_Params bds, bd_Kernel = k, bd_Initrd = i, bd_CloudInit = ds_CloudInit bds,
              bd_ReferralToken = []\<rparr>, kernelImages', initrdImages'))))"

definition ToBootData :: "'k senv \<Rightarrow> string \<Rightarrow> images \<times> images \<Rightarrow>
    ('k, (BootData \<times> svcerr option) \<times> images \<times> images) sv" where
  "ToBootData E value caches =
     (case readStore value of (bds, ok) \<Rightarrow>
        if \<not> ok then ret ((noBootData, Some (storageErr (''Error parsing '' @ value) 404 jsonErr)), caches)
        else andThen (bdConvertUsingImageCache E bds caches) (\<lambda>(bd, caches'). ret ((bd, None), caches')))"

subsection \<open>Removing\<close>

definition firstErr :: "svcerr option \<Rightarrow> svcerr option \<Rightarrow> svcerr option" where
  "firstErr e1 e2 = (if e1 = None then e2 else e1)"

definition removeHost :: "'k senv \<Rightarrow> string \<Rightarrow> ('k, svcerr option) sv" where
  "removeHost E h =
     (let key = paramsPfx @ h;
          wrap = map_option (storageErr (''Key '' @ h @ '' deletion'') 500) in
      andThen (kv_Get E key) (\<lambda>(_, exists, err).
      if \<not> exists then ret (wrap (Some (noKey key)))
      else (case err of
              Some e \<Rightarrow> ret (wrap (Some e))
            | None \<Rightarrow> andThen (kv_Delete E key) (\<lambda>err. ret (wrap err)))))"

definition cacheDelete :: "string \<Rightarrow> ('k, unit) sv" where
  "cacheDelete key s = (Inr (), s\<lparr>imageCache := filter (\<lambda>(k, v). k \<noteq> key) (imageCache s)\<rparr>)"

text \<open>One boot data entry loses its reference to the image at \<open>key\<close>.\<close>

definition unrefStep :: "'k senv \<Rightarrow> string \<Rightarrow> string \<Rightarrow> string \<times> string \<Rightarrow> svcerr option \<Rightarrow> ('k, svcerr option) sv" where
  "unrefStep E imtype key x err =
     (case readStore (snd x) of (bds, ok) \<Rightarrow>
        if \<not> ok then ret err
        else if imtype = kernelImageType \<and> ds_Kernel bds = key
          then storeData E (fst x) (bootDataStoreJson (bds\<lparr>ds_Kernel := []\<rparr>))
        else if imtype = initrdImageType \<and> ds_Initrd bds = key
          then storeData E (fst x) (bootDataStoreJson (bds\<lparr>ds_Initrd := []\<rparr>))
        else ret err)"

definition removeImage :: "'k senv \<Rightarrow> string \<Rightarrow> string \<Rightarrow> ('k, svcerr option) sv" where
  "removeImage E path imtype =
     (if path = [] then ret None
      else
        andThen (getImages E imtype) (\<lambda>(kvl, _).
        let key = fst (imageLookup path kvl) in
        if key = [] then ret None
        else
          andThen (kv_Delete E key) (\<lambda>err.
          andThen (cacheDelete key) (\<lambda>_.
          case err of
            Some e \<Rightarrow> ret (Some (storageErr (''Key '' @ key @ '' deletion'') 500 e))
          | None \<Rightarrow>
              andThen (getTags E) (\<lambda>(kvl, err).
              case err of
                Some e \<Rightarrow> ret (Some (GoErr e))
              | None \<Rightarrow> foldEach (unrefStep E imtype key) kvl None)))))"

definition removeMac :: "'k senv \<Rightarrow> string \<Rightarrow> svcerr option \<Rightarrow> ('k, svcerr option) sv" where
  "removeMac E m err =
     andThen (FindSMCompByMAC E m) (\<lambda>(comp, ok).
     if ok then andThen (removeHost E (sc_ID comp)) (\<lambda>e. ret (firstErr err e)) else ret err)"

definition removeNid :: "'k senv \<Rightarrow> int32 \<Rightarrow> svcerr option \<Rightarrow> ('k, svcerr option) sv" where
  "removeNid E n err =
     andThen (FindSMCompByNid E (sint n)) (\<lambda>(comp, ok).
     andThen (removeHost E (if ok then sc_ID comp else nidName (sint n))) (\<lambda>e. ret (firstErr err e)))"

definition Remove :: "'k senv \<Rightarrow> BootParams \<Rightarrow> ('k, svcerr option) sv" where
  "Remove E bp =
     (if useSQL E then
        andThen (inSQL (Delete (pgEnv E) bp)) (\<lambda>r. ret (case r of Inl e \<Rightarrow> Some (GoErr e) | Inr _ \<Rightarrow> None))
      else
        andThen (foldEach (\<lambda>h err. andThen (removeHost E h) (\<lambda>e. ret (firstErr err e))) (Hosts bp) None) (\<lambda>err.
        andThen (foldEach (removeMac E) (Macs bp) err) (\<lambda>err.
        andThen (foldEach (removeNid E) (Nids bp) err) (\<lambda>err.
        andThen (removeImage E (Kernel bp) kernelImageType) (\<lambda>e.
        andThen (removeImage E (Initrd bp) initrdImageType) (\<lambda>e2.
        ret (firstErr (firstErr err e) e2)))))))"

subsection \<open>Storing\<close>

text \<open>Runs \<open>f\<close> on the elements until it returns an error.\<close>

fun untilErr :: "('a \<Rightarrow> ('k, svcerr option) sv) \<Rightarrow> 'a list \<Rightarrow> ('k, svcerr option) sv" where
  "untilErr f [] = ret None"
| "untilErr f (x # xs) = andThen (f x) (\<lambda>err. if err = None then untilErr f xs else ret err)"

definition macKey :: "'k senv \<Rightarrow> string \<Rightarrow> ('k, string) sv" where
  "macKey E m = andThen (FindSMCompByMAC E m) (\<lambda>(comp, ok). ret (paramsPfx @ (if ok then sc_ID comp else m)))"

definition nidKey :: "'k senv \<Rightarrow> int32 \<Rightarrow> ('k, string) sv" where
  "nidKey E n = andThen (FindSMCompByNid E (sint n)) (\<lambda>(comp, ok).
     ret (paramsPfx @ (if ok then sc_ID comp else nidName (sint n))))"

definition cannotStore :: "string \<Rightarrow> svcerr" where
  "cannotStore path = GoErr (Err (''Cannot store image path '' @ path))"

text \<open>The image of a path, if one is given; \<open>Inl\<close> when it cannot be stored.\<close>

definition storeImage :: "'k senv \<Rightarrow> string \<Rightarrow> string \<Rightarrow> ('k, svcerr + string) sv" where
  "storeImage E path imtype =
     (if path = [] then ret (Inr [])
      else andThen (imageStore E path imtype) (\<lambda>k. ret (if k = [] then Inl (cannotStore path) else Inr k)))"

definition storeRecords :: "'k senv \<Rightarrow> BootParams \<Rightarrow> string \<Rightarrow> string \<Rightarrow> ('k, svcerr option \<times> string) sv" where
  "storeRecords E bp kernel_id initrd_id =
     andThen (uuidNew E) (\<lambda>referralToken.
     let bd = bootDataStoreJson \<lparr>ds_Params = Params bp, ds_Kernel = kernel_id, ds_Initrd = initrd_id,
                ds_CloudInit = bpCloudInit bp, ds_ReferralToken = referralToken\<rparr> in
     if length (Hosts bp) > 0 then
       andThen (untilErr (\<lambda>h. storeData E (paramsPfx @ h) bd) (Hosts bp)) (\<lambda>err. ret (err, referralToken))
     else if length (Macs bp) > 0 then
       andThen (untilErr (\<lambda>m. andThen (macKey E m) (\<lambda>key. storeData E key bd)) (Macs bp)) (\<lambda>err. ret (err, referralToken))
     else if length (Nids bp) > 0 then
       andThen (untilErr (\<lambda>n. andThen (nidKey E n) (\<lambda>key. storeData E key bd)) (Nids bp)) (\<lambda>err. ret (err, referralToken))
     else if kernel_id \<noteq> [] then
       andThen (storeData E kernel_id (imageDataJson \<lparr>im_Path = Kernel bp, im_Params = Params bp\<rparr>)) (\<lambda>err. ret (err, []))
     else if initrd_id \<noteq> [] then
       andThen (storeData E initrd_id (imageDataJson \<lparr>im_Path = Initrd bp, im_Params = Params bp\<rparr>)) (\<lambda>err. ret (err, []))
     else ret (None, []))"

definition Store :: "'k senv \<Rightarrow> BootParams \<Rightarrow> ('k, svcerr option \<times> string) sv" where
  "Store E bp =
     (if useSQL E then
        andThen (inSQL (Set (pgEnv E) bp)) (\<lambda>r.
        case r of Inl e \<Rightarrow> ret (Some (GoErr e), [])
                | Inr _ \<Rightarrow> andThen (uuidNew E) (\<lambda>u. ret (None, u)))
      else
        andThen (storeImage E (Kernel bp) kernelImageType) (\<lambda>k.
        case k of Inl e \<Rightarrow> ret (Some e, [])
        | Inr kernel_id \<Rightarrow>
            andThen (storeImage E (Initrd bp) initrdImageType) (\<lambda>i.
            case i of Inl e \<Rightarrow> ret (Some e, [])
            | Inr initrd_id \<Rightarrow> storeRecords E bp kernel_id initrd_id)))"

text \<open>The first element for which \<open>f\<close> says so, or else \<open>None\<close>.\<close>

fun findFirst :: "('a \<Rightarrow> ('k, bool) sv) \<Rightarrow> 'a list \<Rightarrow> ('k, 'a option) sv" where
  "findFirst f [] = ret None"
| "findFirst f (x # xs) = andThen (f x) (\<lambda>b. if b then ret (Some x) else findFirst f xs)"

definition hostKnown :: "'k senv \<Rightarrow> string \<Rightarrow> ('k, bool) sv" where
  "hostKnown E h = andThen (lookupHost E h) (\<lambda>(_, err). ret (err = None))"

definition compKnown :: "'k senv \<Rightarrow> SMComponent \<times> bool \<Rightarrow> ('k, bool) sv" where
  "compKnown E c = (if snd c then hostKnown E (sc_ID (fst c)) else ret False)"

definition itemText :: "('a \<Rightarrow> string) \<Rightarrow> 'a option \<Rightarrow> string" where
  "itemText f x = (case x of None \<Rightarrow> [] | Some y \<Rightarrow> f y)"

text \<open>What of a request is stored already, as the text of the error message; empty if nothing.\<close>

definition existingItem :: "'k senv \<Rightarrow> BootParams \<Rightarrow> ('k, string) sv" where
  "existingItem E bp =
     (if length (Hosts bp) > 0 then
        andThen (findFirst (hostKnown E) (Hosts bp)) (\<lambda>x. ret (itemText id x))
      else if length (Macs bp) > 0 then
        andThen (findFirst (\<lambda>m. andThen (FindSMCompByMAC E m) (compKnown E)) (Macs bp)) (\<lambda>x. ret (itemText id x))
      else if length (Nids bp) > 0 then
        andThen (findFirst (\<lambda>n. andThen (FindSMCompByNid E (sint n)) (compKnown E)) (Nids bp))
          (\<lambda>x. ret (itemText (\<lambda>n. int_str (sint n)) x))
      else if Kernel bp \<noteq> [] then
        andThen (imageFind E (Kernel bp) kernelImageType) (\<lambda>k. ret (if k \<noteq> [] then Kernel bp else []))
      else if Initrd bp \<noteq> [] then
        andThen (imageFind E (Initrd bp) initrdImageType) (\<lambda>k. ret (if k \<noteq> [] then Initrd bp else []))
      else ret [])"

definition StoreNew :: "'k senv \<Rightarrow> BootParams \<Rightarrow> ('k, svcerr option \<times> string) sv" where
  "StoreNew E bp =
     (if useSQL E then
        andThen (inSQL (Add (pgEnv E) bp)) (\<lambda>r.
        case r of Inl e \<Rightarrow> ret (Some (GoErr e), [])
                | Inr _ \<Rightarrow> andThen (uuidNew E) (\<lambda>u. ret (None, u)))
      else
        andThen (existingItem E bp) (\<lambda>item.
        if item \<noteq> [] then ret (Some (GoErr (Err (''Already exists: '' @ item))), [])
        else Store E bp))"

subsection \<open>Updating\<close>

text \<open>One part of the cloud-init data: given data replaces nothing or is merged into what is there;
  when the merge fails the old data stays.\<close>

definition updateCloudData :: "'k senv \<Rightarrow> CloudDataType \<Rightarrow> CloudDataType \<Rightarrow> CloudDataType \<times> bool" where
  "updateCloudData E existing merge =
     (case merge of
        None \<Rightarrow> (existing, False)
      | Some m \<Rightarrow>
          if m = [] then (existing, False)
          else if existing = None \<or> existing = Some [] then (merge, True)
          else (case mergePatch E (mapJson existing) (JObj m) of
                  None \<Rightarrow> (existing, False)
                | Some patched \<Rightarrow>
                    (let changed = (iface (mapJson existing) \<noteq> iface patched);
                         (temp, ok) = decMap patched None in
                     (if ok then temp else existing, changed))))"

definition somePhoneHome :: "PhoneHome \<Rightarrow> bool" where
  "somePhoneHome p \<longleftrightarrow> PublicKeyDSA p \<noteq> [] \<or> PublicKeyRSA p \<noteq> [] \<or> PublicKeyECDSA p \<noteq> [] \<or>
     PublicKeyED25519 p \<noteq> [] \<or> InstanceID p \<noteq> [] \<or> Hostname p \<noteq> [] \<or> FQDN p \<noteq> []"

definition updateCloudInit :: "'k senv \<Rightarrow> CloudInit \<Rightarrow> CloudInit \<Rightarrow> CloudInit \<times> bool" where
  "updateCloudInit E d p =
     (case updateCloudData E (MetaData d) (MetaData p) of (md, c1) \<Rightarrow>
      case updateCloudData E (UserData d) (UserData p) of (ud, c2) \<Rightarrow>
      (let d' = d\<lparr>MetaData := md, UserData := ud\<rparr> in
       if somePhoneHome (ciPhoneHome p) \<and> ciPhoneHome p \<noteq> ciPhoneHome d
       then (d'\<lparr>ciPhoneHome := ciPhoneHome p\<rparr>, True) else (d', c1 \<or> c2)))"

type_synonym hostmap = "(string \<times> BootDataStore) list"

definition checkHost :: "'k senv \<Rightarrow> string \<Rightarrow> hostmap \<Rightarrow> ('k, svcerr option \<times> hostmap) sv" where
  "checkHost E h hostMap =
     (if map_of hostMap h \<noteq> None then ret (None, hostMap)
      else andThen (lookupHost E h) (\<lambda>(bd, err).
           ret (if err = None then (None, AList.update h bd hostMap) else (err, hostMap))))"

definition checkComp :: "'k senv \<Rightarrow> SMComponent \<times> bool \<Rightarrow> string \<Rightarrow> hostmap \<Rightarrow> ('k, svcerr option \<times> hostmap) sv" where
  "checkComp E c other hostMap =
     (if \<not> snd c then ret (None, hostMap)
      else andThen (checkHost E (sc_ID (fst c)) hostMap) (\<lambda>(err, hm).
           if err = None then ret (None, hm) else checkHost E other hm))"

fun collect :: "('a \<Rightarrow> hostmap \<Rightarrow> ('k, svcerr option \<times> hostmap) sv) \<Rightarrow> 'a list \<Rightarrow> hostmap \<Rightarrow>
    ('k, svcerr option \<times> hostmap) sv" where
  "collect f [] hm = ret (None, hm)"
| "collect f (x # xs) hm =
     andThen (f x hm) (\<lambda>(err, hm'). if err = None then collect f xs hm' else ret (err, hm'))"

definition mergeHost :: "'k senv \<Rightarrow> BootParams \<Rightarrow> string \<Rightarrow> string \<Rightarrow> BootDataStore \<Rightarrow> BootDataStore \<times> bool" where
  "mergeHost E bp kernel_id initrd_id bd =
     (let u1 = (Params bp \<noteq> [] \<and> Params bp \<noteq> ds_Params bd);
          bd1 = (if u1 then bd\<lparr>ds_Params := Params bp\<rparr> else bd);
          u2 = (Kernel bp \<noteq> [] \<and> kernel_id \<noteq> ds_Kernel bd1);
          bd2 = (if u2 then bd1\<lparr>ds_Kernel := kernel_id\<rparr> else bd1);
          u3 = (Initrd bp \<noteq> [] \<and> initrd_id \<noteq> ds_Initrd bd2);
          bd3 = (if u3 then bd2\<lparr>ds_Initrd := initrd_id\<rparr> else bd2) in
      case updateCloudInit E (ds_CloudInit bd3) (bpCloudInit bp) of (ci, u4) \<Rightarrow>
        (bd3\<lparr>ds_CloudInit := ci\<rparr>, u1 \<or> u2 \<or> u3 \<or> u4))"

definition updateHostStep :: "'k senv \<Rightarrow> BootParams \<Rightarrow> string \<Rightarrow> string \<Rightarrow> string \<times> BootDataStore \<Rightarrow>
    svcerr option \<Rightarrow> ('k, svcerr option) sv" where
  "updateHostStep E bp kernel_id initrd_id x err =
     (case mergeHost E bp kernel_id initrd_id (snd x) of (bd, upd) \<Rightarrow>
        if upd then storeData E (paramsPfx @ fst x) (bootDataStoreJson bd) else ret err)"

definition optImage :: "'k senv \<Rightarrow> string \<Rightarrow> string \<Rightarrow> ('k, string) sv" where
  "optImage E path imtype = (if path = [] then ret [] else imageStore E path imtype)"

definition collectHosts :: "'k senv \<Rightarrow> BootParams \<Rightarrow> ('k, svcerr option \<times> hostmap) sv" where
  "collectHosts E bp =
     andThen (collect (checkHost E) (Hosts bp) []) (\<lambda>(err, hm).
     if err \<noteq> None then ret (err, hm)
     else
       andThen (collect (\<lambda>m hm. andThen (FindSMCompByMAC E m) (\<lambda>c. checkComp E c m hm)) (Macs bp) hm) (\<lambda>(err, hm).
       if err \<noteq> None then ret (err, hm)
       else collect (\<lambda>n hm. andThen (FindSMCompByNid E (sint n)) (\<lambda>c. checkComp E c (nidName (sint n)) hm)) (Nids bp) hm))"

definition svcUpdate :: "'k senv \<Rightarrow> BootParams \<Rightarrow> ('k, svcerr option) sv" where
  "svcUpdate E bp =
     (if useSQL E then
        andThen (inSQL (Update (pgEnv E) bp)) (\<lambda>r. ret (case r of Inl e \<Rightarrow> Some (GoErr e) | Inr _ \<Rightarrow> None))
      else
        andThen (optImage E (Kernel bp) kernelImageType) (\<lambda>kernel_id.
        andThen (optImage E (Initrd bp) initrdImageType) (\<lambda>initrd_id.
        andThen (collectHosts E bp) (\<lambda>(err, hostMap).
        if err \<noteq> None then ret err
        else if length hostMap > 0 then
          andThen (rangeGo E hostMap) (\<lambda>entries.
          foldEach (updateHostStep E bp kernel_id initrd_id) entries None)
        else if kernel_id \<noteq> [] then
          storeData E kernel_id (imageDataJson \<lparr>im_Path = Kernel bp, im_Params = Params bp\<rparr>)
        else if initrd_id \<noteq> [] then
          storeData E initrd_id (imageDataJson \<lparr>im_Path = Initrd bp, im_Params = Params bp\<rparr>)
        else ret None))))"

end
