(* ===== verification/Accesses.thy ===== *)
theory Accesses
  imports BootStore
begin

text \<open>
  The remaining operations of boot_data.go: the history of endpoint accesses in the key-value store,
  and the query that groups boot parameters of Postgres by configuration (SqlGetBootParams).
\<close>

definition accessKey :: "string \<Rightarrow> string \<Rightarrow> string" where
  "accessKey name accessType = endpointAccessPfx @ ''/'' @ name @ ''/'' @ accessType"

definition updateEndpointAccessed :: "'k senv \<Rightarrow> string \<Rightarrow> string \<Rightarrow> ('k, unit) sv" where
  "updateEndpointAccessed E name accessType =
     (if useSQL E then andThen (inSQL (LogEndpointAccess (pgEnv E) name accessType)) (\<lambda>_. ret ())
      else andThen (clockNow E) (\<lambda>now.
           andThen (kv_Store E (accessKey name accessType) (int_str now)) (\<lambda>_. ret ())))"

text \<open>The keys with a prefix are those from the prefix up to the prefix with its last byte increased.\<close>

definition prefixEnd :: "string \<Rightarrow> string" where
  "prefixEnd prefix = butlast prefix @ utf8 ((of_char (last prefix) + 1) mod 256)"

definition searchKeyspace :: "'k senv \<Rightarrow> string \<Rightarrow> ('k, (string \<times> string) list \<times> goerr option) sv" where
  "searchKeyspace E prefix =
     (if prefix = [] then fail IndexOutOfRange else kv_Range E prefix (prefixEnd prefix))"

definition accessOf :: "string \<times> string \<Rightarrow> EndpointAccess option" where
  "accessOf kv =
     (let endpointParts = strSplit CHR ''/'' (fst kv); n = length endpointParts in
      if n < 2 then None
      else Some \<lparr>ea_Name = endpointParts ! (n - 2), ea_Endpoint = endpointParts ! (n - 1),
                 ea_LastEpoch = snd (parseInt0 (snd kv))\<rparr>)"

definition getAccessesForPrefix :: "'k senv \<Rightarrow> string \<Rightarrow> ('k, EndpointAccess list \<times> goerr option) sv" where
  "getAccessesForPrefix E prefix =
     andThen (searchKeyspace E prefix) (\<lambda>(kvs, searchErr).
     case searchErr of
       Some e \<Rightarrow> ret ([], Some (Wrapped ''failed to search keyspace'' e))
     | None \<Rightarrow> (case those (map accessOf kvs) of
                 None \<Rightarrow> fail IndexOutOfRange
               | Some as \<Rightarrow> ret (as, None)))"

definition getEndpointAccessed :: "'k senv \<Rightarrow> string \<Rightarrow> string \<Rightarrow> ('k, int \<times> goerr option) sv" where
  "getEndpointAccessed E name endpointType =
     (let key = accessKey name endpointType in
      andThen (kv_Get E key) (\<lambda>(timestampString, exists, err).
      case err of
        Some e \<Rightarrow> ret (-1, Some (Wrapped (''failed to retreive last access timestamp at key '' @ key) e))
      | None \<Rightarrow>
          if \<not> exists then ret (0, None)
          else (case parseInt0 timestampString of
                  (Some _, _) \<Rightarrow> ret (-1, Some (Wrapped ''failed to convert timestamp to int'' (Err ''invalid syntax'')))
                | (None, ts) \<Rightarrow> ret (ts, None))))"

definition EndpointTypes :: "string list" where
  "EndpointTypes = [''bootscript'', ''user-data'']"

definition SearchEndpointAccessed :: "'k senv \<Rightarrow> string \<Rightarrow> string \<Rightarrow> ('k, EndpointAccess list \<times> goerr option) sv" where
  "SearchEndpointAccessed E name endpointType =
     (if name = [] \<and> endpointType = [] then getAccessesForPrefix E (endpointAccessPfx @ ''/'')
      else if name \<noteq> [] \<and> endpointType = [] then getAccessesForPrefix E (endpointAccessPfx @ ''/'' @ name @ ''/'')
      else if name \<noteq> [] \<and> endpointType \<noteq> [] then
        andThen (getEndpointAccessed E name endpointType) (\<lambda>(epoch, err).
        if err \<noteq> None then ret ([], err)
        else if epoch = 0 \<and> \<not> list_ex (equalFold endpointType) EndpointTypes then ret ([], None)
        else ret ([\<lparr>ea_Name = name, ea_Endpoint = endpointType, ea_LastEpoch = epoch\<rparr>], None))
      else ret ([], Some (Err (''invalid search combination of name ('' @ name @ '') and endpoint ('' @ endpointType @ '')''))))"

subsection \<open>Boot parameters grouped by configuration\<close>

type_synonym bcfg = "string \<times> string \<times> string"

record bid =
  bid_Macs :: "string list"
  bid_Hosts :: "string list"
  bid_Nids :: "int32 list"

definition noBid :: bid where
  "noBid = \<lparr>bid_Macs = [], bid_Hosts = [], bid_Nids = []\<rparr>"

definition cfgKey :: "BootParams \<Rightarrow> bcfg" where
  "cfgKey p = (Params p, Kernel p, Initrd p)"

text \<open>A set of boot parameters is entered under its configuration; \<open>add\<close> appends what it names.\<close>

definition enterCfg :: "(BootParams \<Rightarrow> bid \<Rightarrow> bid) \<Rightarrow> (bcfg \<times> bid) list \<Rightarrow> BootParams \<Rightarrow> (bcfg \<times> bid) list" where
  "enterCfg add m p =
     AList.update (cfgKey p) (add p (case map_of m (cfgKey p) of None \<Rightarrow> noBid | Some b \<Rightarrow> b)) m"

definition addMacs :: "BootParams \<Rightarrow> bid \<Rightarrow> bid" where
  "addMacs p b = b\<lparr>bid_Macs := bid_Macs b @ Macs p\<rparr>"

definition addHosts :: "BootParams \<Rightarrow> bid \<Rightarrow> bid" where
  "addHosts p b = b\<lparr>bid_Hosts := bid_Hosts b @ Hosts p\<rparr>"

definition addNids :: "BootParams \<Rightarrow> bid \<Rightarrow> bid" where
  "addNids p b = b\<lparr>bid_Nids := bid_Nids b @ Nids p\<rparr>"

definition groupCfgParams :: "BootParams list \<Rightarrow> BootParams list \<Rightarrow> BootParams list \<Rightarrow> (bcfg \<times> bid) list" where
  "groupCfgParams byMac byName byNid =
     foldl (enterCfg addNids) (foldl (enterCfg addHosts) (foldl (enterCfg addMacs) [] byMac) byName) byNid"

definition cfgResult :: "bcfg \<times> bid \<Rightarrow> BootParams" where
  "cfgResult x =
     (case x of ((params, kern, initrd), ids) \<Rightarrow>
        noBootParams\<lparr>Params := params, Kernel := kern, Initrd := initrd,
          Macs := bid_Macs ids, Hosts := bid_Hosts ids, Nids := bid_Nids ids\<rparr>)"

definition SqlGetBootParams :: "pg_env \<Rightarrow> string list \<Rightarrow> string list \<Rightarrow> int32 list \<Rightarrow> BootParams list pg" where
  "SqlGetBootParams P macs xnames nids =
     andThen (mapErr (Wrapped ''Error getting boot parameters for macs'') (GetBootParamsByMac P macs)) (\<lambda>paramsByMac.
     andThen (mapErr (Wrapped ''Error getting boot parameters for names'') (GetBootParamsByName P xnames)) (\<lambda>paramsByName.
     andThen (mapErr (Wrapped ''Error getting boot parameters for nids'') (GetBootParamsByNid P nids)) (\<lambda>paramsByNid.
     andThen (rangeMap P (groupCfgParams paramsByMac paramsByName paramsByNid)) (\<lambda>bcfgToBid.
     ret (map cfgResult bcfgToBid)))))"

end
