(* ===== verification/AccessLog.thy ===== *)
theory AccessLog
  imports Prelude
begin

text \<open>
  What the service relies on in the history of endpoint accesses, whichever store keeps it: an access is recorded
  with the time at which it is logged, and accesses to other names and endpoints stay as they are. Earlier times of the
  same name and endpoint may be kept, as Postgres does, or forgotten, as the key-value store does. The contract is the
  locale \<open>access_log\<close>, interpreted in KvAccess and PgAccessed.
\<close>

text \<open>Accesses one after the other, and whether each can be logged when its turn comes.\<close>

fun logAll :: "(string \<Rightarrow> string \<Rightarrow> 's \<Rightarrow> 's) \<Rightarrow> (string \<times> string) list \<Rightarrow> 's \<Rightarrow> 's" where
  "logAll log [] s = s"
| "logAll log ((n, e) # as) s = logAll log as (log n e s)"

fun allFit :: "(string \<Rightarrow> string \<Rightarrow> 's \<Rightarrow> bool) \<Rightarrow> (string \<Rightarrow> string \<Rightarrow> 's \<Rightarrow> 's) \<Rightarrow> (string \<times> string) list \<Rightarrow> 's \<Rightarrow> bool" where
  "allFit fits log [] s \<longleftrightarrow> True"
| "allFit fits log ((n, e) # as) s \<longleftrightarrow> fits n e s \<and> allFit fits log as (log n e s)"

lemma logAll_append: "logAll log (xs @ ys) s = logAll log ys (logAll log xs s)"
  by (induction xs arbitrary: s) auto

lemma allFit_append: "allFit fits log (xs @ ys) s \<longleftrightarrow> allFit fits log xs s \<and> allFit fits log ys (logAll log xs s)"
  by (induction xs arbitrary: s) auto

locale access_log =
  fixes inv :: "'s \<Rightarrow> bool"
    and accessed :: "'s \<Rightarrow> string \<Rightarrow> string \<Rightarrow> int set"
    and now :: "'s \<Rightarrow> int"
    and fits :: "string \<Rightarrow> string \<Rightarrow> 's \<Rightarrow> bool"
    and log :: "string \<Rightarrow> string \<Rightarrow> 's \<Rightarrow> 's"
  assumes log_inv: "inv s \<Longrightarrow> fits n e s \<Longrightarrow> inv (log n e s)"
    and log_now: "inv s \<Longrightarrow> fits n e s \<Longrightarrow> now s \<in> accessed (log n e s) n e"
    and log_old: "inv s \<Longrightarrow> fits n e s \<Longrightarrow> accessed (log n e s) n e \<subseteq> insert (now s) (accessed s n e)"
    and log_frame: "inv s \<Longrightarrow> fits n e s \<Longrightarrow> (m, f) \<noteq> (n, e) \<Longrightarrow> accessed (log n e s) m f = accessed s m f"
begin

lemma logAll_inv: "inv s \<Longrightarrow> allFit fits log as s \<Longrightarrow> inv (logAll log as s)"
  by (induction as arbitrary: s) (auto simp: log_inv)

lemma logAll_frame:
  "inv s \<Longrightarrow> allFit fits log as s \<Longrightarrow> (m, f) \<notin> set as \<Longrightarrow> accessed (logAll log as s) m f = accessed s m f"
proof (induction as arbitrary: s)
  case (Cons a as)
  obtain n e where a: "a = (n, e)" by (cases a)
  with Cons.prems have "inv (log n e s)" "accessed (log n e s) m f = accessed s m f"
    using log_inv log_frame [of s n e m f] by auto
  with Cons a show ?case by simp
qed simp

text \<open>After any accesses the last one of each name and endpoint is recorded with its time.\<close>

lemma last_access:
  assumes "inv s" and "allFit fits log (xs @ (n, e) # ys) s" and "(n, e) \<notin> set ys"
  shows "now (logAll log xs s) \<in> accessed (logAll log (xs @ (n, e) # ys) s) n e"
proof -
  let ?t = "logAll log xs s"
  have f: "allFit fits log xs s" "fits n e ?t" "allFit fits log ys (log n e ?t)"
    using assms(2) by (simp_all add: allFit_append)
  have i: "inv ?t" by (rule logAll_inv [OF assms(1) f(1)])
  have "accessed (logAll log ys (log n e ?t)) n e = accessed (log n e ?t) n e"
    by (rule logAll_frame [OF log_inv [OF i f(2)] f(3) assms(3)])
  with log_now [OF i f(2)] show ?thesis by (simp add: logAll_append)
qed

text \<open>Nothing is recorded but what was recorded before and the times of the accesses.\<close>

lemma recorded_times:
  assumes "inv s" and "allFit fits log as s" and "t \<in> accessed (logAll log as s) n e"
  shows "t \<in> accessed s n e \<or> (\<exists>xs ys. as = xs @ (n, e) # ys \<and> t = now (logAll log xs s))"
  using assms
proof (induction as arbitrary: s)
  case (Cons a as)
  obtain m f where a: "a = (m, f)" by (cases a)
  have f: "fits m f s" "allFit fits log as (log m f s)" and t: "t \<in> accessed (logAll log as (log m f s)) n e"
    using Cons.prems by (simp_all add: a)
  from Cons.IH [OF log_inv [OF Cons.prems(1) f(1)] f(2) t] show ?case
  proof
    assume old: "t \<in> accessed (log m f s) n e"
    show ?thesis
    proof (cases "(n, e) = (m, f)")
      case True
      then have "t = now s \<or> t \<in> accessed s n e" using log_old [OF Cons.prems(1) f(1)] old by auto
      then show ?thesis
      proof
        assume "t = now s"
        with True a have "a # as = [] @ (n, e) # as \<and> t = now (logAll log [] s)" by simp
        then show ?thesis by blast
      qed simp
    next
      case False
      with log_frame [OF Cons.prems(1) f(1)] old show ?thesis by auto
    qed
  next
    assume "\<exists>xs ys. as = xs @ (n, e) # ys \<and> t = now (logAll log xs (log m f s))"
    then obtain xs ys where "as = xs @ (n, e) # ys" "t = now (logAll log xs (log m f s))" by blast
    then have "a # as = (a # xs) @ (n, e) # ys \<and> t = now (logAll log (a # xs) s)" by (simp add: a)
    then show ?thesis by blast
  qed
qed simp

end

end
