(* ===== verification/PgAccessed.thy ===== *)
theory PgAccessed
  imports Accesses AccessLog
begin

text \<open>
  The service with Postgres keeps the contract of an access history, as long as the statements succeed and the
  times fit in the 32 bits of the column.
\<close>

definition pgAccessed :: "'k svc \<Rightarrow> string \<Rightarrow> string \<Rightarrow> int set" where
  "pgAccessed s n e = ea_LastEpoch ` {a \<in> set (t_access (pdb (sqlSt s))). ea_Name a = n \<and> ea_Endpoint a = e}"

definition pgLogInv :: "'k senv \<Rightarrow> 'k svc \<Rightarrow> bool" where
  "pgLogInv E s \<longleftrightarrow> useSQL E \<and> no_faults (pgEnv E)"

definition pgNow :: "'k senv \<Rightarrow> 'k svc \<Rightarrow> int" where
  "pgNow E s = unix_now (pgEnv E) (tick (sqlSt s))"

definition pgFits :: "'k senv \<Rightarrow> string \<Rightarrow> string \<Rightarrow> 'k svc \<Rightarrow> bool" where
  "pgFits E n e s \<longleftrightarrow> n \<noteq> [] \<and> e \<noteq> [] \<and> fits32 (pgNow E s)"

definition pgLog :: "'k senv \<Rightarrow> string \<Rightarrow> string \<Rightarrow> 'k svc \<Rightarrow> 'k svc" where
  "pgLog E n e s = snd (updateEndpointAccessed E n e s)"

lemma times_snoc:
  "ea_LastEpoch ` {a \<in> set (as @ [l]). ea_Name a = m \<and> ea_Endpoint a = f} =
     (if m = ea_Name l \<and> f = ea_Endpoint l then insert (ea_LastEpoch l) (ea_LastEpoch ` {a \<in> set as. ea_Name a = m \<and> ea_Endpoint a = f})
      else ea_LastEpoch ` {a \<in> set as. ea_Name a = m \<and> ea_Endpoint a = f})"
  by auto

lemma pgLog_result:
  assumes "pgLogInv E s" and "pgFits E n e s"
  shows "pgAccessed (pgLog E n e s) m f = (if m = n \<and> f = e then insert (pgNow E s) (pgAccessed s n e) else pgAccessed s m f)"
proof -
  obtain r q where q: "LogEndpointAccess (pgEnv E) n e (sqlSt s) = (r, q)" by fastforce
  have "\<not> isl (fst (LogEndpointAccess (pgEnv E) n e (sqlSt s)))"
    using assms by (simp add: LogEndpointAccess_ok pgLogInv_def pgFits_def pgNow_def)
  then obtain u where "r = Inr u" using q by (cases r) auto
  then have "pdb q = (pdb (sqlSt s))\<lparr>t_access := t_access (pdb (sqlSt s)) @ [logged (pgEnv E) n e (sqlSt s)]\<rparr>"
    using LogEndpointAccess_Inr(1) q by blast
  moreover have "sqlSt (pgLog E n e s) = q"
    using assms(1) q by (simp add: pgLog_def updateEndpointAccessed_def pgLogInv_def andThen_def inSQL_def ret_def)
  ultimately show ?thesis unfolding pgAccessed_def by (simp add: times_snoc logged_def pgNow_def del: set_append)
qed

interpretation pglog: access_log "pgLogInv E" pgAccessed "pgNow E" "pgFits E" "pgLog E" for E :: "'k senv"
proof (unfold_locales, goal_cases)
  case (1 s n e)
  then show ?case by (simp add: pgLogInv_def)
qed (auto simp: pgLog_result)

end
