(* ===== verification/KvLogic.thy ===== *)
theory KvLogic
  imports Accesses
begin

text \<open>
  What the code relies on of the key-value store, and what the reading operations of the service
  then return. \<open>content\<close> reads a state of the store as a map from keys to values.

  \<open>kv_ok\<close> is the documented behaviour of hms-hmetcd, with errors possible at every call: a
  read leaves the content and reports what is there, a write that succeeds has written, one that
  fails has or has not. A range query delivers the pairs from its lower bound up to its upper bound;
  whether it includes the upper bound differs between the backends (etcd excludes it, the memory
  store includes it) and is left open.
\<close>

type_synonym 'k view = "'k \<Rightarrow> string \<Rightarrow> string option"

definition get_ok :: "'k kvi \<Rightarrow> 'k view \<Rightarrow> bool" where
  "get_ok I content \<longleftrightarrow> (\<forall>key k v ex err k'. kvGet I key k = ((v, ex, err), k') \<longrightarrow>
     content k' = content k \<and> (err = None \<longrightarrow> (if ex then content k key = Some v else content k key = None)))"

definition store_ok :: "'k kvi \<Rightarrow> 'k view \<Rightarrow> bool" where
  "store_ok I content \<longleftrightarrow> (\<forall>key v k err k'. kvStore I key v k = (err, k') \<longrightarrow>
     (content k' = (content k)(key \<mapsto> v) \<or> err \<noteq> None \<and> content k' = content k))"

definition delete_ok :: "'k kvi \<Rightarrow> 'k view \<Rightarrow> bool" where
  "delete_ok I content \<longleftrightarrow> (\<forall>key k err k'. kvDelete I key k = (err, k') \<longrightarrow>
     (content k' = (content k)(key := None) \<or> err \<noteq> None \<and> content k' = content k))"

definition in_range :: "string \<Rightarrow> string \<Rightarrow> (string \<Rightarrow> string option) \<Rightarrow> (string \<times> string) list \<Rightarrow> bool" where
  "in_range a b m kvl \<longleftrightarrow> distinct (map fst kvl) \<and>
     (\<forall>(key, v) \<in> set kvl. a \<le> key \<and> key \<le> b \<and> m key = Some v) \<and>
     (\<forall>key v. a \<le> key \<and> key < b \<and> m key = Some v \<longrightarrow> (key, v) \<in> set kvl)"

definition range_ok :: "'k kvi \<Rightarrow> 'k view \<Rightarrow> bool" where
  "range_ok I content \<longleftrightarrow> (\<forall>a b k kvl err k'. kvRange I a b k = ((kvl, err), k') \<longrightarrow>
     content k' = content k \<and> (if err = None then in_range a b (content k) kvl else kvl = []))"

definition kv_ok :: "'k kvi \<Rightarrow> 'k view \<Rightarrow> bool" where
  "kv_ok I content \<longleftrightarrow> get_ok I content \<and> store_ok I content \<and> delete_ok I content \<and> range_ok I content"

text \<open>The service runs with such a store.\<close>

definition kv_in :: "'k senv \<Rightarrow> 'k view \<Rightarrow> bool" where
  "kv_in E content \<longleftrightarrow> \<not> useSQL E \<and> kv_ok (kvi E) content"

text \<open>No call fails.\<close>

definition kv_up :: "'k kvi \<Rightarrow> bool" where
  "kv_up I \<longleftrightarrow> (\<forall>key k. snd (snd (fst (kvGet I key k))) = None) \<and> (\<forall>key v k. fst (kvStore I key v k) = None) \<and>
     (\<forall>key k. fst (kvDelete I key k) = None) \<and> (\<forall>a b k. snd (fst (kvRange I a b k)) = None)"

text \<open>The memory store of hms-hmetcd, on association lists.\<close>

definition memKvi :: "(string \<times> string) list kvi" where
  "memKvi = \<lparr>
     kvGet = (\<lambda>key k. ((case map_of k key of None \<Rightarrow> ([], False, None) | Some v \<Rightarrow> (v, True, None)), k)),
     kvStore = (\<lambda>key v k. (None, AList.update key v k)),
     kvDelete = (\<lambda>key k. (None, AList.delete key k)),
     kvRange = (\<lambda>a b k. ((filter (\<lambda>(key, v). a \<le> key \<and> key \<le> b) (AList.clearjunk k), None), k))\<rparr>"

lemma memKvi_ok: "kv_ok memKvi map_of"
proof -
  have r: "in_range a b (map_of k) (filter (\<lambda>(key, v). a \<le> key \<and> key \<le> b) (AList.clearjunk k))" for a b k
  proof -
    have d: "distinct (map fst (AList.clearjunk k))" by (rule distinct_clearjunk)
    have m: "(key, v) \<in> set (AList.clearjunk k) \<longleftrightarrow> map_of k key = Some v" for key v
      using d by (simp add: map_of_clearjunk flip: map_of_eq_Some_iff)
    show ?thesis
      unfolding in_range_def using d
      by (auto simp: m distinct_map_filter intro: less_imp_le)
  qed
  show ?thesis
    unfolding kv_ok_def get_ok_def store_ok_def delete_ok_def range_ok_def
    by (auto simp: memKvi_def r update_conv' delete_conv' split: option.splits)
qed

lemma memKvi_up: "kv_up memKvi"
  by (auto simp: kv_up_def memKvi_def split: option.splits)

subsection \<open>Rules for the four operations\<close>

text \<open>The content of the store of a state.\<close>

abbreviation kvc :: "'k view \<Rightarrow> 'k svc \<Rightarrow> string \<Rightarrow> string option" where
  "kvc content s \<equiv> content (kvs s)"

lemma wp_kv_Get:
  assumes "kv_in E C"
    and "\<And>k v ex. C k = C (kvs s) \<Longrightarrow> (if ex then C (kvs s) key = Some v else C (kvs s) key = None) \<Longrightarrow> Q (v, ex, None) (s\<lparr>kvs := k\<rparr>)"
    and "\<And>k v ex e. C k = C (kvs s) \<Longrightarrow> \<not> kv_up (kvi E) \<Longrightarrow> Q (v, ex, Some e) (s\<lparr>kvs := k\<rparr>)"
  shows "wp (kv_Get E key) Q R s"
proof -
  obtain v ex err k where g: "kvGet (kvi E) key (kvs s) = ((v, ex, err), k)" by (metis surj_pair)
  have C: "C k = C (kvs s)" "err = None \<Longrightarrow> (if ex then C (kvs s) key = Some v else C (kvs s) key = None)"
    using assms(1) g unfolding kv_in_def kv_ok_def get_ok_def by blast+
  have "Q (v, ex, err) (s\<lparr>kvs := k\<rparr>)"
  proof (cases err)
    case None
    with C assms(2) show ?thesis by blast
  next
    case (Some e)
    then have "\<not> kv_up (kvi E)" using g unfolding kv_up_def by (metis fst_conv option.distinct(1) snd_conv)
    with C Some assms(3) show ?thesis by blast
  qed
  then show ?thesis using assms(1) by (simp add: wp_def kv_Get_def g kv_in_def)
qed

lemma wp_kv_Store:
  assumes "kv_in E C"
    and "\<And>k. C k = (C (kvs s))(key \<mapsto> v) \<Longrightarrow> Q None (s\<lparr>kvs := k\<rparr>)"
    and "\<And>k e. C k = C (kvs s) \<or> C k = (C (kvs s))(key \<mapsto> v) \<Longrightarrow> \<not> kv_up (kvi E) \<Longrightarrow> Q (Some e) (s\<lparr>kvs := k\<rparr>)"
  shows "wp (kv_Store E key v) Q R s"
proof -
  obtain err k where g: "kvStore (kvi E) key v (kvs s) = (err, k)" by (metis surj_pair)
  have C: "C k = (C (kvs s))(key \<mapsto> v) \<or> err \<noteq> None \<and> C k = C (kvs s)"
    using assms(1) g unfolding kv_in_def kv_ok_def store_ok_def by blast
  have "Q err (s\<lparr>kvs := k\<rparr>)"
  proof (cases err)
    case None
    with C assms(2) show ?thesis by blast
  next
    case (Some e)
    then have "\<not> kv_up (kvi E)" using g unfolding kv_up_def by (metis fst_conv option.distinct(1))
    with C Some assms(3) show ?thesis by blast
  qed
  then show ?thesis using assms(1) by (simp add: wp_def kv_Store_def g kv_in_def)
qed

lemma wp_kv_Delete:
  assumes "kv_in E C"
    and "\<And>k. C k = (C (kvs s))(key := None) \<Longrightarrow> Q None (s\<lparr>kvs := k\<rparr>)"
    and "\<And>k e. C k = C (kvs s) \<or> C k = (C (kvs s))(key := None) \<Longrightarrow> \<not> kv_up (kvi E) \<Longrightarrow> Q (Some e) (s\<lparr>kvs := k\<rparr>)"
  shows "wp (kv_Delete E key) Q R s"
proof -
  obtain err k where g: "kvDelete (kvi E) key (kvs s) = (err, k)" by (metis surj_pair)
  have C: "C k = (C (kvs s))(key := None) \<or> err \<noteq> None \<and> C k = C (kvs s)"
    using assms(1) g unfolding kv_in_def kv_ok_def delete_ok_def by blast
  have "Q err (s\<lparr>kvs := k\<rparr>)"
  proof (cases err)
    case None
    with C assms(2) show ?thesis by blast
  next
    case (Some e)
    then have "\<not> kv_up (kvi E)" using g unfolding kv_up_def by (metis fst_conv option.distinct(1))
    with C Some assms(3) show ?thesis by blast
  qed
  then show ?thesis using assms(1) by (simp add: wp_def kv_Delete_def g kv_in_def)
qed

lemma wp_kv_Range:
  assumes "kv_in E C"
    and "\<And>k kvl. C k = C (kvs s) \<Longrightarrow> in_range a b (C (kvs s)) kvl \<Longrightarrow> Q (kvl, None) (s\<lparr>kvs := k\<rparr>)"
    and "\<And>k e. C k = C (kvs s) \<Longrightarrow> \<not> kv_up (kvi E) \<Longrightarrow> Q ([], Some e) (s\<lparr>kvs := k\<rparr>)"
  shows "wp (kv_Range E a b) Q R s"
proof -
  obtain kvl err k where g: "kvRange (kvi E) a b (kvs s) = ((kvl, err), k)" by (metis surj_pair)
  have C: "C k = C (kvs s)" "if err = None then in_range a b (C (kvs s)) kvl else kvl = []"
    using assms(1) g unfolding kv_in_def kv_ok_def range_ok_def by blast+
  have "Q (kvl, err) (s\<lparr>kvs := k\<rparr>)"
  proof (cases err)
    case None
    with C assms(2) show ?thesis by simp
  next
    case (Some e)
    then have "\<not> kv_up (kvi E)" using g unfolding kv_up_def by (metis fst_conv option.distinct(1) snd_conv)
    with C Some assms(3) show ?thesis by simp
  qed
  then show ?thesis using assms(1) by (simp add: wp_def kv_Range_def g kv_in_def)
qed

subsection \<open>What the reading operations return\<close>

text \<open>The boot data stored for a name, and the image stored at a key.\<close>

definition hostData :: "(string \<Rightarrow> string option) \<Rightarrow> string \<Rightarrow> BootDataStore option" where
  "hostData m name =
     (case m (paramsPfx @ name) of None \<Rightarrow> None
      | Some v \<Rightarrow> if snd (readStore v) then Some (fst (readStore v)) else None)"

definition imageAt :: "(string \<Rightarrow> string option) \<Rightarrow> string \<Rightarrow> ImageData option" where
  "imageAt m key =
     (case m key of None \<Rightarrow> None
      | Some v \<Rightarrow> if snd (readImage v) then Some (fst (readImage v)) else None)"

definition imgOf :: "(string \<Rightarrow> string option) \<Rightarrow> string \<Rightarrow> ImageData" where
  "imgOf m key =
     (if key = [] then noImage
      else (case imageAt m (makeKey key []) of None \<Rightarrow> noImage | Some im \<Rightarrow> im))"

definition dataOf :: "(string \<Rightarrow> string option) \<Rightarrow> BootDataStore \<Rightarrow> BootData" where
  "dataOf m b = \<lparr>bd_Params = ds_Params b, bd_Kernel = imgOf m (ds_Kernel b), bd_Initrd = imgOf m (ds_Initrd b),
     bd_CloudInit = ds_CloudInit b, bd_ReferralToken = ds_ReferralToken b\<rparr>"

text \<open>The operations below change nothing but the state of the store, whose content stays.\<close>

definition reads :: "'k view \<Rightarrow> ('k, 'a) sv \<Rightarrow> ((string \<Rightarrow> string option) \<Rightarrow> 'a \<Rightarrow> bool) \<Rightarrow> bool" where
  "reads C m P \<longleftrightarrow> (\<forall>s Q R. imageCache s = [] \<longrightarrow> (\<forall>k r. C k = C (kvs s) \<longrightarrow> P (C (kvs s)) r \<longrightarrow> Q r (s\<lparr>kvs := k\<rparr>)) \<longrightarrow> wp m Q R s)"

lemma readsI:
  assumes "\<And>s Q R. imageCache s = [] \<Longrightarrow> (\<And>k r. C k = C (kvs s) \<Longrightarrow> P (C (kvs s)) r \<Longrightarrow> Q r (s\<lparr>kvs := k\<rparr>)) \<Longrightarrow> wp m Q R s"
  shows "reads C m P"
  using assms unfolding reads_def by blast

lemma readsD:
  assumes "reads C m P" and "imageCache s = []"
    and "\<And>k r. C k = C (kvs s) \<Longrightarrow> P (C (kvs s)) r \<Longrightarrow> Q r (s\<lparr>kvs := k\<rparr>)"
  shows "wp m Q R s"
  using assms unfolding reads_def by blast

lemma reads_ret: "reads C (ret x) (\<lambda>m r. r = x)"
proof (rule readsI)
  fix s :: "'a svc" and Q R
  assume "\<And>k r. C k = C (kvs s) \<Longrightarrow> r = x \<Longrightarrow> Q r (s\<lparr>kvs := k\<rparr>)"
  from this [of "kvs s" x] show "wp (ret x) Q R s" by simp
qed

lemma reads_andThen:
  assumes "reads C m P" and "\<And>x. reads C (f x) (P' x)"
  shows "reads C (andThen m f) (\<lambda>c r. \<exists>x. P c x \<and> P' x c r)"
proof (rule readsI)
  fix s :: "'a svc" and Q R
  assume a: "imageCache s = []" and Q: "\<And>k r. C k = C (kvs s) \<Longrightarrow> \<exists>x. P (C (kvs s)) x \<and> P' x (C (kvs s)) r \<Longrightarrow> Q r (s\<lparr>kvs := k\<rparr>)"
  have "wp m (\<lambda>x. wp (f x) Q R) R s"
  proof (rule readsD [OF assms(1) a])
    fix k x assume k: "C k = C (kvs s)" and x: "P (C (kvs s)) x"
    show "wp (f x) Q R (s\<lparr>kvs := k\<rparr>)"
      by (rule readsD [OF assms(2)]) (use a k x Q in auto)
  qed
  then show "wp (andThen m f) Q R s" by simp
qed

lemma reads_mono: "reads C m P \<Longrightarrow> (\<And>c r. P c r \<Longrightarrow> P' c r) \<Longrightarrow> reads C m P'"
  unfolding reads_def by blast

lemma reads_if: "(b \<Longrightarrow> reads C m1 P) \<Longrightarrow> (\<not> b \<Longrightarrow> reads C m2 P) \<Longrightarrow> reads C (if b then m1 else m2) P"
  by simp

lemma reads_kv_Get:
  assumes "kv_in E C" and "kv_up (kvi E)"
  shows "reads C (kv_Get E key) (\<lambda>m r. \<exists>v ex. r = (v, ex, None) \<and> (if ex then m key = Some v else m key = None))"
  by (rule readsI, rule wp_kv_Get [OF assms(1)]) (use assms(2) in blast)+

lemma reads_kv_Range:
  assumes "kv_in E C" and "kv_up (kvi E)"
  shows "reads C (kv_Range E a b) (\<lambda>m r. \<exists>kvl. r = (kvl, None) \<and> in_range a b m kvl)"
  by (rule readsI, rule wp_kv_Range [OF assms(1)]) (use assms(2) in blast)+

subsection \<open>A concrete environment and state\<close>

definition demoComp :: SMComponent where
  "demoComp = noComp\<lparr>sc_ID := ''x0c0s1b0n0'', sc_State := ''On'', sc_Role := ''Compute'', sc_NID := ''7'',
     sc_Mac := Some [''00:11:22:33:44:55''], sc_EndpointEnabled := True\<rparr>"

definition demoSM :: SMData where
  "demoSM = \<lparr>sm_Components = [demoComp],
     sm_IPAddrs = [(''10.0.0.1'', \<lparr>eth_MACAddr = ''00:11:22:33:44:55'', eth_CompID = ''x0c0s1b0n0'', eth_IPAddrs = [''10.0.0.1'']\<rparr>)]\<rparr>"

definition demoHsm :: hsm where
  "demoHsm = \<lparr>hs_client = False, hs_BaseURL = ''http://hsm/hsm/v2'', hs_retryCount = 3, hs_retryWait = 5,
     hs_probe = (\<lambda>_. Inr 200), hs_refreshJWT = None, hs_components = None, hs_endpoints = None,
     hs_ethifaces = None, hs_file = Some demoSM\<rparr>"

definition demoSenv :: "(string \<times> string) list senv" where
  "demoSenv = \<lparr>kvi = memKvi, useSQL = False, pgEnv = demoEnv, nowAt = (\<lambda>n. 1000 + int n), newUuid = (\<lambda>n. ''token-'' @ nat_str n),
     hsmAt = (\<lambda>_. demoHsm), hmnfdAt = (\<lambda>_ _ _. Inr 200), rangeOrder = (\<lambda>_ n. [0..<n]), mergePatch = (\<lambda>a b. Some b),
     spireTokensBaseURL = ''https://spire'', spirePost = (\<lambda>_ _ _. Inl (Err ''refused'')),
     s3Connect = (\<lambda>_ _. True), s3GetURL = (\<lambda>_ b k. Inr (''https://s3/'' @ b @ ''/'' @ k)), randBytes = (\<lambda>_. ''abcdef''),
     writeOk = (\<lambda>_. True), hmsText = (\<lambda>_ m. m), compJson = (\<lambda>c. JObj [(''ID'', JStr (sc_ID c))]), yamlText = (\<lambda>j. Some (jprint j)),
     xnameType = (\<lambda>_. Some ''Node''), advertiseAddress = ''http://10.0.0.2'', ipxeServer = ''api-gw'', chainProto = ''https'',
     gwURI = ''/apis/bss'', retryDelay = 30, hsmRetrievalDelay = 10, blockedRoles = [''Management''],
     hsmClass = (\<lambda>_. Inr None), randIntn = (\<lambda>n. n mod 255), buildVersion = ''1.31.0'', versionFile = (\<lambda>_. Some ''1.31.0''),
     jwksURL = [], routedPath = (\<lambda>p. p)\<rparr>"

definition demoSvc :: "(string \<times> string) list \<Rightarrow> (string \<times> string) list svc" where
  "demoSvc k = \<lparr>kvs = k, imageCache = [], smTimeStamp = 900, smData = Some demoSM, smDataMap = makeSmMap demoSM,
     notifier = \<lparr>sn_SubscriberName = ''bss'', sn_SubscriberURL = ''http://hmnfd'', sn_NotifierURL = ''http://bss'',
       sn_Components = [], sn_insecure = False\<rparr>, s3Client = False, pending = [], ticks = 0, sqlSt = demoSt\<rparr>"

lemma demo_in: "kv_in demoSenv map_of"
  using memKvi_ok by (simp add: kv_in_def demoSenv_def)

lemma demo_up: "kv_up (kvi demoSenv)"
  using memKvi_up by (simp add: demoSenv_def)

lemma demoSvc_simps [simp]:
  "imageCache (demoSvc k) = []" "kvs (demoSvc k) = k" "smData (demoSvc k) = Some demoSM" "smTimeStamp (demoSvc k) = 900"
  "ticks (demoSvc k) = 0"
  by (simp_all add: demoSvc_def)

end
