(* ===== verification/KvReads.thy ===== *)
theory KvReads
  imports KvLogic
begin

text \<open>
  The reading operations on boot data as functions of the content of the store, when the store
  answers: what they return is \<open>dataOf\<close> the record stored for a name, or the one of the first
  name of a list that has one.
\<close>

definition yields :: "'k view \<Rightarrow> ('k, 'a) sv \<Rightarrow> ((string \<Rightarrow> string option) \<Rightarrow> 'a) \<Rightarrow> bool" where
  "yields C m g \<longleftrightarrow> reads C m (\<lambda>c r. r = g c)"

lemma yieldsI:
  assumes "\<And>s Q R. imageCache s = [] \<Longrightarrow> (\<And>k. C k = C (kvs s) \<Longrightarrow> Q (g (C (kvs s))) (s\<lparr>kvs := k\<rparr>)) \<Longrightarrow> wp m Q R s"
  shows "yields C m g"
  using assms unfolding yields_def reads_def by blast

lemma yieldsD:
  assumes "yields C m g" and "imageCache s = []" and "\<And>k. C k = C (kvs s) \<Longrightarrow> Q (g (C (kvs s))) (s\<lparr>kvs := k\<rparr>)"
  shows "wp m Q R s"
  using assms unfolding yields_def reads_def by blast

lemma yields_ret [simp]: "yields C (ret x) (\<lambda>_. x)"
  unfolding yields_def by (rule reads_ret)

lemma yields_bind:
  assumes "yields C m g" and "\<And>x. yields C (f x) (h x)"
  shows "yields C (andThen m f) (\<lambda>c. h (g c) c)"
  unfolding yields_def
  by (rule reads_mono [OF reads_andThen [OF assms(1) [unfolded yields_def] assms(2) [unfolded yields_def]]]) auto

lemma yields_cong: "yields C m g \<Longrightarrow> (\<And>c. g c = g' c) \<Longrightarrow> yields C m g'"
  by (simp add: yields_def)

lemma yields_if: "(b \<Longrightarrow> yields C m1 g) \<Longrightarrow> (\<not> b \<Longrightarrow> yields C m2 g) \<Longrightarrow> yields C (if b then m1 else m2) g"
  by simp

lemma yields_result:
  assumes "yields C m g" and "imageCache s = []"
  shows "\<exists>k. C k = C (kvs s) \<and> m s = (Inr (g (C (kvs s))), s\<lparr>kvs := k\<rparr>)"
proof -
  have "wp m (\<lambda>x s'. \<exists>k. C k = C (kvs s) \<and> x = g (C (kvs s)) \<and> s' = s\<lparr>kvs := k\<rparr>) (\<lambda>_ _. False) s"
    by (rule yieldsD [OF assms]) auto
  from wp_total [OF this] show ?thesis by auto
qed

subsection \<open>Records and images\<close>

definition hostResult :: "(string \<Rightarrow> string option) \<Rightarrow> string \<Rightarrow> BootDataStore \<times> svcerr option" where
  "hostResult m name =
     (let notFound = (\<lambda>e. Some (storageErr (''Error looking up '' @ name) 404 e)) in
      case m (paramsPfx @ name) of
        None \<Rightarrow> (noBootDataStore, notFound (noKey (paramsPfx @ name)))
      | Some v \<Rightarrow> (fst (readStore v), if snd (readStore v) then None else notFound jsonErr))"

definition imageResult :: "(string \<Rightarrow> string option) \<Rightarrow> string \<Rightarrow> ImageData \<times> svcerr option" where
  "imageResult m key =
     (let failed = (\<lambda>e. Some (storageErr (''Error looking up key '' @ key) 500 e)) in
      case m key of
        None \<Rightarrow> (noImage, failed (noKey key))
      | Some v \<Rightarrow> (fst (readImage v), if snd (readImage v) then None else failed jsonErr))"

lemma hostResult_hostData:
  "snd (hostResult m name) = None \<longleftrightarrow> hostData m name \<noteq> None"
  "hostData m name = Some b \<Longrightarrow> hostResult m name = (b, None)"
  by (auto simp: hostResult_def hostData_def Let_def split: option.splits if_splits)

lemma imageResult_imageAt:
  "(if snd (imageResult m key) = None then fst (imageResult m key) else noImage) =
   (case imageAt m key of None \<Rightarrow> noImage | Some im \<Rightarrow> im)"
  by (auto simp: imageResult_def imageAt_def Let_def split: option.splits)

lemma yields_lookupHost:
  assumes "kv_in E C" and "kv_up (kvi E)"
  shows "yields C (lookupHost E name) (\<lambda>m. hostResult m name)"
proof (rule yieldsI)
  fix s :: "'a svc" and Q :: "BootDataStore \<times> svcerr option \<Rightarrow> 'a svc \<Rightarrow> bool" and R
  assume Q: "\<And>k. C k = C (kvs s) \<Longrightarrow> Q (hostResult (C (kvs s)) name) (s\<lparr>kvs := k\<rparr>)"
  show "wp (lookupHost E name) Q R s"
    unfolding lookupHost_def Let_def wp_andThen
  proof (rule wp_kv_Get [OF assms(1)], goal_cases)
    case (1 k v ex)
    with Q [OF 1(1)] show ?case by (cases ex) (auto simp: hostResult_def Let_def case_prod_unfold)
  qed (use assms(2) in blast)
qed

text \<open>The image cache is empty, so that an image comes from the store.\<close>

definition getStored :: "'k senv \<Rightarrow> string \<Rightarrow> ('k, ImageData \<times> svcerr option) sv" where
  "getStored E key =
     andThen (kv_Get E key) (\<lambda>(v, exists, err).
     case err of
       Some e \<Rightarrow> ret (noImage, Some (storageErr (''Error looking up key '' @ key) 500 e))
     | None \<Rightarrow> if exists then ret (fst (readImage v), if snd (readImage v) then None
                                     else Some (storageErr (''Error looking up key '' @ key) 500 jsonErr))
               else ret (noImage, Some (storageErr (''Error looking up key '' @ key) 500 (noKey key))))"

lemma getImage_nocache: "imageCache s = [] \<Longrightarrow> getImage E imtype subkey s = getStored E (makeKey imtype subkey) s"
  by (auto simp: getImage_def getStored_def Let_def andThen_def kv_Get_def ret_def split: prod.splits option.splits if_splits)

lemma yields_getImage:
  assumes "kv_in E C" and "kv_up (kvi E)"
  shows "yields C (getImage E imtype subkey) (\<lambda>m. imageResult m (makeKey imtype subkey))"
proof (rule yieldsI)
  fix s :: "'a svc" and Q :: "ImageData \<times> svcerr option \<Rightarrow> 'a svc \<Rightarrow> bool" and R
  let ?key = "makeKey imtype subkey"
  assume a: "imageCache s = []" and Q: "\<And>k. C k = C (kvs s) \<Longrightarrow> Q (imageResult (C (kvs s)) ?key) (s\<lparr>kvs := k\<rparr>)"
  have "wp (getStored E ?key) Q R s"
    unfolding getStored_def wp_andThen
  proof (rule wp_kv_Get [OF assms(1)], goal_cases)
    case (1 k v ex)
    with Q [OF 1(1)] show ?case by (cases ex) (auto simp: imageResult_def Let_def)
  qed (use assms(2) in blast)
  then show "wp (getImage E imtype subkey) Q R s" by (simp add: wp_def getImage_nocache [OF a])
qed

lemma yields_image:
  assumes "kv_in E C" and "kv_up (kvi E)"
  shows "yields C (if key \<noteq> [] then andThen (getImage E key []) (\<lambda>(im, err). ret (if err = None then im else noImage))
                   else ret noImage) (\<lambda>m. imgOf m key)"
proof (cases "key = []")
  case True
  then show ?thesis by (auto simp: imgOf_def intro: yields_cong [OF yields_ret])
next
  case False
  have "yields C (andThen (getImage E key []) (\<lambda>x. ret (if snd x = None then fst x else noImage)))
     (\<lambda>m. if snd (imageResult m (makeKey key [])) = None then fst (imageResult m (makeKey key [])) else noImage)"
    by (rule yields_bind [OF yields_getImage [OF assms], where h = "\<lambda>x _. if snd x = None then fst x else noImage"]) simp
  then show ?thesis
    using False by (simp add: imageResult_imageAt imgOf_def case_prod_unfold)
qed

lemma yields_bdConvert:
  assumes "kv_in E C" and "kv_up (kvi E)"
  shows "yields C (bdConvert E b) (\<lambda>m. dataOf m b)"
  unfolding bdConvert_def Let_def dataOf_def
  by (rule yields_bind [OF yields_image [OF assms]] yields_ret)+

subsection \<open>Looking up\<close>

text \<open>The boot data of the first name that has a record.\<close>

fun firstData :: "(string \<Rightarrow> string option) \<Rightarrow> string list \<Rightarrow> BootDataStore option" where
  "firstData m [] = None"
| "firstData m (x # xs) = (case hostData m x of Some b \<Rightarrow> Some b | None \<Rightarrow> firstData m xs)"

definition lookupNames :: "string \<Rightarrow> string \<Rightarrow> string \<Rightarrow> string \<Rightarrow> string list" where
  "lookupNames name altName role df =
     [name] @ (if name \<noteq> altName \<and> altName \<noteq> [] then [altName] else []) @
     (if role \<noteq> [] then [role] else []) @ (if df \<noteq> [] then [df] else [])"

definition bootDataFor :: "(string \<Rightarrow> string option) \<Rightarrow> string list \<Rightarrow> BootData" where
  "bootDataFor m names = (case firstData m names of None \<Rightarrow> noBootData | Some b \<Rightarrow> dataOf m b)"

lemma firstData_append: "firstData m (xs @ ys) = (case firstData m xs of Some b \<Rightarrow> Some b | None \<Rightarrow> firstData m ys)"
  by (induction xs) (auto split: option.splits)

text \<open>The result of a chain of lookups, with an error that does not matter.\<close>

definition chain_ok :: "string list \<Rightarrow> ((string \<Rightarrow> string option) \<Rightarrow> BootDataStore \<times> svcerr option) \<Rightarrow> bool" where
  "chain_ok names g \<longleftrightarrow> (\<forall>m. case firstData m names of Some b \<Rightarrow> g m = (b, None) | None \<Rightarrow> snd (g m) \<noteq> None)"

lemma yields_orElse:
  assumes "kv_in E C" and "kv_up (kvi E)" and "yields C m g" and "chain_ok names g"
  shows "\<exists>g'. yields C (orElse m c (lookupHost E x)) g' \<and> chain_ok (names @ (if c then [x] else [])) g'"
proof -
  let ?h = "\<lambda>y c'. if snd y \<noteq> None \<and> c then hostResult c' x else y"
  have y: "yields C (orElse m c (lookupHost E x)) (\<lambda>c'. ?h (g c') c')"
    unfolding orElse_def
  proof (rule yields_bind [OF assms(3), where h = ?h])
    fix y :: "BootDataStore \<times> svcerr option"
    show "yields C (case y of (bds, err) \<Rightarrow> if err \<noteq> None \<and> c then lookupHost E x else ret (bds, err)) (?h y)"
      by (cases y) (auto intro: yields_cong [OF yields_ret] yields_cong [OF yields_lookupHost [OF assms(1,2)]])
  qed
  have "chain_ok (names @ (if c then [x] else [])) (\<lambda>c'. ?h (g c') c')"
    unfolding chain_ok_def
  proof
    fix m
    have g: "case firstData m names of Some b \<Rightarrow> g m = (b, None) | None \<Rightarrow> snd (g m) \<noteq> None"
      using assms(4) unfolding chain_ok_def by blast
    show "case firstData m (names @ (if c then [x] else [])) of Some b \<Rightarrow> ?h (g m) m = (b, None) | None \<Rightarrow> snd (?h (g m) m) \<noteq> None"
      using g hostResult_hostData(1) [of m x] hostResult_hostData(2) [of m x]
      by (cases "hostData m x"; cases "firstData m names") (simp_all add: firstData_append)
  qed
  with y show ?thesis by blast
qed

lemma yields_lookup:
  assumes "kv_in E C" and "kv_up (kvi E)"
  shows "yields C (lookup E name altName role df) (\<lambda>m. bootDataFor m (lookupNames name altName role df))"
proof -
  have c0: "chain_ok [name] (\<lambda>m. hostResult m name)"
    unfolding chain_ok_def by (auto simp: hostResult_hostData split: option.splits)
  note step = yields_orElse [OF assms]
  obtain g1 where g1: "yields C (orElse (lookupHost E name) (name \<noteq> altName \<and> altName \<noteq> []) (lookupHost E altName)) g1"
      "chain_ok ([name] @ (if name \<noteq> altName \<and> altName \<noteq> [] then [altName] else [])) g1"
    using step [OF yields_lookupHost [OF assms] c0] by blast
  obtain g2 where g2: "yields C (orElse (orElse (lookupHost E name) (name \<noteq> altName \<and> altName \<noteq> []) (lookupHost E altName))
        (role \<noteq> []) (lookupHost E role)) g2"
      "chain_ok (([name] @ (if name \<noteq> altName \<and> altName \<noteq> [] then [altName] else [])) @ (if role \<noteq> [] then [role] else [])) g2"
    using step [OF g1] by blast
  obtain g where g: "yields C (orElse (orElse (orElse (lookupHost E name) (name \<noteq> altName \<and> altName \<noteq> []) (lookupHost E altName))
        (role \<noteq> []) (lookupHost E role)) (df \<noteq> []) (lookupHost E df)) g"
      "chain_ok (lookupNames name altName role df) g"
    using step [OF g2, of "df \<noteq> []" df] unfolding lookupNames_def append_assoc by blast
  let ?h = "\<lambda>y m. if snd y = None then dataOf m (fst y) else noBootData"
  have "yields C (lookup E name altName role df) (\<lambda>m. ?h (g m) m)"
    unfolding lookup_def
  proof (rule yields_bind [OF g(1), where h = ?h])
    fix y :: "BootDataStore \<times> svcerr option"
    show "yields C (case y of (bds, err) \<Rightarrow> if err = None then bdConvert E bds else ret noBootData) (?h y)"
      by (cases y) (auto intro: yields_cong [OF yields_ret] yields_cong [OF yields_bdConvert [OF assms]])
  qed
  then show ?thesis
  proof (rule yields_cong)
    fix m
    have "case firstData m (lookupNames name altName role df) of Some b \<Rightarrow> g m = (b, None) | None \<Rightarrow> snd (g m) \<noteq> None"
      using g(2) unfolding chain_ok_def by blast
    then show "?h (g m) m = bootDataFor m (lookupNames name altName role df)"
      by (cases "firstData m (lookupNames name altName role df)") (auto simp: bootDataFor_def)
  qed
qed

definition bootDataResult :: "(string \<Rightarrow> string option) \<Rightarrow> string \<Rightarrow> BootData \<times> svcerr option" where
  "bootDataResult m name =
     (case hostData m name of Some b \<Rightarrow> (dataOf m b, None) | None \<Rightarrow> (noBootData, snd (hostResult m name)))"

lemma yields_LookupBootData:
  assumes "kv_in E C" and "kv_up (kvi E)"
  shows "yields C (LookupBootData E name) (\<lambda>m. bootDataResult m name)"
proof -
  let ?h = "\<lambda>y m. case snd y of Some e \<Rightarrow> (noBootData, Some e) | None \<Rightarrow> (dataOf m (fst y), None)"
  have d: "yields C (andThen (bdConvert E b) (\<lambda>bd. ret (bd, None))) (\<lambda>m. (dataOf m b, None))" for b
    by (rule yields_bind [OF yields_bdConvert [OF assms], where h = "\<lambda>x _. (x, None)"]) simp
  have "yields C (LookupBootData E name) (\<lambda>m. ?h (hostResult m name) m)"
    unfolding LookupBootData_def
  proof (rule yields_bind [OF yields_lookupHost [OF assms], where h = ?h])
    fix y :: "BootDataStore \<times> svcerr option"
    show "yields C (case y of (bds, err) \<Rightarrow> (case err of Some e \<Rightarrow> ret (noBootData, Some e)
        | None \<Rightarrow> andThen (bdConvert E bds) (\<lambda>bd. ret (bd, None)))) (?h y)"
      by (cases y) (auto intro: yields_cong [OF yields_ret] yields_cong [OF d] split: option.splits)
  qed
  then show ?thesis
    by (rule yields_cong) (auto simp: bootDataResult_def hostResult_hostData(2) split: option.splits
        dest: iffD1 [OF hostResult_hostData(1)])
qed

end
