(* ===== verification/KvStore.thy ===== *)
theory KvStore
  imports KvReads
begin

text \<open>
  Store and StoreNew on the key-value store: every host, MAC address or NID of a request gets the
  requested boot data, and nothing else changes; StoreNew refuses when one of them has boot data.
\<close>

subsection \<open>Keys between two bounds with a common prefix\<close>

lemma between_prefix:
  fixes p :: string
  assumes "p @ u \<le> k" and "k \<le> p @ v"
  shows "\<exists>r. k = p @ r"
  using assms
proof (induction p arbitrary: k)
  case (Cons c p)
  then show ?case by (cases k) (auto simp: less_le_not_le)
qed simp

lemma append_mono_less: "u < v \<Longrightarrow> p @ u < p @ (v :: string)"
  by (induction p) auto

definition imagePfx :: "string \<Rightarrow> string" where
  "imagePfx imtype = ''/'' @ imtype @ ''/''"

definition imtypes :: "string set" where
  "imtypes = {kernelImageType, initrdImageType}"

lemma imtypes_cases: "imtype \<in> imtypes \<Longrightarrow> imtype = ''kernel'' \<or> imtype = ''initrd''"
  by (simp add: imtypes_def kernelImageType_def initrdImageType_def)

lemma makeKey_image:
  assumes "imtype \<in> imtypes" and "x \<noteq> []" and "hd x \<noteq> CHR ''/''"
  shows "makeKey imtype x = imagePfx imtype @ x"
  using imtypes_cases [OF assms(1)] assms(2,3) by (auto simp: makeKey_def imagePfx_def)

lemma byte_hex_hd:
  assumes "n < 256"
  shows "byte_hex n \<noteq> [] \<and> hd (byte_hex n) \<noteq> CHR ''/''"
proof -
  have m: "n div 16 < 16" using assms by simp
  then have "(48 :: nat) \<le> of_char (hex_char (n div 16))" by (simp add: hex_char_def)
  then have "hex_char (n div 16) \<noteq> CHR ''/''" by auto
  then show ?thesis by (simp add: byte_hex_def)
qed

lemma hex64_hd: "hex64 w \<noteq> [] \<and> hd (hex64 w) \<noteq> CHR ''/''"
proof -
  let ?f = "\<lambda>i. byte_hex (unat w div 2 ^ (8 * i) mod 256)"
  have r: "rev [0..<8] = 7 # rev [0..<7::nat]" by code_simp
  have "hex64 w = ?f 7 @ concat (map ?f (rev [0..<7]))"
    unfolding hex64_def by (simp only: r list.map concat.simps)
  moreover have "?f 7 \<noteq> [] \<and> hd (?f 7) \<noteq> CHR ''/''"
    by (rule byte_hex_hd) (rule mod_less_divisor, simp)
  ultimately show ?thesis by (metis append_is_Nil_conv hd_append2)
qed

lemma byte_hex_ascii: "n < 256 \<Longrightarrow> list_all (\<lambda>c. (of_char c :: nat) < 128) (byte_hex n)"
  using mod_less_divisor [of 16 n] less_mult_imp_div_less [of n 16 16]
  by (simp add: byte_hex_def hex_char_def del: mod_less_divisor)

lemma hex64_text: "utf8_ok (hex64 w)"
proof (rule utf8_ok_asciis)
  have "list_all (\<lambda>c. (of_char c :: nat) < 128) (byte_hex (n mod 256))" for n by (rule byte_hex_ascii) simp
  then show "list_all (\<lambda>c. (of_char c :: nat) < 128) (hex64 w)" by (auto simp: hex64_def list_all_iff)
qed

lemma makeImageKey_prefix: "imtype \<in> imtypes \<Longrightarrow> \<exists>r. utf8_ok r \<and> makeImageKey imtype path = imagePfx imtype @ r"
  using makeKey_image hex64_hd hex64_text unfolding makeImageKey_def by blast

text \<open>The keys of images are texts, as those that the service makes are. They are stored in JSON.\<close>

definition imagesText :: "(string \<Rightarrow> string option) \<Rightarrow> bool" where
  "imagesText m \<longleftrightarrow> (\<forall>imtype\<in>imtypes. \<forall>r. m (imagePfx imtype @ r) \<noteq> None \<longrightarrow> utf8_ok r)"

lemma imagePfx_text: "imtype \<in> imtypes \<Longrightarrow> utf8_ok (imagePfx imtype @ r) \<longleftrightarrow> utf8_ok r"
  by (drule imtypes_cases) (auto simp: imagePfx_def)

lemma imagePfx_inj: "imtype \<in> imtypes \<Longrightarrow> imtype' \<in> imtypes \<Longrightarrow> imagePfx imtype @ r = imagePfx imtype' @ r' \<Longrightarrow> r = r'"
  by (drule imtypes_cases, drule imtypes_cases) (auto simp: imagePfx_def)

lemma getImages_bounds:
  assumes "imtype \<in> imtypes"
  shows "makeKey imtype keyMin = imagePfx imtype @ keyMin" and "makeKey imtype keyMax = imagePfx imtype @ keyMax"
  by (rule makeKey_image [OF assms]; simp add: keyMin_def keyMax_def)+

lemma imagePfx_nonparams: "imtype \<in> imtypes \<Longrightarrow> imagePfx imtype @ r \<noteq> paramsPfx @ n"
  by (drule imtypes_cases) (auto simp: imagePfx_def paramsPfx_def)

lemma imagePfx_distinct: "imagePfx kernelImageType @ r \<noteq> imagePfx initrdImageType @ n"
  by (simp add: imagePfx_def kernelImageType_def initrdImageType_def)

lemma makeKey_own: "imtype \<in> imtypes \<Longrightarrow> makeKey (imagePfx imtype @ r) [] = imagePfx imtype @ r"
  by (simp add: makeKey_def imagePfx_def)

subsection \<open>Images\<close>

lemma imageLookup_mem:
  "imageLookup path kvl = (key, im) \<Longrightarrow> key \<noteq> [] \<Longrightarrow>
   \<exists>v. (key, v) \<in> set kvl \<and> readImage v = (im, True) \<and> im_Path im = path"
  by (induction path kvl rule: imageLookup.induct) (auto split: prod.splits if_splits)

text \<open>What storing an image at a key leaves.\<close>

definition imageStored :: "string \<Rightarrow> string \<Rightarrow> (string \<Rightarrow> string option) \<Rightarrow> string \<Rightarrow> (string \<Rightarrow> string option) \<Rightarrow> bool" where
  "imageStored imtype path m key m' \<longleftrightarrow>
     (\<exists>r. utf8_ok r \<and> key = imagePfx imtype @ r) \<and> (\<exists>im. imageAt m' key = Some im \<and> im_Path im = path) \<and> (\<forall>k. k \<noteq> key \<longrightarrow> m' k = m k)"

lemma imageStored_text:
  assumes "imageStored imtype path m key m'" and "imagesText m" and "imtype \<in> imtypes"
  shows "imagesText m'"
  unfolding imagesText_def
proof (intro ballI allI impI)
  fix t r
  assume t: "t \<in> imtypes" "m' (imagePfx t @ r) \<noteq> None"
  show "utf8_ok r"
  proof (cases "imagePfx t @ r = key")
    case True
    with assms(1) imagePfx_inj [OF t(1) assms(3)] show ?thesis by (auto simp: imageStored_def)
  next
    case False
    with assms(1,2) t show ?thesis by (auto simp: imageStored_def imagesText_def)
  qed
qed

lemma wp_storeData:
  assumes "kv_in E C" and "kv_up (kvi E)"
    and "\<And>k. C k = (C (kvs s))(key \<mapsto> jprint v) \<Longrightarrow> Q None (s\<lparr>kvs := k\<rparr>)"
  shows "wp (storeData E key v) Q R s"
  unfolding storeData_def wp_andThen
  by (rule wp_kv_Store [OF assms(1)]) (use assms(2,3) in auto)

lemma wp_imageStore:
  assumes "kv_in E C" and "kv_up (kvi E)" and t: "imtype \<in> imtypes" and p: "utf8_ok path" and x: "imagesText (C (kvs s))"
    and Q: "\<And>k key. imageStored imtype path (C (kvs s)) key (C k) \<Longrightarrow> Q key (s\<lparr>kvs := k\<rparr>)"
  shows "wp (imageStore E path imtype) Q R s"
  unfolding imageStore_def wp_andThen getImages_def
proof (rule wp_kv_Range [OF assms(1)], goal_cases)
  case (1 k kvl)
  obtain key im where l: "imageLookup path kvl = (key, im)" by (metis surj_pair)
  show ?case
  proof (cases "key = []")
    case False
    obtain v where v: "(key, v) \<in> set kvl" "readImage v = (im, True)" "im_Path im = path"
      using imageLookup_mem [OF l False] by blast
    have b: "imagePfx imtype @ keyMin \<le> key" "key \<le> imagePfx imtype @ keyMax" "C (kvs s) key = Some v"
      using 1(2) v(1) unfolding in_range_def getImages_bounds [OF t] by blast+
    obtain r where r: "key = imagePfx imtype @ r" using between_prefix [OF b(1,2)] by blast
    then have "utf8_ok r" using x t b(3) by (auto simp: imagesText_def)
    with r have "imageStored imtype path (C (kvs s)) key (C k)"
      using b(3) v 1(1) by (auto simp: imageStored_def imageAt_def)
    with False l Q show ?thesis by simp
  next
    case True
    let ?key = "makeImageKey imtype path"
    have "wp (storeData E ?key (imageDataJson \<lparr>im_Path = path, im_Params = []\<rparr>))
        (\<lambda>err. wp (ret (if err = None then ?key else [])) Q R) R (s\<lparr>kvs := k\<rparr>)"
    proof (rule wp_storeData [OF assms(1,2)])
      fix k'
      assume k': "C k' = (C (kvs (s\<lparr>kvs := k\<rparr>)))(?key \<mapsto> jprint (imageDataJson \<lparr>im_Path = path, im_Params = []\<rparr>))"
      have "imageStored imtype path (C (kvs s)) ?key (C k')"
        using makeImageKey_prefix [OF t, of path] k' 1(1) p by (auto simp: imageStored_def imageAt_def image_ok_def)
      from Q [OF this] show "wp (ret (if None = None then ?key else [])) Q R (s\<lparr>kvs := k, kvs := k'\<rparr>)" by simp
    qed
    with l True show ?thesis by (simp add: Let_def)
  qed
qed (use assms(2) in blast)

lemma wp_storeImage:
  assumes "kv_in E C" and "kv_up (kvi E)" and t: "imtype \<in> imtypes" and p: "utf8_ok path" and x: "imagesText (C (kvs s))"
    and "path = [] \<Longrightarrow> Q (Inr []) s"
    and Q: "\<And>k key. path \<noteq> [] \<Longrightarrow> imageStored imtype path (C (kvs s)) key (C k) \<Longrightarrow> Q (Inr key) (s\<lparr>kvs := k\<rparr>)"
  shows "wp (storeImage E path imtype) Q R s"
proof (cases "path = []")
  case False
  have "wp (imageStore E path imtype) (\<lambda>k. wp (ret (if k = [] then Inl (cannotStore path) else Inr k)) Q R) R s"
  proof (rule wp_imageStore [OF assms(1-5)])
    fix k key
    assume a: "imageStored imtype path (C (kvs s)) key (C k)"
    then have "key \<noteq> []" by (auto simp: imageStored_def imagePfx_def)
    with Q [OF False a] show "wp (ret (if key = [] then Inl (cannotStore path) else Inr key)) Q R (s\<lparr>kvs := k\<rparr>)" by simp
  qed
  with False show ?thesis by (simp add: storeImage_def)
qed (use assms(6) in \<open>simp add: storeImage_def\<close>)

subsection \<open>The cache of the state manager\<close>

text \<open>The cache holds \<open>d\<close>, so that the lookups need no retrieval.\<close>

definition cached :: "SMData \<Rightarrow> 'k svc \<Rightarrow> bool" where
  "cached d s \<longleftrightarrow> smData s = Some d \<and> 0 \<le> smTimeStamp s"

lemma cached_kvs [simp]: "cached d (s\<lparr>kvs := k\<rparr>) = cached d s"
  by (simp add: cached_def)

lemma cached_ticks [simp]: "cached d (s\<lparr>ticks := k\<rparr>) = cached d s"
  by (simp add: cached_def)

lemma getState_cached: "cached d s \<Longrightarrow> getState E s = (Inr (Some d), s)"
  by (simp add: cached_def getState_def protectedGetState_def andThen_def ret_def)

lemma FindSMCompByMAC_cached:
  "cached d s \<Longrightarrow> FindSMCompByMAC E mac s = (Inr (found (compByMAC (sm_Components d) mac)), s)"
  by (simp add: FindSMCompByMAC_def andThen_def getState_cached deref_def ret_def)

lemma FindSMCompByName_cached:
  "cached d s \<Longrightarrow> FindSMCompByName E n s = (Inr (found (List.find (\<lambda>v. sc_ID v = n) (sm_Components d))), s)"
  by (simp add: FindSMCompByName_def andThen_def getState_cached deref_def ret_def)

lemma FindSMCompByNid_cached:
  "cached d s \<Longrightarrow> FindSMCompByNid E n s = (Inr (found (List.find (\<lambda>v. nidInt v = Some n) (sm_Components d))), s)"
  by (simp add: FindSMCompByNid_def andThen_def getState_cached deref_def ret_def)

lemma wp_exec: "m s = (Inr x, s') \<Longrightarrow> wp m Q R s = Q x s'"
  by (simp add: wp_def)

definition compByNid :: "SMComponent list \<Rightarrow> int32 \<Rightarrow> SMComponent option" where
  "compByNid cs n = List.find (\<lambda>v. nidInt v = Some (sint n)) cs"

definition macName :: "SMData \<Rightarrow> string \<Rightarrow> string" where
  "macName d m = (case compByMAC (sm_Components d) m of Some c \<Rightarrow> sc_ID c | None \<Rightarrow> m)"

definition nidNameOf :: "SMData \<Rightarrow> int32 \<Rightarrow> string" where
  "nidNameOf d n = (case compByNid (sm_Components d) n of Some c \<Rightarrow> sc_ID c | None \<Rightarrow> nidName (sint n))"

text \<open>The names under which a request stores its boot data.\<close>

definition targets :: "SMData \<Rightarrow> BootParams \<Rightarrow> string list" where
  "targets d bp =
     (if Hosts bp \<noteq> [] then Hosts bp
      else if Macs bp \<noteq> [] then map (macName d) (Macs bp)
      else map (nidNameOf d) (Nids bp))"

lemma macKey_cached: "cached d s \<Longrightarrow> macKey E m s = (Inr (paramsPfx @ macName d m), s)"
  by (auto simp: macKey_def andThen_def FindSMCompByMAC_cached macName_def found_def ret_def split: option.splits)

lemma nidKey_cached: "cached d s \<Longrightarrow> nidKey E n s = (Inr (paramsPfx @ nidNameOf d n), s)"
  by (auto simp: nidKey_def andThen_def FindSMCompByNid_cached nidNameOf_def compByNid_def found_def ret_def split: option.splits)

subsection \<open>Storing records\<close>

definition putAll :: "(string \<Rightarrow> string option) \<Rightarrow> string list \<Rightarrow> string \<Rightarrow> string \<Rightarrow> string option" where
  "putAll m names v = (\<lambda>k. if \<exists>n\<in>set names. k = paramsPfx @ n then Some v else m k)"

lemma wp_untilErr_store:
  assumes "kv_in E C" and "kv_up (kvi E)" and "cached d s"
    and key: "\<And>x t. cached d t \<Longrightarrow> key x t = (Inr (paramsPfx @ nm x), t)"
    and Q: "\<And>k. C k = putAll (C (kvs s)) (map nm xs) (jprint v) \<Longrightarrow> Q None (s\<lparr>kvs := k\<rparr>)"
  shows "wp (untilErr (\<lambda>x. andThen (key x) (\<lambda>k. storeData E k v)) xs) Q R s"
  using assms(3) Q
proof (induction xs arbitrary: s)
  case Nil
  from Nil(2) [of "kvs s"] show ?case by (simp add: putAll_def)
next
  case (Cons x xs)
  have "wp (storeData E (paramsPfx @ nm x) v)
     (\<lambda>err. wp (if err = None then untilErr (\<lambda>x. andThen (key x) (\<lambda>k. storeData E k v)) xs else ret err) Q R) R s"
  proof (rule wp_storeData [OF assms(1,2)])
    fix k
    assume k: "C k = (C (kvs s))(paramsPfx @ nm x \<mapsto> jprint v)"
    have "wp (untilErr (\<lambda>x. andThen (key x) (\<lambda>k. storeData E k v)) xs) Q R (s\<lparr>kvs := k\<rparr>)"
    proof (rule Cons.IH)
      fix k'
      assume "C k' = putAll (C (kvs (s\<lparr>kvs := k\<rparr>))) (map nm xs) (jprint v)"
      with k have "C k' = putAll (C (kvs s)) (map nm (x # xs)) (jprint v)"
        by (auto simp: putAll_def fun_eq_iff)
      from Cons.prems(2) [OF this] show "Q None (s\<lparr>kvs := k, kvs := k'\<rparr>)" by simp
    qed (use Cons.prems(1) in simp)
    then show "wp (if None = None then untilErr (\<lambda>x. andThen (key x) (\<lambda>k. storeData E k v)) xs else ret None) Q R (s\<lparr>kvs := k\<rparr>)"
      by simp
  qed
  then show ?case by (simp add: wp_exec [of "key x" s, OF key [OF Cons.prems(1)]])
qed

lemma wp_storeRecords:
  fixes E :: "'k senv" and s :: "'k svc"
  defines "tok \<equiv> newUuid E (ticks s)"
  assumes E: "kv_in E C" "kv_up (kvi E)" and s: "cached d s" and t: "targets d bp \<noteq> []"
    and Q: "\<And>k. C k = putAll (C (kvs s)) (targets d bp) (jprint (bootDataStoreJson
        \<lparr>ds_Params = Params bp, ds_Kernel = kid, ds_Initrd = iid, ds_CloudInit = bpCloudInit bp, ds_ReferralToken = tok\<rparr>)) \<Longrightarrow>
      Q (None, tok) (s\<lparr>ticks := Suc (ticks s), kvs := k\<rparr>)"
  shows "wp (storeRecords E bp kid iid) Q R s"
proof -
  let ?v = "bootDataStoreJson \<lparr>ds_Params = Params bp, ds_Kernel = kid, ds_Initrd = iid, ds_CloudInit = bpCloudInit bp, ds_ReferralToken = tok\<rparr>"
  let ?s = "s\<lparr>ticks := Suc (ticks s)\<rparr>"
  have u: "uuidNew E s = (Inr tok, ?s)" by (simp add: uuidNew_def tok_def)
  have c: "cached d ?s" using s by simp
  note store = wp_untilErr_store [OF E c, where v = ?v and Q = "\<lambda>err. Q (err, tok)"]
  have hk: "storeData E (paramsPfx @ h) ?v = andThen (ret (paramsPfx @ h)) (\<lambda>k. storeData E k ?v)" for h
    by (simp add: andThen_def ret_def fun_eq_iff)
  consider (h) "Hosts bp \<noteq> []" | (m) "Hosts bp = []" "Macs bp \<noteq> []" | (n) "Hosts bp = []" "Macs bp = []" "Nids bp \<noteq> []"
    using t by (auto simp: targets_def split: if_splits)
  then show ?thesis
  proof cases
    case h
    have "wp (untilErr (\<lambda>h. storeData E (paramsPfx @ h) ?v) (Hosts bp)) (\<lambda>err. Q (err, tok)) R ?s"
      unfolding hk by (rule store [where nm = "\<lambda>x. x"]) (use Q h in \<open>auto simp: targets_def ret_def\<close>)
    with h show ?thesis by (simp add: storeRecords_def wp_exec [of "uuidNew E" s, OF u])
  next
    case m
    have "wp (untilErr (\<lambda>m. andThen (macKey E m) (\<lambda>k. storeData E k ?v)) (Macs bp)) (\<lambda>err. Q (err, tok)) R ?s"
      by (rule store [where nm = "macName d"]) (use Q m in \<open>auto simp: targets_def macKey_cached\<close>)
    with m show ?thesis by (simp add: storeRecords_def wp_exec [of "uuidNew E" s, OF u])
  next
    case n
    have "wp (untilErr (\<lambda>m. andThen (nidKey E m) (\<lambda>k. storeData E k ?v)) (Nids bp)) (\<lambda>err. Q (err, tok)) R ?s"
      by (rule store [where nm = "nidNameOf d"]) (use Q n in \<open>auto simp: targets_def nidKey_cached\<close>)
    with n show ?thesis by (simp add: storeRecords_def wp_exec [of "uuidNew E" s, OF u])
  qed
qed

subsection \<open>Store\<close>

text \<open>The reference of a record to an image: none for an empty path, or else the key of an image
  with that path.\<close>

definition imageRef :: "string \<Rightarrow> string \<Rightarrow> (string \<Rightarrow> string option) \<Rightarrow> string \<Rightarrow> bool" where
  "imageRef imtype path m key \<longleftrightarrow>
     (if path = [] then key = []
      else (\<exists>r. utf8_ok r \<and> key = imagePfx imtype @ r) \<and> (\<exists>im. imageAt m key = Some im \<and> im_Path im = path))"

lemma imageRef_text: "imageRef imtype path m key \<Longrightarrow> imtype \<in> imtypes \<Longrightarrow> utf8_ok key"
  by (auto simp: imageRef_def imagePfx_text split: if_splits)

text \<open>The two contents differ at keys of images of a type only, or not at those.\<close>

definition sameBut :: "string \<Rightarrow> (string \<Rightarrow> string option) \<Rightarrow> (string \<Rightarrow> string option) \<Rightarrow> bool" where
  "sameBut imtype m m' \<longleftrightarrow> (\<forall>k. (\<forall>r. k \<noteq> imagePfx imtype @ r) \<longrightarrow> m' k = m k)"

lemma imageRef_path:
  assumes "imageRef imtype path m key" and "imtype \<in> imtypes"
  shows "im_Path (imgOf m key) = path"
proof (cases "path = []")
  case True
  with assms(1) show ?thesis by (simp add: imageRef_def imgOf_def noImage_def)
next
  case False
  with assms(1) obtain r im where r: "key = imagePfx imtype @ r" "imageAt m key = Some im" "im_Path im = path"
    by (auto simp: imageRef_def)
  have "key \<noteq> []" using r by (simp add: imagePfx_def)
  moreover have "makeKey key [] = key" using r makeKey_own [OF assms(2), of r] by simp
  ultimately show ?thesis using r(2,3) by (simp add: imgOf_def)
qed

lemma imageRef_mono:
  "imageRef imtype path m key \<Longrightarrow> (\<And>r. m' (imagePfx imtype @ r) = m (imagePfx imtype @ r)) \<Longrightarrow> imageRef imtype path m' key"
  by (auto simp: imageRef_def imageAt_def split: if_splits)

lemma sameBut_hostData:
  assumes "sameBut imtype m m'" and "imtype \<in> imtypes"
  shows "hostData m' n = hostData m n"
proof -
  have "\<forall>r. paramsPfx @ n \<noteq> imagePfx imtype @ r" using imagePfx_nonparams [OF assms(2)] by metis
  with assms(1) have "m' (paramsPfx @ n) = m (paramsPfx @ n)" unfolding sameBut_def by blast
  then show ?thesis by (simp add: hostData_def)
qed

lemma wp_storeImage_ref:
  assumes "kv_in E C" and "kv_up (kvi E)" and "imtype \<in> imtypes" and "utf8_ok path" and "imagesText (C (kvs s))"
    and Q: "\<And>k key. imageRef imtype path (C k) key \<Longrightarrow> sameBut imtype (C (kvs s)) (C k) \<Longrightarrow> imagesText (C k) \<Longrightarrow>
      Q (Inr key) (s\<lparr>kvs := k\<rparr>)"
  shows "wp (storeImage E path imtype) Q R s"
proof (rule wp_storeImage [OF assms(1-5)])
  assume "path = []"
  with Q [of "kvs s" "[]"] assms(5) show "Q (Inr []) s" by (simp add: imageRef_def sameBut_def)
next
  fix k key
  assume "path \<noteq> []" and i: "imageStored imtype path (C (kvs s)) key (C k)"
  then show "Q (Inr key) (s\<lparr>kvs := k\<rparr>)"
    by (intro Q imageStored_text [OF i assms(5,3)]) (auto simp: imageStored_def imageRef_def sameBut_def)
qed

text \<open>The boot data that a request stores under a name.\<close>

definition storedFor :: "(string \<Rightarrow> string option) \<Rightarrow> BootParams \<Rightarrow> string \<Rightarrow> string \<Rightarrow> bool" where
  "storedFor m bp tok n \<longleftrightarrow>
     (\<exists>b. hostData m n = Some b \<and> ds_Params b = Params bp \<and> ds_CloudInit b = bpCloudInit bp \<and> ds_ReferralToken b = tok \<and>
        im_Path (imgOf m (ds_Kernel b)) = Kernel bp \<and> im_Path (imgOf m (ds_Initrd b)) = Initrd bp)"

lemma hostData_putAll:
  assumes "stored_ok b"
  shows "hostData (putAll m names (jprint (bootDataStoreJson b))) n = (if n \<in> set names then Some b else hostData m n)"
  using assms by (auto simp: hostData_def putAll_def)

lemma putAll_text: "imagesText (putAll m names v) \<longleftrightarrow> imagesText m"
  using imagePfx_nonparams by (force simp: imagesText_def putAll_def)

lemma putAll_image: "imtype \<in> imtypes \<Longrightarrow> putAll m names v (imagePfx imtype @ r) = m (imagePfx imtype @ r)"
  using imagePfx_nonparams by (auto simp: putAll_def)

lemma imtypes_in [simp]: "kernelImageType \<in> imtypes" "initrdImageType \<in> imtypes"
  by (simp_all add: imtypes_def)

lemma storedFor_putAll:
  assumes k: "imageRef kernelImageType (Kernel bp) m1 kid" and i: "imageRef initrdImageType (Initrd bp) m2 iid"
    and s: "sameBut initrdImageType m1 m2" and c: "values_ok bp" "utf8_ok tok" and n: "n \<in> set names"
  shows "storedFor (putAll m2 names (jprint (bootDataStoreJson \<lparr>ds_Params = Params bp, ds_Kernel = kid, ds_Initrd = iid,
           ds_CloudInit = bpCloudInit bp, ds_ReferralToken = tok\<rparr>))) bp tok n"
proof -
  have m2: "m2 (imagePfx kernelImageType @ r) = m1 (imagePfx kernelImageType @ r)" for r
    using s imagePfx_distinct unfolding sameBut_def by blast
  have "imageRef kernelImageType (Kernel bp) (putAll m2 names v) kid" "imageRef initrdImageType (Initrd bp) (putAll m2 names v) iid" for v
    by (rule imageRef_mono [OF k] imageRef_mono [OF i]; simp add: putAll_image m2)+
  moreover have "stored_ok \<lparr>ds_Params = Params bp, ds_Kernel = kid, ds_Initrd = iid, ds_CloudInit = bpCloudInit bp, ds_ReferralToken = tok\<rparr>"
    using c imageRef_text [OF k] imageRef_text [OF i] by (simp add: stored_ok_def values_ok_def)
  ultimately show ?thesis
    using n by (auto simp: storedFor_def hostData_putAll intro!: imageRef_path)
qed

text \<open>Texts throughout: the referral tokens are (UUIDs), and the keys of images.\<close>

definition tokensText :: "'k senv \<Rightarrow> bool" where
  "tokensText E \<longleftrightarrow> (\<forall>t. utf8_ok (newUuid E t))"

lemma Store_wp:
  fixes E :: "'k senv" and s :: "'k svc"
  assumes E: "kv_in E C" "kv_up (kvi E)" and s: "cached d s" and t: "targets d bp \<noteq> []" and c: "values_ok bp"
    and x: "tokensText E" "imagesText (C (kvs s))"
  shows "wp (Store E bp) (\<lambda>r s'. \<exists>tok k. r = (None, tok) \<and> s' = s\<lparr>ticks := Suc (ticks s), kvs := k\<rparr> \<and> tok = newUuid E (ticks s) \<and>
       imagesText (C k) \<and> (\<forall>n\<in>set (targets d bp). storedFor (C k) bp tok n) \<and>
       (\<forall>n. n \<notin> set (targets d bp) \<longrightarrow> hostData (C k) n = hostData (C (kvs s)) n)) (\<lambda>_ _. False) s"
    (is "wp _ ?Q _ _")
proof -
  let ?rest = "\<lambda>kid i. case i of Inl e \<Rightarrow> ret (Some e, []) | Inr iid \<Rightarrow> storeRecords E bp kid iid"
  have p: "utf8_ok (Kernel bp)" "utf8_ok (Initrd bp)" using c by (simp_all add: values_ok_def)
  have "wp (storeImage E (Kernel bp) kernelImageType) (\<lambda>k. wp (case k of Inl e \<Rightarrow> ret (Some e, []) | Inr kid \<Rightarrow>
      andThen (storeImage E (Initrd bp) initrdImageType) (?rest kid)) ?Q (\<lambda>_ _. False)) (\<lambda>_ _. False) s"
  proof (rule wp_storeImage_ref [OF E imtypes_in(1) p(1) x(2)])
    fix k1 kid
    assume 1: "imageRef kernelImageType (Kernel bp) (C k1) kid" "sameBut kernelImageType (C (kvs s)) (C k1)" "imagesText (C k1)"
    then have x1: "imagesText (C (kvs (s\<lparr>kvs := k1\<rparr>)))" by simp
    have "wp (storeImage E (Initrd bp) initrdImageType) (\<lambda>i. wp (?rest kid i) ?Q (\<lambda>_ _. False)) (\<lambda>_ _. False) (s\<lparr>kvs := k1\<rparr>)"
    proof (rule wp_storeImage_ref [OF E imtypes_in(2) p(2) x1])
      fix k2 iid
      assume 2: "imageRef initrdImageType (Initrd bp) (C k2) iid" "sameBut initrdImageType (C (kvs (s\<lparr>kvs := k1\<rparr>))) (C k2)"
        "imagesText (C k2)"
      have sk: "stored_ok \<lparr>ds_Params = Params bp, ds_Kernel = kid, ds_Initrd = iid, ds_CloudInit = bpCloudInit bp,
          ds_ReferralToken = newUuid E (ticks s)\<rparr>"
        using c x(1) imageRef_text [OF 1(1)] imageRef_text [OF 2(1)] by (simp add: stored_ok_def values_ok_def tokensText_def)
      have h: "hostData (C k2) n = hostData (C (kvs s)) n" for n
        using sameBut_hostData [OF 2(2)] sameBut_hostData [OF 1(2)] by simp
      have "wp (storeRecords E bp kid iid) ?Q (\<lambda>_ _. False) (s\<lparr>kvs := k1, kvs := k2\<rparr>)"
        by (rule wp_storeRecords [OF E _ t])
          (use s 1 2 c x(1) h sk in \<open>auto simp: hostData_putAll putAll_text tokensText_def intro!: exI storedFor_putAll\<close>)
      then show "wp (?rest kid (Inr iid)) ?Q (\<lambda>_ _. False) (s\<lparr>kvs := k1, kvs := k2\<rparr>)" by simp
    qed
    then show "wp (case Inr kid of Inl e \<Rightarrow> ret (Some e, []) | Inr kid \<Rightarrow>
      andThen (storeImage E (Initrd bp) initrdImageType) (?rest kid)) ?Q (\<lambda>_ _. False) (s\<lparr>kvs := k1\<rparr>)" by simp
  qed
  then show ?thesis using E(1) by (simp add: Store_def kv_in_def)
qed

subsection \<open>Properties of Store\<close>

lemma storedFor_lookup:
  assumes "kv_in E C" "kv_up (kvi E)" "imageCache s = []" and "storedFor (C (kvs s)) bp tok n"
  shows "\<exists>bd s'. LookupBootData E n s = (Inr (bd, None), s') \<and> bd_Params bd = Params bp \<and>
     im_Path (bd_Kernel bd) = Kernel bp \<and> im_Path (bd_Initrd bd) = Initrd bp \<and>
     bd_CloudInit bd = bpCloudInit bp \<and> bd_ReferralToken bd = tok"
proof -
  obtain k where "LookupBootData E n s = (Inr (bootDataResult (C (kvs s)) n), s\<lparr>kvs := k\<rparr>)"
    using yields_result [OF yields_LookupBootData [OF assms(1,2)] assms(3)] by blast
  with assms(4) show ?thesis by (auto simp: storedFor_def bootDataResult_def dataOf_def)
qed

lemma Store_result:
  assumes "kv_in E C" "kv_up (kvi E)" "cached d s" "targets d bp \<noteq> []" "values_ok bp" "tokensText E" "imagesText (C (kvs s))"
    "Store E bp s = (r, s')"
  shows "\<exists>tok k. r = Inr (None, tok) \<and> s' = s\<lparr>ticks := Suc (ticks s), kvs := k\<rparr> \<and>
     imagesText (C k) \<and> (\<forall>n\<in>set (targets d bp). storedFor (C k) bp tok n) \<and>
     (\<forall>n. n \<notin> set (targets d bp) \<longrightarrow> hostData (C k) n = hostData (C (kvs s)) n)"
proof -
  note w = Store_wp [OF assms(1-7)]
  obtain x t where "Store E bp s = (Inr x, t)" using wp_total [OF w] by blast
  with assms(8) have r: "r = Inr x" and "Store E bp s = (Inr x, s')" by simp_all
  from wp_result(1) [OF w this(2)] r show ?thesis by blast
qed

text \<open>C10. When the key-value store answers and the service knows the hardware, Store succeeds for
  every request that names a host, a MAC address or a NID, and from then on looking up each of the
  names it resolves to (the component of a MAC address or NID if there is one) returns the requested
  parameters, kernel, initrd and cloud-init data with the referral token that Store returned. Since JSON keeps valid
  UTF-8 only, the texts of the request, the tokens and the keys of the images have to be such; a request that
  has been decoded always is.\<close>

theorem Store_then_lookup:
  assumes "kv_in E C" and "kv_up (kvi E)" and "cached d s" and "imageCache s = []"
    and "values_ok bp" and "targets d bp \<noteq> []" and "Store E bp s = (r, s')"
    and "tokensText E" and "imagesText (C (kvs s))"
  shows "\<exists>tok. r = Inr (None, tok) \<and> (\<forall>n\<in>set (targets d bp). \<exists>bd s''. LookupBootData E n s' = (Inr (bd, None), s'') \<and>
     bd_Params bd = Params bp \<and> im_Path (bd_Kernel bd) = Kernel bp \<and> im_Path (bd_Initrd bd) = Initrd bp \<and>
     bd_CloudInit bd = bpCloudInit bp \<and> bd_ReferralToken bd = tok)"
proof -
  obtain tok k where *: "r = Inr (None, tok)" "s' = s\<lparr>ticks := Suc (ticks s), kvs := k\<rparr>"
      "\<forall>n\<in>set (targets d bp). storedFor (C k) bp tok n"
    using Store_result [OF assms(1,2,3,6,5,8,9,7)] by blast
  have c: "imageCache s' = []" and k: "kvs s' = k" using *(2) assms(4) by simp_all
  show ?thesis
  proof (rule exI [of _ tok], intro conjI ballI)
    show "r = Inr (None, tok)" by (rule *(1))
  next
    fix n
    assume "n \<in> set (targets d bp)"
    with *(3) k have "storedFor (C (kvs s')) bp tok n" by simp
    then show "\<exists>bd s''. LookupBootData E n s' = (Inr (bd, None), s'') \<and> bd_Params bd = Params bp \<and>
       im_Path (bd_Kernel bd) = Kernel bp \<and> im_Path (bd_Initrd bd) = Initrd bp \<and>
       bd_CloudInit bd = bpCloudInit bp \<and> bd_ReferralToken bd = tok"
      by (rule storedFor_lookup [OF assms(1,2) c])
  qed
qed

definition demoReq :: BootParams where
  "demoReq = noBootParams\<lparr>Macs := [''00:11:22:33:44:55'', ''66:77:88:99:aa:bb''], Params := ''console=ttyS0'',
     Kernel := ''s3://boot/vmlinuz'', Initrd := ''/initrd.img''\<rparr>"

lemma demo_cached: "cached demoSM (demoSvc k)"
  by (simp add: cached_def)

lemma demoReq_ok: "values_ok demoReq" "targets demoSM demoReq = [''x0c0s1b0n0'', ''66:77:88:99:aa:bb'']"
proof -
  show "values_ok demoReq" by (simp add: values_ok_def demoReq_def noBootParams_def)
  show "targets demoSM demoReq = [''x0c0s1b0n0'', ''66:77:88:99:aa:bb'']" by code_simp
qed

lemma nat_str_text: "utf8_ok (nat_str n)"
proof (rule utf8_ok_asciis)
  have "is_digit c \<Longrightarrow> (of_char c :: nat) < 128" for c by (simp add: is_digit_def less_eq_char_def)
  then show "list_all (\<lambda>c. (of_char c :: nat) < 128) (nat_str n)" using nat_str_digits [of _ n] by (auto simp: list_all_iff)
qed

lemma demo_tokens: "tokensText demoSenv"
  by (simp add: tokensText_def demoSenv_def nat_str_text)

lemma imagesText_none: "(\<And>imtype r. imtype \<in> imtypes \<Longrightarrow> m (imagePfx imtype @ r) = None) \<Longrightarrow> imagesText m"
  by (simp add: imagesText_def)

lemma Store_then_lookup_witness:
  "\<exists>tok. fst (Store demoSenv demoReq (demoSvc [])) = Inr (None, tok) \<and>
     (\<exists>bd s''. LookupBootData demoSenv ''x0c0s1b0n0'' (snd (Store demoSenv demoReq (demoSvc []))) = (Inr (bd, None), s'') \<and>
        im_Path (bd_Kernel bd) = ''s3://boot/vmlinuz'' \<and> bd_ReferralToken bd = tok)"
  using Store_then_lookup [OF demo_in demo_up demo_cached demoSvc_simps(1) demoReq_ok(1) _ surjective_pairing demo_tokens,
      of "[]"]
  by (auto simp: demoReq_ok(2) imagesText_none) (auto simp: demoReq_def)

text \<open>Store changes the boot data of no other name.\<close>

lemma Store_frame:
  assumes "kv_in E C" and "kv_up (kvi E)" and "cached d s" and "values_ok bp" and "tokensText E" and "imagesText (C (kvs s))"
    and "targets d bp \<noteq> []" and "Store E bp s = (r, s')" and "n \<notin> set (targets d bp)"
  shows "hostData (C (kvs s')) n = hostData (C (kvs s)) n"
  using Store_result [OF assms(1,2,3,7,4,5,6,8)] assms(9) by auto

lemma Store_frame_witness:
  "hostData (map_of (kvs (snd (Store demoSenv demoReq (demoSvc [(''/params/x1'', ''{}'')]))))) ''x1'' = Some noBootDataStore"
proof -
  have h: "hostData (map_of [(''/params/x1'', ''{}'')]) ''x1'' = Some noBootDataStore" by code_simp
  have "hostData (map_of (kvs (snd (Store demoSenv demoReq (demoSvc [(''/params/x1'', ''{}'')]))))) ''x1'' =
        hostData (map_of (kvs (demoSvc [(''/params/x1'', ''{}'')]))) ''x1''"
    by (rule Store_frame [OF demo_in demo_up demo_cached demoReq_ok(1) demo_tokens _ _ surjective_pairing])
      (use imagePfx_nonparams [of _ _ "''x1''"] in \<open>auto simp: demoReq_ok(2) paramsPfx_def intro!: imagesText_none\<close>)
  with h show ?thesis by simp
qed

end
