(* ===== verification/KvNew.thy ===== *)
theory KvNew
  imports KvStore
begin

text \<open>
  StoreNew on the key-value store: a request one of whose names has boot data is refused and changes
  nothing; any other request is stored.
\<close>

subsection \<open>Questions to the store and to the cached hardware\<close>

definition asks :: "SMData \<Rightarrow> 'k view \<Rightarrow> ('k, 'a) sv \<Rightarrow> ((string \<Rightarrow> string option) \<Rightarrow> 'a) \<Rightarrow> bool" where
  "asks d C m g \<longleftrightarrow> (\<forall>s Q R. cached d s \<longrightarrow> imageCache s = [] \<longrightarrow>
     (\<forall>k. C k = C (kvs s) \<longrightarrow> Q (g (C (kvs s))) (s\<lparr>kvs := k\<rparr>)) \<longrightarrow> wp m Q R s)"

lemma asksI:
  assumes "\<And>s Q R. cached d s \<Longrightarrow> imageCache s = [] \<Longrightarrow>
     (\<And>k. C k = C (kvs s) \<Longrightarrow> Q (g (C (kvs s))) (s\<lparr>kvs := k\<rparr>)) \<Longrightarrow> wp m Q R s"
  shows "asks d C m g"
  using assms unfolding asks_def by blast





lemma asks_exec:
  assumes "\<And>s. cached d s \<Longrightarrow> m s = (Inr x, s)"
  shows "asks d C m (\<lambda>_. x)"
proof (rule asksI)
  fix s :: "'a svc" and Q and R
  assume "cached d s" and Q: "\<And>k. C k = C (kvs s) \<Longrightarrow> Q x (s\<lparr>kvs := k\<rparr>)"
  with assms Q [of "kvs s"] show "wp m Q R s" by (simp add: wp_def)
qed



subsection \<open>What is there already\<close>










subsection \<open>Properties of StoreNew\<close>




end
