(* ===== verification/KvRemove.thy ===== *)
theory KvRemove
  imports KvNew
begin

text \<open>
  Remove on the key-value store: the boot data of the named hosts goes, and with an image go the
  references to it.
\<close>

subsection \<open>Hosts\<close>

definition deleteAll :: "(string \<Rightarrow> string option) \<Rightarrow> string list \<Rightarrow> string \<Rightarrow> string option" where
  "deleteAll m names = (\<lambda>k. if \<exists>n\<in>set names. k = paramsPfx @ n then None else m k)"

lemma deleteAll_simps [simp]: "deleteAll m [] = m"
  by (simp add: deleteAll_def)

lemma deleteAll_snoc: "deleteAll m (xs @ [x]) = (deleteAll m xs)(paramsPfx @ x := None)"
  by (auto simp: deleteAll_def fun_eq_iff)

lemma wp_removeHost:
  assumes "kv_in E C" and "kv_up (kvi E)"
    and Q: "\<And>k e. C k = (C (kvs s))(paramsPfx @ h := None) \<Longrightarrow> (e = None \<longleftrightarrow> C (kvs s) (paramsPfx @ h) \<noteq> None) \<Longrightarrow>
      Q e (s\<lparr>kvs := k\<rparr>)"
  shows "wp (removeHost E h) Q R s"
  unfolding removeHost_def Let_def wp_andThen
proof (rule wp_kv_Get [OF assms(1)], goal_cases)
  case (1 k v ex)
  show ?case
  proof (cases ex)
    case False
    with 1 show ?thesis by (simp, intro Q) (auto simp: fun_eq_iff)
  next
    case True
    have "wp (kv_Delete E (paramsPfx @ h)) (\<lambda>err. Q (map_option (storageErr (''Key '' @ h @ '' deletion'') 500) err)) R (s\<lparr>kvs := k\<rparr>)"
    proof (rule wp_kv_Delete [OF assms(1)], goal_cases)
      case (1 k')
      with \<open>C k = C (kvs s)\<close> \<open>if ex then _ else _\<close> True show ?case by (simp, intro Q) auto
    qed (use assms(2) in blast)
    with True show ?thesis by simp
  qed
qed (use assms(2) in blast)

text \<open>One more name is removed; the first error is kept.\<close>

definition goneState :: "'k view \<Rightarrow> 'k svc \<Rightarrow> string list \<Rightarrow> svcerr option \<Rightarrow> 'k svc \<Rightarrow> bool" where
  "goneState C s names err s' \<longleftrightarrow> (\<exists>k. s' = s\<lparr>kvs := k\<rparr> \<and> C k = deleteAll (C (kvs s)) names) \<and>
     (err = None \<longleftrightarrow> distinct names \<and> (\<forall>n\<in>set names. C (kvs s) (paramsPfx @ n) \<noteq> None))"

lemma wp_removeName:
  assumes "kv_in E C" and "kv_up (kvi E)" and g: "goneState C s names err t"
  shows "wp (removeHost E n) (\<lambda>e. goneState C s (names @ [n]) (firstErr err e)) R t"
proof (rule wp_removeHost [OF assms(1,2)])
  fix k and e :: "svcerr option"
  assume k: "C k = (C (kvs t))(paramsPfx @ n := None)" and e: "e = None \<longleftrightarrow> C (kvs t) (paramsPfx @ n) \<noteq> None"
  from g obtain k0 where t: "t = s\<lparr>kvs := k0\<rparr>" and k0: "C k0 = deleteAll (C (kvs s)) names"
    and err: "err = None \<longleftrightarrow> distinct names \<and> (\<forall>n\<in>set names. C (kvs s) (paramsPfx @ n) \<noteq> None)"
    unfolding goneState_def by blast
  have "C (kvs t) (paramsPfx @ n) \<noteq> None \<longleftrightarrow> n \<notin> set names \<and> C (kvs s) (paramsPfx @ n) \<noteq> None"
    by (auto simp: t k0 deleteAll_def)
  then show "goneState C s (names @ [n]) (firstErr err e) (t\<lparr>kvs := k\<rparr>)"
    using k e err unfolding goneState_def by (auto simp: t k0 deleteAll_snoc firstErr_def)
qed

lemma goneState_kvs: "goneState C s names err t \<Longrightarrow> cached d s \<Longrightarrow> cached d t"
  by (auto simp: goneState_def)

lemma wp_removeLoop:
  assumes "kv_in E C" and "kv_up (kvi E)" and c: "cached d s"
    and step: "\<And>x err t. cached d t \<Longrightarrow> f x err t = (case nm x of
        Some n \<Rightarrow> andThen (removeHost E n) (\<lambda>e. ret (firstErr err e)) t | None \<Rightarrow> (Inr err, t))"
    and g: "goneState C s names err t"
  shows "wp (foldEach f xs err) (goneState C s (names @ List.map_filter nm xs)) R t"
proof (rule wp_foldEach [where I = "\<lambda>ys. goneState C s (names @ List.map_filter nm ys)"])
  show "goneState C s (names @ List.map_filter nm []) err t" using g by (simp add: List.map_filter_def)
next
  fix ys y zs err' t'
  assume g': "goneState C s (names @ List.map_filter nm ys) err' t'"
  have c': "cached d t'" by (rule goneState_kvs [OF g' c])
  show "wp (f y err') (goneState C s (names @ List.map_filter nm (ys @ [y]))) R t'"
  proof (cases "nm y")
    case None
    with g' show ?thesis by (simp add: wp_def step [OF c'] List.map_filter_def)
  next
    case (Some n)
    let ?G = "goneState C s (names @ List.map_filter nm (ys @ [y]))"
    have eq: "f y err' t' = andThen (removeHost E n) (\<lambda>e. ret (firstErr err' e)) t'"
      by (simp add: step [OF c'] Some)
    have n: "names @ List.map_filter nm (ys @ [y]) = (names @ List.map_filter nm ys) @ [n]"
      by (simp add: List.map_filter_def Some)
    have "wp (andThen (removeHost E n) (\<lambda>e. ret (firstErr err' e))) ?G R t'"
      unfolding n wp_andThen wp_ret by (rule wp_removeName [OF assms(1,2) g'])
    then show ?thesis by (simp only: wp_def eq)
  qed
qed

text \<open>The names whose boot data a request removes.\<close>

definition removedNames :: "SMData \<Rightarrow> BootParams \<Rightarrow> string list" where
  "removedNames d bp = Hosts bp @ List.map_filter (\<lambda>m. map_option sc_ID (compByMAC (sm_Components d) m)) (Macs bp) @
     map (nidNameOf d) (Nids bp)"

lemma map_filter_Some: "List.map_filter (\<lambda>x. Some (f x)) xs = map f xs"
  by (simp add: List.map_filter_def)

lemma Remove_wp:
  fixes E :: "'k senv" and s :: "'k svc"
  assumes E: "kv_in E C" "kv_up (kvi E)" and c: "cached d s" and "Kernel bp = []" and "Initrd bp = []"
  shows "wp (Remove E bp) (goneState C s (removedNames d bp)) (\<lambda>_ _. False) s"
proof -
  note loop = wp_removeLoop [OF E c]
  have g0: "goneState C s [] None s" by (auto simp: goneState_def intro: exI [of _ "kvs s"])
  let ?hosts = "foldEach (\<lambda>h err. andThen (removeHost E h) (\<lambda>e. ret (firstErr err e))) (Hosts bp) None"
  have 1: "wp ?hosts (goneState C s (Hosts bp)) R s" for R
    using loop [OF _ g0, where f = "\<lambda>h err. andThen (removeHost E h) (\<lambda>e. ret (firstErr err e))" and nm = Some and xs = "Hosts bp" and R = R]
    by (simp add: map_filter_Some [of "\<lambda>x. x"])
  have 2: "wp (foldEach (removeMac E) (Macs bp) err)
      (goneState C s (Hosts bp @ List.map_filter (\<lambda>m. map_option sc_ID (compByMAC (sm_Components d) m)) (Macs bp))) R t"
    if "goneState C s (Hosts bp) err t" for err t R
    by (rule loop [OF _ that]) (auto simp: removeMac_def andThen_def FindSMCompByMAC_cached found_def ret_def split: option.splits)
  have nid: "removeNid E n err t = andThen (removeHost E (nidNameOf d n)) (\<lambda>e. ret (firstErr err e)) t" if "cached d t" for n err t
    using that by (simp add: removeNid_def andThen_def FindSMCompByNid_cached found_def nidNameOf_def compByNid_def split: option.splits)
  have 3: "wp (foldEach (removeNid E) (Nids bp) err) (goneState C s (names @ map (nidNameOf d) (Nids bp))) R t"
    if "goneState C s names err t" for err t R names
    using loop [OF _ that, where f = "removeNid E" and nm = "\<lambda>n. Some (nidNameOf d n)" and xs = "Nids bp" and R = R]
    by (simp add: map_filter_Some nid)
  have "wp (andThen ?hosts (\<lambda>err. andThen (foldEach (removeMac E) (Macs bp) err) (foldEach (removeNid E) (Nids bp))))
      (goneState C s (removedNames d bp)) (\<lambda>_ _. False) s"
    unfolding wp_andThen removedNames_def append_assoc [symmetric]
    by (rule wp_mono [OF 1], erule wp_mono [OF 2], erule 3, assumption+)
  then have "wp (andThen ?hosts (\<lambda>err. andThen (foldEach (removeMac E) (Macs bp) err) (\<lambda>err. andThen (foldEach (removeNid E) (Nids bp) err) ret)))
      (goneState C s (removedNames d bp)) (\<lambda>_ _. False) s"
    by simp
  then show ?thesis
    using assms(1,4,5) by (simp add: Remove_def kv_in_def removeImage_def firstErr_def)
qed

subsection \<open>Images\<close>

definition clearRef :: "string \<Rightarrow> string \<Rightarrow> BootDataStore \<Rightarrow> BootDataStore" where
  "clearRef imtype key b =
     (if imtype = kernelImageType \<and> ds_Kernel b = key then b\<lparr>ds_Kernel := []\<rparr>
      else if imtype = initrdImageType \<and> ds_Initrd b = key then b\<lparr>ds_Initrd := []\<rparr> else b)"

lemma clearRef_ok: "stored_ok b \<Longrightarrow> stored_ok (clearRef imtype key b)"
  by (simp add: clearRef_def stored_ok_def)

text \<open>Of the entries \<open>xs\<close> the references to the image are gone; all other keys are as before.\<close>

definition cleared :: "string \<Rightarrow> string \<Rightarrow> (string \<times> string) list \<Rightarrow> (string \<Rightarrow> string option) \<Rightarrow> (string \<Rightarrow> string option) \<Rightarrow> bool" where
  "cleared imtype key xs m m' \<longleftrightarrow>
     (\<forall>k. k \<notin> fst ` set xs \<longrightarrow> m' k = m k) \<and>
     (\<forall>(k, v)\<in>set xs. \<exists>v'. m' k = Some v' \<and> snd (readStore v') = snd (readStore v) \<and>
        (snd (readStore v) \<longrightarrow> fst (readStore v') = clearRef imtype key (fst (readStore v))))"

lemma cleared_snoc:
  assumes c: "cleared imtype key xs m m'" and x: "x \<notin> fst ` set xs" and m: "m'' = m'(x \<mapsto> v')"
    and v: "snd (readStore v') = snd (readStore v)"
      "snd (readStore v) \<longrightarrow> fst (readStore v') = clearRef imtype key (fst (readStore v))"
  shows "cleared imtype key (xs @ [(x, v)]) m m''"
  unfolding cleared_def
proof (rule conjI)
  show "\<forall>k. k \<notin> fst ` set (xs @ [(x, v)]) \<longrightarrow> m'' k = m k" using c by (simp add: cleared_def m)
next
  show "\<forall>(k, w)\<in>set (xs @ [(x, v)]). \<exists>v'. m'' k = Some v' \<and> snd (readStore v') = snd (readStore w) \<and>
     (snd (readStore w) \<longrightarrow> fst (readStore v') = clearRef imtype key (fst (readStore w)))"
  proof (clarify, goal_cases)
    case (1 k w)
    show ?case
    proof (cases "(k, w) = (x, v)")
      case False
      with 1 have i: "(k, w) \<in> set xs" by auto
      then have "k \<noteq> x" using x by force
      then show ?thesis using c i by (auto simp: cleared_def m)
    qed (use v m in simp)
  qed
qed

lemma wp_unrefStep:
  assumes "kv_in E C" and "kv_up (kvi E)" and c: "cleared imtype key xs m (C (kvs t))"
    and x: "x \<notin> fst ` set xs" "m x = Some v"
    and Q: "\<And>k. cleared imtype key (xs @ [(x, v)]) m (C k) \<Longrightarrow> Q None (t\<lparr>kvs := k\<rparr>)"
  shows "wp (unrefStep E imtype key (x, v) None) Q R t"
proof -
  obtain b ok where b: "readStore v = (b, ok)" by fastforce
  have mx: "C (kvs t) x = Some v" using c x by (auto simp: cleared_def)
  have keep: "wp (ret None) Q R t" if "ok \<Longrightarrow> clearRef imtype key b = b"
  proof -
    have "cleared imtype key (xs @ [(x, v)]) m (C (kvs t))"
      using that by (intro cleared_snoc [OF c x(1), of _ v]) (simp_all add: b mx fun_upd_idem)
    from Q [of "kvs t"] this show ?thesis by simp
  qed
  have put: "wp (storeData E x (bootDataStoreJson (clearRef imtype key b))) Q R t" if ok
  proof (rule wp_storeData [OF assms(1,2)])
    fix k
    assume k: "C k = (C (kvs t))(x \<mapsto> jprint (bootDataStoreJson (clearRef imtype key b)))"
    have "stored_ok (clearRef imtype key b)" using readStore_ok [of v] b by (simp add: clearRef_ok)
    then have "cleared imtype key (xs @ [(x, v)]) m (C k)"
      using that by (intro cleared_snoc [OF c x(1) k]) (simp_all add: b)
    then show "Q None (t\<lparr>kvs := k\<rparr>)" by (rule Q)
  qed
  show ?thesis
    using keep put by (cases ok) (auto simp: unrefStep_def b clearRef_def)
qed

definition tagName :: "string \<Rightarrow> bool" where
  "tagName n \<longleftrightarrow> keyMin \<le> n \<and> n < keyMax"

text \<open>What removing an image leaves of the content: no image at its key, no reference to it from any
  name in the range of names, and nothing else changed.\<close>

definition imageGone :: "string \<Rightarrow> string \<Rightarrow> (string \<Rightarrow> string option) \<Rightarrow> (string \<Rightarrow> string option) \<Rightarrow> bool" where
  "imageGone imtype key m m' \<longleftrightarrow> m' key = None \<and>
     (\<forall>n. tagName n \<longrightarrow> hostData m' n = map_option (clearRef imtype key) (hostData m n)) \<and>
     (\<forall>n. hostData m' n = hostData m n \<or> hostData m' n = map_option (clearRef imtype key) (hostData m n)) \<and>
     (\<forall>k. k \<noteq> key \<longrightarrow> (\<forall>n. k \<noteq> paramsPfx @ n) \<longrightarrow> m' k = m k)"

lemma append_le_iff: "p @ u \<le> p @ v \<longleftrightarrow> u \<le> (v :: string)"
  by (induction p) (auto simp: less_le_not_le)

lemma cleared_gone:
  assumes r: "in_range (paramsPfx @ keyMin) (paramsPfx @ keyMax) (m(key := None)) xs"
    and c: "cleared imtype key xs (m(key := None)) m'" and key: "key = imagePfx imtype @ r" "imtype \<in> imtypes"
  shows "imageGone imtype key m m'"
proof -
  have nk: "paramsPfx @ n \<noteq> key" for n using imagePfx_nonparams [OF key(2)] key(1) by metis
  have xs: "k \<noteq> key \<and> m k = Some v \<and> (\<exists>n. k = paramsPfx @ n)" if "(k, v) \<in> set xs" for k v
  proof -
    have "paramsPfx @ keyMin \<le> k" "k \<le> paramsPfx @ keyMax" "(m(key := None)) k = Some v"
      using r that unfolding in_range_def by blast+
    moreover have "\<exists>n. k = paramsPfx @ n" by (rule between_prefix) (use calculation in auto)
    ultimately show ?thesis by (auto split: if_splits)
  qed
  have h: "hostData m' n = map_option (clearRef imtype key) (hostData m n)" if v: "(paramsPfx @ n, v) \<in> set xs" for n v
  proof -
    obtain v' where "m' (paramsPfx @ n) = Some v'" "snd (readStore v') = snd (readStore v)"
        "snd (readStore v) \<longrightarrow> fst (readStore v') = clearRef imtype key (fst (readStore v))"
      using c v unfolding cleared_def by fastforce
    then show ?thesis using xs [OF v] by (auto simp: hostData_def)
  qed
  have o: "hostData m' n = hostData m n" if "paramsPfx @ n \<notin> fst ` set xs" for n
    using c nk [of n] that by (simp add: cleared_def hostData_def)
  have t: "hostData m' n = map_option (clearRef imtype key) (hostData m n)" if "tagName n" for n
  proof (cases "m (paramsPfx @ n)")
    case None
    then have "paramsPfx @ n \<notin> fst ` set xs" using xs by auto
    from o [OF this] None show ?thesis by (simp add: hostData_def)
  next
    case (Some v)
    have "paramsPfx @ keyMin \<le> paramsPfx @ n" "paramsPfx @ n < paramsPfx @ keyMax"
      using that append_mono_less by (auto simp: tagName_def append_le_iff)
    then have "(paramsPfx @ n, v) \<in> set xs" using r Some nk [of n] unfolding in_range_def by auto
    then show ?thesis by (rule h)
  qed
  have "key \<notin> fst ` set xs" using xs by force
  then have "m' key = None" using c by (simp add: cleared_def)
  moreover have "m' k = m k" if "k \<noteq> key" "\<forall>n. k \<noteq> paramsPfx @ n" for k
  proof -
    have "k \<notin> fst ` set xs" using xs that(2) by force
    then show ?thesis using c that(1) by (simp add: cleared_def)
  qed
  moreover have "hostData m' n = hostData m n \<or> hostData m' n = map_option (clearRef imtype key) (hostData m n)" for n
    using h [of n] o [of n] by force
  ultimately show ?thesis using t unfolding imageGone_def by blast
qed

lemma imageLookup_none:
  "imageLookup path kvl = (key, im) \<Longrightarrow> key = [] \<Longrightarrow> [] \<notin> fst ` set kvl \<Longrightarrow> (k, v) \<in> set kvl \<Longrightarrow>
   readImage v = (im', True) \<Longrightarrow> im_Path im' \<noteq> path"
  by (induction path kvl rule: imageLookup.induct) (auto split: prod.splits if_splits)

lemma noImage_found:
  assumes l: "imageLookup path kvl = (key, im)" "key = []"
    and r: "in_range (imagePfx imtype @ keyMin) (imagePfx imtype @ keyMax) m kvl"
    and x: "tagName x" "imageAt m (imagePfx imtype @ x) = Some im'"
  shows "im_Path im' \<noteq> path"
proof -
  obtain v where v: "m (imagePfx imtype @ x) = Some v" "readImage v = (im', True)"
    using x(2) by (auto simp: imageAt_def split: option.splits if_splits) (metis prod.collapse)
  have "imagePfx imtype @ keyMin \<le> imagePfx imtype @ x" "imagePfx imtype @ x < imagePfx imtype @ keyMax"
    using x(1) append_mono_less by (auto simp: tagName_def append_le_iff)
  then have "(imagePfx imtype @ x, v) \<in> set kvl" using r v(1) unfolding in_range_def by blast
  moreover have "[] \<notin> fst ` set kvl" using r unfolding in_range_def by (auto simp: imagePfx_def)
  ultimately show ?thesis using imageLookup_none [OF l] v(2) by blast
qed

lemma in_range_map: "in_range a b m kvl \<Longrightarrow> (k, v) \<in> set kvl \<Longrightarrow> m k = Some v"
  unfolding in_range_def by blast

lemma wp_unrefLoop:
  assumes E: "kv_in E C" "kv_up (kvi E)" and r: "in_range a b (C (kvs t)) kvl"
    and Q: "\<And>k. cleared imtype key kvl (C (kvs t)) (C k) \<Longrightarrow> Q None (t\<lparr>kvs := k\<rparr>)"
  shows "wp (foldEach (unrefStep E imtype key) kvl None) Q R t"
proof -
  let ?m = "C (kvs t)"
  let ?I = "\<lambda>xs err t'. err = None \<and> (\<exists>k. t' = t\<lparr>kvs := k\<rparr> \<and> cleared imtype key xs ?m (C k))"
  have "wp (foldEach (unrefStep E imtype key) kvl None) (?I kvl) R t"
  proof (rule wp_foldEach)
    show "?I [] None t" by (auto simp: cleared_def intro: exI [of _ "kvs t"])
  next
    fix xs y ys t' and err :: "svcerr option"
    assume s: "kvl = xs @ y # ys" and I: "?I xs err t'"
    obtain x v where y: "y = (x, v)" by (cases y)
    from I obtain k where t': "t' = t\<lparr>kvs := k\<rparr>" and k: "cleared imtype key xs ?m (C k)" and e: "err = None" by blast
    have "x \<notin> fst ` set xs" using r s y unfolding in_range_def by auto
    moreover have "?m x = Some v" by (rule in_range_map [OF r]) (simp add: s y)
    ultimately show "wp (unrefStep E imtype key y err) (?I (xs @ [y])) R t'"
      unfolding y e using k by (intro wp_unrefStep [OF E, where m = ?m and xs = xs]) (auto simp: t')
  qed
  then show ?thesis by (rule wp_mono) (use Q in blast)+
qed

lemma removeImage_wp:
  fixes E :: "'k senv" and s :: "'k svc"
  assumes E: "kv_in E C" "kv_up (kvi E)" and t: "imtype \<in> imtypes" and "path \<noteq> []"
  shows "wp (removeImage E path imtype) (\<lambda>r s'. r = None \<and>
     ((\<forall>x im. tagName x \<and> imageAt (C (kvs s)) (imagePfx imtype @ x) = Some im \<longrightarrow> im_Path im \<noteq> path) \<and> C (kvs s') = C (kvs s) \<or>
      (\<exists>key im. imageAt (C (kvs s)) key = Some im \<and> im_Path im = path \<and> imageGone imtype key (C (kvs s)) (C (kvs s'))))) (\<lambda>_ _. False) s"
    (is "wp _ ?Q _ _")
proof -
  have "wp (getImages E imtype) (\<lambda>(kvl, _). wp (let key = fst (imageLookup path kvl) in
        if key = [] then ret None
        else
          andThen (kv_Delete E key) (\<lambda>err.
          andThen (cacheDelete key) (\<lambda>_.
          case err of
            Some e \<Rightarrow> ret (Some (storageErr (''Key '' @ key @ '' deletion'') 500 e))
          | None \<Rightarrow>
              andThen (getTags E) (\<lambda>(kvl, err).
              case err of
                Some e \<Rightarrow> ret (Some (GoErr e))
              | None \<Rightarrow> foldEach (unrefStep E imtype key) kvl None)))) ?Q (\<lambda>_ _. False)) (\<lambda>_ _. False) s"
    unfolding getImages_def getImages_bounds [OF t]
  proof (rule wp_kv_Range [OF E(1)], goal_cases)
    case (1 k kvl)
    obtain key im where l: "imageLookup path kvl = (key, im)" by (metis surj_pair)
    show ?case
    proof (cases "key = []")
      case True
      have "\<forall>x im. tagName x \<and> imageAt (C (kvs s)) (imagePfx imtype @ x) = Some im \<longrightarrow> im_Path im \<noteq> path"
        using noImage_found [OF l True 1(2)] by blast
      with True l 1(1) show ?thesis by simp
    next
      case False
      obtain v where v: "(key, v) \<in> set kvl" "readImage v = (im, True)" "im_Path im = path"
        using imageLookup_mem [OF l False] by blast
      have b: "imagePfx imtype @ keyMin \<le> key" "key \<le> imagePfx imtype @ keyMax" "C (kvs s) key = Some v"
        using 1(2) v(1) unfolding in_range_def by blast+
      obtain r where key: "key = imagePfx imtype @ r" using between_prefix [OF b(1,2)] by blast
      have im: "imageAt (C (kvs s)) key = Some im" using b(3) v by (simp add: imageAt_def)
      have fin: "wp (foldEach (unrefStep E imtype key) kvl' None) ?Q (\<lambda>_ _. False) t"
        if "in_range (paramsPfx @ keyMin) (paramsPfx @ keyMax) (C (kvs t)) kvl'" "C (kvs t) = (C (kvs s))(key := None)" for kvl' t
      proof (rule wp_unrefLoop [OF E that(1)])
        fix k
        assume "cleared imtype key kvl' (C (kvs t)) (C k)"
        then have "imageGone imtype key (C (kvs s)) (C k)" using cleared_gone [OF _ _ key t] that by simp
        then show "?Q None (t\<lparr>kvs := k\<rparr>)" using im v(3) by auto
      qed
      have "wp (kv_Delete E key) (\<lambda>err. wp (andThen (cacheDelete key) (\<lambda>_.
          case err of
            Some e \<Rightarrow> ret (Some (storageErr (''Key '' @ key @ '' deletion'') 500 e))
          | None \<Rightarrow>
              andThen (getTags E) (\<lambda>(kvl, err).
              case err of
                Some e \<Rightarrow> ret (Some (GoErr e))
              | None \<Rightarrow> foldEach (unrefStep E imtype key) kvl None))) ?Q (\<lambda>_ _. False)) (\<lambda>_ _. False) (s\<lparr>kvs := k\<rparr>)"
      proof (rule wp_kv_Delete [OF E(1)], goal_cases)
        case (1 k')
        let ?t = "snd (cacheDelete key (s\<lparr>kvs := k, kvs := k'\<rparr>))"
        have "wp (getTags E) (\<lambda>(kvl, err). wp (case err of Some e \<Rightarrow> ret (Some (GoErr e))
            | None \<Rightarrow> foldEach (unrefStep E imtype key) kvl None) ?Q (\<lambda>_ _. False)) (\<lambda>_ _. False) ?t"
          unfolding getTags_def
        proof (rule wp_kv_Range [OF E(1)], goal_cases)
          case (1 k2 kvl')
          with \<open>C k' = _\<close> \<open>C k = C (kvs s)\<close> show ?case
            by (simp, intro fin) (simp_all add: cacheDelete_def)
        qed (use E(2) in blast)
        then show ?case by (simp add: wp_exec [of "cacheDelete key" "s\<lparr>kvs := k'\<rparr>" "()" ?t] cacheDelete_def case_prod_unfold)
      qed (use E(2) in blast)
      with False l show ?thesis by simp
    qed
  qed (use E(2) in blast)
  then show ?thesis using assms(4) by (simp add: removeImage_def case_prod_unfold)
qed

subsection \<open>Properties\<close>

text \<open>C12. A request to remove hosts, MAC addresses and NIDs (without images) deletes the boot data of
  exactly the names they resolve to, where a MAC address without a component stands for nothing and a
  NID without one for its own name. It reports no error if and only if all these names are different
  and each had an entry; the others are deleted in any case.\<close>

theorem Remove_hosts_correct:
  assumes "kv_in E C" and "kv_up (kvi E)" and "cached d s" and "Kernel bp = []" and "Initrd bp = []"
  shows "\<exists>err s'. Remove E bp s = (Inr err, s') \<and>
     (\<forall>k. C (kvs s') k = (if \<exists>n\<in>set (removedNames d bp). k = paramsPfx @ n then None else C (kvs s) k)) \<and>
     (err = None \<longleftrightarrow> distinct (removedNames d bp) \<and> (\<forall>n\<in>set (removedNames d bp). C (kvs s) (paramsPfx @ n) \<noteq> None))"
proof -
  obtain err s' where "Remove E bp s = (Inr err, s')" "goneState C s (removedNames d bp) err s'"
    using wp_total [OF Remove_wp [OF assms]] by blast
  then show ?thesis by (intro exI [of _ err] exI [of _ s']) (auto simp: goneState_def deleteAll_def)
qed

definition demoGone :: BootParams where
  "demoGone = noBootParams\<lparr>Hosts := [''x1''], Macs := [''00:11:22:33:44:55'']\<rparr>"

lemma Remove_hosts_correct_witness:
  "\<exists>err s'. Remove demoSenv demoGone (demoSvc [(''/params/x1'', ''{}''), (''/params/x2'', ''{}'')]) = (Inr err, s') \<and>
     map_of (kvs s') ''/params/x1'' = None \<and> map_of (kvs s') ''/params/x2'' = Some ''{}'' \<and> err \<noteq> None"
proof -
  let ?s = "demoSvc [(''/params/x1'', ''{}''), (''/params/x2'', ''{}'')]"
  have n: "removedNames demoSM demoGone = [''x1'', ''x0c0s1b0n0'']" "Kernel demoGone = []" "Initrd demoGone = []" by code_simp+
  have c: "cached demoSM ?s" by (rule demo_cached)
  obtain err s' where "Remove demoSenv demoGone ?s = (Inr err, s')"
    "\<forall>k. map_of (kvs s') k = (if \<exists>n\<in>set (removedNames demoSM demoGone). k = paramsPfx @ n then None else map_of (kvs ?s) k)"
    "err = None \<longleftrightarrow> distinct (removedNames demoSM demoGone) \<and> (\<forall>n\<in>set (removedNames demoSM demoGone). map_of (kvs ?s) (paramsPfx @ n) \<noteq> None)"
    using Remove_hosts_correct [OF demo_in demo_up c n(2,3)] by blast
  then show ?thesis by (intro exI [of _ err] exI [of _ s']) (simp add: n(1) paramsPfx_def)
qed

text \<open>C24. Removing an image by its path either finds no image with that path in the range of image
  names and changes nothing, or it takes away one such image together with the references to it: no
  image is left at its key, the boot data of every name in the range of names loses its reference to
  that key and keeps the rest, and all other entries are as before.\<close>

theorem removeImage_correct:
  assumes "kv_in E C" and "kv_up (kvi E)" and "imtype \<in> {kernelImageType, initrdImageType}" and "path \<noteq> []"
  shows "\<exists>s'. removeImage E path imtype s = (Inr None, s') \<and>
     ((\<forall>x im. tagName x \<and> imageAt (C (kvs s)) (imagePfx imtype @ x) = Some im \<longrightarrow> im_Path im \<noteq> path) \<and> C (kvs s') = C (kvs s) \<or>
      (\<exists>key im. imageAt (C (kvs s)) key = Some im \<and> im_Path im = path \<and> imageGone imtype key (C (kvs s)) (C (kvs s'))))"
  using wp_total [OF removeImage_wp [OF assms(1,2) _ assms(4), of imtype s]] assms(3) unfolding imtypes_def by blast

lemma removeImage_correct_witness:
  "\<exists>s' key (im :: ImageData). removeImage demoSenv ''/k'' kernelImageType (demoSvc [(''/kernel/1'', jprint (imageDataJson \<lparr>im_Path = ''/k'', im_Params = []\<rparr>))]) = (Inr None, s') \<and>
     im_Path im = ''/k'' \<and> map_of (kvs s') key = None"
proof -
  let ?v = "jprint (imageDataJson \<lparr>im_Path = ''/k'', im_Params = []\<rparr>)"
  let ?s = "demoSvc [(''/kernel/1'', ?v)]"
  obtain s' where s': "removeImage demoSenv ''/k'' kernelImageType ?s = (Inr None, s')"
     "(\<forall>x im. tagName x \<and> imageAt (map_of (kvs ?s)) (imagePfx kernelImageType @ x) = Some im \<longrightarrow> im_Path im \<noteq> ''/k'') \<and> map_of (kvs s') = map_of (kvs ?s) \<or>
      (\<exists>key im. imageAt (map_of (kvs ?s)) key = Some im \<and> im_Path im = ''/k'' \<and> imageGone kernelImageType key (map_of (kvs ?s)) (map_of (kvs s')))"
    using removeImage_correct [OF demo_in demo_up, of kernelImageType "''/k''" ?s] by auto
  have "tagName ''1''" by code_simp
  moreover have "imageAt (map_of (kvs ?s)) (imagePfx kernelImageType @ ''1'') = Some \<lparr>im_Path = ''/k'', im_Params = []\<rparr>"
    by (simp add: imageAt_def imagePfx_def kernelImageType_def image_ok_def)
  ultimately have "\<not> (\<forall>x im. tagName x \<and> imageAt (map_of (kvs ?s)) (imagePfx kernelImageType @ x) = Some im \<longrightarrow> im_Path im \<noteq> ''/k'')"
    by fastforce
  with s'(2) have "\<exists>key im. imageAt (map_of (kvs ?s)) key = Some im \<and> im_Path im = ''/k'' \<and>
      imageGone kernelImageType key (map_of (kvs ?s)) (map_of (kvs s'))"
    by (elim disjE conjE) (rule notE)
  then obtain key and im :: ImageData where "im_Path im = ''/k''" "imageGone kernelImageType key (map_of (kvs ?s)) (map_of (kvs s'))"
    by blast
  moreover from this(2) have "map_of (kvs s') key = None" by (simp add: imageGone_def)
  ultimately show ?thesis using s'(1) by (intro exI [of _ s'] exI [of _ key] exI [of _ im]) simp
qed

end
