(* ===== verification/KvUpdate.thy ===== *)
theory KvUpdate
  imports KvRemove
begin

text \<open>
  Update on the key-value store: the given values are merged into the boot data of the hosts that the
  request names, and nothing is changed when one of them has none.
\<close>

subsection \<open>Collecting the hosts\<close>

text \<open>The names under which the boot data of one item is looked for; the first that has any is taken.\<close>

definition updItems :: "SMData \<Rightarrow> BootParams \<Rightarrow> string list list" where
  "updItems d bp = map (\<lambda>h. [h]) (Hosts bp) @
     List.map_filter (\<lambda>m. map_option (\<lambda>c. [sc_ID c, m]) (compByMAC (sm_Components d) m)) (Macs bp) @
     List.map_filter (\<lambda>n. map_option (\<lambda>c. [sc_ID c, nidName (sint n)]) (compByNid (sm_Components d) n)) (Nids bp)"

definition pickName :: "(string \<Rightarrow> string option) \<Rightarrow> string list \<Rightarrow> string option" where
  "pickName m cands = List.find (\<lambda>n. hostData m n \<noteq> None) cands"

text \<open>The host map after some of the items.\<close>

definition hm_ok :: "(string \<Rightarrow> string option) \<Rightarrow> string list list \<Rightarrow> hostmap \<Rightarrow> bool" where
  "hm_ok m items hm \<longleftrightarrow> distinct (map fst hm) \<and> (\<forall>n. map_of hm n = (if Some n \<in> pickName m ` set items then hostData m n else None))"

lemma pickName_data: "pickName m cands = Some n \<Longrightarrow> hostData m n \<noteq> None"
  by (auto simp: pickName_def find_Some_iff)

lemma hm_ok_Nil [simp]: "hm_ok m [] []"
  by (simp add: hm_ok_def)

lemma hm_ok_add:
  assumes "hm_ok m items hm" and "pickName m cands = Some n" and "hostData m n = Some b"
  shows "hm_ok m (items @ [cands]) (AList.update n b hm)" and "map_of hm n \<noteq> None \<Longrightarrow> hm_ok m (items @ [cands]) hm"
proof -
  show "hm_ok m (items @ [cands]) (AList.update n b hm)"
    using assms unfolding hm_ok_def by (auto simp: distinct_update update_conv')
  assume "map_of hm n \<noteq> None"
  with assms show "hm_ok m (items @ [cands]) hm"
    unfolding hm_ok_def by (auto split: if_splits)
qed

text \<open>The state during the collection: the content stays.\<close>

definition stays :: "'k view \<Rightarrow> 'k svc \<Rightarrow> 'k svc \<Rightarrow> bool" where
  "stays C s t \<longleftrightarrow> (\<exists>k. t = s\<lparr>kvs := k\<rparr> \<and> C k = C (kvs s))"

lemma stays_simps: "stays C s t \<Longrightarrow> C (kvs t) = C (kvs s)" "stays C s t \<Longrightarrow> cached d s \<Longrightarrow> cached d t"
    "stays C s t \<Longrightarrow> imageCache s = [] \<Longrightarrow> imageCache t = []" "stays C s s"
  by (auto simp: stays_def intro: exI [of _ "kvs s"])

lemma stays_kvs: "stays C s t \<Longrightarrow> C k = C (kvs t) \<Longrightarrow> stays C s (t\<lparr>kvs := k\<rparr>)"
  by (auto simp: stays_def)

lemma wp_checkHost:
  assumes E: "kv_in E C" "kv_up (kvi E)" and st: "stays C s t" "imageCache s = []" and hm: "\<And>b. map_of hm h = Some b \<Longrightarrow> hostData (C (kvs s)) h = Some b"
    and ok: "\<And>b t'. hostData (C (kvs s)) h = Some b \<Longrightarrow> stays C s t' \<Longrightarrow>
        Q (None, if map_of hm h = None then AList.update h b hm else hm) t'"
    and no: "\<And>e t'. hostData (C (kvs s)) h = None \<Longrightarrow> stays C s t' \<Longrightarrow> Q (Some e, hm) t'"
  shows "wp (checkHost E h hm) Q R t"
proof (cases "map_of hm h")
  case (Some b)
  with hm [of b] ok [of b t] st show ?thesis by (simp add: checkHost_def)
next
  case None
  have "wp (lookupHost E h) (\<lambda>x. wp (ret (if snd x = None then (None, AList.update h (fst x) hm) else (snd x, hm))) Q R) R t"
  proof (rule yieldsD [OF yields_lookupHost [OF E] stays_simps(3) [OF st]])
    fix k
    assume k: "C k = C (kvs t)"
    then have s: "stays C s (t\<lparr>kvs := k\<rparr>)" by (rule stays_kvs [OF st(1)])
    show "wp (ret (if snd (hostResult (C (kvs t)) h) = None then (None, AList.update h (fst (hostResult (C (kvs t)) h)) hm)
        else (snd (hostResult (C (kvs t)) h), hm))) Q R (t\<lparr>kvs := k\<rparr>)"
    proof (cases "hostData (C (kvs s)) h")
      case (Some b)
      with hostResult_hostData(2) [OF Some] ok [OF Some s] None stays_simps(1) [OF st(1)] show ?thesis by simp
    next
      case n: None
      then obtain e where "snd (hostResult (C (kvs s)) h) = Some e" using hostResult_hostData(1) by blast
      with no [OF n s, of e] stays_simps(1) [OF st(1)] show ?thesis by simp
    qed
  qed
  with None show ?thesis by (simp add: checkHost_def case_prod_unfold)
qed

text \<open>One item is entered into the map, or there is none of its names.\<close>

definition collected :: "'k view \<Rightarrow> 'k svc \<Rightarrow> string list list \<Rightarrow> svcerr option \<times> hostmap \<Rightarrow> 'k svc \<Rightarrow> bool" where
  "collected C s items x t \<longleftrightarrow> stays C s t \<and>
     (if \<forall>cands\<in>set items. pickName (C (kvs s)) cands \<noteq> None then fst x = None \<and> hm_ok (C (kvs s)) items (snd x) else fst x \<noteq> None)"

lemma hm_ok_mem: "hm_ok m items hm \<Longrightarrow> map_of hm n = Some b \<Longrightarrow> hostData m n = Some b"
  by (auto simp: hm_ok_def split: if_splits)

lemma wp_checkItem1:
  assumes E: "kv_in E C" "kv_up (kvi E)" and i: "imageCache s = []" and c: "collected C s items (None, hm) t"
    and all: "\<forall>cands\<in>set items. pickName (C (kvs s)) cands \<noteq> None"
  shows "wp (checkHost E h hm) (collected C s (items @ [[h]])) R t"
proof -
  have st: "stays C s t" and hm: "hm_ok (C (kvs s)) items hm" using c all by (simp_all add: collected_def)
  show ?thesis
  proof (rule wp_checkHost [OF E st i])
    fix b assume "map_of hm h = Some b"
    then show "hostData (C (kvs s)) h = Some b" by (rule hm_ok_mem [OF hm])
  next
    fix b t' assume b: "hostData (C (kvs s)) h = Some b" and s: "stays C s t'"
    have p: "pickName (C (kvs s)) [h] = Some h" using b by (simp add: pickName_def)
    show "collected C s (items @ [[h]]) (None, if map_of hm h = None then AList.update h b hm else hm) t'"
      using hm_ok_add [OF hm p b] all p s by (simp add: collected_def)
  next
    fix e t' assume n: "hostData (C (kvs s)) h = None" and s: "stays C s t'"
    have p: "pickName (C (kvs s)) [h] = None" using n by (simp add: pickName_def)
    show "collected C s (items @ [[h]]) (Some e, hm) t'"
      using p s by (simp add: collected_def)
  qed
qed

lemma wp_checkItem2:
  assumes E: "kv_in E C" "kv_up (kvi E)" and i: "imageCache s = []" and c: "collected C s items (None, hm) t"
    and all: "\<forall>cands\<in>set items. pickName (C (kvs s)) cands \<noteq> None"
  shows "wp (checkComp E (v, True) other hm) (collected C s (items @ [[sc_ID v, other]])) R t"
proof -
  have st: "stays C s t" and hm: "hm_ok (C (kvs s)) items hm" using c all by (simp_all add: collected_def)
  let ?G = "collected C s (items @ [[sc_ID v, other]])"
  have "wp (checkHost E (sc_ID v) hm) (\<lambda>(err, hm'). wp (if err = None then ret (None, hm') else checkHost E other hm') ?G R) R t"
  proof (rule wp_checkHost [OF E st i])
    fix b assume "map_of hm (sc_ID v) = Some b"
    then show "hostData (C (kvs s)) (sc_ID v) = Some b" by (rule hm_ok_mem [OF hm])
  next
    fix b t' assume b: "hostData (C (kvs s)) (sc_ID v) = Some b" and s: "stays C s t'"
    have p: "pickName (C (kvs s)) [sc_ID v, other] = Some (sc_ID v)" using b by (simp add: pickName_def)
    show "(case (None, if map_of hm (sc_ID v) = None then AList.update (sc_ID v) b hm else hm) of
      (err, hm') \<Rightarrow> wp (if err = None then ret (None, hm') else checkHost E other hm') ?G R) t'"
      using hm_ok_add [OF hm p b] all p s by (simp add: collected_def)
  next
    fix e t' assume n: "hostData (C (kvs s)) (sc_ID v) = None" and s: "stays C s t'"
    have p: "pickName (C (kvs s)) [sc_ID v, other] = pickName (C (kvs s)) [other]" using n by (simp add: pickName_def)
    have "wp (checkHost E other hm) ?G R t'"
    proof (rule wp_mono [OF wp_checkItem1 [OF E i _ all]])
      show "collected C s items (None, hm) t'" using hm s all by (simp add: collected_def)
    next
      fix x t2
      assume "collected C s (items @ [[other]]) x t2"
      moreover have "hm_ok (C (kvs s)) (items @ [[sc_ID v, other]]) h = hm_ok (C (kvs s)) (items @ [[other]]) h" for h
        by (simp add: hm_ok_def image_Un p)
      ultimately show "?G x t2" using p all by (simp add: collected_def)
    qed
    then show "(case (Some e, hm) of (err, hm') \<Rightarrow> wp (if err = None then ret (None, hm') else checkHost E other hm') ?G R) t'" by simp
  qed
  then show ?thesis by (simp add: checkComp_def case_prod_unfold)
qed

lemma collected_kvs: "collected C s items x t \<Longrightarrow> stays C s t"
  by (simp add: collected_def)

lemma wp_collect:
  assumes c: "cached d s" and g: "collected C s items (None, hm) t" and all: "\<forall>cands\<in>set items. pickName (C (kvs s)) cands \<noteq> None"
    and step: "\<And>x hm t its R. cached d t \<Longrightarrow> collected C s its (None, hm) t \<Longrightarrow>
        \<forall>cands\<in>set its. pickName (C (kvs s)) cands \<noteq> None \<Longrightarrow>
        wp (f x hm) (collected C s (its @ (case nm x of Some cands \<Rightarrow> [cands] | None \<Rightarrow> []))) R t"
  shows "wp (collect f xs hm) (collected C s (items @ List.map_filter nm xs)) R t"
  using g all
proof (induction xs arbitrary: items hm t)
  case Nil
  then show ?case by (simp add: List.map_filter_def)
next
  case (Cons x xs)
  let ?its = "items @ (case nm x of Some cands \<Rightarrow> [cands] | None \<Rightarrow> [])"
  let ?G = "collected C s (items @ List.map_filter nm (x # xs))"
  have its: "items @ List.map_filter nm (x # xs) = ?its @ List.map_filter nm xs"
    by (simp add: List.map_filter_def split: option.splits)
  have "wp (f x hm) (\<lambda>(err, hm'). wp (if err = None then collect f xs hm' else ret (err, hm')) ?G R) R t"
  proof (rule wp_mono [OF step [OF stays_simps(2) [OF collected_kvs [OF Cons.prems(1)] c] Cons.prems]])
    fix y t'
    assume y: "collected C s ?its y t'"
    show "(case y of (err, hm') \<Rightarrow> wp (if err = None then collect f xs hm' else ret (err, hm')) ?G R) t'"
    proof (cases "\<forall>cands\<in>set ?its. pickName (C (kvs s)) cands \<noteq> None")
      case True
      with y obtain hm' where e: "y = (None, hm')" by (cases y) (auto simp: collected_def)
      show ?thesis using Cons.IH [OF y [unfolded e] True] unfolding its by (simp add: e)
    next
      case False
      with y have "fst y \<noteq> None" "stays C s t'" by (auto simp: collected_def)
      moreover have "\<not> (\<forall>cands\<in>set (?its @ List.map_filter nm xs). pickName (C (kvs s)) cands \<noteq> None)" using False by auto
      ultimately have "?G y t'" unfolding its by (simp only: collected_def if_False not_False_eq_True)
      with \<open>fst y \<noteq> None\<close> show ?thesis by (cases y) auto
    qed
  qed
  then show ?case by (simp add: case_prod_unfold)
qed

lemma map_filter_map: "List.map_filter (\<lambda>x. Some (g x)) xs = map g xs"
  by (simp add: List.map_filter_def)

lemma wp_compItem:
  assumes E: "kv_in E C" "kv_up (kvi E)" and i: "imageCache s = []" and g: "collected C s its (None, hm) t"
    and all: "\<forall>cands\<in>set its. pickName (C (kvs s)) cands \<noteq> None" and lk: "lk t = (Inr (found c), t)"
  shows "wp (andThen lk (\<lambda>c. checkComp E c other hm))
      (collected C s (its @ (case map_option (\<lambda>c. [sc_ID c, other]) c of Some cands \<Rightarrow> [cands] | None \<Rightarrow> []))) R t"
proof (cases c)
  case None
  with g show ?thesis by (simp add: wp_exec [of lk t, OF lk] found_def checkComp_def)
next
  case (Some v)
  with wp_checkItem2 [OF E i g all] show ?thesis by (simp add: wp_exec [of lk t, OF lk] found_def)
qed

lemma collectHosts_wp:
  fixes E :: "'k senv" and s t :: "'k svc"
  assumes E: "kv_in E C" "kv_up (kvi E)" and c: "cached d s" "imageCache s = []" and st: "stays C s t"
  shows "wp (collectHosts E bp) (collected C s (updItems d bp)) R t"
proof -
  let ?m = "\<lambda>m. map_option (\<lambda>c. [sc_ID c, m]) (compByMAC (sm_Components d) m)"
  let ?n = "\<lambda>n. map_option (\<lambda>c. [sc_ID c, nidName (sint n)]) (compByNid (sm_Components d) n)"
  let ?A = "map (\<lambda>h. [h]) (Hosts bp)" and ?B = "List.map_filter ?m (Macs bp)" and ?D = "List.map_filter ?n (Nids bp)"
  let ?bad = "\<lambda>items. \<not> (\<forall>cands\<in>set items. pickName (C (kvs s)) cands \<noteq> None)"
  have g0: "collected C s [] (None, []) t" using st by (simp add: collected_def)
  have 1: "wp (collect (checkHost E) (Hosts bp) []) (collected C s ?A) R t"
    using wp_collect [OF c(1) g0, where f = "checkHost E" and nm = "\<lambda>h. Some [h]" and xs = "Hosts bp" and R = R]
      wp_checkItem1 [OF E c(2)] by (simp add: map_filter_map)
  have 2: "wp (collect (\<lambda>m hm. andThen (FindSMCompByMAC E m) (\<lambda>c. checkComp E c m hm)) (Macs bp) hm) (collected C s (?A @ ?B)) R t"
    if "collected C s ?A (None, hm) t" "\<forall>cands\<in>set ?A. pickName (C (kvs s)) cands \<noteq> None" for hm t
    by (rule wp_collect [OF c(1) that], rule wp_compItem [OF E c(2)]) (auto simp: FindSMCompByMAC_cached)
  have 3: "wp (collect (\<lambda>n hm. andThen (FindSMCompByNid E (sint n)) (\<lambda>c. checkComp E c (nidName (sint n)) hm)) (Nids bp) hm)
      (collected C s ((?A @ ?B) @ ?D)) R t"
    if "collected C s (?A @ ?B) (None, hm) t" "\<forall>cands\<in>set (?A @ ?B). pickName (C (kvs s)) cands \<noteq> None" for hm t
    by (rule wp_collect [OF c(1) that], rule wp_compItem [OF E c(2)]) (auto simp: FindSMCompByNid_cached compByNid_def)
  have bad: "collected C s (items @ items') x t" if "collected C s items x t" "fst x \<noteq> None" for items items' x t
  proof -
    have "?bad items" using that unfolding collected_def by meson
    then have "?bad (items @ items')" by auto
    with that show ?thesis by (simp only: collected_def if_False) simp
  qed
  have good: "\<forall>cands\<in>set items. pickName (C (kvs s)) cands \<noteq> None" if "collected C s items x t" "fst x = None" for items x t
    using that by (auto simp: collected_def split: if_splits)
  have "wp (collectHosts E bp) (collected C s ((?A @ ?B) @ ?D)) R t"
    unfolding collectHosts_def wp_andThen
  proof (rule wp_mono [OF 1])
    fix x t1
    assume x: "collected C s ?A x t1"
    show "wp (case x of (err, hm) \<Rightarrow> if err \<noteq> None then ret (err, hm)
        else andThen (collect (\<lambda>m hm. andThen (FindSMCompByMAC E m) (\<lambda>c. checkComp E c m hm)) (Macs bp) hm) (\<lambda>(err, hm).
          if err \<noteq> None then ret (err, hm)
          else collect (\<lambda>n hm. andThen (FindSMCompByNid E (sint n)) (\<lambda>c. checkComp E c (nidName (sint n)) hm)) (Nids bp) hm))
      (collected C s ((?A @ ?B) @ ?D)) R t1"
    proof (cases "fst x")
      case (Some e)
      with bad [OF bad [OF x, of ?B], of ?D] show ?thesis by (cases x) simp
    next
      case None
      then obtain hm where e: "x = (None, hm)" by (cases x) auto
      have "wp (collect (\<lambda>m hm. andThen (FindSMCompByMAC E m) (\<lambda>c. checkComp E c m hm)) (Macs bp) hm) (\<lambda>y. wp (case y of (err, hm) \<Rightarrow>
          if err \<noteq> None then ret (err, hm)
          else collect (\<lambda>n hm. andThen (FindSMCompByNid E (sint n)) (\<lambda>c. checkComp E c (nidName (sint n)) hm)) (Nids bp) hm)
          (collected C s ((?A @ ?B) @ ?D)) R) R t1"
      proof (rule wp_mono [OF 2 [OF x [unfolded e] good [OF x None]]])
        fix y t2
        assume y: "collected C s (?A @ ?B) y t2"
        show "wp (case y of (err, hm) \<Rightarrow> if err \<noteq> None then ret (err, hm)
            else collect (\<lambda>n hm. andThen (FindSMCompByNid E (sint n)) (\<lambda>c. checkComp E c (nidName (sint n)) hm)) (Nids bp) hm)
          (collected C s ((?A @ ?B) @ ?D)) R t2"
        proof (cases "fst y")
          case (Some e)
          with bad [OF y, of ?D] show ?thesis by (cases y) simp
        next
          case None
          then obtain hm' where e': "y = (None, hm')" by (cases y) auto
          show ?thesis using 3 [OF y [unfolded e'] good [OF y None]] by (simp add: e')
        qed
      qed
      then show ?thesis by (simp add: e)
    qed
  qed
  then show ?thesis by (simp add: updItems_def)
qed

subsection \<open>Merging\<close>

text \<open>A merge patch of JSON values is a JSON value.\<close>

definition patch_ok :: "'k senv \<Rightarrow> bool" where
  "patch_ok E \<longleftrightarrow> (\<forall>a b j. json_ok a \<longrightarrow> json_ok b \<longrightarrow> mergePatch E a b = Some j \<longrightarrow> json_ok j)"

definition updatedRecord :: "'k senv \<Rightarrow> BootParams \<Rightarrow> string \<Rightarrow> string \<Rightarrow> BootDataStore \<Rightarrow> BootDataStore" where
  "updatedRecord E bp kid iid b = (case mergeHost E bp kid iid b of (b', upd) \<Rightarrow> if upd then b' else b)"

lemma updateCloudData_ok:
  assumes "patch_ok E" and "map_ok old" and "map_ok new"
  shows "map_ok (fst (updateCloudData E old new))"
proof (cases "case new of None \<Rightarrow> True | Some m \<Rightarrow> m = [] \<or> old = None \<or> old = Some []")
  case True
  with assms show ?thesis by (auto simp: updateCloudData_def split: option.splits)
next
  case False
  then obtain m where m: "new = Some m" "m \<noteq> []" "old \<noteq> None" "old \<noteq> Some []" by (auto split: option.splits)
  have j: "json_ok (mapJson old)" "json_ok (JObj m)"
    using json_ok_mapJson [OF assms(2)] json_ok_mapJson [OF assms(3)] by (simp_all add: m(1) mapJson_def)
  show ?thesis
  proof (cases "mergePatch E (mapJson old) (JObj m)")
    case None
    with m assms(2,3) show ?thesis by (simp add: updateCloudData_def split: option.splits)
  next
    case (Some p)
    then have "json_ok p" using assms(1) j unfolding patch_ok_def by blast
    then have "map_ok (fst (decMap p None))" by (rule decMap_ok) simp
    with m Some assms(2) show ?thesis by (auto simp: updateCloudData_def Let_def case_prod_unfold)
  qed
qed

lemma updateCloudInit_ok:
  assumes "patch_ok E" and "cloud_ok old" and "cloud_ok new"
  shows "cloud_ok (fst (updateCloudInit E old new))"
  using updateCloudData_ok [OF assms(1), of "MetaData old" "MetaData new"]
    updateCloudData_ok [OF assms(1), of "UserData old" "UserData new"] assms(2,3)
  by (auto simp: updateCloudInit_def cloud_ok_def Let_def case_prod_unfold)

lemma mergeHost_ok:
  assumes "patch_ok E" and b: "stored_ok b" and bp: "values_ok bp" and k: "utf8_ok kid" "utf8_ok iid"
  shows "stored_ok (fst (mergeHost E bp kid iid b))"
  using updateCloudInit_ok [OF assms(1), of "ds_CloudInit b" "bpCloudInit bp"] b bp k
  by (simp add: mergeHost_def Let_def case_prod_unfold stored_ok_def values_ok_def)

lemma updatedRecord_fields:
  "ds_Params (updatedRecord E bp kid iid b) = (if Params bp = [] then ds_Params b else Params bp)"
  "ds_Kernel (updatedRecord E bp kid iid b) = (if Kernel bp = [] then ds_Kernel b else kid)"
  "ds_Initrd (updatedRecord E bp kid iid b) = (if Initrd bp = [] then ds_Initrd b else iid)"
  "ds_ReferralToken (updatedRecord E bp kid iid b) = ds_ReferralToken b"
  by (auto simp: updatedRecord_def mergeHost_def Let_def case_prod_unfold)

text \<open>What Update promises of the cloud-init data: a part that the request does not give stays, a given one is merged
  into what there is (or stands alone where there is nothing), a merge that fails changes nothing, and phone-home data is
  replaced as a whole.\<close>

definition given :: "CloudDataType \<Rightarrow> bool" where
  "given m \<longleftrightarrow> m \<noteq> None \<and> m \<noteq> Some []"

definition mergedData :: "'k senv \<Rightarrow> CloudDataType \<Rightarrow> CloudDataType \<Rightarrow> CloudDataType" where
  "mergedData E old new =
     (if \<not> given new then old
      else if \<not> given old then new
      else (case mergePatch E (mapJson old) (mapJson new) of
              Some (JObj ms) \<Rightarrow> Some (imembers [] ms) | Some JNull \<Rightarrow> None | _ \<Rightarrow> old))"

definition mergedCloud :: "'k senv \<Rightarrow> CloudInit \<Rightarrow> CloudInit \<Rightarrow> CloudInit" where
  "mergedCloud E old new =
     \<lparr>MetaData = mergedData E (MetaData old) (MetaData new), UserData = mergedData E (UserData old) (UserData new),
      ciPhoneHome = (if ciPhoneHome new = noPhoneHome then ciPhoneHome old else ciPhoneHome new)\<rparr>"

lemma updateCloudData_merged: "fst (updateCloudData E old new) = mergedData E old new"
  by (auto simp: updateCloudData_def mergedData_def given_def mapJson_def decMap_def split: option.splits json.splits)

lemma somePhoneHome_iff: "somePhoneHome p \<longleftrightarrow> p \<noteq> noPhoneHome"
  by (cases p) (auto simp: somePhoneHome_def noPhoneHome_def)

lemma updateCloudInit_merged: "fst (updateCloudInit E old new) = mergedCloud E old new"
  using updateCloudData_merged [of E "MetaData old" "MetaData new"] updateCloudData_merged [of E "UserData old" "UserData new"]
  by (cases old) (auto simp: updateCloudInit_def mergedCloud_def somePhoneHome_iff Let_def case_prod_unfold)

text \<open>If the code takes the data for unchanged, it is.\<close>

lemma updateCloudData_same:
  assumes "\<not> snd (updateCloudData E old new)" and "map_ok old"
  shows "mergedData E old new = old"
proof (cases "given old \<and> given new")
  case False
  have "given new \<Longrightarrow> \<not> given old \<Longrightarrow> snd (updateCloudData E old new)"
    by (auto simp: updateCloudData_def given_def split: if_splits)
  with False assms(1) show ?thesis by (auto simp: mergedData_def)
next
  case True
  then obtain ms ns where m: "old = Some ms" "ms \<noteq> []" "new = Some ns" "ns \<noteq> []" by (auto simp: given_def)
  have c: "imembers [] ms = ms" using assms(2) iface_canon(3) [of ms "[]"] by (simp add: map_ok_def m)
  show ?thesis
  proof (cases "mergePatch E (JObj ms) (JObj ns)")
    case None
    then show ?thesis using True by (simp add: mergedData_def m mapJson_def)
  next
    case (Some q)
    have "JObj ms = iface q" using assms(1) Some by (simp add: updateCloudData_def m mapJson_def c case_prod_unfold Let_def)
    then show ?thesis using True Some by (cases q) (auto simp: mergedData_def m mapJson_def)
  qed
qed

lemma updateCloudInit_same:
  assumes "\<not> snd (updateCloudInit E old new)" and "cloud_ok old"
  shows "mergedCloud E old new = old"
proof -
  have "\<not> snd (updateCloudData E (MetaData old) (MetaData new))" "\<not> snd (updateCloudData E (UserData old) (UserData new))"
    and p: "ciPhoneHome new = noPhoneHome \<or> ciPhoneHome new = ciPhoneHome old"
    using assms(1) by (auto simp: updateCloudInit_def somePhoneHome_iff Let_def case_prod_unfold split: if_splits)
  then show ?thesis
    using updateCloudData_same assms(2) by (cases old) (auto simp: mergedCloud_def cloud_ok_def)
qed

lemma updatedRecord_cloud:
  assumes "stored_ok b"
  shows "ds_CloudInit (updatedRecord E bp kid iid b) = mergedCloud E (ds_CloudInit b) (bpCloudInit bp)"
proof (cases "snd (mergeHost E bp kid iid b)")
  case True
  then show ?thesis by (simp add: updatedRecord_def mergeHost_def Let_def case_prod_unfold updateCloudInit_merged)
next
  case False
  then have "\<not> snd (updateCloudInit E (ds_CloudInit b) (bpCloudInit bp))"
    by (simp add: mergeHost_def Let_def case_prod_unfold split: if_splits)
  from updateCloudInit_same [OF this] False assms show ?thesis
    by (simp add: updatedRecord_def case_prod_unfold stored_ok_def)
qed

subsection \<open>Storing what changed\<close>

definition updState :: "'k senv \<Rightarrow> BootParams \<Rightarrow> string \<Rightarrow> string \<Rightarrow> (string \<Rightarrow> string option) \<Rightarrow> string set \<Rightarrow> (string \<Rightarrow> string option) \<Rightarrow> bool" where
  "updState E bp kid iid m names m' \<longleftrightarrow>
     (\<forall>n. hostData m' n = (if n \<in> names then map_option (updatedRecord E bp kid iid) (hostData m n) else hostData m n)) \<and>
     (\<forall>x. (\<forall>n. x \<noteq> paramsPfx @ n) \<longrightarrow> m' x = m x)"

lemma hostData_ok: "hostData m n = Some b \<Longrightarrow> stored_ok b"
  using readStore_ok by (auto simp: hostData_def split: option.splits if_splits)

lemma wp_updateHostStep:
  assumes E: "kv_in E C" "kv_up (kvi E)" "patch_ok E" and bp: "values_ok bp" "utf8_ok kid" "utf8_ok iid"
    and u: "updState E bp kid iid m names (C (kvs t))" and n: "n \<notin> names" "hostData m n = Some b"
    and Q: "\<And>k. updState E bp kid iid m (insert n names) (C k) \<Longrightarrow> Q None (t\<lparr>kvs := k\<rparr>)"
  shows "wp (updateHostStep E bp kid iid (n, b) None) Q R t"
proof -
  obtain b' upd where mh: "mergeHost E bp kid iid b = (b', upd)" by fastforce
  show ?thesis
  proof (cases upd)
    case False
    then have "updatedRecord E bp kid iid b = b" by (simp add: updatedRecord_def mh)
    then have "updState E bp kid iid m (insert n names) (C (kvs t))"
      using u n by (auto simp: updState_def)
    from Q [of "kvs t"] this False show ?thesis by (simp add: updateHostStep_def mh)
  next
    case True
    have "wp (storeData E (paramsPfx @ n) (bootDataStoreJson b')) Q R t"
    proof (rule wp_storeData [OF E(1,2)])
      fix k
      assume k: "C k = (C (kvs t))(paramsPfx @ n \<mapsto> jprint (bootDataStoreJson b'))"
      have "stored_ok b'"
        using mergeHost_ok [OF E(3) hostData_ok [OF n(2)] bp] by (simp add: mh)
      then have h: "hostData (C k) x = (if x = n then Some b' else hostData (C (kvs t)) x)" for x
        by (simp add: hostData_def k)
      have "updatedRecord E bp kid iid b = b'" using True by (simp add: updatedRecord_def mh)
      then have "updState E bp kid iid m (insert n names) (C k)"
        using u n h by (auto simp: updState_def k)
      then show "Q None (t\<lparr>kvs := k\<rparr>)" by (rule Q)
    qed
    with True show ?thesis by (simp add: updateHostStep_def mh)
  qed
qed

lemma wp_updateLoop:
  assumes E: "kv_in E C" "kv_up (kvi E)" "patch_ok E" and bp: "values_ok bp" "utf8_ok kid" "utf8_ok iid"
    and d: "distinct (map fst es)" and es: "\<And>n b. (n, b) \<in> set es \<Longrightarrow> hostData (C (kvs t)) n = Some b"
    and Q: "\<And>k. updState E bp kid iid (C (kvs t)) (fst ` set es) (C k) \<Longrightarrow> Q None (t\<lparr>kvs := k\<rparr>)"
  shows "wp (foldEach (updateHostStep E bp kid iid) es None) Q R t"
proof -
  let ?m = "C (kvs t)"
  let ?I = "\<lambda>xs err t'. err = None \<and> (\<exists>k. t' = t\<lparr>kvs := k\<rparr> \<and> updState E bp kid iid ?m (fst ` set xs) (C k))"
  have "wp (foldEach (updateHostStep E bp kid iid) es None) (?I es) R t"
  proof (rule wp_foldEach)
    show "?I [] None t" by (auto simp: updState_def intro: exI [of _ "kvs t"])
  next
    fix xs y ys t' and err :: "svcerr option"
    assume s: "es = xs @ y # ys" and I: "?I xs err t'"
    obtain n b where y: "y = (n, b)" by (cases y)
    from I obtain k where t': "t' = t\<lparr>kvs := k\<rparr>" and k: "updState E bp kid iid ?m (fst ` set xs) (C k)" and e: "err = None" by blast
    have "n \<notin> fst ` set xs" using d s y by auto
    moreover have "hostData ?m n = Some b" by (rule es) (simp add: s y)
    ultimately show "wp (updateHostStep E bp kid iid y err) (?I (xs @ [y])) R t'"
      unfolding y e using k by (intro wp_updateHostStep [OF E bp, where m = ?m and names = "fst ` set xs"]) (auto simp: t')
  qed
  then show ?thesis by (rule wp_mono) (use Q in blast)+
qed

lemma wp_optImage:
  assumes "kv_in E C" and "kv_up (kvi E)" and "imtype \<in> imtypes" and "utf8_ok path"
    and x: "path = [] \<or> imagesText (C (kvs s))"
    and Q: "\<And>k key. imageRef imtype path (C k) key \<Longrightarrow> sameBut imtype (C (kvs s)) (C k) \<Longrightarrow>
      (imagesText (C (kvs s)) \<Longrightarrow> imagesText (C k)) \<Longrightarrow> Q key (s\<lparr>kvs := k\<rparr>)"
  shows "wp (optImage E path imtype) Q R s"
proof (cases "path = []")
  case True
  with Q [of "kvs s" "[]"] show ?thesis by (simp add: optImage_def imageRef_def sameBut_def)
next
  case False
  have "wp (imageStore E path imtype) Q R s"
    by (rule wp_imageStore [OF assms(1-4)], use x False in blast, rule Q)
      (use False imageStored_text assms(3) in \<open>auto simp: imageStored_def imageRef_def sameBut_def\<close>)
  with False show ?thesis by (simp add: optImage_def)
qed

text \<open>The names whose boot data a request updates.\<close>

definition updNames :: "(string \<Rightarrow> string option) \<Rightarrow> SMData \<Rightarrow> BootParams \<Rightarrow> string set" where
  "updNames m d bp = {n. Some n \<in> pickName m ` set (updItems d bp)}"

definition updDone :: "'k senv \<Rightarrow> SMData \<Rightarrow> BootParams \<Rightarrow> (string \<Rightarrow> string option) \<Rightarrow> (string \<Rightarrow> string option) \<Rightarrow> svcerr option \<Rightarrow> bool" where
  "updDone E d bp m m' err \<longleftrightarrow>
     (if \<exists>cands\<in>set (updItems d bp). pickName m cands = None then err \<noteq> None \<and> (\<forall>n. hostData m' n = hostData m n)
      else err = None \<and> (\<exists>kid iid. imageRef kernelImageType (Kernel bp) m' kid \<and> imageRef initrdImageType (Initrd bp) m' iid \<and>
        (\<forall>n. hostData m' n = (if n \<in> updNames m d bp then map_option (updatedRecord E bp kid iid) (hostData m n) else hostData m n))))"

lemma hm_ok_keys:
  assumes "hm_ok m (updItems d bp) hm"
  shows "fst ` set hm = updNames m d bp" and "(n, b) \<in> set hm \<Longrightarrow> hostData m n = Some b"
proof -
  have "map_of hm n \<noteq> None \<longleftrightarrow> n \<in> updNames m d bp" for n
    using assms pickName_data [of m] unfolding hm_ok_def updNames_def by (fastforce split: if_splits)
  then show "fst ` set hm = updNames m d bp" by (auto simp: map_of_eq_None_iff set_eq_iff)
  assume "(n, b) \<in> set hm"
  then show "hostData m n = Some b"
    using assms by (intro hm_ok_mem [OF assms] map_of_is_SomeI) (simp_all add: hm_ok_def)
qed

lemma wp_rangeGo: "wp (rangeGo E m) Q R s = Q (permute (rangeOrder E (ticks s)) m) (s\<lparr>ticks := Suc (ticks s)\<rparr>)"
  by (simp add: wp_def rangeGo_def)

lemma updState_image: "imtype \<in> imtypes \<Longrightarrow> updState E bp kid iid m names m' \<Longrightarrow> m' (imagePfx imtype @ r) = m (imagePfx imtype @ r)"
  using imagePfx_nonparams unfolding updState_def by blast

lemma updDone_ok:
  assumes k: "imageRef kernelImageType (Kernel bp) m1 kid" "sameBut kernelImageType m m1"
    and i: "imageRef initrdImageType (Initrd bp) m2 iid" "sameBut initrdImageType m1 m2"
    and u: "updState E bp kid iid m2 (updNames m d bp) m'" and all: "\<forall>cands\<in>set (updItems d bp). pickName m cands \<noteq> None"
  shows "updDone E d bp m m' None"
proof -
  have m1: "m2 (imagePfx kernelImageType @ r) = m1 (imagePfx kernelImageType @ r)" for r
    using i(2) imagePfx_distinct unfolding sameBut_def by blast
  have h: "hostData m2 n = hostData m n" for n
    using sameBut_hostData [OF k(2)] sameBut_hostData [OF i(2)] by simp
  have "imageRef kernelImageType (Kernel bp) m' kid"
    by (rule imageRef_mono [OF k(1)]) (simp add: updState_image [OF _ u] m1)
  moreover have "imageRef initrdImageType (Initrd bp) m' iid"
    by (rule imageRef_mono [OF i(1)]) (simp add: updState_image [OF _ u])
  moreover have "\<forall>n. hostData m' n = (if n \<in> updNames m d bp then map_option (updatedRecord E bp kid iid) (hostData m n) else hostData m n)"
    using u h by (simp add: updState_def)
  moreover have "\<not> (\<exists>cands\<in>set (updItems d bp). pickName m cands = None)" using all by blast
  ultimately show ?thesis unfolding updDone_def by (simp only: if_False) blast
qed

lemma pickName_same: "(\<And>n. hostData m' n = hostData m n) \<Longrightarrow> pickName m' = pickName m"
  by (simp add: pickName_def fun_eq_iff)

lemma svcUpdate_wp:
  fixes E :: "'k senv" and s :: "'k svc"
  assumes E: "kv_in E C" "kv_up (kvi E)" "patch_ok E" "\<forall>t. perm_ok (rangeOrder E t)" and c: "cached d s" "imageCache s = []"
    and bp: "values_ok bp" "updItems d bp \<noteq> []" and x: "Kernel bp = [] \<and> Initrd bp = [] \<or> imagesText (C (kvs s))"
  shows "wp (svcUpdate E bp) (\<lambda>err s'. \<exists>n k. s' = s\<lparr>ticks := n, kvs := k\<rparr> \<and> updDone E d bp (C (kvs s)) (C k) err) (\<lambda>_ _. False) s"
    (is "wp _ ?Q ?R s")
proof -
  let ?fin = "\<lambda>kid iid x. case x of (err, hostMap) \<Rightarrow>
        if err \<noteq> None then ret err
        else if length hostMap > 0 then
          andThen (rangeGo E hostMap) (\<lambda>entries. foldEach (updateHostStep E bp kid iid) entries None)
        else if kid \<noteq> [] then storeData E kid (imageDataJson \<lparr>im_Path = Kernel bp, im_Params = Params bp\<rparr>)
        else if iid \<noteq> [] then storeData E iid (imageDataJson \<lparr>im_Path = Initrd bp, im_Params = Params bp\<rparr>)
        else ret None"
  have p: "utf8_ok (Kernel bp)" "utf8_ok (Initrd bp)" using bp(1) by (simp_all add: values_ok_def)
  have fin: "wp (?fin kid iid x) ?Q ?R t"
    if 1: "imageRef kernelImageType (Kernel bp) (C k1) kid" "sameBut kernelImageType (C (kvs s)) (C k1)"
      and 2: "imageRef initrdImageType (Initrd bp) (C k2) iid" "sameBut initrdImageType (C k1) (C k2)"
      and x: "collected C (s\<lparr>kvs := k2\<rparr>) (updItems d bp) x t" for kid iid k1 k2 x t
  proof -
    have h: "hostData (C k2) n = hostData (C (kvs s)) n" for n
      using sameBut_hostData [OF 2(2)] sameBut_hostData [OF 1(2)] by simp
    have kk: "kvs (s\<lparr>kvs := k2\<rparr>) = k2" by simp
    note p = pickName_same [OF h]
    obtain k3 where t: "t = s\<lparr>kvs := k3\<rparr>" and k3: "C k3 = C k2" using x by (auto simp: collected_def stays_def)
    obtain err hm where e: "x = (err, hm)" by (cases x)
    show ?thesis
    proof (cases "\<forall>cands\<in>set (updItems d bp). pickName (C (kvs s)) cands \<noteq> None")
      case False
      then have err: "err \<noteq> None" using x unfolding collected_def e by (simp only: kk p if_not_P [OF False] if_False fst_conv not_False_eq_True)
      have "updDone E d bp (C (kvs s)) (C k3) err" using False err h k3 by (auto simp: updDone_def)
      then have "?Q err t" by (intro exI [of _ "ticks s"] exI [of _ k3]) (simp add: t)
      with err show ?thesis by (simp add: e)
    next
      case True
      then have err: "err = None" and hm: "hm_ok (C k2) (updItems d bp) hm" using x by (simp_all add: collected_def e p)
      obtain cands where "cands \<in> set (updItems d bp)" using bp(2) by fastforce
      moreover from this obtain n where "pickName (C k2) cands = Some n" using True p by fastforce
      ultimately have "n \<in> updNames (C k2) d bp" unfolding updNames_def by (metis (mono_tags) image_eqI mem_Collect_eq)
      then have ne: "length hm > 0" using hm_ok_keys(1) [OF hm] by auto
      have un: "updNames (C k2) d bp = updNames (C (kvs s)) d bp" by (simp add: updNames_def p)
      let ?es = "permute (rangeOrder E (ticks t)) hm"
      have ms: "mset ?es = mset hm" using E(4) by (simp add: mset_permute)
      have es: "set ?es = set hm" "distinct (map fst ?es)"
        using mset_eq_setD [OF ms] hm mset_eq_imp_distinct_iff [OF mset_map_permute, of "rangeOrder E (ticks t)" fst hm] E(4)
        unfolding hm_ok_def by blast+
      have "wp (foldEach (updateHostStep E bp kid iid) ?es None) ?Q ?R (t\<lparr>ticks := Suc (ticks t)\<rparr>)"
      proof (rule wp_updateLoop [OF E(1-3) bp(1) imageRef_text [OF 1(1) imtypes_in(1)] imageRef_text [OF 2(1) imtypes_in(2)] es(2)])
        fix n b assume "(n, b) \<in> set ?es"
        then show "hostData (C (kvs (t\<lparr>ticks := Suc (ticks t)\<rparr>))) n = Some b"
          using hm_ok_keys(2) [OF hm] es(1) by (simp add: t k3)
      next
        fix k assume "updState E bp kid iid (C (kvs (t\<lparr>ticks := Suc (ticks t)\<rparr>))) (fst ` set ?es) (C k)"
        then have u: "updState E bp kid iid (C k2) (updNames (C (kvs s)) d bp) (C k)"
          unfolding es(1) hm_ok_keys(1) [OF hm] un by (simp add: t k3)
        show "?Q None (t\<lparr>ticks := Suc (ticks t), kvs := k\<rparr>)"
          by (rule exI [of _ "Suc (ticks t)"], rule exI [of _ k]) (use updDone_ok [OF 1 2 u True] in \<open>simp add: t\<close>)
      qed
      with err ne show ?thesis by (simp add: e wp_rangeGo)
    qed
  qed
  have "wp (optImage E (Kernel bp) kernelImageType) (\<lambda>kid. wp (andThen (optImage E (Initrd bp) initrdImageType)
      (\<lambda>iid. andThen (collectHosts E bp) (?fin kid iid))) ?Q ?R) ?R s"
  proof (rule wp_optImage [OF E(1,2) imtypes_in(1) p(1)])
    show "Kernel bp = [] \<or> imagesText (C (kvs s))" using x by blast
  next
    fix k1 kid
    assume 1: "imageRef kernelImageType (Kernel bp) (C k1) kid" "sameBut kernelImageType (C (kvs s)) (C k1)"
      and x1: "imagesText (C (kvs s)) \<Longrightarrow> imagesText (C k1)"
    have "wp (optImage E (Initrd bp) initrdImageType) (\<lambda>iid. wp (andThen (collectHosts E bp) (?fin kid iid)) ?Q ?R) ?R (s\<lparr>kvs := k1\<rparr>)"
    proof (rule wp_optImage [OF E(1,2) imtypes_in(2) p(2)])
      show "Initrd bp = [] \<or> imagesText (C (kvs (s\<lparr>kvs := k1\<rparr>)))" using x x1 by auto
    next
      fix k2 iid
      assume 2: "imageRef initrdImageType (Initrd bp) (C k2) iid" "sameBut initrdImageType (C (kvs (s\<lparr>kvs := k1\<rparr>))) (C k2)"
      then have 3: "sameBut initrdImageType (C k1) (C k2)" by simp
      have "wp (collectHosts E bp) (\<lambda>x. wp (?fin kid iid x) ?Q ?R) ?R (s\<lparr>kvs := k1, kvs := k2\<rparr>)"
      proof (rule wp_mono [OF collectHosts_wp [OF E(1,2), where s = "s\<lparr>kvs := k2\<rparr>" and d = d and R = ?R]])
        show "cached d (s\<lparr>kvs := k2\<rparr>)" "imageCache (s\<lparr>kvs := k2\<rparr>) = []" using c by (simp_all add: cached_def)
        show "stays C (s\<lparr>kvs := k2\<rparr>) (s\<lparr>kvs := k1, kvs := k2\<rparr>)" using stays_simps(4) [of C "s\<lparr>kvs := k2\<rparr>"] by simp
        fix x t
        assume "collected C (s\<lparr>kvs := k2\<rparr>) (updItems d bp) x t"
        then show "wp (?fin kid iid x) ?Q ?R t" by (rule fin [OF 1 2(1) 3])
      qed
      then show "wp (andThen (collectHosts E bp) (?fin kid iid)) ?Q ?R (s\<lparr>kvs := k1, kvs := k2\<rparr>)" by (simp only: wp_andThen)
    qed
    then show "wp (andThen (optImage E (Initrd bp) initrdImageType)
      (\<lambda>iid. andThen (collectHosts E bp) (?fin kid iid))) ?Q ?R (s\<lparr>kvs := k1\<rparr>)" by (simp only: wp_andThen)
  qed
  moreover have "\<not> useSQL E" using E(1) by (simp add: kv_in_def)
  ultimately show ?thesis by (simp only: svcUpdate_def if_False wp_andThen)
qed

text \<open>What an update makes of the boot data of one name: the values that the request gives are taken,
  the others stay, and so does the referral token.\<close>

definition updatedAs :: "'k senv \<Rightarrow> BootParams \<Rightarrow> (string \<Rightarrow> string option) \<Rightarrow> BootDataStore \<Rightarrow> BootDataStore \<Rightarrow> bool" where
  "updatedAs E bp m' b b' \<longleftrightarrow>
     ds_Params b' = (if Params bp = [] then ds_Params b else Params bp) \<and>
     (if Kernel bp = [] then ds_Kernel b' = ds_Kernel b else im_Path (imgOf m' (ds_Kernel b')) = Kernel bp) \<and>
     (if Initrd bp = [] then ds_Initrd b' = ds_Initrd b else im_Path (imgOf m' (ds_Initrd b')) = Initrd bp) \<and>
     ds_CloudInit b' = mergedCloud E (ds_CloudInit b) (bpCloudInit bp) \<and>
     ds_ReferralToken b' = ds_ReferralToken b"

lemma updatedRecord_as:
  assumes "imageRef kernelImageType (Kernel bp) m' kid" and "imageRef initrdImageType (Initrd bp) m' iid" and "stored_ok b"
  shows "updatedAs E bp m' b (updatedRecord E bp kid iid b)"
  using imageRef_path [OF assms(1)] imageRef_path [OF assms(2)]
  by (auto simp: updatedAs_def updatedRecord_fields updatedRecord_cloud [OF assms(3)])

lemma svcUpdate_result:
  assumes "kv_in E C" "kv_up (kvi E)" "patch_ok E" "\<forall>t. perm_ok (rangeOrder E t)" "cached d s" "imageCache s = []"
    "values_ok bp" "updItems d bp \<noteq> []" "Kernel bp = [] \<and> Initrd bp = [] \<or> imagesText (C (kvs s))" "svcUpdate E bp s = (r, s')"
  shows "\<exists>err. r = Inr err \<and> updDone E d bp (C (kvs s)) (C (kvs s')) err"
proof -
  note w = svcUpdate_wp [OF assms(1-9)]
  obtain x t where "svcUpdate E bp s = (Inr x, t)" using wp_total [OF w] by blast
  with assms(10) have r: "r = Inr x" and "svcUpdate E bp s = (Inr x, s')" by simp_all
  from wp_result(1) [OF w this(2)] r show ?thesis by auto
qed

text \<open>C11. When the key-value store answers and the service knows the hardware, Update of a request that
  names hosts, or MAC addresses or NIDs of known components, either fails and changes no boot data,
  which is the case exactly when one of the items has boot data under none of its names (the
  component's name, or the MAC address or nid name), or succeeds. Then exactly one name of each item
  has its boot data changed, the first that has any: the given parameters, kernel and initrd are
  taken, the omitted ones stay, and so does the referral token. Of the cloud-init data, meta data and user data that the
  request omits stay, given ones are merged into what there is, and phone-home data is replaced if any is given. No
  other name's boot data changes. The texts of the request and the keys of images are valid UTF-8.\<close>

theorem svcUpdate_correct:
  assumes "kv_in E C" and "kv_up (kvi E)" and "patch_ok E" and "\<forall>t. perm_ok (rangeOrder E t)"
    and "cached d s" and "imageCache s = []" and "values_ok bp" and "updItems d bp \<noteq> []"
    and "Kernel bp = [] \<and> Initrd bp = [] \<or> imagesText (C (kvs s))" and "svcUpdate E bp s = (r, s')"
  shows "if \<exists>cands\<in>set (updItems d bp). pickName (C (kvs s)) cands = None
    then (\<exists>e. r = Inr (Some e)) \<and> (\<forall>n. hostData (C (kvs s')) n = hostData (C (kvs s)) n)
    else r = Inr None \<and>
      (\<forall>n. case hostData (C (kvs s)) n of
          Some b \<Rightarrow> if Some n \<in> pickName (C (kvs s)) ` set (updItems d bp)
            then \<exists>b'. hostData (C (kvs s')) n = Some b' \<and> updatedAs E bp (C (kvs s')) b b'
            else hostData (C (kvs s')) n = Some b
        | None \<Rightarrow> hostData (C (kvs s')) n = None)"
proof -
  obtain err where r: "r = Inr err" and u: "updDone E d bp (C (kvs s)) (C (kvs s')) err"
    using svcUpdate_result [OF assms] by blast
  show ?thesis
  proof (cases "\<exists>cands\<in>set (updItems d bp). pickName (C (kvs s)) cands = None")
    case True
    show ?thesis using u unfolding updDone_def if_P [OF True] r by blast
  next
    case False
    from u [unfolded updDone_def if_not_P [OF False]] obtain kid iid where err: "err = None"
      and i: "imageRef kernelImageType (Kernel bp) (C (kvs s')) kid" "imageRef initrdImageType (Initrd bp) (C (kvs s')) iid"
      and h: "\<And>n. hostData (C (kvs s')) n = (if n \<in> updNames (C (kvs s)) d bp
         then map_option (updatedRecord E bp kid iid) (hostData (C (kvs s)) n) else hostData (C (kvs s)) n)"
      by blast
    then show ?thesis
      unfolding if_not_P [OF False] using updatedRecord_as [OF i hostData_ok, of _ _ _ E] by (auto simp: r h updNames_def split: option.split)
  qed
qed

definition demoUpd :: BootParams where
  "demoUpd = noBootParams\<lparr>Macs := [''00:11:22:33:44:55''], Params := ''quiet'',
     bpCloudInit := noCloudInit\<lparr>UserData := Some [(''a'', JBool True)]\<rparr>\<rparr>"

text \<open>The stored record has meta data, which the request omits.\<close>

definition updBefore :: BootDataStore where
  "updBefore = noBootDataStore\<lparr>ds_Params := ''debug'', ds_CloudInit := noCloudInit\<lparr>MetaData := Some [(''m'', JStr ''v'')]\<rparr>\<rparr>"

definition updStore :: "(string \<times> string) list" where
  "updStore = [(''/params/x0c0s1b0n0'', jprint (bootDataStoreJson updBefore))]"

lemma updStore_data: "hostData (map_of updStore) ''x0c0s1b0n0'' = Some updBefore"
proof -
  have "stored_ok updBefore"
    by (simp add: updBefore_def stored_ok_def noBootDataStore_def cloud_ok_def noCloudInit_def map_ok_def)
  then show ?thesis by (simp add: hostData_def updStore_def paramsPfx_def)
qed

lemma demoUpd_facts: "values_ok demoUpd" "updItems demoSM demoUpd = [[''x0c0s1b0n0'', ''00:11:22:33:44:55'']]"
  "Kernel demoUpd = [] \<and> Initrd demoUpd = [] \<or> imagesText m"
proof -
  show "values_ok demoUpd" by (simp add: values_ok_def demoUpd_def noBootParams_def cloud_ok_def noCloudInit_def map_ok_def)
  show "updItems demoSM demoUpd = [[''x0c0s1b0n0'', ''00:11:22:33:44:55'']]" by code_simp
  show "Kernel demoUpd = [] \<and> Initrd demoUpd = [] \<or> imagesText m" by (simp add: demoUpd_def noBootParams_def)
qed

lemma demo_patch: "patch_ok demoSenv"
  by (simp add: patch_ok_def demoSenv_def)

lemma demo_range: "\<forall>t. perm_ok (rangeOrder demoSenv t)"
  by (simp add: demoSenv_def)

lemma svcUpdate_correct_witness:
  "fst (svcUpdate demoSenv demoUpd (demoSvc updStore)) = Inr None \<and>
   (\<exists>b. hostData (map_of (kvs (snd (svcUpdate demoSenv demoUpd (demoSvc updStore))))) ''x0c0s1b0n0'' = Some b \<and>
     ds_Params b = ''quiet'' \<and> MetaData (ds_CloudInit b) = Some [(''m'', JStr ''v'')] \<and>
     UserData (ds_CloudInit b) = Some [(''a'', JBool True)]) \<and>
   (\<exists>e. fst (svcUpdate demoSenv demoUpd (demoSvc [])) = Inr (Some e))"
proof -
  note c = svcUpdate_correct [OF demo_in demo_up demo_patch demo_range demo_cached demoSvc_simps(1) demoUpd_facts(1) _
          demoUpd_facts(3) surjective_pairing, unfolded demoUpd_facts(2) demoSvc_simps(2)]
  have p: "pickName (map_of updStore) [''x0c0s1b0n0'', ''00:11:22:33:44:55''] = Some ''x0c0s1b0n0''"
    using updStore_data by (simp only: pickName_def List.find.simps) simp
  then have n: "\<not> (\<exists>cands\<in>set [[''x0c0s1b0n0'', ''00:11:22:33:44:55'']]. pickName (map_of updStore) cands = None)" by simp
  note u = c [of updStore, unfolded if_not_P [OF n]]
  have r: "fst (svcUpdate demoSenv demoUpd (demoSvc updStore)) = Inr None" using u by blast
  have "Some ''x0c0s1b0n0'' \<in> pickName (map_of updStore) ` set [[''x0c0s1b0n0'', ''00:11:22:33:44:55'']]" using p by simp
  with u updStore_data obtain b where b: "hostData (map_of (kvs (snd (svcUpdate demoSenv demoUpd (demoSvc updStore))))) ''x0c0s1b0n0'' = Some b"
    "updatedAs demoSenv demoUpd (map_of (kvs (snd (svcUpdate demoSenv demoUpd (demoSvc updStore))))) updBefore b"
    by (auto dest!: spec [of _ "''x0c0s1b0n0''"])
  have "ds_Params b = ''quiet'' \<and> MetaData (ds_CloudInit b) = Some [(''m'', JStr ''v'')] \<and> UserData (ds_CloudInit b) = Some [(''a'', JBool True)]"
    using b(2) by (simp add: updatedAs_def demoUpd_def updBefore_def noBootParams_def noBootDataStore_def mergedCloud_def mergedData_def
        given_def noCloudInit_def)
  moreover have t: "\<exists>cands\<in>set [[''x0c0s1b0n0'', ''00:11:22:33:44:55'']]. pickName (map_of []) cands = None"
    by (simp add: pickName_def hostData_def)
  from c [of "[]", unfolded if_P [OF t]]
  have "\<exists>e. fst (svcUpdate demoSenv demoUpd (demoSvc [])) = Inr (Some e)" by blast
  ultimately show ?thesis using r b(1) by blast
qed

end
