(* ===== verification/KvParams.thy ===== *)
theory KvParams
  imports KvStore KvRemove ParamStore
begin

text \<open>
  The key-value store keeps the contract of a store of boot parameters: \<open>Store\<close> is PUT and \<open>Remove\<close>
  is DELETE for hosts. Both are possible whenever the store answers and the hardware is known.
\<close>

definition kvParams :: "'k view \<Rightarrow> 'k svc \<Rightarrow> string \<Rightarrow> string set" where
  "kvParams C s h = (case hostData (C (kvs s)) h of None \<Rightarrow> {} | Some b \<Rightarrow> {ds_Params b})"

definition kvInv :: "'k senv \<Rightarrow> 'k view \<Rightarrow> SMData \<Rightarrow> 'k svc \<Rightarrow> bool" where
  "kvInv E C d s \<longleftrightarrow> kv_in E C \<and> kv_up (kvi E) \<and> cached d s \<and> tokensText E \<and> imagesText (C (kvs s))"

definition kvLegal :: "change \<Rightarrow> bool" where
  "kvLegal c \<longleftrightarrow> hostsOf c \<noteq> [] \<and> (case c of Put _ (k, i, p) \<Rightarrow> list_all utf8_ok [k, i, p] | Del _ \<Rightarrow> True)"

lemma kvLegal_values: "kvLegal (Put hs v) \<longleftrightarrow> hs \<noteq> [] \<and> values_ok (hostRequest hs v)"
  by (cases v) (auto simp: kvLegal_def values_ok_def noBootParams_def)

definition kvPut :: "'k senv \<Rightarrow> string list \<Rightarrow> bootVals \<Rightarrow> 'k svc \<Rightarrow> 'k svc option" where
  "kvPut E hs v s = (case Store E (hostRequest hs v) s of (Inr (None, _), s') \<Rightarrow> Some s' | _ \<Rightarrow> None)"

text \<open>Remove reports the first error of its hosts but goes on with the others, so that its error says that some host had no
  boot data, not that the DELETE was not carried out; \<open>kvDel\<close> is the state it leaves in either case. \<open>Remove_reports\<close>
  says when there is no error.\<close>

definition kvDel :: "'k senv \<Rightarrow> string list \<Rightarrow> 'k svc \<Rightarrow> 'k svc option" where
  "kvDel E hs s = (case Remove E (hostRequest hs ([], [], [])) s of (Inr _, s') \<Rightarrow> Some s' | _ \<Rightarrow> None)"

lemma kvPut_result:
  assumes i: "kvInv E C d s" and hs: "kvLegal (Put hs v)" and p: "kvPut E hs v s = Some s'"
  shows "kvInv E C d s' \<and> kvParams C s' = changed (Put hs v) (kvParams C s)"
proof -
  have E: "kv_in E C" "kv_up (kvi E)" "cached d s" and x: "tokensText E" "imagesText (C (kvs s))"
    using i by (simp_all add: kvInv_def)
  have h: "hs \<noteq> []" "values_ok (hostRequest hs v)" using hs by (simp_all add: kvLegal_values)
  have t: "targets d (hostRequest hs v) = hs" using h(1) by (simp add: targets_def)
  obtain r where r: "Store E (hostRequest hs v) s = (r, s')"
    using p by (auto simp: kvPut_def split: prod.splits sum.splits option.splits)
  obtain tok k where s': "s' = s\<lparr>ticks := Suc (ticks s), kvs := k\<rparr>"
    and kt: "imagesText (C k)"
    and k: "\<forall>n\<in>set hs. storedFor (C k) (hostRequest hs v) tok n"
    and f: "\<forall>n. n \<notin> set hs \<longrightarrow> hostData (C k) n = hostData (C (kvs s)) n"
    using Store_result [OF E _ h(2) x r] h(1) unfolding t by blast
  have "kvParams C s' h = changed (Put hs v) (kvParams C s) h" for h
    using k f by (cases "h \<in> set hs") (auto simp: kvParams_def s' storedFor_def)
  then show ?thesis using E x kt by (auto simp: kvInv_def s' cached_def)
qed

lemma kvDel_result:
  assumes i: "kvInv E C d s" and p: "kvDel E hs s = Some s'"
  shows "kvInv E C d s' \<and> kvParams C s' = changed (Del hs) (kvParams C s)"
proof -
  have E: "kv_in E C" "kv_up (kvi E)" "cached d s" and x: "tokensText E" "imagesText (C (kvs s))"
    using i by (simp_all add: kvInv_def)
  have n: "removedNames d (hostRequest hs ([], [], [])) = hs" by (simp add: removedNames_def map_filter_simps)
  obtain err where r: "Remove E (hostRequest hs ([], [], [])) s = (Inr err, s')"
    using p by (auto simp: kvDel_def split: prod.splits sum.splits)
  have "goneState C s hs err s'"
    using wp_result(1) [OF Remove_wp [OF E, of "hostRequest hs ([], [], [])"] r] n by simp
  then obtain k where s': "s' = s\<lparr>kvs := k\<rparr>" and k: "C k = deleteAll (C (kvs s)) hs"
    by (auto simp: goneState_def)
  have "kvParams C s' h = changed (Del hs) (kvParams C s) h" for h
    by (auto simp: kvParams_def s' k hostData_def deleteAll_def)
  moreover have "imagesText (C k)" using x(2) by (simp add: imagesText_def k deleteAll_def)
  ultimately show ?thesis using E x(1) by (auto simp: kvInv_def s' cached_def)
qed

lemma Remove_reports:
  assumes "kvInv E C d s" and "Remove E (hostRequest hs ([], [], [])) s = (Inr err, s')"
  shows "err = None \<longleftrightarrow> distinct hs \<and> (\<forall>h\<in>set hs. C (kvs s) (paramsPfx @ h) \<noteq> None)"
proof -
  have E: "kv_in E C" "kv_up (kvi E)" "cached d s" using assms(1) by (simp_all add: kvInv_def)
  have n: "removedNames d (hostRequest hs ([], [], [])) = hs" by (simp add: removedNames_def map_filter_simps)
  from wp_result(1) [OF Remove_wp [OF E, of "hostRequest hs ([], [], [])"] assms(2)] n
  show ?thesis by (simp add: goneState_def)
qed

interpretation kvstore: param_store "kvInv E C d" "kvParams C" kvLegal "kvPut E" "kvDel E"
  for E :: "'k senv" and C :: "'k view" and d :: SMData
proof (unfold_locales, goal_cases)
  case (1 s hs v s')
  then show ?case using kvPut_result [of E C d s hs v s'] by simp
next
  case (2 s hs v s')
  then show ?case using kvPut_result [of E C d s hs v s'] by (simp del: changed.simps)
next
  case (3 s hs s')
  then show ?case using kvDel_result [of E C d s hs s'] by simp
next
  case (4 s hs s')
  then show ?case using kvDel_result [of E C d s hs s'] by (simp del: changed.simps)
qed

text \<open>A change is possible whenever the contract holds.\<close>

lemma kv_possible:
  assumes "kvInv E C d s" and "kvLegal c"
  shows "runChange (kvPut E) (kvDel E) c s \<noteq> None"
proof -
  have E: "kv_in E C" "kv_up (kvi E)" "cached d s" and x: "tokensText E" "imagesText (C (kvs s))"
    using assms(1) by (simp_all add: kvInv_def)
  show ?thesis
  proof (cases c)
    case (Put hs v)
    then have "values_ok (hostRequest hs v)" "targets d (hostRequest hs v) \<noteq> []"
      using assms(2) by (simp_all add: kvLegal_values targets_def)
    then obtain tok s' where "Store E (hostRequest hs v) s = (Inr (None, tok), s')"
      using wp_total [OF Store_wp [OF E _ _ x]] by force
    with Put show ?thesis by (simp add: kvPut_def)
  next
    case (Del hs)
    obtain err s' where "Remove E (hostRequest hs ([], [], [])) s = (Inr err, s')"
      using wp_total [OF Remove_wp [OF E, of "hostRequest hs ([], [], [])"]] by auto
    with Del show ?thesis by (simp add: kvDel_def)
  qed
qed

end
