(* ===== verification/BootScript.thy ===== *)
theory BootScript
  imports Accesses
begin

text \<open>
  The iPXE boot script of a node (cmd/boot-script-service/default_api.go, join_token.go): kernel
  parameters, the substitution of the join token and of S3 addresses, the script itself, the script
  for unknown nodes and the request for a boot script.
\<close>

definition nl :: string where "nl = [CHR 0x0A]"

text \<open>A fresh index for the next answer from outside.\<close>

definition nextIx :: "('k, nat) sv" where
  "nextIx s = (Inr (ticks s), s\<lparr>ticks := Suc (ticks s)\<rparr>)"

subsection \<open>Join tokens\<close>

record spireResp =
  sr_Title :: string
  sr_Status :: int
  sr_Detail :: string
  sr_JoinToken :: string

definition decInt :: "int dec" where
  "decInt j cur =
     (case j of
        JNum t \<Rightarrow> (case int_literal t of
                     Some i \<Rightarrow> if - (2 ^ 63) \<le> i \<and> i < 2 ^ 63 then (i, True) else (cur, False)
                   | None \<Rightarrow> (cur, False))
      | JNull \<Rightarrow> (cur, True) | _ \<Rightarrow> (cur, False))"

definition decSpire :: "spireResp dec" where
  "decSpire = decStruct
     [(''title'', field decStr sr_Title (\<lambda>v r. r\<lparr>sr_Title := v\<rparr>)),
      (''status'', field decInt sr_Status (\<lambda>v r. r\<lparr>sr_Status := v\<rparr>)),
      (''detail'', field decStr sr_Detail (\<lambda>v r. r\<lparr>sr_Detail := v\<rparr>)),
      (''join_token'', field decStr sr_JoinToken (\<lambda>v r. r\<lparr>sr_JoinToken := v\<rparr>))]"

definition spireType :: "string \<Rightarrow> string \<Rightarrow> string" where
  "spireType role subRole =
     (if equalFold role ''Compute'' then ''type=compute&''
      else if equalFold role ''Application'' \<and> equalFold subRole ''UAN'' then ''type=uan&'' else [])"

definition getJoinToken :: "'k senv \<Rightarrow> string \<Rightarrow> string \<Rightarrow> string \<Rightarrow> ('k, goerr + string) sv" where
  "getJoinToken E xname role subRole =
     andThen nextIx (\<lambda>t.
     let url = spireTokensBaseURL E @ ''/api/token'' in
     ret (case spirePost E t url (spireType role subRole @ ''xname='' @ xname) of
            Inl e \<Rightarrow> Inl e
          | Inr rspBody \<Rightarrow>
              (case unmarshal decSpire \<lparr>sr_Title = [], sr_Status = 0, sr_Detail = [], sr_JoinToken = []\<rparr> rspBody of
                 (spireResp, ok) \<Rightarrow>
                   if \<not> ok then Inl jsonErr
                   else if sr_JoinToken spireResp = [] then
                     Inl (Err (if sr_Title spireResp \<noteq> [] \<or> sr_Detail spireResp \<noteq> []
                               then ''ERROR: '' @ url @ '': Join token retrieval failed: '' @ sr_Title spireResp @ '': '' @ sr_Detail spireResp
                               else ''ERROR: '' @ url @ '': Did not receive join token: '' @ rspBody))
                   else Inr (sr_JoinToken spireResp))))"

definition spireTokenServiceInit :: "string \<Rightarrow> string \<Rightarrow> goerr + bool" where
  "spireTokenServiceInit urlBase opts =
     (case urlParse urlBase of
        None \<Rightarrow> Inl (Err (''URL parse error, URL: '' @ urlBase))
      | Some u \<Rightarrow> Inr (u_Scheme u = ''https'' \<and> insecureOpt opts))"

subsection \<open>S3 addresses\<close>

text \<open>Bucket and key of an S3 URL.\<close>

definition s3Parts :: "url \<Rightarrow> string \<times> string" where
  "s3Parts p =
     (if u_Host p = [] then
        (let tmp = strSplit CHR ''/'' (strTrim (u_Path p) ''/'') in (hd tmp, strJoin ''/'' (tl tmp)))
      else (u_Host p, u_Path p))"

definition checkURL :: "'k senv \<Rightarrow> string \<Rightarrow> ('k, goerr + string) sv" where
  "checkURL E u s =
     (case urlParse u of
        None \<Rightarrow> (Inr (Inr u), s)
      | Some p \<Rightarrow>
          if \<not> equalFold (u_Scheme p) ''s3'' then (Inr (Inr u), s)
          else
            (let (bucket, key) = s3Parts p; t = ticks s; s' = s\<lparr>ticks := Suc t\<rparr> in
             if s3Client s \<or> s3Connect E t bucket
             then (Inr (s3GetURL E t bucket key), s'\<lparr>s3Client := True\<rparr>)
             else (Inr (Inr []), s')))"

text \<open>The matches of \<open>(^|[ ])((metal.server=|root=live:)(s3://[^ ]*))\<close>: at the start of the text or
  after a space, the longest run without a space that begins with one of the keys and \<open>s3://\<close>. A
  match is the pair of its key and its S3 address, with the space in front.\<close>

definition s3Key :: "string \<Rightarrow> nat option" where
  "s3Key s =
     (let r = drop 5 s; n = runeLen r in
      if hasPrefix s ''metal'' \<and> r \<noteq> [] \<and> hd r \<noteq> CHR 0x0A \<and> hasPrefix (drop n r) ''server=''
      then Some (5 + n + 7)
      else if hasPrefix s ''root=live:'' then Some 10 else None)"

definition s3At :: "string \<Rightarrow> (string \<times> string \<times> string) option" where
  "s3At s =
     (case s3Key s of
        None \<Rightarrow> None
      | Some k \<Rightarrow>
          if hasPrefix (drop k s) ''s3://''
          then Some (take k s, takeWhile (\<lambda>c. c \<noteq> CHR '' '') (drop k s), dropWhile (\<lambda>c. c \<noteq> CHR '' '') (drop k s))
          else None)"

lemma s3At_shorter: "s3At s = Some (k, v, rest) \<Longrightarrow> length rest < length s"
proof -
  assume a: "s3At s = Some (k, v, rest)"
  then obtain n where n: "s3Key s = Some n" "hasPrefix (drop n s) ''s3://''" "rest = dropWhile (\<lambda>c. c \<noteq> CHR '' '') (drop n s)"
    by (auto simp: s3At_def split: option.splits if_splits)
  from n(1) have "0 < n" by (auto simp: s3Key_def Let_def split: if_splits)
  moreover from n(2) have "s \<noteq> []" by (auto simp: hasPrefix_def)
  moreover have "length rest \<le> length (drop n s)" unfolding n(3) by (rule length_dropWhile_le)
  ultimately show ?thesis by (cases s) auto
qed

function s3Matches :: "bool \<Rightarrow> string \<Rightarrow> (string \<times> string \<times> string) list" where
  "s3Matches start s =
     (case (if start then s3At s else None) of
        Some (k, v, rest) \<Rightarrow> ([], k, v) # s3Matches False rest
      | None \<Rightarrow>
          (case s of
             [] \<Rightarrow> []
           | c # r \<Rightarrow>
               if c = CHR '' '' then
                 (case s3At r of
                    Some (k, v, rest) \<Rightarrow> ('' '', k, v) # s3Matches False rest
                  | None \<Rightarrow> s3Matches False r)
               else s3Matches False r))"
  by pat_completeness auto
termination
  by (relation "measure (\<lambda>(b, s). length s)") (auto dest: s3At_shorter split: if_splits)

declare s3Matches.simps [simp del]

fun replaceEach :: "(string \<Rightarrow> ('k, goerr + string) sv) \<Rightarrow> (string \<times> string \<times> string) list \<Rightarrow> string \<Rightarrow>
    ('k, string \<times> goerr option) sv" where
  "replaceEach getURL [] params = ret (params, None)"
| "replaceEach getURL ((sp, k, v) # ms) params =
     andThen (getURL v) (\<lambda>r.
     case r of
       Inl e \<Rightarrow> ret (params, Some e)
     | Inr u \<Rightarrow> replaceEach getURL ms (strReplace1 params (sp @ k @ v) (sp @ k @ u)))"

definition replaceS3Params :: "(string \<Rightarrow> ('k, goerr + string) sv) \<Rightarrow> string \<Rightarrow> ('k, string \<times> goerr option) sv" where
  "replaceS3Params getURL params = replaceEach getURL (s3Matches True params) params"

subsection \<open>Kernel parameters\<close>

record scriptParams =
  sp_xname :: string
  sp_nid :: string
  sp_referralToken :: string
  sp_mac :: string

definition paramExists :: "string \<Rightarrow> string \<Rightarrow> bool" where
  "paramExists params pname \<longleftrightarrow> list_ex (\<lambda>s. hasPrefix s pname) (strSplit CHR '' '' params)"

definition checkParam :: "string \<Rightarrow> string \<Rightarrow> string \<Rightarrow> string" where
  "checkParam params pname pv =
     (if pv \<noteq> [] \<and> \<not> paramExists params pname then params @ '' '' @ pname @ pv else params)"

definition joinTokenVarName :: string where "joinTokenVarName = ''SPIRE_JOIN_TOKEN''"

text \<open>The first byte of \<open>pvar\<close> alone is compared with two bytes, so that the name is always put
  in braces.\<close>

definition paramSubstitute :: "string \<Rightarrow> string \<Rightarrow> ('k, goerr + string) sv \<Rightarrow> ('k, string \<times> goerr option) sv" where
  "paramSubstitute params pvar getVal =
     (if pvar = [] then fail IndexOutOfRange
      else
        let v = (if take 1 pvar \<noteq> ''${'' then ''${'' @ pvar @ ''}'' else pvar) in
        if strContains params v
        then andThen getVal (\<lambda>r. case r of Inl e \<Rightarrow> ret (params, Some e)
                                         | Inr val \<Rightarrow> ret (strReplaceAll params v val, None))
        else ret (params, None))"

text \<open>The given parameters, those of the images and the special ones that are missing.\<close>

definition baseParams :: "BootData \<Rightarrow> string" where
  "baseParams bd =
     bd_Params bd @
     (if im_Params (bd_Kernel bd) \<noteq> [] then '' '' @ im_Params (bd_Kernel bd) else []) @
     (if im_Params (bd_Initrd bd) \<noteq> [] then '' '' @ im_Params (bd_Initrd bd) else [])"

definition specialParams :: "string \<Rightarrow> scriptParams \<Rightarrow> string \<Rightarrow> string" where
  "specialParams advertise sp params =
     (let p1 = checkParam params ''xname='' (sp_xname sp);
          p2 = checkParam p1 ''nid='' (sp_nid sp);
          p3 = (if sp_referralToken sp \<noteq> [] then checkParam p2 ''bss_referral_token='' (sp_referralToken sp) else p2);
          p4 = (if sp_mac sp \<noteq> [] then checkParam p3 ''BOOTIF='' (''01-'' @ strReplaceAll (sp_mac sp) '':'' ''-'') else p3) in
      checkParam p4 ''ds='' (''nocloud-net;s='' @ advertise @ ''/''))"

text \<open>The first occurrence of \<open>initrd\<close> is cut out up to the next space; a text that ends before
  a space is indexed out of range.\<close>

definition initrdParam :: "string \<Rightarrow> ('k, string) sv" where
  "initrdParam params =
     (case strIndex params ''initrd'' of
        None \<Rightarrow> ret (''initrd=initrd '' @ params)
      | Some start \<Rightarrow>
          (case dropWhile (\<lambda>c. c \<noteq> CHR '' '') (drop start params) of
             [] \<Rightarrow> fail IndexOutOfRange
           | rest \<Rightarrow> ret (''initrd=initrd '' @ take start params @ rest)))"

definition buildParams :: "'k senv \<Rightarrow> BootData \<Rightarrow> scriptParams \<Rightarrow> string \<Rightarrow> string \<Rightarrow> ('k, goerr + string) sv" where
  "buildParams E bd sp role subRole =
     andThen (paramSubstitute (specialParams (advertiseAddress E) sp (baseParams bd)) joinTokenVarName
                (getJoinToken E (sp_xname sp) role subRole)) (\<lambda>(params, err).
     case err of
       Some e \<Rightarrow> ret (Inl e)
     | None \<Rightarrow>
         andThen (replaceS3Params (checkURL E) params) (\<lambda>(params, _).
         if im_Path (bd_Initrd bd) \<noteq> [] then andThen (initrdParam params) (\<lambda>p. ret (Inr p)) else ret (Inr params)))"

subsection \<open>Scripts\<close>

definition orRetry :: string where "orRetry = '' || goto boot_retry'' @ nl"

definition buildBootScript :: "'k senv \<Rightarrow> BootData \<Rightarrow> scriptParams \<Rightarrow> string \<Rightarrow> string \<Rightarrow> string \<Rightarrow> string \<Rightarrow>
    ('k, string \<times> goerr option) sv" where
  "buildBootScript E bd sp chain role subRole descr =
     (if im_Path (bd_Kernel bd) = [] then ret ([], Some (Err (descr @ '': this host not configured for booting.'')))
      else
        andThen (buildParams E bd sp role subRole) (\<lambda>r.
        case r of
          Inl e \<Rightarrow> ret ([], Some e)
        | Inr params \<Rightarrow>
            andThen (checkURL E (im_Path (bd_Kernel bd))) (\<lambda>ku.
            case ku of
              Inl e \<Rightarrow> ret (''#!ipxe'' @ nl, Some e)
            | Inr u \<Rightarrow>
                andThen (if im_Path (bd_Initrd bd) = [] then ret (Inr [])
                         else andThen (checkURL E (im_Path (bd_Initrd bd))) (\<lambda>iu.
                              ret (map_sum id (\<lambda>v. ''initrd --name initrd '' @ v @ orRetry) iu))) (\<lambda>i.
                ret (''#!ipxe'' @ nl @ ''kernel --name kernel '' @ u @ '' '' @ strTrim params '' '' @ orRetry @
                     (case i of Inl _ \<Rightarrow> [] | Inr line \<Rightarrow> line) @
                     ''boot'' @ orRetry @ '':boot_retry'' @ nl @
                     ''sleep '' @ nat_str (retryDelay E) @ nl @ chain @ nl,
                     case i of Inl e \<Rightarrow> Some e | Inr _ \<Rightarrow> None)))))"

definition noScriptParams :: scriptParams where
  "noScriptParams = \<lparr>sp_xname = [], sp_nid = [], sp_referralToken = [], sp_mac = []\<rparr>"

definition scriptURL :: "'k senv \<Rightarrow> string \<Rightarrow> string" where
  "scriptURL E path = ''chain '' @ chainProto E @ ''://'' @ ipxeServer E @ gwURI E @ path"

definition unknownChain :: "'k senv \<Rightarrow> string \<Rightarrow> string \<Rightarrow> int \<Rightarrow> int \<Rightarrow> string" where
  "unknownChain E mac name nid ts =
     scriptURL E ''/boot/v1/bootscript'' @
     (if mac \<noteq> [] then ''?mac='' @ mac
      else if name \<noteq> [] then ''?name='' @ name
      else if nid \<ge> 0 then ''?nid='' @ int_str nid
      else ''?mac=${net/net0}'') @ ''&arch=${buildarch}&ts='' @ int_str ts"

text \<open>The branch of the code that looks at \<open>unknownKeys\<close> lies under the condition
  \<open>retrievingState\<close> and under its negation, so that it is never taken.\<close>

definition unknownBootScript :: "'k senv \<Rightarrow> string \<Rightarrow> string \<Rightarrow> string \<Rightarrow> int \<Rightarrow> int \<Rightarrow> string \<Rightarrow> string \<Rightarrow> string \<Rightarrow>
    ('k, string \<times> bool \<times> goerr option) sv" where
  "unknownBootScript E arch mac name nid ts role subRole descr =
     (let chain = unknownChain E mac name nid ts in
      andThen (checkState E (arch = [])) (\<lambda>retrievingState.
      if retrievingState
      then ret (''#!ipxe'' @ nl @ ''sleep '' @ nat_str (hsmRetrievalDelay E) @ nl @ chain @ nl, True, None)
      else andThen (lookup E (unknownPrefix @ arch) [] [] []) (\<lambda>bd.
           andThen (buildBootScript E bd noScriptParams chain role subRole descr) (\<lambda>(script, err).
           ret (script, False, err)))))"

definition isBlocked :: "string list \<Rightarrow> string \<Rightarrow> bool" where
  "isBlocked roles role \<longleftrightarrow> list_ex (\<lambda>r. equalFold r role) roles"

definition blacklist :: "'k senv \<Rightarrow> SMComponent \<Rightarrow> ('k, goerr option) sv" where
  "blacklist E c =
     (let blocked = Some (Err (''Node '' @ sc_ID c @ '' blocked, role: '' @ sc_Role c)) in
      if \<not> isBlocked (blockedRoles E) (sc_Role c) then ret None
      else
        andThen (lookupHost E (sc_ID c)) (\<lambda>(_, e).
        if e = None then ret None
        else if sc_Role c = [] then ret blocked
        else andThen (lookupHost E (sc_Role c)) (\<lambda>(_, e). ret (if e = None then None else blocked))))"

end
