(* ===== verification/Handlers.thy ===== *)
theory Handlers
  imports BootScript
begin

text \<open>
  The handlers of cmd/boot-script-service/default_api.go. A request holds what the handlers read of
  it: the method, the path, the parameters of the URL, the form (after \<open>ParseForm\<close>), the body or the error of reading it, and the
  remote address with the header X-Forwarded-For. A reply is a problem report of hms-base
  (\<open>Problem\<close>, status and text) or a status with headers and a body.
\<close>

record request =
  rq_Method :: string
  rq_Path :: string
  rq_Query :: "(string \<times> string list) list"
  rq_Form :: "(string \<times> string list) list"
  rq_Body :: "goerr + string"
  rq_XFF :: string
  rq_RemoteAddr :: string

datatype reply = Problem nat string | Reply nat "(string \<times> string) list" string

definition formJoin :: "string \<Rightarrow> request \<Rightarrow> string \<Rightarrow> string" where
  "formJoin sep r k = strJoin sep (case map_of (rq_Form r) k of None \<Rightarrow> [] | Some vs \<Rightarrow> vs)"

definition jsonHdr :: "(string \<times> string) list" where
  "jsonHdr = [(''Content-Type'', ''application/json; charset=UTF-8'')]"

definition squote :: "string \<Rightarrow> string" where
  "squote s = CHR 0x27 # s @ [CHR 0x27]"

text \<open>\<open>json.NewEncoder(w).Encode\<close>: the text and a line break.\<close>

definition jsonReply :: "json \<Rightarrow> reply" where
  "jsonReply j = Reply 200 jsonHdr (jprint j @ nl)"

text \<open>A slice that was never appended to is \<open>null\<close>.\<close>

definition sliceJson :: "json list \<Rightarrow> json" where
  "sliceJson xs = (if xs = [] then JNull else JArr xs)"

definition svcText :: "'k senv \<Rightarrow> svcerr \<Rightarrow> string" where
  "svcText E e = (case e of GoErr g \<Rightarrow> errorText g | HMSErr cls g _ \<Rightarrow> hmsText E cls (errorText g))"

fun checkText :: "check_err \<Rightarrow> string" where
  "checkText (InvalidMac m) = ''invalid MAC address format: '' @ m @ nl"
| "checkText (InvalidXname x) = ''invalid xname: '' @ x"
| "checkText (InvalidXnameType t) = ''invalid xname type: '' @ t"

text \<open>\<open>json.NewDecoder(r.Body).Decode\<close>.\<close>

definition decodeBody :: "'a dec \<Rightarrow> 'a \<Rightarrow> goerr + string \<Rightarrow> goerr + 'a" where
  "decodeBody d z body =
     (case body of
        Inl e \<Rightarrow> Inl e
      | Inr p \<Rightarrow> (case json_first p of
                   None \<Rightarrow> Inl jsonErr
                 | Some j \<Rightarrow> (case d j z of (x, ok) \<Rightarrow> if ok then Inr x else Inl jsonErr)))"

definition badRequest :: "string \<Rightarrow> reply" where
  "badRequest msg = Problem 400 (''Bad Request: '' @ msg)"

subsection \<open>Boot parameters\<close>

definition kernelParams :: "ImageData \<Rightarrow> BootParams" where
  "kernelParams im = noBootParams\<lparr>Params := im_Params im, Kernel := im_Path im\<rparr>"

definition initrdParams :: "ImageData \<Rightarrow> BootParams" where
  "initrdParams im = noBootParams\<lparr>Params := im_Params im, Initrd := im_Path im\<rparr>"

definition hostParams :: "string \<Rightarrow> BootData \<Rightarrow> BootParams" where
  "hostParams name bd = noBootParams\<lparr>Hosts := [name], Params := bd_Params bd, Kernel := im_Path (bd_Kernel bd),
     Initrd := im_Path (bd_Initrd bd), bpCloudInit := bd_CloudInit bd\<rparr>"

text \<open>The boot data of the entries that can be read.\<close>

fun tagParams :: "'k senv \<Rightarrow> (string \<times> string) list \<Rightarrow> ('k, BootParams list) sv" where
  "tagParams E [] = ret []"
| "tagParams E (x # kvl) =
     (case readStore (snd x) of (bds, ok) \<Rightarrow>
        if \<not> ok then tagParams E kvl
        else andThen (bdConvert E bds) (\<lambda>bd.
             andThen (tagParams E kvl) (\<lambda>ps. ret (hostParams (extractParamName x) bd # ps))))"

definition BootparametersGetAll :: "'k senv \<Rightarrow> ('k, reply) sv" where
  "BootparametersGetAll E =
     (if useSQL E then
        andThen (inSQL (GetBootParamsAll (pgEnv E))) (\<lambda>r.
        ret (jsonReply (sliceJson (case r of Inl _ \<Rightarrow> [] | Inr results \<Rightarrow> map bootParamsJson results))))
      else
        andThen (GetKernelInfo E) (\<lambda>ks.
        andThen (GetInitrdInfo E) (\<lambda>is.
        andThen (getTags E) (\<lambda>(kvl, e).
        andThen (if e = None then tagParams E kvl else ret []) (\<lambda>ps.
        ret (jsonReply (sliceJson (map bootParamsJson (map kernelParams ks @ map initrdParams is @ ps)))))))))"

text \<open>The NIDs of a query, or the first that is not a number.\<close>

fun parseNids :: "string list \<Rightarrow> string + int32 list" where
  "parseNids [] = Inr []"
| "parseNids (n # ns) =
     (case parseInt0 n of
        (Some _, _) \<Rightarrow> Inl n
      | (None, i) \<Rightarrow> map_sum id ((#) (word_of_int i)) (parseNids ns))"

definition getArgs :: "request \<Rightarrow> string \<Rightarrow> reply + BootParams" where
  "getArgs r p =
     (let mac = formJoin '','' r ''mac''; name = formJoin '','' r ''name''; nid = formJoin '','' r ''nid'';
          qparams = (mac \<noteq> [] \<or> name \<noteq> [] \<or> nid \<noteq> []) in
      case unmarshal decBootParams noBootParams p of (args, ok) \<Rightarrow>
        if \<not> ok \<and> \<not> qparams then Inl (Problem 400 (''Failed to interpret request body '' @ squote p @ '': '' @ errorText jsonErr))
        else
          (let args1 = (if mac \<noteq> [] then args\<lparr>Macs := Macs args @ strSplit CHR '','' mac\<rparr> else args);
               args2 = (if name \<noteq> [] then args1\<lparr>Hosts := Hosts args1 @ strSplit CHR '','' name\<rparr> else args1) in
           if nid = [] then Inr args2
           else (case parseNids (strSplit CHR '','' nid) of
                   Inl n \<Rightarrow> Inl (Problem 400 (''Bad Request - Invalid nid '' @ squote n))
                 | Inr ns \<Rightarrow> Inr (args2\<lparr>Nids := Nids args2 @ ns\<rparr>))))"

text \<open>The boot data of the hosts, and the hosts that have none.\<close>

fun hostsFound :: "'k senv \<Rightarrow> string list \<Rightarrow> ('k, BootParams list \<times> string list) sv" where
  "hostsFound E [] = ret ([], [])"
| "hostsFound E (v # vs) =
     andThen (LookupBootData E v) (\<lambda>(bd, err).
     andThen (hostsFound E vs) (\<lambda>(ps, unfound).
     ret (if err = None then (hostParams v bd # ps, unfound) else (ps, v # unfound))))"

definition matches :: "BootParams \<Rightarrow> string \<Rightarrow> SMComponent \<Rightarrow> bool" where
  "matches args name smc \<longleftrightarrow>
     list_ex (\<lambda>v. v = sc_ID smc \<or> v = sc_Fqdn smc \<or> v = name) (Hosts args) \<or>
     list_ex (\<lambda>v. list_ex (equalFold v) (macsOf smc)) (Macs args) \<or>
     list_ex (\<lambda>v. nidInt smc = Some (sint v)) (Nids args)"

definition scanStep :: "'k senv \<Rightarrow> BootParams \<Rightarrow> string \<times> string \<Rightarrow> BootParams list \<times> images \<times> images \<Rightarrow>
    ('k, BootParams list \<times> images \<times> images) sv" where
  "scanStep E args x acc =
     (case x of (name, value) \<Rightarrow> case acc of (results, caches) \<Rightarrow>
        andThen (LookupComponentByName E name) (\<lambda>smc.
        andThen (ToBootData E value caches) (\<lambda>((bd, _), caches').
        ret (if matches args name smc then results @ [hostParams name bd] else results, caches'))))"

definition kvGetParams :: "'k senv \<Rightarrow> BootParams \<Rightarrow> ('k, BootParams list \<times> BootParams) sv" where
  "kvGetParams E args =
     andThen (if Kernel args \<noteq> [] \<or> Initrd args \<noteq> [] then
                andThen (GetKernelInfo E) (\<lambda>ks.
                andThen (GetInitrdInfo E) (\<lambda>is.
                ret (map kernelParams (filter (\<lambda>i. im_Path i = Kernel args) ks) @
                     map initrdParams (filter (\<lambda>i. im_Path i = Initrd args) is))))
              else ret []) (\<lambda>images.
     andThen (hostsFound E (Hosts args)) (\<lambda>(ps, unfound).
     let args' = args\<lparr>Hosts := unfound\<rparr> in
     if length (Hosts args') > 0 \<or> length (Macs args') > 0 \<or> length (Nids args') > 0 then
       andThen (GetNamesAndValues E) (\<lambda>nv.
       andThen (rangeGo E nv) (\<lambda>nameValues.
       andThen (foldEach (scanStep E args') nameValues (images @ ps, [], [])) (\<lambda>(results, _).
       ret (results, args'))))
     else ret (images @ ps, args')))"

definition notFoundReply :: "BootParams \<Rightarrow> reply" where
  "notFoundReply args =
     (let objs = (if Hosts args \<noteq> [] then [''Hosts''] else []) @ (if Macs args \<noteq> [] then [''MACs''] else []) @
          (if Nids args \<noteq> [] then [''NIDs''] else []) @ (if Kernel args \<noteq> [] then [''kernel''] else []) @
          (if Initrd args \<noteq> [] then [''initrd''] else []) in
      if objs = [] then Problem 400 ''No specified data requested''
      else Problem 404 (''Cannot find boot parameters for requested '' @ strJoin '', '' (butlast objs) @
             (if length objs > 1 then '' or '' else []) @ last objs))"

definition BootparametersGet :: "'k senv \<Rightarrow> request \<Rightarrow> ('k, reply) sv" where
  "BootparametersGet E r =
     (case rq_Body r of
        Inl e \<Rightarrow> ret (Problem 400 (''Failed to receive request body: '' @ errorText e))
      | Inr p \<Rightarrow>
          if p = [] \<and> formJoin '','' r ''mac'' = [] \<and> formJoin '','' r ''name'' = [] \<and> formJoin '','' r ''nid'' = []
          then BootparametersGetAll E
          else (case getArgs r p of
                  Inl problem \<Rightarrow> ret problem
                | Inr args \<Rightarrow>
                    andThen (if useSQL E then
                               andThen (inSQL (SqlGetBootParams (pgEnv E) (Macs args) (Hosts args) (Nids args))) (\<lambda>res.
                               ret (case res of Inl _ \<Rightarrow> ([], args) | Inr results \<Rightarrow> (results, args)))
                             else kvGetParams E args) (\<lambda>(results, args').
                    ret (if results = [] then notFoundReply args'
                         else jsonReply (sliceJson (map bootParamsJson results))))))"

definition tokenHdr :: "string \<Rightarrow> (string \<times> string) list" where
  "tokenHdr referralToken = (if referralToken \<noteq> [] then [(''BSS-Referral-Token'', referralToken)] else [])"

definition BootparametersPost :: "'k senv \<Rightarrow> request \<Rightarrow> ('k, reply) sv" where
  "BootparametersPost E r =
     (case decodeBody decBootParams noBootParams (rq_Body r) of
        Inl e \<Rightarrow> ret (badRequest (errorText e))
      | Inr args \<Rightarrow>
          (case CheckMacs args of
             Some e \<Rightarrow> ret (badRequest (checkText e))
           | None \<Rightarrow>
               (case CheckXnames (xnameType E) args of
                  Some e \<Rightarrow> ret (badRequest (checkText e))
                | None \<Rightarrow>
                    andThen (StoreNew E args) (\<lambda>(err, referralToken).
                    ret (case err of None \<Rightarrow> Reply 201 (jsonHdr @ tokenHdr referralToken) []
                                   | Some e \<Rightarrow> badRequest (svcText E e))))))"

definition BootparametersPut :: "'k senv \<Rightarrow> request \<Rightarrow> ('k, reply) sv" where
  "BootparametersPut E r =
     (case decodeBody decBootParams noBootParams (rq_Body r) of
        Inl e \<Rightarrow> ret (badRequest (errorText e))
      | Inr args \<Rightarrow>
          (case CheckMacs args of
             Some e \<Rightarrow> ret (badRequest (checkText e))
           | None \<Rightarrow>
               andThen (Store E args) (\<lambda>(err, referralToken).
               ret (case err of
                      None \<Rightarrow> Reply 200 (jsonHdr @ tokenHdr referralToken) []
                    | Some (HMSErr cls g status) \<Rightarrow> Problem status (errorText g)
                    | Some (GoErr _) \<Rightarrow> Problem 400 ''No data''))))"

definition BootparametersPatch :: "'k senv \<Rightarrow> request \<Rightarrow> ('k, reply) sv" where
  "BootparametersPatch E r =
     (case decodeBody decBootParams noBootParams (rq_Body r) of
        Inl e \<Rightarrow> ret (badRequest (errorText e))
      | Inr args \<Rightarrow>
          (case CheckMacs args of
             Some e \<Rightarrow> ret (badRequest (checkText e))
           | None \<Rightarrow>
               andThen (svcUpdate E args) (\<lambda>err.
               ret (case err of None \<Rightarrow> Reply 200 jsonHdr []
                              | Some e \<Rightarrow> Problem 404 (''Not Found: '' @ svcText E e)))))"

definition BootparametersDelete :: "'k senv \<Rightarrow> request \<Rightarrow> ('k, reply) sv" where
  "BootparametersDelete E r =
     (case decodeBody decBootParams noBootParams (rq_Body r) of
        Inl e \<Rightarrow> ret (badRequest (errorText e))
      | Inr args \<Rightarrow>
          andThen (Remove E args) (\<lambda>err.
          ret (case err of None \<Rightarrow> Reply 200 jsonHdr [] | Some e \<Rightarrow> Problem 400 (svcText E e))))"

subsection \<open>Hosts and the state dump\<close>

definition hostsReply :: "'k senv \<Rightarrow> SMComponent list \<Rightarrow> reply" where
  "hostsReply E cs = jsonReply (sliceJson (map (compJson E) cs))"

text \<open>The components for a list of names, MAC addresses or NIDs, or the first problem.\<close>

fun findAll :: "('k senv \<Rightarrow> 'a \<Rightarrow> ('k, SMComponent \<times> bool) sv) \<Rightarrow> ('a \<Rightarrow> reply) \<Rightarrow> 'k senv \<Rightarrow> 'a list \<Rightarrow>
    ('k, reply + SMComponent list) sv" where
  "findAll finder problem E [] = ret (Inr [])"
| "findAll finder problem E (x # xs) =
     andThen (finder E x) (\<lambda>(c, ok).
     if \<not> ok then ret (Inl (problem x))
     else andThen (findAll finder problem E xs) (\<lambda>r. ret (map_sum id ((#) c) r)))"

fun findNids :: "'k senv \<Rightarrow> string list \<Rightarrow> ('k, reply + SMComponent list) sv" where
  "findNids E [] = ret (Inr [])"
| "findNids E (n # ns) =
     (case parseInt0 n of
        (Some _, _) \<Rightarrow> ret (Inl (Problem 400 (''Bad Request - Invalid nid '' @ squote n)))
      | (None, i) \<Rightarrow>
          andThen (FindSMCompByNid E i) (\<lambda>(c, ok).
          if \<not> ok then ret (Inl (Problem 404 (''Not Found - Unknown NID '' @ squote n)))
          else andThen (findNids E ns) (\<lambda>r. ret (map_sum id ((#) c) r))))"

definition thenFind :: "('k, reply + SMComponent list) sv \<Rightarrow> ('k, reply + SMComponent list) sv \<Rightarrow>
    ('k, reply + SMComponent list) sv" where
  "thenFind m1 m2 =
     andThen m1 (\<lambda>r. case r of Inl p \<Rightarrow> ret (Inl p) | Inr cs \<Rightarrow> andThen m2 (\<lambda>r. ret (map_sum id ((@) cs) r)))"

definition HostsGet :: "'k senv \<Rightarrow> request \<Rightarrow> ('k, reply) sv" where
  "HostsGet E r =
     (let mac = formJoin '','' r ''mac''; name = formJoin '','' r ''name''; nid = formJoin '','' r ''nid'';
          qparams = (mac \<noteq> [] \<or> name \<noteq> [] \<or> nid \<noteq> []);
          items = (\<lambda>x. if x \<noteq> [] then strSplit CHR '','' x else []);
          unknown = (\<lambda>what x. Problem 404 (''Not Found - Unknown '' @ what @ '' '' @ squote x)) in
      andThen (getState E) (\<lambda>st. andThen (deref st) (\<lambda>state.
      if \<not> qparams then ret (hostsReply E (sm_Components state))
      else
        andThen (thenFind (thenFind
          (findAll FindSMCompByName (unknown ''host name'') E (items name))
          (findAll FindSMCompByMAC (unknown ''MAC address'') E (items mac)))
          (findNids E (items nid))) (\<lambda>res.
        ret (case res of Inl p \<Rightarrow> p | Inr cs \<Rightarrow> hostsReply E cs)))))"

definition HostsPost :: "'k senv \<Rightarrow> ('k, reply) sv" where
  "HostsPost E =
     andThen (clockNow E) (\<lambda>now.
     andThen (refreshState E now) (\<lambda>_.
     ret (Reply 204 (jsonHdr @ [(''Cache-Control'', ''no-cache'')]) [])))"

definition DumpstateGet :: "'k senv \<Rightarrow> ('k, reply) sv" where
  "DumpstateGet E =
     andThen (getState E) (\<lambda>st. andThen (deref st) (\<lambda>state.
     let failed = (\<lambda>what. Problem 500 (''Retrieving state failed: '' @ what));
         dump = (\<lambda>ps. jsonReply (JObj [(''Components'', sliceJson (map (compJson E) (sm_Components state))),
                                       (''Params'', sliceJson (map bootParamsJson ps))])) in
     if useSQL E then
       andThen (inSQL (GetBootParamsAll (pgEnv E))) (\<lambda>r.
       ret (case r of Inl _ \<Rightarrow> failed ''Error retrieving boot parameters from database'' | Inr ps \<Rightarrow> dump ps))
     else
       andThen (GetKernelInfo E) (\<lambda>ks.
       andThen (GetInitrdInfo E) (\<lambda>is.
       andThen (getTags E) (\<lambda>(kvl, err).
       if err \<noteq> None then ret (failed ''Error retrieving names from key-value store'')
       else andThen (tagParams E kvl) (\<lambda>ps.
            ret (dump (map kernelParams ks @ map initrdParams is @
                       map (\<lambda>p. p\<lparr>bpCloudInit := noCloudInit\<rparr>) ps))))))))"

end
