(* ===== verification/ScriptHandler.thy ===== *)
theory ScriptHandler
  imports Handlers
begin

text \<open>The handler of boot script requests (BootscriptGet of default_api.go).\<close>

definition getIntParam :: "request \<Rightarrow> string \<Rightarrow> int \<Rightarrow> int" where
  "getIntParam r param df =
     (let str = formJoin [] r param in
      if str = [] then df else (case parseInt0 str of (None, i) \<Rightarrow> i | (Some _, _) \<Rightarrow> df))"

text \<open>The addition of Go's \<open>int\<close>, of 64 bits, wraps around.\<close>

definition addInt :: "int \<Rightarrow> int \<Rightarrow> int" where
  "addInt a b = sint (word_of_int (a + b) :: 64 word)"

definition inParens :: "string \<Rightarrow> string" where
  "inParens x = '' ('' @ x @ '')''"

text \<open>The boot data and the component asked for, with a description; nothing without a selector.\<close>

definition scriptFor :: "'k senv \<Rightarrow> string \<Rightarrow> string \<Rightarrow> int \<Rightarrow> ('k, (BootData \<times> SMComponent \<times> string) option) sv" where
  "scriptFor E mac name nid =
     (if mac \<noteq> [] then
        andThen (LookupByMAC E mac) (\<lambda>(bd, c).
        ret (Some (bd, c, ''MAC '' @ mac @ (if sc_ID c \<noteq> [] then inParens (sc_ID c) else []))))
      else if name \<noteq> [] then
        andThen (LookupByName E name) (\<lambda>(bd, c).
        ret (Some (bd, c, name @ (if sc_ID c \<noteq> [] \<and> sc_ID c \<noteq> name then inParens (sc_ID c) else []))))
      else if nid \<ge> 0 then
        andThen (LookupByNid E nid) (\<lambda>(bd, c).
        ret (Some (bd, c, ''NID '' @ int_str nid @ (if sc_ID c \<noteq> [] then inParens (sc_ID c) else []))))
      else ret None)"

definition bootDataJson :: "BootData \<Rightarrow> json" where
  "bootDataJson bd = JObj (omitStr ''params'' (bd_Params bd) @
     [(''kernel'', imageDataJson (bd_Kernel bd)), (''initrd'', imageDataJson (bd_Initrd bd))])"

definition jsonAnswer :: "'k senv \<Rightarrow> BootData \<Rightarrow> scriptParams \<Rightarrow> SMComponent \<Rightarrow> ('k, reply) sv" where
  "jsonAnswer E bd sp c =
     andThen (buildParams E bd sp (sc_Role c) (sc_SubRole c)) (\<lambda>r.
     ret (case r of
            Inl e \<Rightarrow> Problem 500 (''Failed to build params: '' @ errorText e)
          | Inr params \<Rightarrow> Reply 200 jsonHdr (jprint (bootDataJson (bd\<lparr>bd_Params := ''kernel '' @ params\<rparr>)))))"

text \<open>A node is unknown when it has no component, when its endpoint is disabled or when it has no
  kernel.\<close>

definition isUnknown :: "BootData \<Rightarrow> SMComponent \<Rightarrow> bool" where
  "isUnknown bd c \<longleftrightarrow> sc_ID c = [] \<or> \<not> sc_EndpointEnabled c \<or> im_Path (bd_Kernel bd) = []"

definition firstMac :: "SMComponent \<Rightarrow> string \<Rightarrow> string" where
  "firstMac c mac =
     (if mac = [] then (case List.find (\<lambda>m. m \<noteq> []) (macsOf c) of None \<Rightarrow> [] | Some m \<Rightarrow> m) else mac)"

definition unknownDescr :: "string \<Rightarrow> string \<Rightarrow> string" where
  "unknownDescr arch descr = ''Unknown '' @ descr @ (if arch \<noteq> [] then '' architecture '' @ arch else [])"

definition unknownScript :: "'k senv \<Rightarrow> string \<Rightarrow> string \<Rightarrow> string \<Rightarrow> int \<Rightarrow> int \<Rightarrow> SMComponent \<Rightarrow> string \<Rightarrow>
    ('k, string \<times> bool \<times> goerr option) sv" where
  "unknownScript E arch mac name nid ts c descr =
     unknownBootScript E arch (firstMac c mac) (if name = [] then sc_ID c else name)
       (if sc_ID c \<noteq> [] then (case nidInt c of Some n \<Rightarrow> n | None \<Rightarrow> nid) else nid)
       ts (sc_Role c) (sc_SubRole c) (unknownDescr arch descr)"

definition knownScript :: "'k senv \<Rightarrow> request \<Rightarrow> BootData \<Rightarrow> scriptParams \<Rightarrow> SMComponent \<Rightarrow> string \<Rightarrow> int \<Rightarrow> string \<Rightarrow>
    string \<times> bool \<Rightarrow> ('k, string \<times> bool \<times> goerr option) sv" where
  "knownScript E r bd sp c mac retry descr before =
     andThen (blacklist E c) (\<lambda>err.
     if err \<noteq> None then ret (fst before, snd before, err)
     else
       andThen (if mac = [] \<and> sc_Mac c \<noteq> None
                then (if macsOf c = [] then fail IndexOutOfRange else ret (hd (macsOf c))) else ret mac) (\<lambda>mac.
       let chain = scriptURL E (rq_Path r) @ (if mac \<noteq> [] then ''?mac='' @ mac else ''?name='' @ sc_ID c) @
             ''&retry='' @ int_str (addInt retry 1) in
       andThen (if useSQL E then ret False else checkState E False) (\<lambda>retrieving.
       if retrieving then ret (''#!ipxe'' @ nl @ ''sleep 10'' @ nl @ chain @ nl, True, None)
       else andThen (buildBootScript E bd sp chain (sc_Role c) (sc_SubRole c) descr) (\<lambda>(script, err).
            ret (script, False, err)))))"

definition finishScript :: "'k senv \<Rightarrow> SMComponent \<Rightarrow> string \<times> bool \<times> goerr option \<Rightarrow> ('k, reply) sv" where
  "finishScript E c x =
     (case x of (script, retrieving, err) \<Rightarrow>
        (case err of
           Some e \<Rightarrow> ret (Problem 404 (errorText e))
         | None \<Rightarrow>
             andThen nextIx (\<lambda>t.
             andThen (if writeOk E t \<and> \<not> retrieving then updateEndpointAccessed E (sc_ID c) ''bootscript'' else ret ()) (\<lambda>_.
             ret (Reply 200 [(''Content-Type'', ''text/plain; charset=UTF-8'')] (script @ nl))))))"

definition makeScript :: "'k senv \<Rightarrow> request \<Rightarrow> string \<Rightarrow> string \<Rightarrow> int \<Rightarrow> int \<Rightarrow> BootData \<Rightarrow> SMComponent \<Rightarrow>
    scriptParams \<Rightarrow> string \<Rightarrow> ('k, string \<times> bool \<times> goerr option) sv" where
  "makeScript E r mac name nid ts bd c sp descr =
     (let arch = formJoin [] r ''arch''; retry = getIntParam r ''retry'' 0 in
      if \<not> isUnknown bd c then knownScript E r bd sp c mac retry descr ([], False)
      else
        andThen (unknownScript E arch mac name nid ts c descr) (\<lambda>(script, retrieving, err).
        if err \<noteq> None \<and> sc_ID c \<noteq> []
        then knownScript E r bd sp c (firstMac c mac) retry (unknownDescr arch descr) (script, retrieving)
        else ret (script, retrieving, err)))"

definition BootscriptGet :: "'k senv \<Rightarrow> request \<Rightarrow> ('k, reply) sv" where
  "BootscriptGet E r =
     (let mac = formJoin [] r ''mac''; name = formJoin [] r ''name''; nid = getIntParam r ''nid'' (-1) in
      andThen (clockNow E) (\<lambda>now.
      let ts = getIntParam r ''ts'' now in
      andThen (scriptFor E mac name nid) (\<lambda>x.
      case x of
        None \<Rightarrow> ret (Problem 400 ''Need a mac=, name=, or nid= parameter'')
      | Some (bd, c, descr) \<Rightarrow>
          let sp = \<lparr>sp_xname = sc_ID c, sp_nid = sc_NID c, sp_referralToken = bd_ReferralToken bd, sp_mac = mac\<rparr> in
          if getIntParam r ''json'' 0 \<noteq> 0 then jsonAnswer E bd sp c
          else andThen (makeScript E r mac name nid ts bd c sp descr) (finishScript E c))))"

end
