(* ===== verification/CloudInitApi.thy ===== *)
theory CloudInitApi
  imports ScriptHandler
begin

text \<open>
  The cloud-init handlers (cmd/boot-script-service/cloudInitAPI.go): meta data and user data of the
  node that asks, recognised by its address, merged from the data of the node and of its role; the
  history of endpoint accesses; and the phone-home notification.
\<close>

type_synonym jmap = "(string \<times> json) list"

subsection \<open>Maps\<close>

fun mapLookup :: "jmap \<Rightarrow> string list \<Rightarrow> goerr + json" where
  "mapLookup m [] = Inl (Err ''mapLookup needs at least one key'')"
| "mapLookup m (k # ks) =
     (case map_of m k of
        None \<Rightarrow> Inl (Err ''key not found in map'')
      | Some v \<Rightarrow>
          if ks = [] then Inr v
          else (case v of JObj m' \<Rightarrow> mapLookup m' ks | _ \<Rightarrow> Inl (Err ''malformed structure'')))"

text \<open>The second map overrides the first; where the first has a map, the second has to have one.\<close>

function mergeMaps :: "jmap \<Rightarrow> jmap \<Rightarrow> panic + jmap" where
  "mergeMaps first [] = Inr first"
| "mergeMaps first ((k, v) # second) =
     (case map_of first k of
        Some (JObj m1) \<Rightarrow>
          (case v of
             JObj m2 \<Rightarrow> (case mergeMaps m1 m2 of
                          Inl p \<Rightarrow> Inl p
                        | Inr m \<Rightarrow> mergeMaps (putKey k (JObj m) first) second)
           | _ \<Rightarrow> Inl BadAssertion)
      | _ \<Rightarrow> mergeMaps (putKey k v first) second)"
  by pat_completeness auto
termination
  by (relation "measure (\<lambda>(f, s). size_list (size_prod (\<lambda>_. 0) size) s)") auto

definition emptyIfNil :: "CloudDataType \<Rightarrow> jmap" where
  "emptyIfNil m = (case m of None \<Rightarrow> [] | Some ms \<Rightarrow> ms)"

text \<open>A missing key and a null are the same to the code.\<close>

definition isNil :: "jmap \<Rightarrow> string \<Rightarrow> bool" where
  "isNil m k \<longleftrightarrow> map_of m k = None \<or> map_of m k = Some JNull"

definition setIfNil :: "string \<Rightarrow> json \<Rightarrow> jmap \<Rightarrow> jmap" where
  "setIfNil k v m = (if isNil m k then putKey k v m else m)"

subsection \<open>The node that asks\<close>

definition generateInstanceID :: "'k senv \<Rightarrow> string \<Rightarrow> ('k, string) sv" where
  "generateInstanceID E prefix =
     andThen nextIx (\<lambda>t.
     ret (toLower ((if prefix = [] then ''default'' else prefix) @ ''-'' @
          concat (map (\<lambda>c. byte_hex (of_char c)) (randBytes E t)))))"

definition findRemoteAddr :: "request \<Rightarrow> string" where
  "findRemoteAddr r =
     (if rq_XFF r = [] then strJoin '':'' (butlast (strSplit CHR '':'' (rq_RemoteAddr r)))
      else last (strSplit CHR '','' (rq_XFF r)))"

text \<open>The flag says whether the component was found.\<close>

definition generateMetaData :: "'k senv \<Rightarrow> string \<Rightarrow> jmap \<Rightarrow> ('k, jmap \<times> bool) sv" where
  "generateMetaData E xname metadata =
     andThen (generateInstanceID E xname) (\<lambda>iid.
     let m = putKey ''instance-id'' (JStr iid) metadata in
     andThen (FindSMCompByName E xname) (\<lambda>(c, found).
     ret (if \<not> found then (m, False)
          else (setIfNil ''shasta-role'' (JStr (sc_SubRole c))
                 (setIfNil ''shasta-type'' (JStr (sc_Role c))
                   (setIfNil ''local-hostname'' (JStr xname) m)), True))))"

definition liftPanic :: "panic + 'a \<Rightarrow> ('k, 'a) sv" where
  "liftPanic x = (case x of Inl p \<Rightarrow> fail p | Inr y \<Rightarrow> ret y)"

text \<open>The cloud-init data of the role that the meta data names.\<close>

definition roleCloudInit :: "'k senv \<Rightarrow> jmap \<Rightarrow> ('k, CloudInit) sv" where
  "roleCloudInit E m =
     (if isNil m ''shasta-role'' then ret noCloudInit
      else (case map_of m ''shasta-role'' of
              Some (JStr role) \<Rightarrow> andThen (LookupByRole E role) (\<lambda>(bd, _). ret (bd_CloudInit bd))
            | _ \<Rightarrow> fail BadAssertion))"

definition metaDataGetAPI :: "'k senv \<Rightarrow> request \<Rightarrow> string option \<Rightarrow> ('k, reply) sv" where
  "metaDataGetAPI E r query =
     andThen (FindXnameByIP E (findRemoteAddr r)) (\<lambda>(xname, found).
     andThen (LookupByName E xname) (\<lambda>(bootdata, _).
     andThen (LookupGlobalData E) (\<lambda>(globaldata, _).
     let respData = emptyIfNil (MetaData (bd_CloudInit bootdata)) in
     andThen (if \<not> found then andThen (generateInstanceID E []) (\<lambda>iid. ret (putKey ''instance-id'' (JStr iid) respData))
              else andThen (generateMetaData E xname respData) (\<lambda>(m, _). ret m)) (\<lambda>respData.
     andThen (roleCloudInit E respData) (\<lambda>role.
     andThen (liftPanic (mergeMaps (emptyIfNil (MetaData role)) respData)) (\<lambda>merged.
     let mergedData = putKey ''Global'' (JObj (emptyIfNil (MetaData (bd_CloudInit globaldata)))) merged in
     ret (case query of
            Some q \<Rightarrow>
              (case mapLookup mergedData (strSplit CHR ''.'' q) of
                 Inl _ \<Rightarrow> Problem 404 ''Not Found''
               | Inr v \<Rightarrow> Reply 200 [] (jprint v @ nl))
          | None \<Rightarrow> Reply 200 [] (jprint (JObj mergedData) @ nl))))))))"

definition userDataGetAPI :: "'k senv \<Rightarrow> request \<Rightarrow> ('k, reply) sv" where
  "userDataGetAPI E r =
     andThen (FindXnameByIP E (findRemoteAddr r)) (\<lambda>(xname, found).
     andThen (LookupByName E xname) (\<lambda>(bootdata, _).
     let metaData = emptyIfNil (MetaData (bd_CloudInit bootdata)) in
     andThen (if \<not> found then ret metaData
              else andThen (generateMetaData E xname metaData) (\<lambda>(m, _). ret m)) (\<lambda>metaData.
     andThen (roleCloudInit E metaData) (\<lambda>role.
     andThen (liftPanic (mergeMaps (emptyIfNil (UserData role)) (emptyIfNil (UserData (bd_CloudInit bootdata))))) (\<lambda>merged.
     let mergedData =
       (if isNil merged ''local-hostname'' \<and> \<not> isNil metaData ''local-hostname''
        then putKey ''local-hostname'' (the (map_of metaData ''local-hostname'')) merged else merged) in
     case yamlText E (JObj mergedData) of
       None \<Rightarrow> ret (Problem 400 ''Invalid YAML'')
     | Some databytes \<Rightarrow>
         andThen (updateEndpointAccessed E xname ''user-data'') (\<lambda>_.
         ret (Reply 200 [(''Content-Type'', ''text/yaml'')] (''#cloud-config'' @ nl @ databytes))))))))"

subsection \<open>History and phone home\<close>

definition accessJson :: "EndpointAccess \<Rightarrow> json" where
  "accessJson a = JObj [(''name'', JStr (ea_Name a)), (''endpoint'', JStr (ea_Endpoint a)),
     (''last_epoch'', JNum (int_str (ea_LastEpoch a)))]"

definition endpointHistoryGetAPI :: "'k senv \<Rightarrow> request \<Rightarrow> ('k, reply) sv" where
  "endpointHistoryGetAPI E r =
     (let name = formJoin [] r ''name''; endpoint = formJoin [] r ''endpoint'' in
      andThen (if useSQL E then inSQL (SearchEndpointAccesses (pgEnv E) name endpoint)
               else andThen (SearchEndpointAccessed E name endpoint) (\<lambda>(accesses, err).
                    ret (case err of Some e \<Rightarrow> Inl e | None \<Rightarrow> Inr accesses))) (\<lambda>res.
      ret (case res of
             Inl e \<Rightarrow> Problem 500 (''Failed to search for name='' @ goQuote name @ '', endpoint='' @ goQuote endpoint @
                        '': '' @ errorText e)
           | Inr accesses \<Rightarrow> jsonReply (JArr (map accessJson accesses)))))"

definition phoneHomePostAPI :: "'k senv \<Rightarrow> request \<Rightarrow> ('k, reply) sv" where
  "phoneHomePostAPI E r =
     (case decodeBody decPhoneHome noPhoneHome (rq_Body r) of
        Inl _ \<Rightarrow> ret (Problem 400 ''Bad Request'')
      | Inr args \<Rightarrow>
          andThen (FindXnameByIP E (findRemoteAddr r)) (\<lambda>(xname, found).
          if \<not> found then ret (Problem 404 ''XName not found for IP'')
          else
            andThen (LookupByName E xname) (\<lambda>(bootdata, _).
            let bp = noBootParams\<lparr>Hosts := [xname], bpCloudInit := (bd_CloudInit bootdata)\<lparr>ciPhoneHome := args\<rparr>\<rparr> in
            andThen (svcUpdate E bp) (\<lambda>err.
            ret (case err of
                   Some e \<Rightarrow> Problem 404 (''Not Found: '' @ svcText E e)
                 | None \<Rightarrow> Reply 200 jsonHdr (jprint (bootParamsJson bp) @ nl))))))"

end
