(* ===== verification/Server.thy ===== *)
theory Server
  imports CloudInitApi
begin

text \<open>
  The status pages (cmd/boot-script-service/serviceAPI.go) and the routes of the service
  (routers.go). The router chi matches a path with a pattern without wildcards when they are equal;
  its middleware Recoverer answers a panic of a handler with status 500. What the authentication
  middleware does with a request is the argument \<open>refused\<close> of \<open>serve\<close>: the answer it
  gives itself, or nothing when the request passes.
\<close>

subsection \<open>Status pages\<close>

text \<open>\<open>strings.ToUpper\<close> and \<open>strings.TrimSpace\<close> on ASCII text: the paths of the routes and the
  version of a build are such texts.\<close>

definition toUpperChar :: "char \<Rightarrow> char" where
  "toUpperChar c = (if CHR ''a'' \<le> c \<and> c \<le> CHR ''z'' then char_of (of_char c - 32 :: nat) else c)"

definition trimSpace :: "string \<Rightarrow> string" where
  "trimSpace s = strTrim s [CHR 0x09, CHR 0x0A, CHR 0x0B, CHR 0x0C, CHR 0x0D, CHR '' '']"

record storageBackend =
  sb_Name :: string
  sb_Status :: string

record serviceStatus =
  ss_Version :: string
  ss_Status :: string
  ss_HSMStatus :: string
  ss_StorageBackend :: "storageBackend option"

definition noStatus :: serviceStatus where
  "noStatus = \<lparr>ss_Version = [], ss_Status = [], ss_HSMStatus = [], ss_StorageBackend = None\<rparr>"

definition statusJson :: "serviceStatus \<Rightarrow> json" where
  "statusJson x = JObj (omitStr ''bss-version'' (ss_Version x) @ omitStr ''bss-status'' (ss_Status x) @
     omitStr ''bss-status-hsm'' (ss_HSMStatus x) @
     (case ss_StorageBackend x of
        None \<Rightarrow> []
      | Some sb \<Rightarrow> [(''bss-storage-backend'', JObj (omitStr ''name'' (sb_Name sb) @ omitStr ''status'' (sb_Status sb)))]))"

definition statusReply :: "nat \<Rightarrow> serviceStatus \<Rightarrow> reply" where
  "statusReply httpStatus x = Reply httpStatus [] (jprint (statusJson x) @ nl)"

definition etcdTestKey :: string where
  "etcdTestKey = ''/bss/etcdTest''"

definition etcdTestStore :: "'k senv \<Rightarrow> int \<Rightarrow> ('k, goerr option) sv" where
  "etcdTestStore E testId = kv_Store E etcdTestKey (int_str testId)"

definition etcdTestGet :: "'k senv \<Rightarrow> ('k, int \<times> goerr option) sv" where
  "etcdTestGet E =
     andThen (kv_Get E etcdTestKey) (\<lambda>(data, exists, err).
     ret (if exists then (case unmarshal decInt 0 data of (testId, ok) \<Rightarrow> (testId, if ok then None else Some jsonErr))
          else (0, if err = None then Some (Err ''Key /bss/etcdTest does not exist'') else err)))"

text \<open>The name of the store and whether it works.\<close>

definition storageCheck :: "'k senv \<Rightarrow> ('k, string \<times> bool) sv" where
  "storageCheck E =
     (if useSQL E then
        andThen (inSQL (GetBootParamsAll (pgEnv E))) (\<lambda>r.
        ret (''postgres'', case r of Inl _ \<Rightarrow> False | Inr _ \<Rightarrow> True))
      else
        andThen nextIx (\<lambda>t.
        let randnum = int (randIntn E t) in
        andThen (etcdTestStore E randnum) (\<lambda>err.
        if err \<noteq> None then ret (''etcd'', False)
        else andThen (etcdTestGet E) (\<lambda>(r, err). ret (''etcd'', err = None \<and> r = randnum)))))"

definition storageStatus :: "string \<times> bool \<Rightarrow> storageBackend" where
  "storageStatus x = \<lparr>sb_Name = fst x, sb_Status = (if snd x then ''connected'' else ''error'')\<rparr>"

text \<open>Whether the state manager answers; without a client the call panics.\<close>

definition hsmCheck :: "'k senv \<Rightarrow> ('k, bool) sv" where
  "hsmCheck E =
     andThen nextIx (\<lambda>t.
     if \<not> hs_client (hsmAt E t) then fail NilPointer
     else ret (hsmClass E t = Inr None))"

definition hsmText :: "bool \<Rightarrow> string" where
  "hsmText ok = (if ok then ''connected'' else ''error'')"

definition pathHas :: "string \<Rightarrow> string \<Rightarrow> bool" where
  "pathHas path what \<longleftrightarrow> strContains (map toUpperChar path) what"

definition serviceStatusAPI :: "'k senv \<Rightarrow> request \<Rightarrow> ('k, reply) sv" where
  "serviceStatusAPI E r =
     (let has = (\<lambda>what. pathHas (rq_Path r) what \<or> pathHas (rq_Path r) ''ALL'') in
      andThen (if has ''HSM'' then andThen (hsmCheck E) (\<lambda>ok. ret (Some ok)) else ret None) (\<lambda>h.
      andThen (if pathHas (rq_Path r) ''STORAGE'' \<and> pathHas (rq_Path r) ''STATUS'' \<or> pathHas (rq_Path r) ''ALL''
               then andThen (storageCheck E) (\<lambda>x. ret (Some x)) else ret None) (\<lambda>sb.
      ret (statusReply (if h = Some False \<or> (case sb of Some (_, False) \<Rightarrow> True | _ \<Rightarrow> False) then 500 else 200)
             \<lparr>ss_Version = (if has ''VERSION'' then trimSpace (buildVersion E) else []),
              ss_Status = (if has ''STATUS'' then ''running'' else []),
              ss_HSMStatus = (case h of None \<Rightarrow> [] | Some ok \<Rightarrow> hsmText ok),
              ss_StorageBackend = map_option storageStatus sb\<rparr>))))"

definition serviceStatusResponse :: "('k, reply) sv" where
  "serviceStatusResponse = ret (statusReply 200 (noStatus\<lparr>ss_Status := ''running''\<rparr>))"

text \<open>The version file in the working directory, or else the one two levels up.\<close>

definition serviceVersionResponse :: "'k senv \<Rightarrow> ('k, reply) sv" where
  "serviceVersionResponse E =
     andThen nextIx (\<lambda>t.
     andThen (if versionFile E t = None then nextIx else ret t) (\<lambda>t.
     ret (case versionFile E t of
            Some dat \<Rightarrow> statusReply 200 (noStatus\<lparr>ss_Version := trimSpace dat\<rparr>)
          | None \<Rightarrow> statusReply 500 (noStatus\<lparr>ss_Version := ''error''\<rparr>))))"

definition serviceHSMResponse :: "'k senv \<Rightarrow> ('k, reply) sv" where
  "serviceHSMResponse E =
     andThen (hsmCheck E) (\<lambda>ok.
     ret (statusReply (if ok then 200 else 500) (noStatus\<lparr>ss_HSMStatus := hsmText ok\<rparr>)))"

definition serviceStorageResponse :: "'k senv \<Rightarrow> ('k, reply) sv" where
  "serviceStorageResponse E =
     andThen (storageCheck E) (\<lambda>x.
     ret (statusReply (if snd x then 200 else 500) (noStatus\<lparr>ss_StorageBackend := Some (storageStatus x)\<rparr>)))"

subsection \<open>Routes\<close>

datatype page = IndexPage | BootParametersPage | BootScriptPage | HostsPage | DumpstatePage | StatusPage | StatusAllPage |
  VersionPage | HSMPage | StoragePage | MetaDataPage | UserDataPage | PhoneHomePage | ScnPage | HistoryPage

definition baseEndpoint :: string where "baseEndpoint = ''/boot/v1''"
definition notifierEndpoint :: string where "notifierEndpoint = baseEndpoint @ ''/scn''"

text \<open>Each route with the page it leads to, and whether it is behind the authentication if that is on.\<close>

definition routes :: "(string \<times> page \<times> bool) list" where
  "routes =
     [(baseEndpoint @ ''/'', IndexPage, True), (baseEndpoint @ ''/bootparameters'', BootParametersPage, True),
      (baseEndpoint @ ''/bootscript'', BootScriptPage, False), (baseEndpoint @ ''/hosts'', HostsPage, False),
      (baseEndpoint @ ''/dumpstate'', DumpstatePage, False),
      (baseEndpoint @ ''/service/status'', StatusPage, False), (baseEndpoint @ ''/service/status/all'', StatusAllPage, False),
      (baseEndpoint @ ''/service/version'', VersionPage, False), (baseEndpoint @ ''/service/hsm'', HSMPage, False),
      (baseEndpoint @ ''/service/storage/status'', StoragePage, False),
      (''/meta-data'', MetaDataPage, False), (''/user-data'', UserDataPage, False), (''/phone-home'', PhoneHomePage, False),
      (notifierEndpoint, ScnPage, False), (baseEndpoint @ ''/endpoint-history'', HistoryPage, False)]"

definition Index :: "('k, reply) sv" where
  "Index = ret (Reply 200 [] ''Hello World!'')"

definition sendAllowable :: "string \<Rightarrow> ('k, reply) sv" where
  "sendAllowable allowable = ret (Problem 405 (''allow '' @ allowable))"

definition bootParameters :: "'k senv \<Rightarrow> request \<Rightarrow> ('k, reply) sv" where
  "bootParameters E r =
     (if rq_Method r = ''GET'' then BootparametersGet E r
      else if rq_Method r = ''PUT'' then BootparametersPut E r
      else if rq_Method r = ''POST'' then BootparametersPost E r
      else if rq_Method r = ''PATCH'' then BootparametersPatch E r
      else if rq_Method r = ''DELETE'' then BootparametersDelete E r
      else sendAllowable ''GET,PUT,POST,PATCH,DELETE'')"

definition onMethod :: "string \<Rightarrow> request \<Rightarrow> ('k, reply) sv \<Rightarrow> ('k, reply) sv" where
  "onMethod method r handler = (if rq_Method r = method then handler else sendAllowable method)"

definition hosts :: "'k senv \<Rightarrow> request \<Rightarrow> ('k, reply) sv" where
  "hosts E r =
     (if rq_Method r = ''GET'' then HostsGet E r
      else if rq_Method r = ''POST'' then HostsPost E
      else sendAllowable ''GET,POST'')"

definition metaDataQuery :: "request \<Rightarrow> string option" where
  "metaDataQuery r = (case map_of (rq_Query r) ''key'' of Some (k # _) \<Rightarrow> Some k | _ \<Rightarrow> None)"

fun handler :: "'k senv \<Rightarrow> page \<Rightarrow> request \<Rightarrow> ('k, reply) sv" where
  "handler E IndexPage r = Index"
| "handler E BootParametersPage r = bootParameters E r"
| "handler E BootScriptPage r = onMethod ''GET'' r (BootscriptGet E r)"
| "handler E HostsPage r = hosts E r"
| "handler E DumpstatePage r = onMethod ''GET'' r (DumpstateGet E)"
| "handler E StatusPage r = serviceStatusResponse"
| "handler E StatusAllPage r = onMethod ''GET'' r (serviceStatusAPI E r)"
| "handler E VersionPage r = serviceVersionResponse E"
| "handler E HSMPage r = serviceHSMResponse E"
| "handler E StoragePage r = serviceStorageResponse E"
| "handler E MetaDataPage r = onMethod ''GET'' r (metaDataGetAPI E r (metaDataQuery r))"
| "handler E UserDataPage r = onMethod ''GET'' r (userDataGetAPI E r)"
| "handler E PhoneHomePage r = onMethod ''POST'' r (phoneHomePostAPI E r)"
| "handler E ScnPage r = onMethod ''POST'' r
     (andThen (stateChangeNotification E (rq_Body r)) (\<lambda>status. ret (Reply status [] [])))"
| "handler E HistoryPage r = onMethod ''GET'' r (endpointHistoryGetAPI E r)"

definition serve :: "'k senv \<Rightarrow> reply option \<Rightarrow> request \<Rightarrow> 'k svc \<Rightarrow> reply \<times> 'k svc" where
  "serve E refused r s =
     (case map_of routes (routedPath E (rq_Path r)) of
        None \<Rightarrow> (Reply 404 [] [], s)
      | Some (pg, protected) \<Rightarrow>
          (case (if protected \<and> jwksURL E \<noteq> [] then refused else None) of
             Some answer \<Rightarrow> (answer, s)
           | None \<Rightarrow>
               (case handler E pg r s of
                  (Inl p, s') \<Rightarrow> (Reply 500 [] [], s')
                | (Inr answer, s') \<Rightarrow> (answer, s'))))"

end
