(* ===== verification/Frames.thy ===== *)
theory Frames
  imports Effects
begin

text \<open>
  Relations between the state before and after an operation, and how they lift through the code: a
  reflexive and transitive relation that every part of an operation keeps is kept by the operation.
  The facts for single operations are collected in the named theorems \<open>keeps\<close>.
\<close>

named_theorems keeps

definition keepsTo :: "('s \<Rightarrow> 's \<Rightarrow> bool) \<Rightarrow> ('s, 'e, 'a) eff \<Rightarrow> bool" where
  "keepsTo R m \<longleftrightarrow> (\<forall>s. R s (snd (m s)))"

lemma keepsToI: "(\<And>s. R s (snd (m s))) \<Longrightarrow> keepsTo R m"
  by (simp add: keepsTo_def)

locale steady =
  fixes R :: "'s \<Rightarrow> 's \<Rightarrow> bool"
  assumes R_refl: "R s s"
    and R_trans: "R s t \<Longrightarrow> R t u \<Longrightarrow> R s u"
begin

lemma keeps_ret [keeps]: "keepsTo R (ret x)"
  by (simp add: keepsTo_def ret_def R_refl)

lemma keeps_fail [keeps]: "keepsTo R (fail e)"
  by (simp add: keepsTo_def fail_def R_refl)

lemma keeps_andThen [keeps]: "keepsTo R m \<Longrightarrow> (\<And>x. keepsTo R (f x)) \<Longrightarrow> keepsTo R (andThen m f)"
  unfolding keepsTo_def andThen_def
  by (auto split: prod.split sum.split) (metis R_trans snd_conv)+

lemma keeps_mapErr [keeps]: "keepsTo R m \<Longrightarrow> keepsTo R (mapErr w m)"
  unfolding keepsTo_def mapErr_def by (auto split: prod.split sum.split) (metis snd_conv)+

lemma keeps_if [keeps]: "(b \<Longrightarrow> keepsTo R m1) \<Longrightarrow> (\<not> b \<Longrightarrow> keepsTo R m2) \<Longrightarrow> keepsTo R (if b then m1 else m2)"
  by simp

lemma keeps_option [keeps]:
  "(x = None \<Longrightarrow> keepsTo R m) \<Longrightarrow> (\<And>y. x = Some y \<Longrightarrow> keepsTo R (f y)) \<Longrightarrow> keepsTo R (case x of None \<Rightarrow> m | Some y \<Rightarrow> f y)"
  by (cases x) simp_all

lemma keeps_sum [keeps]:
  "(\<And>y. x = Inl y \<Longrightarrow> keepsTo R (f y)) \<Longrightarrow> (\<And>y. x = Inr y \<Longrightarrow> keepsTo R (g y)) \<Longrightarrow> keepsTo R (case x of Inl y \<Rightarrow> f y | Inr y \<Rightarrow> g y)"
  by (cases x) simp_all

lemma keeps_prod [keeps]: "(\<And>y z. x = (y, z) \<Longrightarrow> keepsTo R (f y z)) \<Longrightarrow> keepsTo R (case x of (y, z) \<Rightarrow> f y z)"
  by (cases x) simp_all

lemma keeps_prod_arg [keeps]: "(\<And>y z. x = (y, z) \<Longrightarrow> keepsTo R (f y z u)) \<Longrightarrow> keepsTo R ((case x of (y, z) \<Rightarrow> f y z) u)"
  by (cases x) simp_all

lemma keeps_list [keeps]:
  "(x = [] \<Longrightarrow> keepsTo R m) \<Longrightarrow> (\<And>y ys. x = y # ys \<Longrightarrow> keepsTo R (f y ys)) \<Longrightarrow> keepsTo R (case x of [] \<Rightarrow> m | y # ys \<Rightarrow> f y ys)"
  by (cases x) simp_all

lemma keeps_Let [keeps]: "(\<And>x. x = e \<Longrightarrow> keepsTo R (f x)) \<Longrightarrow> keepsTo R (let x = e in f x)"
  by simp

lemma keeps_foldEach [keeps]: "(\<And>x b. keepsTo R (f x b)) \<Longrightarrow> keepsTo R (foldEach f xs b)"
  by (induction xs arbitrary: b) (simp_all add: keeps_ret keeps_andThen)

end

end
