(* ===== verification/ServiceFrame.thy ===== *)
theory ServiceFrame
  imports Server KvLogic Frames
begin

text \<open>
  What the operations of the service do to its state, for any relation between the states before and
  after: the locale \<open>service_relation\<close> asks that the relation allows what every page may do (move the clock, put a
  refresh on the list of pending ones, fetch the hardware state, read the stores, note an access), and shows
  that the pages that do not change boot parameters keep it. The locale \<open>service_writes\<close> adds the
  writes to the stores, and shows that all pages keep the relation. Panics are included: the relation
  holds for the state that an operation leaves, whatever its result.
\<close>

subsection \<open>The records of boot parameters\<close>

text \<open>The tables of boot parameters, apart from the history of accesses.\<close>

definition tablesKept :: "pgst \<Rightarrow> pgst \<Rightarrow> bool" where
  "tablesKept q q' \<longleftrightarrow> t_nodes (pdb q') = t_nodes (pdb q) \<and> t_bgas (pdb q') = t_bgas (pdb q) \<and>
     t_groups (pdb q') = t_groups (pdb q) \<and> t_configs (pdb q') = t_configs (pdb q)"

interpretation tables: steady tablesKept
  by unfold_locales (auto simp: tablesKept_def)

lemma keeps_dbQuery [keeps]:
  "(\<And>d rows d'. stmt d = Inr (rows, d') \<Longrightarrow> d' = d) \<Longrightarrow> keepsTo tablesKept (dbQuery P wq ws wr stmt)"
  by (rule keepsToI) (auto simp: dbQuery_def tablesKept_def Let_def split: fault.split sum.split option.split; metis)

lemma selectStmt_same: "selectStmt f d = Inr (rows, d') \<Longrightarrow> d' = d"
  by (auto simp: selectStmt_def split: option.splits)

lemma keeps_rangeMap [keeps]: "keepsTo tablesKept (rangeMap P m)"
  by (simp add: keepsTo_def rangeMap_def tablesKept_def)

lemma keeps_params_queries [keeps]:
  "keepsTo tablesKept (GetBootParamsAll P)" "keepsTo tablesKept (GetBootParamsByName P names)"
  "keepsTo tablesKept (GetBootParamsByMac P macs)" "keepsTo tablesKept (GetBootParamsByNid P nids)"
  unfolding GetBootParamsAll_def GetBootParamsByName_def GetBootParamsByMac_def GetBootParamsByNid_def Let_def
  by (intro keeps; erule selectStmt_same)+

lemma keeps_SqlGetBootParams [keeps]: "keepsTo tablesKept (SqlGetBootParams P macs xnames nids)"
  unfolding SqlGetBootParams_def by (intro keeps)

lemma keeps_SearchEndpointAccesses [keeps]: "keepsTo tablesKept (SearchEndpointAccesses P name endpointType)"
  unfolding SearchEndpointAccesses_def by (intro keeps; erule selectStmt_same)

lemma keeps_addEndpointAccess [keeps]: "keepsTo tablesKept (addEndpointAccess P ea)"
  by (rule keepsToI)
    (auto simp: addEndpointAccess_def dbExec_def insertAccess_def tablesKept_def Let_def split: fault.split sum.splits if_splits)

lemma keeps_LogEndpointAccess [keeps]: "keepsTo tablesKept (LogEndpointAccess P name endpointType)"
proof (rule keepsToI)
  fix q
  have 1: "tablesKept q (snd (mapErr w (addEndpointAccess P ea) q))" for w :: "goerr \<Rightarrow> goerr" and ea
    using tables.keeps_mapErr [OF keeps_addEndpointAccess] unfolding keepsTo_def by blast
  show "tablesKept q (snd (LogEndpointAccess P name endpointType q))"
    using 1 by (simp add: LogEndpointAccess_def fail_def tables.R_refl)
qed

text \<open>The keys of the key-value store under which boot data and images are.\<close>

definition bootKey :: "string \<Rightarrow> bool" where
  "bootKey key \<longleftrightarrow> hasPrefix key paramsPfx \<or> hasPrefix key (CHR ''/'' # kernelImageType) \<or> hasPrefix key (CHR ''/'' # initrdImageType)"

lemma not_bootKey: "\<not> bootKey (accessKey name accessType)" "\<not> bootKey etcdTestKey" "\<not> bootKey UpdateTimestampKey"
  by (simp_all add: bootKey_def accessKey_def endpointAccessPfx_def etcdTestKey_def UpdateTimestampKey_def paramsPfx_def
      kernelImageType_def initrdImageType_def hasPrefix_def)

subsection \<open>Pages that only read\<close>

locale service_relation = steady R for R :: "'k svc \<Rightarrow> 'k svc \<Rightarrow> bool" +
  fixes E :: "'k senv"
  assumes R_ticks: "R s (s\<lparr>ticks := Suc (ticks s)\<rparr>)"
    and R_pending: "R s (s\<lparr>pending := p\<rparr>)"
    and R_s3: "R s (s\<lparr>s3Client := True\<rparr>)"
    and R_state: "R s (snd (protectedGetState E ts s))"
    and R_Get: "R s (snd (kv_Get E key s))"
    and R_Range: "R s (snd (kv_Range E a b s))"
    and R_note: "\<not> bootKey key \<Longrightarrow> R s (snd (kv_Store E key v s))"
    and R_sql: "useSQL E \<Longrightarrow> tablesKept (sqlSt s) q \<Longrightarrow> R s (s\<lparr>sqlSt := q\<rparr>)"
begin

lemma keeps_outside [keeps]:
  "keepsTo R (clockNow E)" "keepsTo R (uuidNew E)" "keepsTo R (rangeGo E m)" "keepsTo R nextIx"
  by (simp_all add: keepsTo_def clockNow_def uuidNew_def rangeGo_def nextIx_def R_ticks)

lemma keeps_kv_reads [keeps]: "keepsTo R (kv_Get E key)" "keepsTo R (kv_Range E a b)"
  by (simp_all add: keepsTo_def R_Get R_Range)

lemma keeps_note [keeps]: "\<not> bootKey key \<Longrightarrow> keepsTo R (kv_Store E key v)"
  by (simp add: keepsTo_def R_note)

lemma keeps_inSQL [keeps]: "useSQL E \<Longrightarrow> keepsTo tablesKept m \<Longrightarrow> keepsTo R (inSQL m)"
  by (auto simp: keepsTo_def inSQL_def split: prod.split) (metis R_sql snd_conv)

lemma keeps_checkURL [keeps]: "keepsTo R (checkURL E u)"
proof (rule keepsToI)
  fix s :: "'k svc"
  have "R s (s\<lparr>ticks := Suc (ticks s), s3Client := True\<rparr>)"
    using R_trans [OF R_ticks R_s3] by simp
  then show "R s (snd (checkURL E u s))"
    by (auto simp: checkURL_def R_refl R_ticks Let_def split: option.split prod.split)
qed

lemma keeps_deref [keeps]: "keepsTo R (deref x)"
  by (simp add: deref_def keeps)

lemma keeps_liftPanic [keeps]: "keepsTo R (liftPanic x)"
  by (simp add: liftPanic_def keeps)

subsection \<open>The cache of the hardware state\<close>

lemma keeps_protectedGetState [keeps]: "keepsTo R (protectedGetState E ts)"
  by (simp add: keepsTo_def R_state)

lemma keeps_state [keeps]:
  "keepsTo R (getStateAndMap E)" "keepsTo R (refreshState E ts)" "keepsTo R (getState E)"
  by (auto simp: getStateAndMap_def refreshState_def getState_def intro!: keeps)

lemma keeps_find [keeps]:
  "keepsTo R (FindSMCompByMAC E mac)" "keepsTo R (FindSMCompByNameInCache E host)" "keepsTo R (FindSMCompByName E host)"
  "keepsTo R (FindSMCompByNid E nid)" "keepsTo R (FindXnameByIP E ip)"
  by (auto simp: FindSMCompByMAC_def FindSMCompByNameInCache_def FindSMCompByName_def FindSMCompByNid_def
      FindXnameByIP_def intro!: keeps)

lemma keeps_checkState [keeps]: "keepsTo R (checkState E force)"
proof -
  have 1: "keepsTo R (\<lambda>s. (Inr True, s\<lparr>pending := pending s @ [ts]\<rparr>))" for ts
    by (simp add: keepsTo_def R_pending)
  have 2: "keepsTo R (\<lambda>s. if exists \<and> err = None \<and> smTimeStamp s < ts then (Inr True, s\<lparr>pending := pending s @ [ts]\<rparr>) else (Inr False, s))"
    for exists ts and err :: "parse_err option"
    by (simp add: keepsTo_def R_pending R_refl)
  show ?thesis unfolding checkState_def Let_def by (intro keeps 1 2)
qed

subsection \<open>Boot data\<close>

lemma keeps_ranges [keeps]:
  "keepsTo R (getImages E imtype)" "keepsTo R (unknownKeys E)" "keepsTo R (getTags E)"
  by (auto simp: getImages_def unknownKeys_def getTags_def intro!: keeps)

lemma keeps_getImage [keeps]: "keepsTo R (getImage E imtype subkey)"
proof -
  let ?key = "makeKey imtype subkey"
  let ?lookupErr = "\<lambda>e. Some (storageErr (''Error looking up key '' @ ?key) 500 e)"
  let ?decode = "(\<lambda>v. case readImage v of (im, ok) \<Rightarrow> ret (im, if ok then None else ?lookupErr jsonErr)) ::
    string \<Rightarrow> ('k, ImageData \<times> svcerr option) sv"
  have 1: "keepsTo R (?decode v)" for v by (intro keeps)
  let ?read = "andThen (kv_Get E ?key) (\<lambda>(v, exists, err).
      case err of Some e \<Rightarrow> ret (noImage, ?lookupErr e)
      | None \<Rightarrow> if exists then ?decode v else ret (noImage, ?lookupErr (noKey ?key)))"
  have 2: "keepsTo R ?read" by (intro keeps 1)
  show ?thesis
  proof (rule keepsToI)
    fix s :: "'k svc"
    show "R s (snd (getImage E imtype subkey s))"
    proof (cases "map_of (imageCache s) ?key")
      case None
      then have "getImage E imtype subkey s = ?read s" by (simp only: getImage_def Let_def option.case)
      with 2 show ?thesis by (simp only: keepsTo_def)
    next
      case (Some v)
      then have "getImage E imtype subkey s = ?decode v s" by (simp only: getImage_def Let_def option.case)
      with 1 [of v] show ?thesis by (simp only: keepsTo_def)
    qed
  qed
qed

lemma keeps_images [keeps]:
  "keepsTo R (getImageInfo E imtype)" "keepsTo R (GetKernelInfo E)" "keepsTo R (GetInitrdInfo E)"
  "keepsTo R (imageFind E path imtype)"
  by (auto simp: getImageInfo_def GetKernelInfo_def GetInitrdInfo_def imageFind_def intro!: keeps)

lemma keeps_lookupHost [keeps]: "keepsTo R (lookupHost E name)"
  unfolding lookupHost_def by (intro keeps)

lemma keeps_bdConvert [keeps]: "keepsTo R (bdConvert E bds)"
  unfolding bdConvert_def Let_def by (intro keeps)

lemma keeps_orElse [keeps]: "keepsTo R m \<Longrightarrow> keepsTo R alt \<Longrightarrow> keepsTo R (orElse m c alt)"
  unfolding orElse_def by (intro keeps)

lemma keeps_lookup [keeps]: "keepsTo R (lookup E name altName role defaultTag)"
  unfolding lookup_def by (intro keeps)

lemma keeps_lookups [keeps]:
  "keepsTo R (LookupBootData E name)" "keepsTo R (LookupByRole E role)" "keepsTo R (LookupGlobalData E)"
  "keepsTo R (LookupComponentByName E name)"
  unfolding LookupGlobalData_def LookupByRole_def LookupBootData_def LookupComponentByName_def by (intro keeps)+

lemma keeps_lookupBy [keeps]:
  "keepsTo R (LookupByName E name)" "keepsTo R (LookupByMAC E mac)" "keepsTo R (LookupByNid E nid)"
  unfolding LookupByName_def LookupByMAC_def LookupByNid_def by (intro keeps; assumption)+

lemma keeps_names [keeps]: "keepsTo R (GetNamesAndValues E)" "keepsTo R (GetNames E)"
  unfolding GetNamesAndValues_def GetNames_def by (intro keeps)+

lemma keeps_cachedImage [keeps]: "keepsTo R (cachedImage E key images)"
  unfolding cachedImage_def by (intro keeps)

lemma keeps_ToBootData [keeps]: "keepsTo R (ToBootData E value caches)"
  unfolding ToBootData_def bdConvertUsingImageCache_def by (intro keeps)

lemma keeps_findFirst [keeps]: "(\<And>x. keepsTo R (f x)) \<Longrightarrow> keepsTo R (findFirst f xs)"
  by (induction xs) (auto intro!: keeps)

subsection \<open>Accesses and scripts\<close>

lemma keeps_updateEndpointAccessed [keeps]: "keepsTo R (updateEndpointAccessed E name accessType)"
  unfolding updateEndpointAccessed_def by (intro keeps not_bootKey; assumption?)

lemma keeps_accesses [keeps]:
  "keepsTo R (getAccessesForPrefix E prefix)" "keepsTo R (getEndpointAccessed E name endpointType)"
  unfolding getAccessesForPrefix_def searchKeyspace_def getEndpointAccessed_def Let_def
  by (intro keeps; assumption?)+

lemma keeps_SearchEndpointAccessed [keeps]: "keepsTo R (SearchEndpointAccessed E name endpointType)"
  unfolding SearchEndpointAccessed_def by (intro keeps)

lemma keeps_replaceEach [keeps]: "(\<And>v. keepsTo R (f v)) \<Longrightarrow> keepsTo R (replaceEach f ms params)"
  by (induction f ms params rule: replaceEach.induct) (auto intro!: keeps)

lemma keeps_params [keeps]:
  "keepsTo R (getJoinToken E xname role subRole)" "keepsTo R (initrdParam params)"
  unfolding getJoinToken_def initrdParam_def Let_def by (intro keeps)+

lemma keeps_paramSubstitute [keeps]: "keepsTo R m \<Longrightarrow> keepsTo R (paramSubstitute params pvar m)"
  unfolding paramSubstitute_def Let_def by (intro keeps)

lemma keeps_buildParams [keeps]: "keepsTo R (buildParams E bd sp role subRole)"
  unfolding buildParams_def replaceS3Params_def by (intro keeps)

lemma keeps_buildBootScript [keeps]: "keepsTo R (buildBootScript E bd sp chain role subRole descr)"
  unfolding buildBootScript_def by (intro keeps)

lemma keeps_unknownBootScript [keeps]: "keepsTo R (unknownBootScript E arch mac name nid ts role subRole descr)"
  unfolding unknownBootScript_def by (intro keeps)

lemma keeps_blacklist [keeps]: "keepsTo R (blacklist E c)"
  unfolding blacklist_def Let_def by (intro keeps)

subsection \<open>Handlers\<close>

lemma keeps_tagParams [keeps]: "keepsTo R (tagParams E kvl)"
  by (induction kvl) (auto intro!: keeps)

lemma keeps_GetAll [keeps]: "keepsTo R (BootparametersGetAll E)"
  unfolding BootparametersGetAll_def by (intro keeps; assumption?)+

lemma keeps_hostsFound [keeps]: "keepsTo R (hostsFound E hs)"
  by (induction hs) (auto intro!: keeps)

lemma keeps_kvGetParams [keeps]: "keepsTo R (kvGetParams E args)"
  unfolding kvGetParams_def scanStep_def Let_def by (intro keeps)

lemma keeps_BootparametersGet [keeps]: "keepsTo R (BootparametersGet E r)"
  unfolding BootparametersGet_def by (intro keeps; assumption?)+

lemma keeps_findAll [keeps]: "(\<And>x. keepsTo R (finder E x)) \<Longrightarrow> keepsTo R (findAll finder problem E xs)"
  by (induction xs) (auto intro!: keeps)

lemma keeps_findNids [keeps]: "keepsTo R (findNids E ns)"
  by (induction ns) (auto intro!: keeps split: option.split prod.split)

lemma keeps_thenFind [keeps]: "keepsTo R m1 \<Longrightarrow> keepsTo R m2 \<Longrightarrow> keepsTo R (thenFind m1 m2)"
  unfolding thenFind_def by (intro keeps)

lemma keeps_HostsGet [keeps]: "keepsTo R (HostsGet E r)"
  unfolding HostsGet_def Let_def by (intro keeps)

lemma keeps_HostsPost [keeps]: "keepsTo R (HostsPost E)"
  unfolding HostsPost_def by (intro keeps)

lemma keeps_DumpstateGet [keeps]: "keepsTo R (DumpstateGet E)"
  unfolding DumpstateGet_def Let_def by (intro keeps; assumption?)+

lemma keeps_scriptFor [keeps]: "keepsTo R (scriptFor E mac name nid)"
  unfolding scriptFor_def by (intro keeps)

lemma keeps_jsonAnswer [keeps]: "keepsTo R (jsonAnswer E bd sp c)"
  unfolding jsonAnswer_def by (intro keeps)

lemma keeps_unknownScript [keeps]: "keepsTo R (unknownScript E arch mac name nid ts c descr)"
  unfolding unknownScript_def by (intro keeps)

lemma keeps_knownScript [keeps]: "keepsTo R (knownScript E r bd sp c mac retry descr before)"
  unfolding knownScript_def Let_def by (intro keeps)

lemma keeps_finishScript [keeps]: "keepsTo R (finishScript E c x)"
  unfolding finishScript_def by (intro keeps)

lemma keeps_makeScript [keeps]: "keepsTo R (makeScript E r mac name nid ts bd c sp descr)"
  unfolding makeScript_def Let_def by (intro keeps)

lemma keeps_BootscriptGet [keeps]: "keepsTo R (BootscriptGet E r)"
  unfolding BootscriptGet_def Let_def by (intro keeps)

lemma keeps_metaData [keeps]:
  "keepsTo R (generateInstanceID E prefix)" "keepsTo R (generateMetaData E xname metadata)"
  unfolding generateMetaData_def generateInstanceID_def Let_def by (intro keeps)+

lemma keeps_roleCloudInit [keeps]: "keepsTo R (roleCloudInit E m)"
proof -
  have "keepsTo R (case j of JStr role \<Rightarrow> andThen (LookupByRole E role) (\<lambda>(bd, _). ret (bd_CloudInit bd)) | _ \<Rightarrow> fail BadAssertion)" for j
    by (cases j) (auto intro!: keeps)
  then show ?thesis unfolding roleCloudInit_def by (intro keeps)
qed

lemma keeps_cloudInit [keeps]: "keepsTo R (metaDataGetAPI E r query)" "keepsTo R (userDataGetAPI E r)"
  unfolding metaDataGetAPI_def userDataGetAPI_def Let_def by (intro keeps)+

lemma keeps_history [keeps]: "keepsTo R (endpointHistoryGetAPI E r)"
  unfolding endpointHistoryGetAPI_def Let_def by (intro keeps; assumption?)+

lemma keeps_scn [keeps]: "keepsTo R (stateChangeNotification E body)"
  unfolding stateChangeNotification_def by (intro keeps not_bootKey)

lemma keeps_storage [keeps]: "keepsTo R (storageCheck E)" "keepsTo R (hsmCheck E)"
  unfolding storageCheck_def etcdTestStore_def etcdTestGet_def hsmCheck_def Let_def by (intro keeps not_bootKey; assumption?)+

lemma keeps_status [keeps]:
  "keepsTo R (serviceStatusAPI E r)" "keepsTo R serviceStatusResponse" "keepsTo R (serviceVersionResponse E)"
  "keepsTo R (serviceHSMResponse E)" "keepsTo R (serviceStorageResponse E)"
  unfolding serviceStatusAPI_def serviceStatusResponse_def serviceVersionResponse_def serviceHSMResponse_def
    serviceStorageResponse_def Let_def
  by (intro keeps)+

lemma keeps_method [keeps]:
  "keepsTo R Index" "keepsTo R (sendAllowable allowable)" "keepsTo R m \<Longrightarrow> keepsTo R (onMethod method r m)"
  unfolding Index_def sendAllowable_def onMethod_def by (intro keeps; assumption?)+

lemma keeps_hosts [keeps]: "keepsTo R (hosts E r)"
  unfolding hosts_def by (intro keeps)

lemma keeps_publicPage [keeps]: "pg \<noteq> BootParametersPage \<Longrightarrow> pg \<noteq> PhoneHomePage \<Longrightarrow> keepsTo R (handler E pg r)"
  by (cases pg; simp only: handler.simps simp_thms; intro keeps)

lemma keeps_runPending [keeps]: "keepsTo R (runPending E i)"
proof (rule keepsToI)
  fix s :: "'k svc"
  have "keepsTo R (andThen (refreshState E ts) (\<lambda>_. ret ()))" for ts by (intro keeps)
  then have "R s (snd (andThen (refreshState E ts) (\<lambda>_. ret ()) (s\<lparr>pending := p\<rparr>)))" for ts p
    unfolding keepsTo_def using R_trans [OF R_pending] by blast
  then show "R s (snd (runPending E i s))" by (simp add: runPending_def ret_def R_refl)
qed

lemma R_serve:
  assumes "\<And>pg. map_of routes (routedPath E (rq_Path r)) = Some pg \<Longrightarrow> fst pg = BootParametersPage \<and> snd pg \<Longrightarrow>
      refused = None \<or> jwksURL E = [] \<Longrightarrow> keepsTo R (handler E (fst pg) r)"
    and "\<And>pg. map_of routes (routedPath E (rq_Path r)) = Some pg \<Longrightarrow> fst pg = PhoneHomePage \<Longrightarrow> keepsTo R (handler E (fst pg) r)"
  shows "R s (snd (serve E refused r s))"
proof (cases "map_of routes (routedPath E (rq_Path r))")
  case None
  then show ?thesis by (simp add: serve_def R_refl)
next
  case (Some pg)
  obtain page protected where pg: "pg = (page, protected)" by (cases pg)
  have prot: "page = BootParametersPage \<Longrightarrow> protected" using map_of_SomeD [OF Some] pg by (auto simp: routes_def)
  show ?thesis
  proof (cases "if protected \<and> jwksURL E \<noteq> [] then refused else None")
    case None
    then have "keepsTo R (handler E page r)"
      using assms [OF Some] pg prot keeps_publicPage by (cases "page = BootParametersPage \<or> page = PhoneHomePage") (auto split: if_splits)
    then have "R s (snd (handler E page r s))" by (simp add: keepsTo_def)
    then show ?thesis using None Some pg by (auto simp: serve_def split: prod.split sum.split)
  next
    case Refused: (Some answer)
    then show ?thesis using Some pg by (simp add: serve_def R_refl)
  qed
qed

end

subsection \<open>Pages that write\<close>

locale service_writes = service_relation +
  assumes R_Store: "R s (snd (kv_Store E key v s))"
    and R_Delete: "R s (snd (kv_Delete E key s))"
    and R_anySQL: "useSQL E \<Longrightarrow> R s (s\<lparr>sqlSt := q\<rparr>)"
    and R_uncache: "R s (s\<lparr>imageCache := filter P (imageCache s)\<rparr>)"
begin

lemma keeps_writes [keeps]: "keepsTo R (kv_Store E key v)" "keepsTo R (kv_Delete E key)" "keepsTo R (cacheDelete key)"
  by (simp_all add: keepsTo_def cacheDelete_def R_Store R_Delete R_uncache)

lemma keeps_anySQL [keeps]: "useSQL E \<Longrightarrow> keepsTo R (inSQL m)"
  by (auto simp: keepsTo_def inSQL_def R_anySQL split: prod.split)

lemma keeps_storeData [keeps]: "keepsTo R (storeData E key v)" "keepsTo R (imageStore E path imtype)"
  by (auto simp: storeData_def imageStore_def intro!: keeps)

lemma keeps_remove [keeps]:
  "keepsTo R (removeHost E h)" "keepsTo R (unrefStep E imtype key x err)"
  unfolding removeHost_def unrefStep_def Let_def by (intro keeps)+

lemma keeps_removeImage [keeps]: "keepsTo R (removeImage E path imtype)"
  unfolding removeImage_def Let_def by (intro keeps)

lemma keeps_removeItem [keeps]: "keepsTo R (removeMac E m err)" "keepsTo R (removeNid E n err)"
  unfolding removeMac_def removeNid_def by (intro keeps)+

lemma keeps_Remove [keeps]: "keepsTo R (Remove E bp)"
  unfolding Remove_def by (intro keeps)

lemma keeps_untilErr [keeps]: "(\<And>x. keepsTo R (f x)) \<Longrightarrow> keepsTo R (untilErr f xs)"
  by (induction xs) (auto intro!: keeps)

lemma keeps_store [keeps]:
  "keepsTo R (macKey E m)" "keepsTo R (nidKey E n)" "keepsTo R (storeImage E path imtype)" "keepsTo R (storeRecords E bp kid iid)"
  unfolding macKey_def nidKey_def storeImage_def storeRecords_def Let_def by (intro keeps)+

lemma keeps_Store [keeps]: "keepsTo R (Store E bp)"
  unfolding Store_def by (intro keeps)

lemma keeps_existingItem [keeps]: "keepsTo R (existingItem E bp)"
  unfolding existingItem_def hostKnown_def compKnown_def by (intro keeps)

lemma keeps_StoreNew [keeps]: "keepsTo R (StoreNew E bp)"
  unfolding StoreNew_def by (intro keeps)

lemma keeps_checkHost [keeps]: "keepsTo R (checkHost E h hm)" "keepsTo R (checkComp E c other hm)"
  unfolding checkComp_def checkHost_def by (intro keeps)+

lemma keeps_collect [keeps]: "(\<And>x hm. keepsTo R (f x hm)) \<Longrightarrow> keepsTo R (collect f xs hm)"
  by (induction xs arbitrary: hm) (auto intro!: keeps)

lemma keeps_collectHosts [keeps]: "keepsTo R (collectHosts E bp)"
  unfolding collectHosts_def by (intro keeps)

lemma keeps_svcUpdate [keeps]: "keepsTo R (svcUpdate E bp)"
  unfolding svcUpdate_def optImage_def updateHostStep_def by (intro keeps)

lemma keeps_BootparametersPost [keeps]: "keepsTo R (BootparametersPost E r)"
  unfolding BootparametersPost_def by (intro keeps)

lemma keeps_BootparametersPut [keeps]: "keepsTo R (BootparametersPut E r)"
  unfolding BootparametersPut_def by (intro keeps)

lemma keeps_BootparametersPatch [keeps]: "keepsTo R (BootparametersPatch E r)"
  unfolding BootparametersPatch_def by (intro keeps)

lemma keeps_BootparametersDelete [keeps]: "keepsTo R (BootparametersDelete E r)"
  unfolding BootparametersDelete_def by (intro keeps)

lemma keeps_phoneHome [keeps]: "keepsTo R (phoneHomePostAPI E r)"
  unfolding phoneHomePostAPI_def Let_def by (intro keeps)

lemma keeps_handler [keeps]: "keepsTo R (handler E pg r)"
proof -
  have "keepsTo R (bootParameters E r)" unfolding bootParameters_def by (intro keeps)
  moreover have "keepsTo R (onMethod ''POST'' r (phoneHomePostAPI E r))" by (intro keeps)
  ultimately show ?thesis
    by (cases "pg = BootParametersPage \<or> pg = PhoneHomePage") (auto intro: keeps_publicPage)
qed

lemma R_anyServe: "R s (snd (serve E refused r s))"
  by (rule R_serve) (rule keeps_handler)+

end

end
