(* ===== verification/Reachable.thy ===== *)
theory Reachable
  imports ServiceFrame
begin

text \<open>
  The running service as a step relation whose steps are the requests it serves and the refreshes of the
  hardware state that checkState has started, its reachable states, and what they have in
  common: \<open>evolves\<close> relates the states before and after any operation, whatever the stores, the state
  manager and the other services answer. It is an instance of \<open>service_writes\<close> of
  ServiceFrame, so every page keeps it, also when it panics; the invariants follow by rule induction.
\<close>

subsection \<open>The relation\<close>

definition indexed :: "'k svc \<Rightarrow> bool" where
  "indexed s \<longleftrightarrow> smDataMap s = (case smData s of None \<Rightarrow> [] | Some d \<Rightarrow> makeSmMap d)"

text \<open>No retrieval gives a new state: so with the source \<open>mem:\<close>, which has neither a client nor a file.\<close>

definition noRetrieval :: "'k senv \<Rightarrow> bool" where
  "noRetrieval E \<longleftrightarrow> (\<forall>t. \<not> hs_client (hsmAt E t) \<and> hs_file (hsmAt E t) = None)"

definition evolves :: "'k senv \<Rightarrow> 'k svc \<Rightarrow> 'k svc \<Rightarrow> bool" where
  "evolves E s s' \<longleftrightarrow>
     (indexed s \<longrightarrow> indexed s') \<and>
     (imageCache s = [] \<longrightarrow> imageCache s' = []) \<and>
     (sorted (sn_Components (notifier s)) \<longrightarrow> sorted (sn_Components (notifier s'))) \<and>
     (smData s \<noteq> None \<longrightarrow> smData s' \<noteq> None) \<and>
     (noRetrieval E \<longrightarrow> smData s' = smData s) \<and>
     (s3Client s \<longrightarrow> s3Client s') \<and>
     ticks s \<le> ticks s' \<and>
     (if useSQL E then kvs s' = kvs s else sqlSt s' = sqlSt s)"

lemma evolves_refl [simp]: "evolves E s s"
  by (simp add: evolves_def)

lemma evolves_trans: "evolves E s t \<Longrightarrow> evolves E t u \<Longrightarrow> evolves E s u"
  by (auto simp: evolves_def split: if_splits)

lemma subscribe_sorted: "sorted (sn_Components n) \<Longrightarrow> sorted (sn_Components (snd (subscribe send n comps)))"
  by (simp add: subscribe_def Let_def)

lemma evolves_resubscribe: "evolves E s (resubscribe E' t l s)"
  using subscribe_sorted [of "notifier s"] by (auto simp: resubscribe_def evolves_def indexed_def split: option.split)

lemma evolves_newState: "noRetrieval E \<longrightarrow> d = None \<Longrightarrow> evolves E s (newState d s)"
  by (auto simp: newState_def evolves_def indexed_def split: option.split)

lemma noRetrieval_None: "noRetrieval E \<Longrightarrow> getStateInfo (hsmAt E t) = Inr (None, None)"
  by (simp add: noRetrieval_def getStateInfo_def getStateFromHSM_def getStateFromFile_def)

lemma evolves_protectedGetState: "evolves E s (snd (protectedGetState E ts s))"
proof -
  let ?s1 = "\<lambda>ts'. s\<lparr>smTimeStamp := ts', ticks := Suc (ticks s)\<rparr>"
  have 1: "evolves E s (?s1 ts')" for ts' by (simp add: evolves_def indexed_def)
  have 2: "evolves E s (newState d (resubscribe E t l (?s1 ts')))" if "getStateInfo (hsmAt E (ticks s)) = Inr (d, l)" for d t l ts'
    using that noRetrieval_None [of E "ticks s"] by (intro evolves_trans [OF evolves_trans [OF 1 evolves_resubscribe] evolves_newState]) auto
  show ?thesis by (auto simp: protectedGetState_def Let_def 1 2 split: sum.split prod.split)
qed

interpretation service: service_writes "evolves E" E for E :: "'k senv"
proof (unfold_locales, goal_cases)
  case (2 s t u)
  then show ?case by (rule evolves_trans)
next
  case (6 ts s)
  then show ?case by (rule evolves_protectedGetState)
qed (auto simp: evolves_def indexed_def kv_Get_def kv_Range_def kv_Store_def kv_Delete_def split: prod.split)

subsection \<open>The running service\<close>

text \<open>A panic of a handler is recovered; one of a goroutine ends the process.\<close>

datatype 'k process = Running "'k svc" | Crashed

inductive step :: "'k senv \<Rightarrow> 'k process \<Rightarrow> 'k process \<Rightarrow> bool" for E where
  Request: "serve E refused r s = (answer, s') \<Longrightarrow> step E (Running s) (Running s')"
| Refresh: "i < length (pending s) \<Longrightarrow> runPending E i s = (Inr (), s') \<Longrightarrow> step E (Running s) (Running s')"
| Crash: "i < length (pending s) \<Longrightarrow> runPending E i s = (Inl p, s') \<Longrightarrow> step E (Running s) Crashed"

inductive_cases stepE: "step E (Running s) p"
inductive_simps step_Crashed [simp]: "step E Crashed p"

inductive reachable :: "'k senv \<Rightarrow> 'k svc \<Rightarrow> 'k process \<Rightarrow> bool" for E s0 where
  Start: "reachable E s0 (Running s0)"
| Step: "reachable E s0 p \<Longrightarrow> step E p p' \<Longrightarrow> reachable E s0 p'"

text \<open>The state that main starts the service in, with the hardware data of the source \<open>mem:\<close> if there are any, and
  the content of its store and of the database.\<close>

definition startState :: "SMData option \<Rightarrow> ScnNotifier \<Rightarrow> 'k \<Rightarrow> pgst \<Rightarrow> 'k svc" where
  "startState d n k q = \<lparr>kvs = k, imageCache = [], smTimeStamp = 0, smData = d,
     smDataMap = (case d of None \<Rightarrow> [] | Some d \<Rightarrow> makeSmMap d),
     notifier = n\<lparr>sn_Components := []\<rparr>, s3Client = False, pending = [], ticks = 0, sqlSt = q\<rparr>"

lemma startState_simps [simp]:
  "indexed (startState d n k q)" "imageCache (startState d n k q) = []" "sn_Components (notifier (startState d n k q)) = []"
  "kvs (startState d n k q) = k" "sqlSt (startState d n k q) = q" "smData (startState d n k q) = d"
  by (simp_all add: startState_def indexed_def split: option.split)

lemma evolves_serve: "serve E refused r s = (answer, s') \<Longrightarrow> evolves E s s'"
  using service.R_anyServe [of E s refused r] by simp

lemma evolves_step: "step E (Running s) (Running s') \<Longrightarrow> evolves E s s'"
proof (erule stepE)
  fix i t
  assume "runPending E i s = (Inr (), t)" and "Running s' = Running t"
  then show "evolves E s s'" using service.keeps_runPending [of E i] unfolding keepsTo_def by (metis process.inject snd_conv)
qed (auto simp: evolves_serve)

lemma reachable_evolves: "reachable E s0 p \<Longrightarrow> p = Running s \<Longrightarrow> evolves E s0 s"
proof (induction arbitrary: s rule: reachable.induct)
  case Start
  then show ?case by simp
next
  case (Step p p')
  then obtain t where p: "p = Running t" by (cases p) auto
  with Step.hyps(2) Step.prems have "evolves E t s" by (simp add: evolves_step)
  with Step.IH [OF p] show ?case by (rule evolves_trans)
qed

text \<open>Whatever requests are served and whenever the refreshes that they start run, and whatever
  the stores, the state manager and the other services answer: the index of the components is that
  of the cached data, the components subscribed to are sorted, no image is ever put into the image
  cache, and of the two stores only the configured one is touched.\<close>

lemma reachable_invariant:
  assumes "reachable E (startState d n k q) (Running s)"
  shows "smDataMap s = (case smData s of None \<Rightarrow> [] | Some d \<Rightarrow> makeSmMap d) \<and> imageCache s = [] \<and>
    sorted (sn_Components (notifier s)) \<and> (if useSQL E then kvs s = k else sqlSt s = q)"
proof -
  have "indexed s" using reachable_evolves [OF assms refl] by (simp add: evolves_def)
  with reachable_evolves [OF assms refl] show ?thesis by (simp add: evolves_def indexed_def)
qed

lemma reachable_invariant_witness:
  "imageCache (snd (serve demoSenv None \<lparr>rq_Method = ''POST'', rq_Path = ''/boot/v1/hosts'', rq_Query = [], rq_Form = [],
     rq_Body = Inr [], rq_XFF = [], rq_RemoteAddr = []\<rparr> (startState None (notifier (demoSvc [])) [] demoSt))) = []"
proof -
  let ?r = "\<lparr>rq_Method = ''POST'', rq_Path = ''/boot/v1/hosts'', rq_Query = [], rq_Form = [],
     rq_Body = Inr [], rq_XFF = [], rq_RemoteAddr = []\<rparr>"
  let ?s = "startState None (notifier (demoSvc [])) [] demoSt"
  have "step demoSenv (Running ?s) (Running (snd (serve demoSenv None ?r ?s)))"
    by (rule step.Request [OF surjective_pairing])
  then have "reachable demoSenv ?s (Running (snd (serve demoSenv None ?r ?s)))"
    by (rule reachable.Step [OF reachable.Start])
  from reachable_invariant [OF this] show ?thesis by blast
qed

end
