(* ===== verification/Timestamps.thy ===== *)
theory Timestamps
  imports Reachable KvStore
begin

text \<open>
  Times that the service stores as text: what \<open>strconv.FormatInt\<close> prints is what
  \<open>strconv.ParseInt\<close> with base 0 reads, for every time that 63 bits hold.
\<close>

subsection \<open>Reading a printed number\<close>

lemma digit_not_underscore: "is_digit c \<Longrightarrow> c \<noteq> CHR ''_''"
  by (auto simp: is_digit_def less_eq_char_def)

lemma digit_in_10: "is_digit c \<Longrightarrow> digit_in 10 c = Some (digit_val c)"
  by (auto simp: digit_in_def digit_val_def is_digit_def less_eq_char_def)

lemma digit_val_le: "is_digit c \<Longrightarrow> digit_val c < 10"
  by (auto simp: digit_val_def is_digit_def less_eq_char_def)

lemma digits_mono: "acc \<le> foldl (\<lambda>a c. 10 * a + digit_val c) acc s"
proof (induction s arbitrary: acc)
  case (Cons c s)
  show ?case using order_trans [OF _ Cons.IH [of "10 * acc + digit_val c"], of acc] by simp
qed simp

lemma parseDigits_digits:
  "\<forall>c\<in>set s. is_digit c \<Longrightarrow> foldl (\<lambda>a c. 10 * a + digit_val c) acc s < 2 ^ 64 \<Longrightarrow>
   parseDigits 10 s acc = Inr (foldl (\<lambda>a c. 10 * a + digit_val c) acc s)"
proof (induction s arbitrary: acc)
  case (Cons c s)
  have "acc * 10 + digit_val c < 2 ^ 64"
    using digits_mono [of "10 * acc + digit_val c" s] Cons.prems(2) by simp
  with Cons show ?case by (simp add: digit_in_10 digit_not_underscore mult.commute)
qed simp

lemma nat_str_hd: "0 < n \<Longrightarrow> hd (nat_str n) \<noteq> CHR ''0''"
proof (induction n rule: nat_str.induct)
  case (1 n)
  show ?case
  proof (cases "n < 10")
    case True
    have "digit_char n \<noteq> CHR ''0''"
    proof
      assume "digit_char n = CHR ''0''"
      then have "digit_val (digit_char n) = digit_val CHR ''0''" by (rule arg_cong)
      with True 1(2) show False by (simp add: digit_val_def [of "CHR ''0''"])
    qed
    moreover have "nat_str n = [digit_char n]" using True by (simp add: nat_str.simps [of n])
    ultimately show ?thesis by simp
  next
    case False
    then have "hd (nat_str n) = hd (nat_str (n div 10))" by (subst nat_str.simps) simp
    with 1(1) False show ?thesis by simp
  qed
qed

lemma parseUint0_nat_str:
  assumes "n < 2 ^ 64"
  shows "parseUint0 (nat_str n) = Inr n"
proof (cases "n = 0")
  case True
  have "nat_str 0 = ''0''" by code_simp
  with True show ?thesis by (simp add: parseUint0_def basePrefix_def)
next
  case False
  have d: "\<forall>c\<in>set (nat_str n). is_digit c" using nat_str_digits by blast
  have "foldl (\<lambda>a c. 10 * a + digit_val c) 0 (nat_str n) = n" using str_nat_nat_str [of n] by (simp add: str_nat_def)
  with parseDigits_digits [OF d, of 0] assms have "parseDigits 10 (nat_str n) 0 = Inr n" by simp
  moreover have "CHR ''_'' \<notin> set (nat_str n)" using d digit_not_underscore by blast
  ultimately show ?thesis using nat_str_hd [of n] False by (simp add: parseUint0_def)
qed

lemma parseInt0_int_str:
  assumes "0 \<le> i" and "i < 2 ^ 63"
  shows "parseInt0 (int_str i) = (None, i)"
proof -
  have n: "nat i < 2 ^ 63" using assms by simp
  have "is_digit (hd (nat_str (nat i)))" using nat_str_digits [of _ "nat i"] hd_in_set nat_str_nonempty by blast
  then have h: "hd (nat_str (nat i)) \<noteq> CHR ''-''" "hd (nat_str (nat i)) \<noteq> CHR ''+''"
    by (auto simp: is_digit_def less_eq_char_def)
  have "parseUint0 (nat_str (nat i)) = Inr (nat i)" using n by (intro parseUint0_nat_str) simp
  with h n assms show ?thesis by (simp add: parseInt0_def int_str_def)
qed

end
