(* ===== verification/SmCache.thy ===== *)
theory SmCache
  imports Timestamps
begin

text \<open>
  The cached picture of the hardware: finding a component by its name in the list and in the index,
  and how a state change notification leads to a refresh of the picture.
\<close>

subsection \<open>The index of the components\<close>

lemma map_of_index:
  "map_of (foldl (\<lambda>m v. AList.update (sc_ID v) v m) [] cs) x = List.find (\<lambda>v. sc_ID v = x) (rev cs)"
  by (induction cs rule: rev_induct) (auto simp: update_conv')

lemma map_of_makeSmMap: "map_of (makeSmMap d) x = List.find (\<lambda>v. sc_ID v = x) (rev (sm_Components d))"
  by (simp add: makeSmMap_def map_of_index)

lemma find_Some_distinct:
  "distinct (map f xs) \<Longrightarrow> y \<in> set xs \<Longrightarrow> List.find (\<lambda>v. f v = f y) xs = Some y"
proof (induction xs)
  case (Cons x xs)
  then show ?case by (cases "f x = f y") (auto intro: rev_image_eqI)
qed simp

lemma find_rev_distinct:
  assumes "distinct (map f xs)"
  shows "List.find (\<lambda>v. f v = x) (rev xs) = List.find (\<lambda>v. f v = x) xs"
proof (cases "\<exists>y\<in>set xs. f y = x")
  case True
  then obtain y where y: "y \<in> set xs" "f y = x" by blast
  have "distinct (map f (rev xs))" using assms by (simp flip: rev_map)
  from find_Some_distinct [OF this, of y] find_Some_distinct [OF assms y(1)] y show ?thesis by simp
next
  case False
  then have "List.find (\<lambda>v. f v = x) zs = None" if "set zs = set xs" for zs using that by (auto simp: find_None_iff)
  then show ?thesis by simp
qed

lemma protectedGetState_result:
  assumes "protectedGetState E ts s = (Inr (a, m), s')"
  shows "a = smData s'" and "m = smDataMap s'"
  using assms by (auto simp: protectedGetState_def Let_def split: if_splits sum.splits prod.splits)

lemma getState_result:
  assumes "getState E s = (Inr d, s')"
  shows "d = smData s'" and "getStateAndMap E s = (Inr (d, smDataMap s'), s')"
proof -
  obtain a m where p: "protectedGetState E 0 s = (Inr (a, m), s')" and d: "a = d"
    using assms by (auto simp: getState_def andThen_def ret_def split: prod.splits sum.splits)
  show "d = smData s'" using protectedGetState_result(1) [OF p] d by simp
  show "getStateAndMap E s = (Inr (d, smDataMap s'), s')"
    using p d protectedGetState_result(2) [OF p] by (simp add: getStateAndMap_def)
qed

text \<open>C21. In every state that the service can reach, a component is found by its name with the same
  result in the list of the components and in the index, whenever the components have different
  names. In any case the list search returns the first component of the name and the index the last.\<close>

theorem name_index:
  assumes "reachable E (startState d0 n k q) (Running s)" and "getState E s = (Inr (Some d), s')"
  shows "FindSMCompByName E host s = (Inr (found (List.find (\<lambda>v. sc_ID v = host) (sm_Components d))), s') \<and>
    FindSMCompByNameInCache E host s = (Inr (found (List.find (\<lambda>v. sc_ID v = host) (rev (sm_Components d)))), s') \<and>
    (distinct (map sc_ID (sm_Components d)) \<longrightarrow> FindSMCompByNameInCache E host s = FindSMCompByName E host s)"
proof -
  have "evolves E s s'" using service.keeps_state(3) [of E] assms(2) unfolding keepsTo_def by (metis snd_conv)
  with reachable_evolves [OF assms(1) refl] have "evolves E (startState d0 n k q) s'" by (rule evolves_trans)
  then have "indexed s'" by (simp add: evolves_def)
  then have m: "smDataMap s' = makeSmMap d" using getState_result(1) [OF assms(2)] by (simp add: indexed_def split: option.splits)
  have 1: "FindSMCompByName E host s = (Inr (found (List.find (\<lambda>v. sc_ID v = host) (sm_Components d))), s')"
    using assms(2) by (simp add: FindSMCompByName_def andThen_def deref_def ret_def)
  have 2: "FindSMCompByNameInCache E host s = (Inr (found (List.find (\<lambda>v. sc_ID v = host) (rev (sm_Components d)))), s')"
    using getState_result(2) [OF assms(2)]
    by (simp add: FindSMCompByNameInCache_def andThen_def ret_def m map_of_makeSmMap)
  from 1 2 show ?thesis by (simp add: find_rev_distinct)
qed

lemma name_index_witness:
  "FindSMCompByNameInCache demoSenv ''x0c0s1b0n0'' (startState None (notifier (demoSvc [])) [] demoSt) =
   FindSMCompByName demoSenv ''x0c0s1b0n0'' (startState None (notifier (demoSvc [])) [] demoSt)"
proof -
  let ?s = "startState None (notifier (demoSvc [])) [] demoSt"
  have "getState demoSenv ?s = (Inr (Some demoSM), snd (getState demoSenv ?s))"
    by (simp add: getState_def protectedGetState_def startState_def andThen_def ret_def getStateInfo_def
        getStateFromHSM_def getStateFromFile_def demoSenv_def demoHsm_def resubscribe_def newState_def)
  from name_index [OF reachable.Start this, of "''x0c0s1b0n0''"] show ?thesis
    by (simp add: demoSM_def)
qed

subsection \<open>From a notification to a refresh\<close>

lemma kv_Get_up:
  assumes "kv_in E C" and "kv_up (kvi E)"
  obtains k v ex where "kv_Get E key s = (Inr (v, ex, None), s\<lparr>kvs := k\<rparr>)" and "C k = C (kvs s)"
    and "if ex then C (kvs s) key = Some v else C (kvs s) key = None"
proof -
  have "wp (kv_Get E key) (\<lambda>r t. \<exists>k v ex. r = (v, ex, None) \<and> t = s\<lparr>kvs := k\<rparr> \<and> C k = C (kvs s) \<and>
      (if ex then C (kvs s) key = Some v else C (kvs s) key = None)) (\<lambda>_ _. False) s"
    by (rule wp_kv_Get [OF assms(1)]) (use assms(2) in auto)
  from wp_total [OF this] that show thesis by blast
qed

lemma kv_Store_up:
  assumes "kv_in E C" and "kv_up (kvi E)"
  obtains k where "kv_Store E key v s = (Inr None, s\<lparr>kvs := k\<rparr>)" and "C k = (C (kvs s))(key \<mapsto> v)"
proof -
  have "wp (kv_Store E key v) (\<lambda>r t. \<exists>k. r = None \<and> t = s\<lparr>kvs := k\<rparr> \<and> C k = (C (kvs s))(key \<mapsto> v)) (\<lambda>_ _. False) s"
    by (rule wp_kv_Store [OF assms(1)]) (use assms(2) in auto)
  from wp_total [OF this] that show thesis by blast
qed

text \<open>What checkState does when a time is stored.\<close>

lemma checkState_time:
  assumes "kv_in E C" and "kv_up (kvi E)" and t: "C (kvs s) UpdateTimestampKey = Some (int_str t)" "0 \<le> t" "t < 2 ^ 63"
  shows "\<exists>k. C k = C (kvs s) \<and> checkState E False s =
     (Inr (smTimeStamp s < t), (if smTimeStamp s < t then s\<lparr>kvs := k, pending := pending s @ [t]\<rparr> else s\<lparr>kvs := k\<rparr>))"
proof -
  obtain k v ex where k: "kv_Get E UpdateTimestampKey s = (Inr (v, ex, None), s\<lparr>kvs := k\<rparr>)" "C k = C (kvs s)"
    "if ex then C (kvs s) UpdateTimestampKey = Some v else C (kvs s) UpdateTimestampKey = None"
    by (rule kv_Get_up [OF assms(1,2)])
  with t have "ex" "v = int_str t" by (auto split: if_splits)
  with k parseInt0_int_str [OF t(2,3)] show ?thesis by (intro exI [of _ k]) (simp add: checkState_def andThen_def Let_def)
qed

lemma refreshState_time:
  assumes "smTimeStamp s < t" and "0 < t" and "getStateInfo (hsmAt E (ticks s)) = Inr (d, l)"
  shows "\<exists>s'. refreshState E t s = (Inr (smData s'), s') \<and> smTimeStamp s' = t \<and> kvs s' = kvs s \<and> pending s' = pending s \<and>
     (d \<noteq> None \<longrightarrow> smData s' = d)"
proof -
  have r: "smTimeStamp (resubscribe E n l u) = smTimeStamp u" "kvs (resubscribe E n l u) = kvs u" "pending (resubscribe E n l u) = pending u"
    for n u by (simp_all add: resubscribe_def split: option.split)
  have n: "smTimeStamp (newState d u) = smTimeStamp u" "kvs (newState d u) = kvs u" "pending (newState d u) = pending u"
    "d \<noteq> None \<longrightarrow> smData (newState d u) = d" for u :: "'a svc"
    by (auto simp: newState_def split: option.split)
  show ?thesis
    using assms by (intro exI [of _ "newState d (resubscribe E (ticks s) l (s\<lparr>smTimeStamp := t, ticks := Suc (ticks s)\<rparr>))"])
      (simp add: refreshState_def protectedGetState_def andThen_def ret_def Let_def r n)
qed

text \<open>C20. A state change notification whose body can be read makes the next check start a refresh of
  the hardware state, if it comes at a later second than the last retrieval. When that refresh has
  run, the state is that of the notification's time, with the data the state manager gave, and the
  following check starts no other one. This needs a store that answers.\<close>

theorem notification_refreshes:
  assumes "kv_in E C" and "kv_up (kvi E)" and "snd (unmarshal decScn () body)"
    and "now = nowAt E (ticks s)" and "smTimeStamp s < now" and "0 < now" and "now < 2 ^ 63" and "pending s = []"
    and "getStateInfo (hsmAt E (Suc (ticks s))) = Inr (d, l)"
  shows "\<exists>s1 s2 s3. stateChangeNotification E (Inr body) s = (Inr 200, s1) \<and>
     checkState E False s1 = (Inr True, s2) \<and> pending s2 = [now] \<and>
     runPending E 0 s2 = (Inr (), s3) \<and> smTimeStamp s3 = now \<and> (d \<noteq> None \<longrightarrow> smData s3 = d) \<and> pending s3 = [] \<and>
     fst (checkState E False s3) = Inr False"
proof -
  obtain k where k: "kv_Store E UpdateTimestampKey (int_str now) (s\<lparr>ticks := Suc (ticks s)\<rparr>) = (Inr None, s\<lparr>ticks := Suc (ticks s), kvs := k\<rparr>)"
    "C k = (C (kvs s))(UpdateTimestampKey \<mapsto> int_str now)"
    by (rule kv_Store_up [OF assms(1,2), where s = "s\<lparr>ticks := Suc (ticks s)\<rparr>" and key = UpdateTimestampKey and v = "int_str now"]) simp
  let ?s1 = "s\<lparr>ticks := Suc (ticks s), kvs := k\<rparr>"
  have 1: "stateChangeNotification E (Inr body) s = (Inr 200, ?s1)"
    using assms(3,4) k(1) by (simp add: stateChangeNotification_def andThen_def clockNow_def fmtInt_def ret_def)
  have t1: "C (kvs ?s1) UpdateTimestampKey = Some (int_str now)" by (simp add: k(2))
  obtain k2 where k2: "C k2 = C k" "checkState E False ?s1 = (Inr True, ?s1\<lparr>kvs := k2, pending := [now]\<rparr>)"
    using checkState_time [OF assms(1,2) t1] assms(5-8) by auto
  let ?s2 = "?s1\<lparr>kvs := k2, pending := [now]\<rparr>"
  obtain s3 where s3: "refreshState E now (?s2\<lparr>pending := []\<rparr>) = (Inr (smData s3), s3)" "smTimeStamp s3 = now" "kvs s3 = k2" "pending s3 = []"
    "d \<noteq> None \<longrightarrow> smData s3 = d"
    using refreshState_time [of "?s2\<lparr>pending := []\<rparr>" now E d l] assms(5,6,9) by auto
  have 2: "runPending E 0 ?s2 = (Inr (), s3)" using s3(1) by (simp add: runPending_def andThen_def ret_def)
  have "C (kvs s3) UpdateTimestampKey = Some (int_str now)" using k2(1) t1 s3(3) by simp
  from checkState_time [OF assms(1,2) this] assms(6,7) s3(2) have 3: "fst (checkState E False s3) = Inr False" by auto
  show ?thesis using 1 k2(2) 2 3 s3 by (intro exI [of _ ?s1] exI [of _ ?s2] exI [of _ s3]) simp
qed

lemma notification_refreshes_witness:
  "\<exists>s1 s2. stateChangeNotification demoSenv (Inr ''{}'') (demoSvc []) = (Inr 200, s1) \<and> checkState demoSenv False s1 = (Inr True, s2)"
proof -
  have "snd (unmarshal decScn () ''{}'')" by code_simp
  moreover have "getStateInfo (hsmAt demoSenv (Suc (ticks (demoSvc [])))) = Inr (Some demoSM, None)"
    by (simp add: getStateInfo_def getStateFromHSM_def getStateFromFile_def demoSenv_def demoHsm_def)
  ultimately show ?thesis
    using notification_refreshes [OF demo_in demo_up _ refl, of "''{}''" "demoSvc []" "Some demoSM" None]
    by (simp add: demoSenv_def) (auto simp: demoSvc_def)
qed

end
