(* ===== verification/KvAccess.thy ===== *)
theory KvAccess
  imports SmCache KvRemove AccessLog
begin

text \<open>
  The history of endpoint accesses in the key-value store: the accesses are a map from pairs of a
  name and an endpoint to times, which logging updates and searching reads.
\<close>

subsection \<open>The log\<close>

definition noSlash :: "string \<Rightarrow> bool" where
  "noSlash s \<longleftrightarrow> CHR ''/'' \<notin> set s"

text \<open>The time of the last access that the store has for a name and an endpoint.\<close>

definition lastAccess :: "(string \<Rightarrow> string option) \<Rightarrow> string \<Rightarrow> string \<Rightarrow> int option" where
  "lastAccess m name ty = map_option (\<lambda>v. snd (parseInt0 v)) (m (accessKey name ty))"

text \<open>The keys under the prefix are those of accesses, with times as they are printed.\<close>

definition log_ok :: "(string \<Rightarrow> string option) \<Rightarrow> bool" where
  "log_ok m \<longleftrightarrow> (\<forall>k r v. k = endpointAccessPfx @ ''/'' @ r \<longrightarrow> m k = Some v \<longrightarrow>
     (\<exists>name ty t. k = accessKey name ty \<and> noSlash name \<and> noSlash ty \<and> v = int_str t \<and> 0 \<le> t \<and> t < 2 ^ 63))"

lemma split_accessKey:
  assumes "noSlash name" and "noSlash ty"
  shows "strSplit CHR ''/'' (accessKey name ty) = [[], ''endpoint-access'', name, ty]"
proof -
  have k: "accessKey name ty = [] @ CHR ''/'' # ''endpoint-access'' @ CHR ''/'' # name @ CHR ''/'' # ty"
    by (simp add: accessKey_def endpointAccessPfx_def)
  have e: "strSplit CHR ''/'' ''endpoint-access'' = [''endpoint-access'']" "strSplit CHR ''/'' [] = [[]]" by code_simp+
  show ?thesis
    unfolding k strSplit_append strSplit_word [OF assms(1) [unfolded noSlash_def]] strSplit_word [OF assms(2) [unfolded noSlash_def]] e
    by simp
qed

lemma accessKey_inj:
  assumes "noSlash n1" "noSlash t1" "noSlash n2" "noSlash t2" and "accessKey n1 t1 = accessKey n2 t2"
  shows "n1 = n2 \<and> t1 = t2"
proof -
  have "[[], ''endpoint-access'', n1, t1] = [[], ''endpoint-access'', n2, t2]"
    unfolding split_accessKey [OF assms(1,2), symmetric] split_accessKey [OF assms(3,4), symmetric] assms(5) ..
  then show ?thesis by (simp only: list.inject)
qed

lemma accessOf_key:
  assumes "noSlash name" "noSlash ty" "0 \<le> t" "t < 2 ^ 63"
  shows "accessOf (accessKey name ty, int_str t) = Some \<lparr>ea_Name = name, ea_Endpoint = ty, ea_LastEpoch = t\<rparr>"
  by (simp add: accessOf_def split_accessKey [OF assms(1,2)] parseInt0_int_str [OF assms(3,4)])

lemma log_ok_store:
  assumes "log_ok m" "noSlash name" "noSlash ty" "0 \<le> t" "t < 2 ^ 63"
  shows "log_ok (m(accessKey name ty \<mapsto> int_str t))"
  using assms unfolding log_ok_def by auto

subsection \<open>Ranges\<close>

lemma prefixEnd_slash: "prefixEnd (p @ ''/'') = p @ ''0''"
proof -
  have "utf8 ((of_char (last ''/'') + 1) mod 256) = ''0''" by code_simp
  then show ?thesis by (simp add: prefixEnd_def)
qed

lemma in_prefix_range: "p @ ''/'' \<le> p @ ''/'' @ r \<and> p @ ''/'' @ r \<le> p @ ''0'' "
proof -
  have "''/'' \<le> ''/'' @ r" by simp
  moreover have "''/'' @ r \<le> ''0''" by (simp add: less_char_def)
  ultimately show ?thesis unfolding append_le_iff by blast
qed

text \<open>A key in the range has the prefix, or is the upper bound.\<close>

lemma prefix_range:
  assumes "p @ ''/'' \<le> k" and "k \<le> p @ ''0''"
  shows "(\<exists>r. k = p @ ''/'' @ r) \<or> k = p @ ''0''"
proof -
  obtain r where r: "k = p @ r" using between_prefix [OF assms] by blast
  with assms have "''/'' \<le> r" "r \<le> ''0''" by (simp_all only: append_le_iff)
  moreover have "c = CHR ''/'' \<or> c = CHR ''0''" if "CHR ''/'' \<le> c" "c \<le> CHR ''0''" for c
  proof -
    have "(of_char c :: nat) = of_char CHR ''/'' \<or> (of_char c :: nat) = of_char CHR ''0''" using that by (simp add: less_eq_char_def) linarith
    then show ?thesis by (simp only: of_char_eq_iff)
  qed
  ultimately show ?thesis unfolding r by (cases r) (auto simp: less_le_not_le)
qed

subsection \<open>Logging and searching\<close>

lemma lastAccess_key: "0 \<le> t \<Longrightarrow> t < 2 ^ 63 \<Longrightarrow> m (accessKey name ty) = Some (int_str t) \<Longrightarrow> lastAccess m name ty = Some t"
  by (simp add: lastAccess_def parseInt0_int_str)

lemma updateEndpointAccessed_result:
  assumes "kv_in E C" and "kv_up (kvi E)"
  shows "\<exists>k. updateEndpointAccessed E name ty s = (Inr (), s\<lparr>ticks := Suc (ticks s), kvs := k\<rparr>) \<and>
     C k = (C (kvs s))(accessKey name ty \<mapsto> int_str (nowAt E (ticks s)))"
proof -
  let ?s = "s\<lparr>ticks := Suc (ticks s)\<rparr>"
  obtain k where k: "kv_Store E (accessKey name ty) (int_str (nowAt E (ticks s))) ?s = (Inr None, ?s\<lparr>kvs := k\<rparr>)"
    "C k = (C (kvs ?s))(accessKey name ty \<mapsto> int_str (nowAt E (ticks s)))"
    by (rule kv_Store_up [OF assms])
  then show ?thesis
    using assms(1) by (intro exI [of _ k]) (simp add: updateEndpointAccessed_def kv_in_def andThen_def clockNow_def ret_def)
qed

lemma access_logged_result:
  assumes "kv_in E C" and "kv_up (kvi E)" and "log_ok (C (kvs s))" and "noSlash name" and "noSlash ty"
    and "now = nowAt E (ticks s)" and "0 \<le> now" and "now < 2 ^ 63"
  shows "\<exists>s'. updateEndpointAccessed E name ty s = (Inr (), s') \<and> log_ok (C (kvs s')) \<and>
    (\<forall>n t. noSlash n \<and> noSlash t \<longrightarrow>
       lastAccess (C (kvs s')) n t = (if n = name \<and> t = ty then Some now else lastAccess (C (kvs s)) n t))"
proof -
  obtain k where u: "updateEndpointAccessed E name ty s = (Inr (), s\<lparr>ticks := Suc (ticks s), kvs := k\<rparr>)"
    and k: "C k = (C (kvs s))(accessKey name ty \<mapsto> int_str now)"
    using updateEndpointAccessed_result [OF assms(1,2)] assms(6) by blast
  have l: "log_ok (C k)" using log_ok_store [OF assms(3-5,7,8)] k by simp
  have "lastAccess (C k) n t = (if n = name \<and> t = ty then Some now else lastAccess (C (kvs s)) n t)"
    if "noSlash n" "noSlash t" for n t
    using accessKey_inj [OF that assms(4,5)] assms(7,8) by (auto simp: k lastAccess_def parseInt0_int_str)
  with u l show ?thesis by (intro exI [of _ "s\<lparr>ticks := Suc (ticks s), kvs := k\<rparr>"]) simp
qed

text \<open>C22. Logging an access keeps the history in its form, sets the time of that name and endpoint and
  leaves the times of all others. Names and endpoints are texts without a slash.\<close>

theorem access_logged:
  assumes "kv_in E C" and "kv_up (kvi E)" and "log_ok (C (kvs s))" and "noSlash name" and "noSlash ty"
    and "now = nowAt E (ticks s)" and "0 \<le> now" and "now < 2 ^ 63"
  shows "\<exists>s'. updateEndpointAccessed E name ty s = (Inr (), s') \<and> log_ok (C (kvs s')) \<and>
    (\<forall>n t. noSlash n \<and> noSlash t \<longrightarrow>
       lastAccess (C (kvs s')) n t = (if n = name \<and> t = ty then Some now else lastAccess (C (kvs s)) n t))"
  by (rule access_logged_result [OF assms])

lemma access_logged_witness:
  "\<exists>s'. updateEndpointAccessed demoSenv ''x1'' ''bootscript'' (demoSvc []) = (Inr (), s') \<and>
     lastAccess (map_of (kvs s')) ''x1'' ''bootscript'' = Some 1000"
proof -
  have l: "log_ok (map_of (kvs (demoSvc [])))" by (simp add: log_ok_def)
  have n: "noSlash ''x1''" "noSlash ''bootscript''" by (simp_all add: noSlash_def)
  have t: "nowAt demoSenv (ticks (demoSvc [])) = 1000" by (simp add: demoSenv_def)
  show ?thesis using access_logged [OF demo_in demo_up l n refl] n unfolding t by fastforce
qed

lemma slash_prefix:
  assumes "noSlash n" "noSlash n'" and "n @ CHR ''/'' # x = n' @ CHR ''/'' # y"
  shows "n = n' \<and> x = y"
proof -
  have t: "takeWhile (\<lambda>c. c \<noteq> CHR ''/'') (n @ CHR ''/'' # x) = n" if "noSlash n" for n x
    using that by (auto simp: noSlash_def takeWhile_append)
  from t [OF assms(1), of x] t [OF assms(2), of y] assms(3) have "n = n'" by simp
  with assms(3) show ?thesis by simp
qed

lemma those_map_Some:
  "(\<And>x. x \<in> set xs \<Longrightarrow> g x = Some (h x)) \<Longrightarrow> those (map g xs) = Some (map h xs)"
  by (induction xs) auto

text \<open>The entries in the range of a name are the accesses of that name.\<close>

lemma history_range:
  assumes "log_ok m" and "noSlash name" and r: "in_range (endpointAccessPfx @ ''/'' @ name @ ''/'') (endpointAccessPfx @ ''/'' @ name @ ''0'') m kvl"
  shows "(k, v) \<in> set kvl \<longleftrightarrow> (\<exists>ty t. noSlash ty \<and> k = accessKey name ty \<and> v = int_str t \<and> 0 \<le> t \<and> t < 2 ^ 63 \<and> m k = Some v)"
proof
  let ?p = "endpointAccessPfx @ ''/'' @ name"
  assume a: "(k, v) \<in> set kvl"
  then have m: "m k = Some v" and b: "?p @ ''/'' \<le> k" "k \<le> ?p @ ''0''" using r unfolding in_range_def by auto
  from prefix_range [OF b] obtain z where z: "k = endpointAccessPfx @ ''/'' @ z" "z = name @ ''0'' \<or> (\<exists>r. z = name @ ''/'' @ r)" by auto
  obtain n ty t where e: "k = accessKey n ty" "noSlash n" "noSlash ty" "v = int_str t" "0 \<le> t" "t < 2 ^ 63"
    using assms(1) z(1) m unfolding log_ok_def by blast
  have zz: "z = n @ CHR ''/'' # ty" using e(1) z(1) by (simp add: accessKey_def)
  then have "CHR ''/'' \<in> set z" by simp
  then have "z \<noteq> name @ ''0''" using assms(2) by (auto simp: noSlash_def)
  then obtain r where "n @ CHR ''/'' # ty = name @ CHR ''/'' # r" using z(2) zz by auto
  then have "n = name" using slash_prefix e(2) assms(2) by blast
  with e m show "\<exists>ty t. noSlash ty \<and> k = accessKey name ty \<and> v = int_str t \<and> 0 \<le> t \<and> t < 2 ^ 63 \<and> m k = Some v" by blast
next
  let ?p = "endpointAccessPfx @ ''/'' @ name"
  assume "\<exists>ty t. noSlash ty \<and> k = accessKey name ty \<and> v = int_str t \<and> 0 \<le> t \<and> t < 2 ^ 63 \<and> m k = Some v"
  then obtain ty where k: "k = ?p @ ''/'' @ ty" "m k = Some v" by (auto simp: accessKey_def)
  have "''/'' @ ty < ''0''" by (simp add: less_char_def)
  then have "k < ?p @ ''0''" unfolding k(1) using append_mono_less by blast
  with k in_prefix_range [of ?p ty] r show "(k, v) \<in> set kvl" unfolding in_range_def by simp
qed

lemma yields_range:
  assumes "kv_in E C" and "kv_up (kvi E)"
  obtains k kvl where "kv_Range E a b s = (Inr (kvl, None), s\<lparr>kvs := k\<rparr>)" and "C k = C (kvs s)" and "in_range a b (C (kvs s)) kvl"
proof -
  have "wp (kv_Range E a b) (\<lambda>r t. \<exists>k kvl. r = (kvl, None) \<and> t = s\<lparr>kvs := k\<rparr> \<and> C k = C (kvs s) \<and> in_range a b (C (kvs s)) kvl)
      (\<lambda>_ _. False) s"
    by (rule wp_kv_Range [OF assms(1)]) (use assms(2) in auto)
  from wp_total [OF this] that show thesis by blast
qed

text \<open>The accesses that the store has of a name.\<close>

definition accessesOf :: "(string \<Rightarrow> string option) \<Rightarrow> string \<Rightarrow> EndpointAccess set" where
  "accessesOf m name =
     {a. ea_Name a = name \<and> noSlash (ea_Endpoint a) \<and> lastAccess m name (ea_Endpoint a) = Some (ea_LastEpoch a)}"

lemma accessesOf_entry:
  assumes "log_ok m" and "a \<in> accessesOf m name"
  shows "\<exists>t. m (accessKey name (ea_Endpoint a)) = Some (int_str t) \<and> 0 \<le> t \<and> t < 2 ^ 63 \<and> ea_LastEpoch a = t"
proof -
  obtain v where v: "m (accessKey name (ea_Endpoint a)) = Some v" using assms(2) by (auto simp: accessesOf_def lastAccess_def)
  have "accessKey name (ea_Endpoint a) = endpointAccessPfx @ ''/'' @ name @ ''/'' @ ea_Endpoint a" by (simp add: accessKey_def)
  with assms(1) v obtain t where t: "v = int_str t" "0 \<le> t" "t < 2 ^ 63" unfolding log_ok_def by blast
  with v assms(2) lastAccess_key [of t m name "ea_Endpoint a"] show ?thesis by (auto simp: accessesOf_def)
qed

lemma history_accesses:
  assumes "log_ok m" and "noSlash name"
    and range: "in_range (endpointAccessPfx @ ''/'' @ name @ ''/'') (endpointAccessPfx @ ''/'' @ name @ ''0'') m kvl"
  shows "\<exists>as. those (map accessOf kvl) = Some as \<and> distinct as \<and> set as = accessesOf m name"
proof -
  let ?acc = "\<lambda>kv. the (accessOf kv)"
  note r = history_range [OF assms]
  have entry: "\<exists>ty t. kv = (accessKey name ty, int_str t) \<and> m (accessKey name ty) = Some (int_str t) \<and> noSlash ty \<and> 0 \<le> t \<and> t < 2 ^ 63 \<and>
      accessOf kv = Some \<lparr>ea_Name = name, ea_Endpoint = ty, ea_LastEpoch = t\<rparr>" if kv: "kv \<in> set kvl" for kv
  proof -
    obtain x v where x: "kv = (x, v)" by (cases kv)
    with kv r obtain ty t where t: "noSlash ty" "x = accessKey name ty" "v = int_str t" "0 \<le> t" "t < 2 ^ 63" "m x = Some v" by blast
    with accessOf_key [OF assms(2) t(1,4,5)] show ?thesis unfolding x by blast
  qed
  have "accessOf kv = Some (?acc kv)" if "kv \<in> set kvl" for kv using entry [OF that] by (metis option.sel)
  then have "those (map accessOf kvl) = Some (map ?acc kvl)" by (rule those_map_Some)
  moreover have "inj_on ?acc (set kvl)"
  proof (rule inj_onI)
    fix x y assume "x \<in> set kvl" "y \<in> set kvl" and e: "?acc x = ?acc y"
    with entry [of x] entry [of y] show "x = y" by (metis EndpointAccess.ext_inject option.sel)
  qed
  then have "distinct (map ?acc kvl)" using range unfolding in_range_def by (auto simp: distinct_map)
  moreover have "set (map ?acc kvl) = accessesOf m name"
  proof (rule set_eqI, rule iffI)
    fix a assume "a \<in> set (map ?acc kvl)"
    then obtain kv where kv: "kv \<in> set kvl" "a = ?acc kv" by auto
    from entry [OF kv(1)] kv(2) show "a \<in> accessesOf m name"
      by (auto simp: accessesOf_def lastAccess_key)
  next
    fix a assume a: "a \<in> accessesOf m name"
    then have n: "ea_Name a = name" "noSlash (ea_Endpoint a)" by (simp_all add: accessesOf_def)
    obtain t where t: "m (accessKey name (ea_Endpoint a)) = Some (int_str t)" "0 \<le> t" "t < 2 ^ 63" "ea_LastEpoch a = t"
      using accessesOf_entry [OF assms(1) a] by blast
    have "(accessKey name (ea_Endpoint a), int_str t) \<in> set kvl" using r n(2) t by blast
    moreover have "?acc (accessKey name (ea_Endpoint a), int_str t) = a"
      using accessOf_key [OF assms(2) n(2) t(2,3)] n(1) t(4) by simp
    ultimately show "a \<in> set (map ?acc kvl)" by force
  qed
  ultimately show ?thesis by blast
qed

text \<open>C23. Searching the history of a name, without an endpoint, returns every access of that name that
  the store has, once, with its time, and none of another name, even of one that begins with it.\<close>

theorem endpoint_history:
  assumes "kv_in E C" and "kv_up (kvi E)" and "log_ok (C (kvs s))" and "noSlash name" and "name \<noteq> []"
  shows "\<exists>as s'. SearchEndpointAccessed E name [] s = (Inr (as, None), s') \<and> C (kvs s') = C (kvs s) \<and>
    distinct as \<and> set as = accessesOf (C (kvs s)) name"
proof -
  let ?p = "endpointAccessPfx @ ''/'' @ name"
  obtain k kvl where k: "kv_Range E (?p @ ''/'') (?p @ ''0'') s = (Inr (kvl, None), s\<lparr>kvs := k\<rparr>)" "C k = C (kvs s)"
    "in_range (?p @ ''/'') (?p @ ''0'') (C (kvs s)) kvl"
    by (rule yields_range [OF assms(1,2)])
  then obtain as where as: "those (map accessOf kvl) = Some as" "distinct as" "set as = accessesOf (C (kvs s)) name"
    using history_accesses [OF assms(3,4), of kvl] by auto
  have "SearchEndpointAccessed E name [] s = (Inr (as, None), s\<lparr>kvs := k\<rparr>)"
    using assms(5) k(1) as(1) prefixEnd_slash [of ?p]
    by (simp add: SearchEndpointAccessed_def getAccessesForPrefix_def searchKeyspace_def andThen_def ret_def)
  with k(2) as show ?thesis by (intro exI [of _ as] exI [of _ "s\<lparr>kvs := k\<rparr>"]) simp
qed

lemma endpoint_history_witness:
  "\<exists>as s'. SearchEndpointAccessed demoSenv ''x1'' [] (demoSvc [(accessKey ''x1'' ''bootscript'', int_str 7)]) = (Inr (as, None), s') \<and>
     \<lparr>ea_Name = ''x1'', ea_Endpoint = ''bootscript'', ea_LastEpoch = 7\<rparr> \<in> set as"
proof -
  have n: "noSlash ''x1''" "noSlash ''bootscript''" by (simp_all add: noSlash_def)
  let ?s = "demoSvc [(accessKey ''x1'' ''bootscript'', int_str 7)]"
  have l: "log_ok (map_of (kvs ?s))"
    using log_ok_store [of Map.empty "''x1''" "''bootscript''" 7] n by (simp add: log_ok_def [of Map.empty])
  have "\<lparr>ea_Name = ''x1'', ea_Endpoint = ''bootscript'', ea_LastEpoch = 7\<rparr> \<in> accessesOf (map_of (kvs ?s)) ''x1''"
    using n(2) by (simp add: accessesOf_def lastAccess_key)
  with endpoint_history [OF demo_in demo_up l n(1)] show ?thesis by fastforce
qed

subsection \<open>The contract of an access history\<close>

definition kvAccessed :: "'k view \<Rightarrow> 'k svc \<Rightarrow> string \<Rightarrow> string \<Rightarrow> int set" where
  "kvAccessed C s n e = (if noSlash n \<and> noSlash e then set_option (lastAccess (C (kvs s)) n e) else {})"

definition kvLogInv :: "'k senv \<Rightarrow> 'k view \<Rightarrow> 'k svc \<Rightarrow> bool" where
  "kvLogInv E C s \<longleftrightarrow> kv_in E C \<and> kv_up (kvi E) \<and> log_ok (C (kvs s))"

definition kvNow :: "'k senv \<Rightarrow> 'k svc \<Rightarrow> int" where
  "kvNow E s = nowAt E (ticks s)"

definition kvFits :: "'k senv \<Rightarrow> string \<Rightarrow> string \<Rightarrow> 'k svc \<Rightarrow> bool" where
  "kvFits E n e s \<longleftrightarrow> noSlash n \<and> noSlash e \<and> 0 \<le> kvNow E s \<and> kvNow E s < 2 ^ 63"

definition logAccess :: "'k senv \<Rightarrow> string \<Rightarrow> string \<Rightarrow> 'k svc \<Rightarrow> 'k svc" where
  "logAccess E n e s = snd (updateEndpointAccessed E n e s)"

lemma kvLog_result:
  assumes "kvLogInv E C s" and "kvFits E n e s"
  shows "kvLogInv E C (logAccess E n e s) \<and>
    kvAccessed C (logAccess E n e s) m f = (if m = n \<and> f = e then {kvNow E s} else kvAccessed C s m f)"
proof -
  have i: "kv_in E C" "kv_up (kvi E)" "log_ok (C (kvs s))" using assms(1) by (simp_all add: kvLogInv_def)
  have f: "noSlash n" "noSlash e" "0 \<le> nowAt E (ticks s)" "nowAt E (ticks s) < 2 ^ 63"
    using assms(2) by (simp_all add: kvFits_def kvNow_def)
  from access_logged_result [OF i f(1,2) refl f(3,4)] i f(1,2) show ?thesis
    by (auto simp: logAccess_def kvLogInv_def kvAccessed_def kvNow_def)
qed

interpretation kvlog: access_log "kvLogInv E C" "kvAccessed C" "kvNow E" "kvFits E" "logAccess E"
  for E :: "'k senv" and C :: "'k view"
  by unfold_locales (auto simp: kvLog_result)

end
