(* ===== verification/KvLookup.thy ===== *)
theory KvLookup
  imports KvStore
begin

text \<open>
  The boot data of a node, by its MAC address, name or NID: the first that is stored under the name
  of its component, the selector itself, the role of the component or the default tag.
\<close>

definition nodeNames :: "SMComponent option \<Rightarrow> string \<Rightarrow> string list" where
  "nodeNames c sel =
     (case c of Some v \<Rightarrow> lookupNames (sc_ID v) sel (sc_Role v) DefaultTag | None \<Rightarrow> lookupNames sel sel [] DefaultTag)"

definition compOr :: "SMComponent option \<Rightarrow> SMComponent" where
  "compOr c = (case c of Some v \<Rightarrow> v | None \<Rightarrow> noComp)"

definition compByName :: "SMComponent list \<Rightarrow> string \<Rightarrow> SMComponent option" where
  "compByName cs host = List.find (\<lambda>v. sc_ID v = host) cs"

lemma fst_found: "fst (found c) = compOr c"
  by (simp add: found_def compOr_def split: option.split)

lemma lookup_result:
  assumes "kv_in E C" and "kv_up (kvi E)" and "imageCache s = []"
  shows "\<exists>k. C k = C (kvs s) \<and> lookup E name altName role df s =
     (Inr (bootDataFor (C (kvs s)) (lookupNames name altName role df)), s\<lparr>kvs := k\<rparr>)"
  using yields_result [OF yields_lookup [OF assms(1,2)] assms(3)] by blast

lemma lookup_found:
  assumes "kv_in E C" and "kv_up (kvi E)" and "imageCache s = []"
  shows "\<exists>k. C k = C (kvs s) \<and>
     (case idAndRole sel (found c) of (n, role) \<Rightarrow> andThen (lookup E n sel role DefaultTag) (\<lambda>bd. ret (bd, fst (found c)))) s =
     (Inr (bootDataFor (C (kvs s)) (nodeNames c sel), compOr c), s\<lparr>kvs := k\<rparr>)"
proof -
  obtain n role where n: "idAndRole sel (found c) = (n, role)" by fastforce
  have l: "lookupNames n sel role DefaultTag = nodeNames c sel"
    using n by (auto simp: idAndRole_def found_def nodeNames_def split: option.splits)
  from lookup_result [OF assms, of n sel role DefaultTag] show ?thesis
    by (auto simp: n l fst_found andThen_def ret_def)
qed

lemma LookupBy_result:
  assumes "kv_in E C" and "kv_up (kvi E)" and "cached d s" and "imageCache s = []"
  shows "(\<exists>k. C k = C (kvs s) \<and> LookupByMAC E mac s =
        (Inr (bootDataFor (C (kvs s)) (nodeNames (compByMAC (sm_Components d) mac) mac), compOr (compByMAC (sm_Components d) mac)), s\<lparr>kvs := k\<rparr>)) \<and>
     (\<exists>k. C k = C (kvs s) \<and> LookupByName E name s =
        (Inr (bootDataFor (C (kvs s)) (nodeNames (compByName (sm_Components d) name) name), compOr (compByName (sm_Components d) name)), s\<lparr>kvs := k\<rparr>)) \<and>
     (\<exists>k. C k = C (kvs s) \<and> LookupByNid E nid s =
        (Inr (bootDataFor (C (kvs s)) (nodeNames (List.find (\<lambda>v. nidInt v = Some nid) (sm_Components d)) (nidName nid)),
              compOr (List.find (\<lambda>v. nidInt v = Some nid) (sm_Components d))), s\<lparr>kvs := k\<rparr>))"
  using lookup_found [OF assms(1,2,4)] assms(1)
  by (simp add: LookupByMAC_def LookupByName_def LookupByNid_def kv_in_def andThen_def [of "FindSMCompByMAC E mac"]
      andThen_def [of "FindSMCompByName E name"] andThen_def [of "FindSMCompByNid E nid"]
      FindSMCompByMAC_cached [OF assms(3)] FindSMCompByName_cached [OF assms(3)] FindSMCompByNid_cached [OF assms(3)] compByName_def)

text \<open>C18. When the key-value store answers and the service knows the hardware, looking up a node by its
  MAC address, its name or its NID returns the boot data stored under the first of these names that has
  any: the name of its component (or the selector if there is none), the selector itself, the role of
  the component, and the default tag. Without any it returns empty boot data. The component is that of
  the hardware state, and nothing is changed.\<close>

theorem node_boot_data:
  assumes "kv_in E C" and "kv_up (kvi E)" and "cached d s" and "imageCache s = []"
  shows "(\<exists>k. C k = C (kvs s) \<and> LookupByMAC E mac s =
        (Inr (bootDataFor (C (kvs s)) (nodeNames (compByMAC (sm_Components d) mac) mac), compOr (compByMAC (sm_Components d) mac)), s\<lparr>kvs := k\<rparr>)) \<and>
     (\<exists>k. C k = C (kvs s) \<and> LookupByName E name s =
        (Inr (bootDataFor (C (kvs s)) (nodeNames (compByName (sm_Components d) name) name), compOr (compByName (sm_Components d) name)), s\<lparr>kvs := k\<rparr>)) \<and>
     (\<exists>k. C k = C (kvs s) \<and> LookupByNid E nid s =
        (Inr (bootDataFor (C (kvs s)) (nodeNames (List.find (\<lambda>v. nidInt v = Some nid) (sm_Components d)) (nidName nid)),
              compOr (List.find (\<lambda>v. nidInt v = Some nid) (sm_Components d))), s\<lparr>kvs := k\<rparr>))"
  by (rule LookupBy_result [OF assms])

lemma node_boot_data_witness:
  "\<exists>k bd. LookupByMAC demoSenv ''00:11:22:33:44:55'' (demoSvc [(''/params/Default'', ''{}'')]) =
     (Inr (bd, demoComp), demoSvc [(''/params/Default'', ''{}'')]\<lparr>kvs := k\<rparr>)"
proof -
  have "compByMAC (sm_Components demoSM) ''00:11:22:33:44:55'' = Some demoComp" by code_simp
  with conjunct1 [OF node_boot_data [OF demo_in demo_up demo_cached demoSvc_simps(1),
        where mac = "''00:11:22:33:44:55''" and k1 = "[(''/params/Default'', ''{}'')]"]]
  show ?thesis unfolding compOr_def by auto
qed

end
