(* ===== verification/ScriptParams.thy ===== *)
theory ScriptParams
  imports BootScript
begin

text \<open>
  The kernel parameters of a boot script: what the service adds to the configured ones, and where the
  search for an initrd parameter runs past the end of the text.
\<close>

subsection \<open>The special parameters\<close>

lemma paramExists_add: "CHR '' '' \<notin> set pname \<Longrightarrow> paramExists (params @ '' '' @ pname @ pv) pname"
proof -
  assume n: "CHR '' '' \<notin> set pname"
  have "hasPrefix (hd (strSplit CHR '' '' (pname @ pv))) pname"
    using n by (induction pname) (auto simp: hasPrefix_def split: list.splits)
  moreover have "hd (strSplit CHR '' '' (pname @ pv)) \<in> set (strSplit CHR '' '' (pname @ pv))" by simp
  ultimately show ?thesis
    using strSplit_append [of "CHR '' ''" params "pname @ pv"] by (auto simp: paramExists_def list_ex_iff)
qed

lemma paramExists_mono: "paramExists params p \<Longrightarrow> paramExists (params @ CHR '' '' # x) p"
  by (auto simp: paramExists_def strSplit_append)

lemma checkParam_keeps: "paramExists params p \<Longrightarrow> paramExists (checkParam params pname pv) p"
  using paramExists_mono [of params p] by (auto simp: checkParam_def)

lemma checkParam_exists: "CHR '' '' \<notin> set pname \<Longrightarrow> pv \<noteq> [] \<Longrightarrow> paramExists (checkParam params pname pv) pname"
  using paramExists_add by (auto simp: checkParam_def)

lemma checkParam_present: "paramExists params pname \<Longrightarrow> checkParam params pname pv = params"
  by (simp add: checkParam_def)

lemma checkParam_extends: "\<exists>extra. checkParam params pname pv = params @ extra"
  by (simp add: checkParam_def)

text \<open>The parameters that are added, with their values, in order.\<close>

definition specials :: "string \<Rightarrow> scriptParams \<Rightarrow> (string \<times> string) list" where
  "specials advertise sp =
     [(''xname='', sp_xname sp), (''nid='', sp_nid sp), (''bss_referral_token='', sp_referralToken sp),
      (''BOOTIF='', if sp_mac sp = [] then [] else ''01-'' @ map (\<lambda>c. if c = CHR '':'' then CHR ''-'' else c) (sp_mac sp)),
      (''ds='', ''nocloud-net;s='' @ advertise @ ''/'')]"

lemma replace_colons: "strReplaceAll s '':'' ''-'' = map (\<lambda>c. if c = CHR '':'' then CHR ''-'' else c) s"
  by (induction s) (simp_all add: strReplaceAll.simps hasPrefix_def)

lemma checkParam_empty [simp]: "checkParam params pname [] = params"
  by (simp add: checkParam_def)

lemma specialParams_foldl:
  "specialParams advertise sp params = foldl (\<lambda>p x. checkParam p (fst x) (snd x)) params (specials advertise sp)"
  by (simp add: specialParams_def specials_def Let_def replace_colons)

lemma fold_keeps: "paramExists params p \<Longrightarrow> paramExists (foldl (\<lambda>p x. checkParam p (fst x) (snd x)) params xs) p"
  by (induction xs arbitrary: params) (auto intro: checkParam_keeps)

lemma fold_exists:
  "x \<in> set xs \<Longrightarrow> CHR '' '' \<notin> set (fst x) \<Longrightarrow> snd x \<noteq> [] \<Longrightarrow>
   paramExists (foldl (\<lambda>p x. checkParam p (fst x) (snd x)) params xs) (fst x)"
  by (induction xs arbitrary: params) (auto intro: fold_keeps checkParam_exists)

lemma fold_present:
  "(\<And>x. x \<in> set xs \<Longrightarrow> snd x \<noteq> [] \<Longrightarrow> paramExists params (fst x)) \<Longrightarrow> foldl (\<lambda>p x. checkParam p (fst x) (snd x)) params xs = params"
  by (induction xs) (force simp: checkParam_def)+

lemma fold_extends: "\<exists>extra. foldl (\<lambda>p x. checkParam p (fst x) (snd x)) params xs = params @ extra"
proof (induction xs arbitrary: params)
  case (Cons x xs)
  obtain e where "checkParam params (fst x) (snd x) = params @ e" using checkParam_extends by blast
  with Cons [of "params @ e"] show ?case by auto
qed simp

lemma specials_names: "x \<in> set (specials advertise sp) \<Longrightarrow> CHR '' '' \<notin> set (fst x)"
  by (auto simp: specials_def)

text \<open>A parameter is configured when the text begins with its name or has it after a space.\<close>

definition configured :: "string \<Rightarrow> string \<Rightarrow> bool" where
  "configured params pname \<longleftrightarrow> hasPrefix params pname \<or> strContains params (CHR '' '' # pname)"

lemma hasPrefix_Cons: "hasPrefix (c # s) (p # q) \<longleftrightarrow> c = p \<and> hasPrefix s q"
  by (auto simp: hasPrefix_def)

lemma hasPrefix_empty: "hasPrefix [] (p # q) \<longleftrightarrow> False"
  by (simp add: hasPrefix_def)

lemma hasPrefix_word:
  "CHR '' '' \<notin> set pname \<Longrightarrow> hasPrefix (hd (strSplit CHR '' '' s)) pname \<longleftrightarrow> hasPrefix s pname"
proof (induction s arbitrary: pname)
  case (Cons c s)
  obtain w ws where w: "strSplit CHR '' '' s = w # ws" by (meson neq_Nil_conv strSplit_nonempty)
  show ?case
  proof (cases pname)
    case (Cons p q)
    have "hasPrefix w q \<longleftrightarrow> hasPrefix s q" using Cons.IH [of q] Cons.prems w by (simp add: \<open>pname = p # q\<close>)
    moreover have "p \<noteq> CHR '' ''" using Cons.prems Cons by auto
    ultimately show ?thesis using w by (cases "c = CHR '' ''") (auto simp: Cons hasPrefix_Cons hasPrefix_empty)
  qed simp
qed simp

lemma paramExists_configured:
  assumes "CHR '' '' \<notin> set pname"
  shows "paramExists params pname \<longleftrightarrow> configured params pname"
proof -
  have "list_ex (\<lambda>w. hasPrefix w pname) (tl (strSplit CHR '' '' s)) \<longleftrightarrow> strContains s (CHR '' '' # pname)" for s
  proof (induction s)
    case (Cons c s)
    obtain w ws where w: "strSplit CHR '' '' s = w # ws" by (meson neq_Nil_conv strSplit_nonempty)
    then have h: "hasPrefix w pname \<longleftrightarrow> hasPrefix s pname" using hasPrefix_word [OF assms, of s] by simp
    have "strContains (c # s) (CHR '' '' # pname) \<longleftrightarrow> c = CHR '' '' \<and> hasPrefix s pname \<or> strContains s (CHR '' '' # pname)"
      by (auto simp: strContains_def hasPrefix_Cons)
    with Cons w h show ?case by (cases "c = CHR '' ''") simp_all
  qed (simp add: strContains_def)
  moreover have "list_ex P xs \<longleftrightarrow> P (hd xs) \<or> list_ex P (tl xs)" if "xs \<noteq> []" for P and xs :: "string list"
    using that by (cases xs) auto
  ultimately show ?thesis by (simp add: paramExists_def configured_def hasPrefix_word [OF assms])
qed

text \<open>Words that are added do not configure the parameters that come after them.\<close>

definition isWord :: "string \<Rightarrow> bool" where
  "isWord s \<longleftrightarrow> CHR '' '' \<notin> set s"

lemma paramExists_other:
  "isWord (w :: string) \<Longrightarrow> \<not> hasPrefix w p \<Longrightarrow> paramExists (params @ CHR '' '' # w) p \<longleftrightarrow> paramExists params p"
  by (simp add: paramExists_def strSplit_append strSplit_word isWord_def)

definition addedTo :: "string \<Rightarrow> (string \<times> string) list \<Rightarrow> string" where
  "addedTo params xs = concat (map (\<lambda>(n, v). if v = [] \<or> configured params n then [] else '' '' @ n @ v) xs)"

lemma fold_exact:
  assumes "\<And>x. x \<in> set xs \<Longrightarrow> isWord (fst x) \<and> isWord (snd x)"
    and "sorted_wrt (\<lambda>x y. \<not> hasPrefix (fst x @ snd x) (fst y)) xs"
  shows "foldl (\<lambda>p x. checkParam p (fst x) (snd x)) params xs = params @ addedTo params xs"
  using assms
proof (induction xs arbitrary: params)
  case (Cons x xs)
  obtain n v where x: "x = (n, v)" by (cases x)
  have w: "isWord n" "isWord (n @ v)" using Cons.prems(1) [of x] by (auto simp: x isWord_def)
  have same: "configured (checkParam params n v) m \<longleftrightarrow> configured params m" if "(m, u) \<in> set xs" for m u
  proof -
    have m: "isWord m" "\<not> hasPrefix (n @ v) m" using Cons.prems(1) [of "(m, u)"] Cons.prems(2) that by (auto simp: x)
    then have "paramExists (checkParam params n v) m \<longleftrightarrow> paramExists params m"
      using paramExists_other [OF w(2) m(2)] by (simp add: checkParam_def)
    with m(1) show ?thesis by (simp add: paramExists_configured isWord_def)
  qed
  have "addedTo (checkParam params n v) xs = addedTo params xs"
    unfolding addedTo_def by (rule arg_cong [where f = concat], rule map_cong) (auto simp: same)
  moreover have "paramExists params n \<longleftrightarrow> configured params n" using w(1) by (simp add: paramExists_configured isWord_def)
  ultimately show ?case
    using Cons.IH [of "checkParam params n v"] Cons.prems by (auto simp: x checkParam_def addedTo_def)
qed (simp add: addedTo_def)

lemma isWord_mac: "isWord (map (\<lambda>c. if c = CHR '':'' then CHR ''-'' else c) s) \<longleftrightarrow> isWord s"
  by (auto simp: isWord_def)

text \<open>C37. The special parameters follow the configured ones, which stay in front as they are. If no value has a space in it, what
  follows is exactly, in this order and each after a space, of xname=, nid=, bss_referral_token=, BOOTIF= (01- and the
  MAC address with dashes for colons) and ds= (the service's own address for cloud-init) those that have a value and are not configured,
  that is, the configured text does not begin with their name and does not have it after a
  space. Whatever the values, each special parameter that has one is there afterwards, and adding them
  a second time changes nothing.\<close>

theorem specialParams_correct:
  shows "(list_all isWord [sp_xname sp, sp_nid sp, sp_referralToken sp, sp_mac sp, advertise] \<longrightarrow>
      specialParams advertise sp params = params @
        concat (map (\<lambda>(n, v). if v = [] \<or> configured params n then [] else '' '' @ n @ v)
          [(''xname='', sp_xname sp), (''nid='', sp_nid sp), (''bss_referral_token='', sp_referralToken sp),
           (''BOOTIF='', if sp_mac sp = [] then [] else ''01-'' @ map (\<lambda>c. if c = CHR '':'' then CHR ''-'' else c) (sp_mac sp)),
           (''ds='', ''nocloud-net;s='' @ advertise @ ''/'')])) \<and>
    (\<exists>extra. specialParams advertise sp params = params @ extra) \<and>
    list_all (\<lambda>x. snd x = [] \<or> configured (specialParams advertise sp params) (fst x)) (specials advertise sp) \<and>
    specialParams advertise sp (specialParams advertise sp params) = specialParams advertise sp params"
proof -
  have e: "paramExists (specialParams advertise sp params) (fst x)" if "x \<in> set (specials advertise sp)" "snd x \<noteq> []" for x
    unfolding specialParams_foldl using that by (intro fold_exists specials_names)
  have i: "specialParams advertise sp (specialParams advertise sp params) = specialParams advertise sp params"
    by (subst specialParams_foldl, rule fold_present) (rule e)
  have x: "specialParams advertise sp params = params @ addedTo params (specials advertise sp)"
    if "list_all isWord [sp_xname sp, sp_nid sp, sp_referralToken sp, sp_mac sp, advertise]"
    unfolding specialParams_foldl
  proof (rule fold_exact)
    show "isWord (fst y) \<and> isWord (snd y)" if "y \<in> set (specials advertise sp)" for y
      using that \<open>list_all isWord _\<close> isWord_mac [of "sp_mac sp"] by (auto simp: specials_def isWord_def split: if_splits)
    show "sorted_wrt (\<lambda>x y. \<not> hasPrefix (fst x @ snd x) (fst y)) (specials advertise sp)"
      by (simp add: specials_def hasPrefix_def)
  qed
  have "\<exists>extra. specialParams advertise sp params = params @ extra"
    unfolding specialParams_foldl by (rule fold_extends)
  moreover have "list_all (\<lambda>x. snd x = [] \<or> configured (specialParams advertise sp params) (fst x)) (specials advertise sp)"
    using e paramExists_configured [OF specials_names] unfolding list_all_iff by blast
  ultimately show ?thesis using i x unfolding addedTo_def specials_def by blast
qed

lemma specialParams_correct_witness:
  "specialParams ''http://10.0.0.2'' \<lparr>sp_xname = ''x0c0s1b0n0'', sp_nid = ''7'', sp_referralToken = [], sp_mac = ''00:11:22:33:44:55''\<rparr>
       ''quiet nid=9'' =
     ''quiet nid=9 xname=x0c0s1b0n0 BOOTIF=01-00-11-22-33-44-55 ds=nocloud-net;s=http://10.0.0.2/''"
proof -
  let ?sp = "\<lparr>sp_xname = ''x0c0s1b0n0'', sp_nid = ''7'', sp_referralToken = [], sp_mac = ''00:11:22:33:44:55''\<rparr>"
  have "list_all isWord [sp_xname ?sp, sp_nid ?sp, sp_referralToken ?sp, sp_mac ?sp, ''http://10.0.0.2'']"
    by (simp add: isWord_def)
  note p = mp [OF conjunct1 [OF specialParams_correct] this, of "''quiet nid=9''"]
  show ?thesis unfolding p by code_simp
qed

subsection \<open>The initrd parameter\<close>

text \<open>When there is an initrd, the kernel parameters begin with \<open>initrd=initrd\<close>, and the first word part
  from \<open>initrd\<close> to the next space is taken out of the configured ones. The building of the script
  panics exactly when \<open>initrd\<close> occurs in them with no space after it, for instance in the last word.\<close>

lemma initrdParam_result:
  shows "initrdParam params s =
    (case strIndex params ''initrd'' of
       None \<Rightarrow> (Inr (''initrd=initrd '' @ params), s)
     | Some start \<Rightarrow>
         if CHR '' '' \<in> set (drop start params)
         then (Inr (''initrd=initrd '' @ take start params @ dropWhile (\<lambda>c. c \<noteq> CHR '' '') (drop start params)), s)
         else (Inl IndexOutOfRange, s))"
proof (cases "strIndex params ''initrd''")
  case None
  then show ?thesis by (simp add: initrdParam_def ret_def)
next
  case (Some start)
  let ?rest = "dropWhile (\<lambda>c. c \<noteq> CHR '' '') (drop start params)"
  have r: "?rest = [] \<longleftrightarrow> CHR '' '' \<notin> set (drop start params)" by (auto simp: dropWhile_eq_Nil_conv)
  show ?thesis
  proof (cases ?rest)
    case Nil
    with r have "CHR '' '' \<notin> set (drop start params)" by blast
    then show ?thesis by (simp only: initrdParam_def Some option.case Nil list.case fail_def if_False)
  next
    case (Cons c cs)
    then have "?rest \<noteq> []" by (simp only: list.distinct not_False_eq_True)
    with r have "CHR '' '' \<in> set (drop start params)" by blast
    then show ?thesis by (simp add: initrdParam_def Some ret_def Cons)
  qed
qed

end
