(* ===== verification/NodeBoot.thy ===== *)
theory NodeBoot
  imports ScriptParams KvLookup KvAccess
begin

text \<open>
  The boot of a node from end to end: the request of a known node for its boot script, answered from
  the key-value store.
\<close>

lemma andThen_run: "m s = (Inr x, s') \<Longrightarrow> andThen m f s = f x s'"
  by (simp add: andThen_def)

lemma ret_run: "ret x s = (Inr x, s)"
  by (simp add: ret_def)

subsection \<open>The script\<close>

text \<open>Addresses and parameters without S3 objects and without a join token are taken as they are, but for an initrd the
  first word part from \<open>initrd\<close> to the next space is taken out of the parameters. There has to be such a space.\<close>

definition plainURL :: "string \<Rightarrow> bool" where
  "plainURL u \<longleftrightarrow> (case urlParse u of None \<Rightarrow> True | Some p \<Rightarrow> \<not> equalFold (u_Scheme p) ''s3'')"

definition fullParams :: "'k senv \<Rightarrow> BootData \<Rightarrow> scriptParams \<Rightarrow> string" where
  "fullParams E bd sp = specialParams (advertiseAddress E) sp (baseParams bd)"

definition withoutInitrd :: "string \<Rightarrow> string" where
  "withoutInitrd params =
     (case strIndex params ''initrd'' of
        None \<Rightarrow> params
      | Some i \<Rightarrow> take i params @ dropWhile (\<lambda>c. c \<noteq> CHR '' '') (drop i params))"

definition initrdEnds :: "string \<Rightarrow> bool" where
  "initrdEnds params \<longleftrightarrow>
     (case strIndex params ''initrd'' of None \<Rightarrow> True | Some i \<Rightarrow> CHR '' '' \<in> set (drop i params))"

definition plainBoot :: "'k senv \<Rightarrow> BootData \<Rightarrow> scriptParams \<Rightarrow> bool" where
  "plainBoot E bd sp \<longleftrightarrow>
     plainURL (im_Path (bd_Kernel bd)) \<and> plainURL (im_Path (bd_Initrd bd)) \<and>
     \<not> strContains (fullParams E bd sp) (''${'' @ joinTokenVarName @ ''}'') \<and> s3Matches True (fullParams E bd sp) = [] \<and>
     (im_Path (bd_Initrd bd) \<noteq> [] \<longrightarrow> initrdEnds (fullParams E bd sp))"

definition commandLine :: "'k senv \<Rightarrow> BootData \<Rightarrow> scriptParams \<Rightarrow> string" where
  "commandLine E bd sp =
     (if im_Path (bd_Initrd bd) = [] then fullParams E bd sp else ''initrd=initrd '' @ withoutInitrd (fullParams E bd sp))"

definition bootText :: "'k senv \<Rightarrow> BootData \<Rightarrow> scriptParams \<Rightarrow> string \<Rightarrow> string" where
  "bootText E bd sp chain =
     (let initrd = im_Path (bd_Initrd bd) in
      ''#!ipxe'' @ nl @
      ''kernel --name kernel '' @ im_Path (bd_Kernel bd) @ '' '' @
        strTrim (commandLine E bd sp) '' '' @ orRetry @
      (if initrd \<noteq> [] then ''initrd --name initrd '' @ initrd @ orRetry else []) @
      ''boot'' @ orRetry @ '':boot_retry'' @ nl @ ''sleep '' @ nat_str (retryDelay E) @ nl @ chain @ nl)"

lemma checkURL_plain: "plainURL u \<Longrightarrow> checkURL E u s = (Inr (Inr u), s)"
  by (auto simp: plainURL_def checkURL_def split: option.splits)

lemma buildParams_plain:
  assumes "plainBoot E bd sp"
  shows "buildParams E bd sp role subRole s = (Inr (Inr (commandLine E bd sp)), s)"
proof -
  let ?P = "fullParams E bd sp"
  have 1: "paramSubstitute ?P joinTokenVarName m s = (Inr (?P, None), s)" for m
    using assms by (simp add: paramSubstitute_def joinTokenVarName_def plainBoot_def ret_def)
  have 2: "replaceS3Params (checkURL E) ?P s = (Inr (?P, None), s)"
    using assms by (simp add: replaceS3Params_def plainBoot_def ret_def)
  have 3: "im_Path (bd_Initrd bd) \<noteq> [] \<Longrightarrow> initrdParam ?P s = (Inr (''initrd=initrd '' @ withoutInitrd ?P), s)"
    using assms by (auto simp: initrdParam_result plainBoot_def initrdEnds_def withoutInitrd_def split: option.splits)
  show ?thesis
    using 3 by (simp add: buildParams_def fullParams_def [symmetric] andThen_def 1 2 ret_def commandLine_def)
qed

lemma buildBootScript_plain:
  assumes "plainBoot E bd sp" and "im_Path (bd_Kernel bd) \<noteq> []"
  shows "buildBootScript E bd sp chain role subRole descr s = (Inr (bootText E bd sp chain, None), s)"
proof -
  have p: "plainURL (im_Path (bd_Kernel bd))" "plainURL (im_Path (bd_Initrd bd))" using assms(1) by (simp_all add: plainBoot_def)
  show ?thesis
    using assms(2)
    by (cases "im_Path (bd_Initrd bd) = []")
      (simp_all add: buildBootScript_def andThen_def buildParams_plain [OF assms(1)] checkURL_plain [OF p(1)]
        checkURL_plain [OF p(2)] ret_def bootText_def Let_def)
qed

subsection \<open>Who may boot\<close>

text \<open>A node with a blocked role boots only from data stored for its own name or for its role.\<close>

definition mayBoot :: "'k senv \<Rightarrow> (string \<Rightarrow> string option) \<Rightarrow> SMComponent \<Rightarrow> bool" where
  "mayBoot E m c \<longleftrightarrow> \<not> isBlocked (blockedRoles E) (sc_Role c) \<or> hostData m (sc_ID c) \<noteq> None \<or>
     (sc_Role c \<noteq> [] \<and> hostData m (sc_Role c) \<noteq> None)"

definition blockedErr :: "SMComponent \<Rightarrow> goerr option" where
  "blockedErr c = Some (Err (''Node '' @ sc_ID c @ '' blocked, role: '' @ sc_Role c))"

lemma yields_blacklist:
  assumes "kv_in E C" and "kv_up (kvi E)"
  shows "yields C (blacklist E c) (\<lambda>m. if mayBoot E m c then None else blockedErr c)"
proof (cases "isBlocked (blockedRoles E) (sc_Role c)")
  case False
  then show ?thesis by (auto simp: blacklist_def mayBoot_def intro: yields_cong [OF yields_ret])
next
  case True
  let ?B = "blockedErr c"
  let ?g = "\<lambda>m. if hostData m (sc_Role c) \<noteq> None then None else ?B"
  have 1: "yields C (andThen (lookupHost E (sc_Role c)) (\<lambda>(_, e). ret (if e = None then None else ?B))) ?g"
  proof (rule yields_cong [OF yields_bind [OF yields_lookupHost [OF assms], where h = "\<lambda>x _. if snd x = None then None else ?B"]])
    fix x :: "BootDataStore \<times> svcerr option"
    show "yields C (case x of (_, e) \<Rightarrow> ret (if e = None then None else ?B)) (\<lambda>_. if snd x = None then None else ?B)"
      by (cases x) simp
  qed (simp add: hostResult_hostData(1))
  let ?h = "\<lambda>x m. if snd x = None then None else if sc_Role c = [] then ?B else ?g m"
  have 2: "yields C (andThen (lookupHost E (sc_ID c)) (\<lambda>(_, e).
      if e = None then ret None else if sc_Role c = [] then ret ?B
      else andThen (lookupHost E (sc_Role c)) (\<lambda>(_, e). ret (if e = None then None else ?B)))) (\<lambda>m. ?h (hostResult m (sc_ID c)) m)"
  proof (rule yields_bind [OF yields_lookupHost [OF assms], where h = ?h])
    fix x :: "BootDataStore \<times> svcerr option"
    show "yields C (case x of (_, e) \<Rightarrow> if e = None then ret None else if sc_Role c = [] then ret ?B
      else andThen (lookupHost E (sc_Role c)) (\<lambda>(_, e). ret (if e = None then None else ?B))) (?h x)"
      using 1 by (cases x) (auto intro: yields_cong [OF yields_ret])
  qed
  have "blacklist E c = andThen (lookupHost E (sc_ID c)) (\<lambda>(_, e).
      if e = None then ret None else if sc_Role c = [] then ret ?B
      else andThen (lookupHost E (sc_Role c)) (\<lambda>(_, e). ret (if e = None then None else ?B)))"
    using True unfolding blacklist_def Let_def blockedErr_def by (simp only: not_True_eq_False if_False)
  then show ?thesis
    by (simp only:, intro yields_cong [OF 2]) (use True in \<open>auto simp: hostResult_hostData(1) mayBoot_def\<close>)
qed

lemma blacklist_result:
  assumes "kv_in E C" and "kv_up (kvi E)" and "imageCache s = []"
  shows "\<exists>k. C k = C (kvs s) \<and> blacklist E c s = (Inr (if mayBoot E (C (kvs s)) c then None else blockedErr c), s\<lparr>kvs := k\<rparr>)"
  using yields_result [OF yields_blacklist [OF assms(1,2)] assms(3)] by blast

subsection \<open>No retrieval is due\<close>

definition upToDate :: "(string \<Rightarrow> string option) \<Rightarrow> int \<Rightarrow> bool" where
  "upToDate m ts \<longleftrightarrow> m UpdateTimestampKey = None \<or> (\<exists>t. m UpdateTimestampKey = Some (int_str t) \<and> 0 \<le> t \<and> t < 2 ^ 63 \<and> t \<le> ts)"

lemma checkState_current:
  assumes "kv_in E C" and "kv_up (kvi E)" and "upToDate (C (kvs s)) (smTimeStamp s)"
  shows "\<exists>k. C k = C (kvs s) \<and> checkState E False s = (Inr False, s\<lparr>kvs := k\<rparr>)"
proof (cases "C (kvs s) UpdateTimestampKey")
  case None
  obtain k v ex where k: "kv_Get E UpdateTimestampKey s = (Inr (v, ex, None), s\<lparr>kvs := k\<rparr>)" "C k = C (kvs s)"
    "if ex then C (kvs s) UpdateTimestampKey = Some v else C (kvs s) UpdateTimestampKey = None"
    by (rule kv_Get_up [OF assms(1,2)])
  with None have "\<not> ex" by (simp split: if_splits)
  with k(1,2) show ?thesis by (intro exI [of _ k]) (simp add: checkState_def andThen_def k(1) Let_def split: prod.split)
next
  case (Some v)
  then obtain t where t: "C (kvs s) UpdateTimestampKey = Some (int_str t)" "0 \<le> t" "t < 2 ^ 63" "t \<le> smTimeStamp s"
    using assms(3) by (auto simp: upToDate_def)
  from checkState_time [OF assms(1,2) t(1-3)] t(4) show ?thesis by simp
qed

subsection \<open>From the request to the script\<close>

definition scriptParamsOf :: "SMComponent \<Rightarrow> string \<Rightarrow> BootData \<Rightarrow> scriptParams" where
  "scriptParamsOf c mac bd = \<lparr>sp_xname = sc_ID c, sp_nid = sc_NID c, sp_referralToken = bd_ReferralToken bd, sp_mac = mac\<rparr>"

text \<open>What the script does when the boot fails: the same request again, with the number of tries, which is counted in
  64 bits.\<close>

definition nextTry :: "int \<Rightarrow> int" where
  "nextTry n = (if n = 2 ^ 63 - 1 then - (2 ^ 63) else n + 1)"

definition retryChain :: "'k senv \<Rightarrow> request \<Rightarrow> string \<Rightarrow> string" where
  "retryChain E r mac = scriptURL E (rq_Path r) @ ''?mac='' @ mac @ ''&retry='' @ int_str (nextTry (getIntParam r ''retry'' 0))"

lemma parseInt0_range: "parseInt0 s = (None, i) \<Longrightarrow> - (2 ^ 63) \<le> i \<and> i < 2 ^ 63"
  by (auto simp: parseInt0_def Let_def split: if_splits sum.splits parse_err.splits)

lemma getIntParam_range:
  "- (2 ^ 63) \<le> df \<Longrightarrow> df < 2 ^ 63 \<Longrightarrow> - (2 ^ 63) \<le> getIntParam r p df \<and> getIntParam r p df < 2 ^ 63"
  using parseInt0_range [of "formJoin [] r p"] by (auto simp: getIntParam_def Let_def split: prod.splits option.splits)

lemma addInt_nextTry: "- (2 ^ 63) \<le> n \<Longrightarrow> n < 2 ^ 63 \<Longrightarrow> addInt n 1 = nextTry n"
proof -
  assume n: "- (2 ^ 63) \<le> n" "n < 2 ^ 63"
  have "addInt n 1 = signed_take_bit 63 (n + 1)" unfolding addInt_def by (subst signed_of_int) simp
  moreover have "signed_take_bit 63 (n + 1) = n + 1" if "n \<noteq> 2 ^ 63 - 1"
    using n that by (intro signed_take_bit_int_eq_self) auto
  moreover have "signed_take_bit 63 (2 ^ 63 :: int) = - (2 ^ 63)" by simp
  ultimately show ?thesis by (auto simp: nextTry_def)
qed

lemma retry_next: "addInt (getIntParam r ''retry'' 0) 1 = nextTry (getIntParam r ''retry'' 0)"
  using getIntParam_range [of 0 r "''retry''"] by (simp add: addInt_nextTry)

definition textHdr :: "(string \<times> string) list" where
  "textHdr = [(''Content-Type'', ''text/plain; charset=UTF-8'')]"

lemma finishScript_result:
  assumes "kv_in E C" and "kv_up (kvi E)" and "writeOk E (ticks s)"
  shows "\<exists>k. finishScript E c (script, False, None) s = (Inr (Reply 200 textHdr (script @ nl)), s\<lparr>ticks := ticks s + 2, kvs := k\<rparr>) \<and>
     C k = (C (kvs s))(accessKey (sc_ID c) ''bootscript'' \<mapsto> int_str (nowAt E (Suc (ticks s))))"
proof -
  obtain k where "updateEndpointAccessed E (sc_ID c) ''bootscript'' (s\<lparr>ticks := Suc (ticks s)\<rparr>) =
      (Inr (), s\<lparr>ticks := Suc (Suc (ticks s)), kvs := k\<rparr>)"
    "C k = (C (kvs s))(accessKey (sc_ID c) ''bootscript'' \<mapsto> int_str (nowAt E (Suc (ticks s))))"
    using updateEndpointAccessed_result [OF assms(1,2), of "sc_ID c" "''bootscript''" "s\<lparr>ticks := Suc (ticks s)\<rparr>"] by auto
  with assms(3) show ?thesis
    by (intro exI [of _ k]) (simp add: finishScript_def andThen_def nextIx_def ret_def textHdr_def)
qed

lemma knownScript_result:
  assumes "kv_in E C" and "kv_up (kvi E)" and "imageCache s = []" and "mac \<noteq> []"
    and "mayBoot E (C (kvs s)) c" and "upToDate (C (kvs s)) (smTimeStamp s)"
    and "plainBoot E bd sp" and "im_Path (bd_Kernel bd) \<noteq> []"
  shows "\<exists>k. C k = C (kvs s) \<and> knownScript E r bd sp c mac (getIntParam r ''retry'' 0) descr x s =
     (Inr (bootText E bd sp (retryChain E r mac), False, None), s\<lparr>kvs := k\<rparr>)"
proof -
  obtain k1 where k1: "C k1 = C (kvs s)" "blacklist E c s = (Inr None, s\<lparr>kvs := k1\<rparr>)"
    using blacklist_result [OF assms(1-3), of c] assms(5) by auto
  obtain k2 where k2: "C k2 = C (kvs s)" "checkState E False (s\<lparr>kvs := k1\<rparr>) = (Inr False, s\<lparr>kvs := k2\<rparr>)"
    using checkState_current [OF assms(1,2), of "s\<lparr>kvs := k1\<rparr>"] assms(6) k1(1) by auto
  have b: "buildBootScript E bd sp (retryChain E r mac) (sc_Role c) (sc_SubRole c) descr (s\<lparr>kvs := k2\<rparr>) =
      (Inr (bootText E bd sp (retryChain E r mac), None), s\<lparr>kvs := k2\<rparr>)"
    by (rule buildBootScript_plain [OF assms(7,8)])
  have "\<not> useSQL E" using assms(1) by (simp add: kv_in_def)
  then show ?thesis
    using assms(4) b k2(1)
    by (intro exI [of _ k2]) (simp add: knownScript_def andThen_def k1(2) k2(2) ret_def Let_def retryChain_def retry_next)
qed

lemma BootscriptGet_mac:
  assumes "formJoin [] r ''mac'' = mac" and "mac \<noteq> []" and "getIntParam r ''json'' 0 = 0"
    and "LookupByMAC E mac (s\<lparr>ticks := Suc (ticks s)\<rparr>) = (Inr (bd, c), t)" and "\<not> isUnknown bd c"
  shows "\<exists>descr. BootscriptGet E r s =
     andThen (knownScript E r bd (scriptParamsOf c mac bd) c mac (getIntParam r ''retry'' 0) descr ([], False)) (finishScript E c) t"
proof -
  let ?s = "s\<lparr>ticks := Suc (ticks s)\<rparr>"
  obtain descr where d: "scriptFor E mac name nid ?s = (Inr (Some (bd, c, descr)), t)" for name nid
    using assms(2,4) by (simp add: scriptFor_def andThen_def ret_def)
  have "BootscriptGet E r s = andThen (makeScript E r mac (formJoin [] r ''name'') (getIntParam r ''nid'' (-1))
      (getIntParam r ''ts'' (nowAt E (ticks s))) bd c (scriptParamsOf c mac bd) descr) (finishScript E c) t"
    by (simp add: BootscriptGet_def andThen_def clockNow_def Let_def assms(1,3) d scriptParamsOf_def)
  then show ?thesis using assms(5) by (auto simp: makeScript_def Let_def)
qed

text \<open>C6. A node that asks for its boot script by its MAC address gets it, when the key-value store answers,
  the service knows the hardware and no newer state change is noted: if the node has an enabled
  component, may boot, and its boot data (looked up as above) have a kernel, the answer is the iPXE
  script that loads this kernel with the configured and the special parameters and the initrd, boots,
  and on failure waits and asks again with the next number of tries (after 2^63 - 1, which a client may send, that is -2^63). With an
  initrd the parameters begin with initrd=initrd, and of the configured ones the first text from initrd up to the next
  space is dropped. The access is logged, and nothing else in the store changes. Not covered are
  S3 addresses and a join token in the boot data, and an initrd in the last word of the parameters, on which the service
  panics.\<close>

theorem node_boots:
  assumes "kv_in E C" and "kv_up (kvi E)" and "cached d s" and "imageCache s = []" and "\<forall>t. writeOk E t"
    and "formJoin [] r ''mac'' = mac" and "mac \<noteq> []" and "getIntParam r ''json'' 0 = 0"
    and "compByMAC (sm_Components d) mac = Some c" and "sc_ID c \<noteq> []" and "sc_EndpointEnabled c"
    and "bd = bootDataFor (C (kvs s)) (nodeNames (Some c) mac)" and "im_Path (bd_Kernel bd) \<noteq> []"
    and "mayBoot E (C (kvs s)) c" and "upToDate (C (kvs s)) (smTimeStamp s)" and "plainBoot E bd (scriptParamsOf c mac bd)"
  shows "\<exists>s' now. BootscriptGet E r s =
      (Inr (Reply 200 textHdr (bootText E bd (scriptParamsOf c mac bd) (retryChain E r mac) @ nl)), s') \<and>
    C (kvs s') = (C (kvs s))(accessKey (sc_ID c) ''bootscript'' \<mapsto> int_str now)"
proof -
  let ?s = "s\<lparr>ticks := Suc (ticks s)\<rparr>"
  have "cached d ?s" "imageCache ?s = []" using assms(3,4) by simp_all
  from conjunct1 [OF LookupBy_result [OF assms(1,2) this, where mac = mac]]
  obtain k1 where k1: "C k1 = C (kvs s)" "LookupByMAC E mac ?s = (Inr (bd, c), ?s\<lparr>kvs := k1\<rparr>)"
    by (auto simp: assms(9,12) compOr_def)
  have "\<not> isUnknown bd c" using assms(10,11,13) by (simp add: isUnknown_def)
  from BootscriptGet_mac [OF assms(6-8) k1(2) this] obtain descr where b: "BootscriptGet E r s =
     andThen (knownScript E r bd (scriptParamsOf c mac bd) c mac (getIntParam r ''retry'' 0) descr ([], False)) (finishScript E c) (?s\<lparr>kvs := k1\<rparr>)"
    by blast
  have i: "imageCache (?s\<lparr>kvs := k1\<rparr>) = []" "mayBoot E (C (kvs (?s\<lparr>kvs := k1\<rparr>))) c"
    "upToDate (C (kvs (?s\<lparr>kvs := k1\<rparr>))) (smTimeStamp (?s\<lparr>kvs := k1\<rparr>))" using assms(4,14,15) k1(1) by simp_all
  from knownScript_result [OF assms(1,2) i(1) assms(7) i(2,3) assms(16,13), of r descr "([], False)"]
  obtain k2 where k2: "C k2 = C (kvs s)" "knownScript E r bd (scriptParamsOf c mac bd) c mac (getIntParam r ''retry'' 0) descr ([], False) (?s\<lparr>kvs := k1\<rparr>) =
     (Inr (bootText E bd (scriptParamsOf c mac bd) (retryChain E r mac), False, None), ?s\<lparr>kvs := k2\<rparr>)"
    using k1(1) by auto
  let ?script = "bootText E bd (scriptParamsOf c mac bd) (retryChain E r mac)"
  have "writeOk E (ticks (?s\<lparr>kvs := k2\<rparr>))" using assms(5) by blast
  from finishScript_result [OF assms(1,2) this, of c ?script]
  obtain k3 where k3: "finishScript E c (?script, False, None) (?s\<lparr>kvs := k2\<rparr>) =
      (Inr (Reply 200 textHdr (?script @ nl)), ?s\<lparr>kvs := k2, ticks := ticks (?s\<lparr>kvs := k2\<rparr>) + 2, kvs := k3\<rparr>)"
    "C k3 = (C (kvs s))(accessKey (sc_ID c) ''bootscript'' \<mapsto> int_str (nowAt E (Suc (ticks (?s\<lparr>kvs := k2\<rparr>)))))"
    using k2(1) by auto
  show ?thesis
    unfolding b
    by (rule exI [of _ "?s\<lparr>kvs := k2, ticks := ticks (?s\<lparr>kvs := k2\<rparr>) + 2, kvs := k3\<rparr>"],
        rule exI [of _ "nowAt E (Suc (ticks (?s\<lparr>kvs := k2\<rparr>)))"]) (simp add: andThen_def k2(2) k3)
qed

subsection \<open>A concrete boot\<close>

definition bootStored :: BootDataStore where
  "bootStored = \<lparr>ds_Params = ''initrd=old quiet'', ds_Kernel = ''/kernel/1'', ds_Initrd = ''/initrd/1'',
     ds_CloudInit = noCloudInit, ds_ReferralToken = ''t1''\<rparr>"

definition bootStore :: "(string \<times> string) list" where
  "bootStore =
     [(''/params/x0c0s1b0n0'', jprint (bootDataStoreJson bootStored)),
      (''/kernel/1'', jprint (imageDataJson \<lparr>im_Path = ''http://s/k'', im_Params = []\<rparr>)),
      (''/initrd/1'', jprint (imageDataJson \<lparr>im_Path = ''http://s/i'', im_Params = []\<rparr>))]"

definition bootReq :: request where
  "bootReq = \<lparr>rq_Method = ''GET'', rq_Path = ''/boot/v1/bootscript'', rq_Query = [],
     rq_Form = [(''mac'', [''00:11:22:33:44:55'']), (''retry'', [''7''])],
     rq_Body = Inr [], rq_XFF = [], rq_RemoteAddr = []\<rparr>"

definition bootBd :: BootData where
  "bootBd = \<lparr>bd_Params = ''initrd=old quiet'', bd_Kernel = \<lparr>im_Path = ''http://s/k'', im_Params = []\<rparr>,
     bd_Initrd = \<lparr>im_Path = ''http://s/i'', im_Params = []\<rparr>, bd_CloudInit = noCloudInit, bd_ReferralToken = ''t1''\<rparr>"

lemma bootStore_data:
  "bootDataFor (map_of bootStore) (nodeNames (Some demoComp) ''00:11:22:33:44:55'') = bootBd"
proof -
  have i: "imageAt (map_of bootStore) ''/kernel/1'' = Some \<lparr>im_Path = ''http://s/k'', im_Params = []\<rparr>"
    "imageAt (map_of bootStore) ''/initrd/1'' = Some \<lparr>im_Path = ''http://s/i'', im_Params = []\<rparr>"
    by (simp_all add: imageAt_def bootStore_def image_ok_def)
  have h: "hostData (map_of bootStore) ''x0c0s1b0n0'' = Some bootStored"
    by (simp add: hostData_def bootStore_def paramsPfx_def) (simp add: bootStored_def stored_ok_def)
  have k: "makeKey ''/kernel/1'' [] = ''/kernel/1''" "makeKey ''/initrd/1'' [] = ''/initrd/1''" by code_simp+
  have n: "sc_ID demoComp = ''x0c0s1b0n0''" by code_simp
  show ?thesis by (simp add: bootDataFor_def nodeNames_def lookupNames_def n h dataOf_def imgOf_def k i bootBd_def bootStored_def)
qed

lemma bootBd_plain: "plainBoot demoSenv bootBd (scriptParamsOf demoComp ''00:11:22:33:44:55'' bootBd)"
  by code_simp

text \<open>The script in full.\<close>

definition bootLines :: "string list" where
  "bootLines =
     [''#!ipxe'',
      ''kernel --name kernel http://s/k initrd=initrd  quiet xname=x0c0s1b0n0 nid=7 bss_referral_token=t1 BOOTIF=01-00-11-22-33-44-55 '' @
        ''ds=nocloud-net;s=http://10.0.0.2/ || goto boot_retry'',
      ''initrd --name initrd http://s/i || goto boot_retry'',
      ''boot || goto boot_retry'', '':boot_retry'', ''sleep 30'',
      ''chain https://api-gw/apis/bss/boot/v1/bootscript?mac=00:11:22:33:44:55&retry=8'', [], []]"

lemma boot_text:
  "bootText demoSenv bootBd (scriptParamsOf demoComp ''00:11:22:33:44:55'' bootBd) (retryChain demoSenv bootReq ''00:11:22:33:44:55'') @ nl =
   strJoin nl bootLines"
proof -
  have c: "strTrim (commandLine demoSenv bootBd (scriptParamsOf demoComp ''00:11:22:33:44:55'' bootBd)) '' '' =
      ''initrd=initrd  quiet xname=x0c0s1b0n0 nid=7 bss_referral_token=t1 BOOTIF=01-00-11-22-33-44-55 '' @
        ''ds=nocloud-net;s=http://10.0.0.2/''" by code_simp
  have f: "formJoin [] bootReq ''retry'' = ''7''" by code_simp
  have "digit_in 10 CHR ''7'' = Some 7" by code_simp
  then have "parseInt0 ''7'' = (None, 7)" by (simp add: parseInt0_def parseUint0_def)
  then have n: "getIntParam bootReq ''retry'' 0 = 7" by (simp add: getIntParam_def f)
  have d: "nat_str (retryDelay demoSenv) = ''30''" by code_simp
  have i: "int_str 8 = ''8''" by code_simp
  have u: "scriptURL demoSenv (rq_Path bootReq) = ''chain https://api-gw/apis/bss/boot/v1/bootscript''" by code_simp
  show ?thesis
    by (simp add: bootText_def c d retryChain_def u nextTry_def n i bootLines_def nl_def) (simp add: bootBd_def orRetry_def nl_def)
qed

lemma node_boots_witness:
  "\<exists>s'. BootscriptGet demoSenv bootReq (demoSvc bootStore) = (Inr (Reply 200 textHdr (strJoin nl bootLines)), s')"
proof -
  have r: "formJoin [] bootReq ''mac'' = ''00:11:22:33:44:55''" "getIntParam bootReq ''json'' 0 = 0" by code_simp+
  have c: "compByMAC (sm_Components demoSM) ''00:11:22:33:44:55'' = Some demoComp" by code_simp
  have d: "sc_ID demoComp \<noteq> []" "sc_EndpointEnabled demoComp" "im_Path (bd_Kernel bootBd) \<noteq> []" "\<not> isBlocked (blockedRoles demoSenv) (sc_Role demoComp)"
    by code_simp+
  have u: "map_of bootStore UpdateTimestampKey = None" by (simp add: bootStore_def UpdateTimestampKey_def)
  have w: "\<forall>t. writeOk demoSenv t" by (simp add: demoSenv_def)
  have "\<exists>s' now. BootscriptGet demoSenv bootReq (demoSvc bootStore) = (Inr (Reply 200 textHdr
     (bootText demoSenv bootBd (scriptParamsOf demoComp ''00:11:22:33:44:55'' bootBd) (retryChain demoSenv bootReq ''00:11:22:33:44:55'') @ nl)), s') \<and>
     map_of (kvs s') = (map_of (kvs (demoSvc bootStore)))(accessKey (sc_ID demoComp) ''bootscript'' \<mapsto> int_str now)"
    by (rule node_boots [OF demo_in demo_up demo_cached demoSvc_simps(1) w r(1) _ r(2) c d(1,2) _ d(3) _ _ bootBd_plain])
      (use d(4) u in \<open>simp_all add: bootStore_data mayBoot_def upToDate_def\<close>)
  then show ?thesis unfolding boot_text by blast
qed

end
