(* ===== verification/HsmMerge.thy ===== *)
theory HsmMerge
  imports SmCache
begin

text \<open>
  What the merging of the answers of the state manager (getStateFromHSM in sm.go) yields, and the canonical form of
  the MAC addresses that it enters.
\<close>

subsection \<open>MAC addresses\<close>

lemma ensureLegalMAC_cases:
  "ensureLegalMAC mac = badMAC \<or> (\<exists>ns. ensureLegalMAC mac = macText ns \<and> parseMAC (macText ns) = Some ns)"
  using parseMAC_macText parseMAC_octets by (force simp: ensureLegalMAC_def split: option.split)

lemma ensureLegalMAC_bad: "ensureLegalMAC badMAC = badMAC" "parseMAC badMAC = None"
  by code_simp+

text \<open>Digits without separators: the octets that every two bytes of a text denote, where a single byte at the end is left out.\<close>

fun pairOctets :: "string \<Rightarrow> nat list option" where
  "pairOctets (a # b # r) =
     (case (hexPair [a, b], pairOctets r) of (Some x, Some xs) \<Rightarrow> Some (x # xs) | _ \<Rightarrow> None)"
| "pairOctets _ = Some []"

definition digitsMAC :: "string \<Rightarrow> nat list option" where
  "digitsMAC s = (case pairOctets s of Some ns \<Rightarrow> if length ns \<in> {6, 8, 20} then Some ns else None | None \<Rightarrow> None)"

fun colonPairs :: "string \<Rightarrow> string list" where
  "colonPairs (a # b # r) = [a, b] # colonPairs r"
| "colonPairs _ = []"

definition asciiText :: "string \<Rightarrow> bool" where
  "asciiText s \<longleftrightarrow> list_all (\<lambda>c. (of_char c :: nat) < 128) s"

lemma parity: "even i \<Longrightarrow> i mod 2 \<noteq> Suc 0 \<and> Suc i mod 2 = (Suc 0 :: nat)"
  by (simp add: even_iff_mod_2_eq_zero mod_Suc)

lemma macPieces_Nil: "macPieces i [] [] = []"
  by (simp add: macPieces.simps)

lemma macPieces_single: "asciiText [a] \<Longrightarrow> even i \<Longrightarrow> macPieces i [] [a] = []"
  using parity [of i]
  by (simp add: macPieces.simps [of i "[]" "[a]"] macPieces.simps [of _ _ "[]"] asciiText_def runeLen_ascii runeText_ascii Let_def)

lemma macPieces_ascii: "asciiText s \<Longrightarrow> even i \<Longrightarrow> macPieces i [] s = colonPairs s"
proof (induction s arbitrary: i rule: colonPairs.induct)
  case (1 a b r)
  then have "macPieces (Suc (Suc i)) [] r = colonPairs r" by (simp add: asciiText_def)
  moreover have "macPieces i [] (a # b # r) = [a, b] # macPieces (Suc (Suc i)) [] r"
    using 1(2,3) parity [of i] by (simp add: macPieces.simps [of i "[]" "a # b # r"] macPieces.simps [of "Suc i" "[a]" "b # r"]
        asciiText_def runeLen_ascii runeText_ascii Let_def)
  ultimately show ?case by simp
qed (simp_all add: macPieces_Nil macPieces_single)

lemma parsePairs_colon:
  "colonPairs s \<noteq> [] \<Longrightarrow> parsePairs CHR '':'' (strJoin '':'' (colonPairs s)) = pairOctets s"
proof (induction s rule: colonPairs.induct)
  case (1 a b r)
  show ?case
  proof (cases "colonPairs r")
    case Nil
    then have "pairOctets r = Some []" by (cases r rule: colonPairs.cases) auto
    with Nil show ?thesis by (simp split: option.split)
  next
    case (Cons p ps)
    then obtain c d where p: "p = [c, d]" by (cases r rule: colonPairs.cases) auto
    obtain z where "strJoin '':'' (colonPairs r) = c # d # z" by (cases ps) (simp_all add: Cons p)
    with 1 Cons show ?thesis by (simp split: option.split)
  qed
qed simp_all

lemma length_colonPairs: "length (colonPairs s) = length s div 2"
  by (induction s rule: colonPairs.induct) simp_all

lemma pairOctets_length: "pairOctets s = Some ns \<Longrightarrow> length ns = length s div 2"
  by (induction s arbitrary: ns rule: pairOctets.induct) (auto split: option.splits)

lemma length_joined: "length (strJoin '':'' (colonPairs s)) = 3 * (length s div 2) - 1"
proof (induction s rule: colonPairs.induct)
  case (1 a b r)
  then show ?case using length_colonPairs [of r] by (cases "colonPairs r") auto
qed simp_all

lemma parseMAC_joined: "parseMAC (strJoin '':'' (colonPairs s)) = digitsMAC s"
proof (cases "length s div 2 < 5")
  case True
  have "length ns \<notin> {6, 8, 20}" if "pairOctets s = Some ns" for ns
    using pairOctets_length [OF that] True by auto
  moreover have "length (strJoin '':'' (colonPairs s)) < 14" using True by (simp add: length_joined)
  ultimately show ?thesis by (auto simp: parseMAC_def digitsMAC_def split: option.split)
next
  case False
  then obtain a b c d r where s: "s = a # b # c # d # r"
    by (cases s rule: colonPairs.cases; cases "tl (tl s)" rule: colonPairs.cases) auto
  have "\<not> length (strJoin '':'' (colonPairs s)) < 14" using False by (simp add: length_joined)
  moreover have "strJoin '':'' (colonPairs s) ! 2 = CHR '':''" by (simp add: s)
  moreover have "parsePairs CHR '':'' (strJoin '':'' (colonPairs s)) = pairOctets s" by (rule parsePairs_colon) (simp add: s)
  ultimately show ?thesis by (simp add: parseMAC_def digitsMAC_def split: option.split)
qed

lemma ensureLegalMAC_ascii:
  "asciiText mac \<Longrightarrow> ensureLegalMAC mac =
     (case parseMAC mac of Some ns \<Rightarrow> macText ns
      | None \<Rightarrow> (case digitsMAC mac of Some ns \<Rightarrow> macText ns | None \<Rightarrow> badMAC))"
  by (simp add: ensureLegalMAC_def macPieces_ascii parseMAC_joined split: option.split)

text \<open>C39. For a text in ASCII, ensureLegalMAC gives the canonical form (hexadecimal octets in lower case, separated by colons) of
  the address that the text denotes; if it denotes none but its bytes, taken two at a time, are
  six, eight or twenty octets in hexadecimal, the canonical form of these; and for every other text, that for a missing address. An
  odd byte at the end does not matter. Whatever the text, the result is one of these two kinds, and
  a second application changes nothing.\<close>
theorem ensureLegalMAC_canonical:
  "(asciiText mac \<longrightarrow> ensureLegalMAC mac =
     (case parseMAC mac of Some ns \<Rightarrow> macText ns
      | None \<Rightarrow> (case digitsMAC mac of Some ns \<Rightarrow> macText ns | None \<Rightarrow> badMAC))) \<and>
   (ensureLegalMAC mac = badMAC \<or> (\<exists>ns. ensureLegalMAC mac = macText ns \<and> list_all (\<lambda>n. n < 256) ns \<and> length ns \<in> {6, 8, 20})) \<and>
   (case parseMAC mac of Some ns \<Rightarrow> parseMAC (ensureLegalMAC mac) = Some ns | None \<Rightarrow> True) \<and>
   ensureLegalMAC (ensureLegalMAC mac) = ensureLegalMAC mac"
proof (intro conjI)
  show "asciiText mac \<longrightarrow> ensureLegalMAC mac =
     (case parseMAC mac of Some ns \<Rightarrow> macText ns
      | None \<Rightarrow> (case digitsMAC mac of Some ns \<Rightarrow> macText ns | None \<Rightarrow> badMAC))"
    by (simp add: ensureLegalMAC_ascii)
  show "ensureLegalMAC mac = badMAC \<or> (\<exists>ns. ensureLegalMAC mac = macText ns \<and> list_all (\<lambda>n. n < 256) ns \<and> length ns \<in> {6, 8, 20})"
    using ensureLegalMAC_cases [of mac] parseMAC_octets by blast
  show "case parseMAC mac of Some ns \<Rightarrow> parseMAC (ensureLegalMAC mac) = Some ns | None \<Rightarrow> True"
    using parseMAC_octets [of mac] parseMAC_macText by (auto simp: ensureLegalMAC_def split: option.split)
  show "ensureLegalMAC (ensureLegalMAC mac) = ensureLegalMAC mac"
    using ensureLegalMAC_cases [of mac]
  proof
    assume "ensureLegalMAC mac = badMAC"
    then show ?thesis by (simp add: ensureLegalMAC_bad)
  next
    assume "\<exists>ns. ensureLegalMAC mac = macText ns \<and> parseMAC (macText ns) = Some ns"
    then show ?thesis by (auto simp: ensureLegalMAC_def [of "ensureLegalMAC mac"])
  qed
qed

text \<open>An address with digits only, one in the notation with dots, and no address.\<close>

lemma ensureLegalMAC_canonical_witness:
  "ensureLegalMAC ''0040A682F6C6'' = ''00:40:a6:82:f6:c6'' \<and> ensureLegalMAC ''0040.a682.f6C6'' = ''00:40:a6:82:f6:c6'' \<and>
   ensureLegalMAC ''0040a682f6'' = badMAC"
proof -
  have "asciiText ''0040A682F6C6'' \<and> parseMAC ''0040A682F6C6'' = None \<and>
      digitsMAC ''0040A682F6C6'' = Some [0, 64, 166, 130, 246, 198]" by code_simp
  moreover have "asciiText ''0040.a682.f6C6'' \<and> parseMAC ''0040.a682.f6C6'' = Some [0, 64, 166, 130, 246, 198]" by code_simp
  moreover have "asciiText ''0040a682f6'' \<and> parseMAC ''0040a682f6'' = None \<and> digitsMAC ''0040a682f6'' = None" by code_simp
  moreover have "macText [0, 64, 166, 130, 246, 198] = ''00:40:a6:82:f6:c6''" by code_simp
  ultimately show ?thesis
    using conjunct1 [OF ensureLegalMAC_canonical, of "''0040A682F6C6''"] conjunct1 [OF ensureLegalMAC_canonical, of "''0040.a682.f6C6''"]
      conjunct1 [OF ensureLegalMAC_canonical, of "''0040a682f6''"] by simp
qed

subsection \<open>Components\<close>

lemma addMac_id [simp]: "sc_ID (addMac m c) = sc_ID c"
  by (simp add: addMac_def)

lemma getMacs_id [simp]: "sc_ID (getMacs c ms) = sc_ID c"
  unfolding getMacs_def by (induction ms arbitrary: c) simp_all

lemma updateComp_id: "updateComp c e = Inr c' \<Longrightarrow> sc_ID c' = sc_ID c"
  by (auto simp: updateComp_def Let_def split: if_splits option.splits)

lemma mergeEndpoints_ids: "mergeEndpoints es cs cMap = Inr (cs', cMap') \<Longrightarrow> map sc_ID cs' = map sc_ID cs"
proof (induction es arbitrary: cs cMap)
  case (Cons e es)
  show ?case
  proof (cases "compIndex cs (ce_ID e)")
    case None
    with Cons show ?thesis by simp
  next
    case (Some i)
    then obtain c where c: "updateComp (cs ! i) e = Inr c" using Cons.prems by (auto split: sum.splits)
    have "map sc_ID (cs[i := c]) = map sc_ID cs"
      using updateComp_id [OF c] by (metis list_update_id map_update)
    with Cons.IH Cons.prems Some c show ?thesis by simp
  qed
qed simp

lemma mergeEth_ids [simp]: "map sc_ID (fst (mergeEth e x)) = map sc_ID (fst x)"
  by (cases x) (simp add: mergeEth_def)

lemma fold_mergeEth_ids: "map sc_ID (fst (fold mergeEth eths x)) = map sc_ID (fst x)"
  by (induction eths arbitrary: x) simp_all

lemma compIndex_None: "compIndex cs x = None \<longleftrightarrow> x \<notin> sc_ID ` set cs"
proof -
  have "compIndex cs x = None \<longleftrightarrow> (\<forall>i<length cs. sc_ID (cs ! i) \<noteq> x)"
    by (auto simp: compIndex_def find_None_iff)
  then show ?thesis by (metis image_iff in_set_conv_nth)
qed

text \<open>The Redfish endpoints that the loop sees.\<close>

definition rfSeen :: "endpoint list \<Rightarrow> string set \<Rightarrow> string set" where
  "rfSeen es ids = {ce_RfEndpointID e | e. e \<in> set es \<and> ce_RfEndpointID e \<noteq> [] \<and> ce_ID e \<in> ids}"

lemma rfSeen_Cons:
  "rfSeen (e # es) ids = (if ce_RfEndpointID e \<noteq> [] \<and> ce_ID e \<in> ids then {ce_RfEndpointID e} else {}) \<union> rfSeen es ids"
  by (auto simp: rfSeen_def)

lemma mergeEndpoints_rfs:
  "mergeEndpoints es cs cMap = Inr (cs', cMap') \<Longrightarrow> distinct cMap \<Longrightarrow>
     distinct cMap' \<and> set cMap' = set cMap \<union> rfSeen es (sc_ID ` set cs)"
proof (induction es arbitrary: cs cMap)
  case Nil
  then show ?case by (simp add: rfSeen_def)
next
  case (Cons e es)
  show ?case
  proof (cases "compIndex cs (ce_ID e)")
    case None
    with Cons show ?thesis by (simp add: rfSeen_Cons compIndex_None)
  next
    case (Some i)
    then obtain c where c: "updateComp (cs ! i) e = Inr c" using Cons.prems by (auto split: sum.splits)
    have "map sc_ID (cs[i := c]) = map sc_ID cs"
      using updateComp_id [OF c] by (metis list_update_id map_update)
    then have s: "sc_ID ` set (cs[i := c]) = sc_ID ` set cs" by (metis list.set_map)
    have "ce_ID e \<in> sc_ID ` set cs" using Some compIndex_None [of cs "ce_ID e"] by auto
    then show ?thesis
      using Cons.IH [of "cs[i := c]" "if ce_RfEndpointID e \<noteq> [] then List.insert (ce_RfEndpointID e) cMap else cMap"] Cons.prems Some c
      by (auto simp: s rfSeen_Cons split: if_splits)
  qed
qed

subsection \<open>Interfaces\<close>

lemma foldl_addresses:
  "map_of (foldl (\<lambda>m ip. if ip \<noteq> [] then AList.update ip e m else m) addresses ips) ip =
     (if ip \<noteq> [] \<and> ip \<in> set ips then Some e else map_of addresses ip)"
  by (induction ips arbitrary: addresses) (auto simp: update_conv')

lemma mergeEth_addresses:
  "map_of (snd (mergeEth e x)) ip = (if ip \<noteq> [] \<and> ip \<in> set (eth_IPAddrs e) then Some e else map_of (snd x) ip)"
  by (cases x) (simp add: mergeEth_def foldl_addresses)

lemma macsOf_addMac [simp]: "macsOf (addMac m c) = macsOf c @ [m]"
  by (simp add: addMac_def macsOf_def)

lemma fold_mergeEth_addresses:
  "map_of (snd (fold mergeEth eths x)) ip =
     (case (if ip = [] then None else find (\<lambda>e. ip \<in> set (eth_IPAddrs e)) (rev eths)) of
        None \<Rightarrow> map_of (snd x) ip | Some e \<Rightarrow> Some e)"
proof (induction eths rule: rev_induct)
  case (snoc e eths)
  then show ?case by (simp add: mergeEth_addresses)
qed simp

lemma mergeEth_macs:
  "c \<in> set (fst (mergeEth e (cs, m))) \<Longrightarrow> \<exists>c0\<in>set cs. sc_ID c0 = sc_ID c \<and> set (macsOf c0) \<subseteq> set (macsOf c) \<and>
     (sc_ID c = eth_CompID e \<longrightarrow> ensureLegalMAC (eth_MACAddr e) \<in> set (macsOf c))"
  by (auto simp: mergeEth_def split: if_splits)

lemma fold_mergeEth_macs:
  "c \<in> set (fst (fold mergeEth eths x)) \<Longrightarrow> e \<in> set eths \<Longrightarrow> sc_ID c = eth_CompID e \<Longrightarrow>
     ensureLegalMAC (eth_MACAddr e) \<in> set (macsOf c)"
proof (induction eths arbitrary: c rule: rev_induct)
  case (snoc e' eths)
  obtain cs m where f: "fold mergeEth eths x = (cs, m)" by fastforce
  with snoc.prems(1) have "c \<in> set (fst (mergeEth e' (cs, m)))" by simp
  from mergeEth_macs [OF this] obtain c0 where c0: "c0 \<in> set cs" "sc_ID c0 = sc_ID c" "set (macsOf c0) \<subseteq> set (macsOf c)"
    "sc_ID c = eth_CompID e' \<longrightarrow> ensureLegalMAC (eth_MACAddr e') \<in> set (macsOf c)" by blast
  show ?case
  proof (cases "e = e'")
    case True
    with c0(4) snoc.prems(3) show ?thesis by simp
  next
    case False
    with snoc.prems(2) have "e \<in> set eths" by simp
    with snoc.IH [of c0] c0 f snoc.prems(3) show ?thesis by auto
  qed
qed simp

text \<open>C13. The state made of the answers of the state manager has the components of its first answer, in order; an IP address
  leads to the last interface that has it, and the empty one to none; a component has the canonical MAC address
  of each of its interfaces; and the service subscribes to the components and, once each, to the Redfish endpoints of theirs. The hypothesis is
  that no endpoint makes the merging panic.\<close>
theorem mergeState_correct:
  assumes "mergeState cs es eths = Inr (d, subs)"
  shows "map sc_ID (sm_Components d) = map sc_ID cs \<and>
    (\<forall>ip. map_of (sm_IPAddrs d) ip = (if ip = [] then None else find (\<lambda>e. ip \<in> set (eth_IPAddrs e)) (rev eths))) \<and>
    (\<forall>e\<in>set eths. \<forall>c\<in>set (sm_Components d). sc_ID c = eth_CompID e \<longrightarrow> ensureLegalMAC (eth_MACAddr e) \<in> set (macsOf c)) \<and>
    (\<exists>rfs. subs = map sc_ID cs @ rfs \<and> distinct rfs \<and> set rfs = rfSeen es (sc_ID ` set cs))"
proof -
  obtain cs1 rfs where m: "mergeEndpoints es cs [] = Inr (cs1, rfs)"
    using assms by (auto simp: mergeState_def split: sum.splits prod.splits)
  have d: "sm_Components d = fst (fold mergeEth eths (cs1, []))" "sm_IPAddrs d = snd (fold mergeEth eths (cs1, []))"
    "subs = map sc_ID (sm_Components d) @ rfs"
    using assms by (auto simp: mergeState_def m split: prod.splits)
  have i: "map sc_ID (sm_Components d) = map sc_ID cs"
    using mergeEndpoints_ids [OF m] by (simp add: d(1) fold_mergeEth_ids)
  show ?thesis
    unfolding d(3) i using mergeEndpoints_rfs [OF m] fold_mergeEth_macs [of _ eths "(cs1, [])"]
    by (auto simp: d(1,2) fold_mergeEth_addresses split: option.split)
qed

definition demoMerge :: "panic + SMData \<times> string list" where
  "demoMerge = mergeState [demoComp]
     [\<lparr>ce_ID = sc_ID demoComp, ce_FQDN = ''n1'', ce_MACAddr = ''00:40:a6:82:f6:c5'', ce_Enabled = None, ce_Type = CompEPTypeOther,
       ce_NICs = None, ce_RfEndpointID = ''x0c0s1b0''\<rparr>]
     [\<lparr>eth_MACAddr = ''0040a682f6c6'', eth_CompID = sc_ID demoComp, eth_IPAddrs = [''10.0.0.7'', '''']\<rparr>]"

lemma demoMerge_ok: "\<not> isl demoMerge"
  by code_simp

lemma mergeState_correct_witness:
  "\<exists>d subs. demoMerge = Inr (d, subs) \<and> map sc_ID (sm_Components d) = [''x0c0s1b0n0''] \<and> subs = [''x0c0s1b0n0'', ''x0c0s1b0''] \<and>
     map_option eth_CompID (map_of (sm_IPAddrs d) ''10.0.0.7'') = Some ''x0c0s1b0n0'' \<and>
     ''00:40:a6:82:f6:c6'' \<in> set (macsOf (hd (sm_Components d)))"
proof -
  obtain d subs where m: "demoMerge = Inr (d, subs)"
    using sum.collapse(2) [OF demoMerge_ok] by (metis surj_pair)
  have c: "sc_ID demoComp = ''x0c0s1b0n0''" by code_simp
  have e: "ensureLegalMAC ''0040a682f6c6'' = ''00:40:a6:82:f6:c6''" by code_simp
  note p = mergeState_correct [OF m [unfolded demoMerge_def], unfolded c]
  then obtain rfs where r: "subs = [''x0c0s1b0n0''] @ rfs" "distinct rfs" "set rfs = {''x0c0s1b0''}"
    by (auto simp: c rfSeen_def)
  then have "rfs = [''x0c0s1b0'']" by (cases rfs; cases "tl rfs") auto
  with p r(1) m show ?thesis
    by (cases "sm_Components d") (auto simp: c e)
qed

end
