(* ===== verification/OAuth.thy ===== *)
theory OAuth
  imports Inventory Codec Effects
begin

text \<open>
  The OAuth2 client of the service (cmd/boot-script-service/oauth.go): registration, token grant, the
  polling for an access token and the check of the token at hand.

  An exchange over HTTP fails when the request cannot be made, when there is no answer, or when the
  body of the answer cannot be read; \<open>oa_post\<close> gives its outcome from its number, the address, the
  headers and the body. The checks of a JWT by the library jwx are \<open>oa_jwt\<close>: the error of parsing
  it, or the reason why it is not valid now, if any. \<open>oa_keys\<close> is what fetching a key set and
  making the verifier from it yield: the error of fetching, of printing, or of the verifier.
\<close>

datatype exchange = NoRequest goerr | NoAnswer goerr | NoBody goerr | Body string

datatype keyFetch = NoKeySet goerr | NoKeyText goerr | NoVerifier "string option" goerr | Verifier string

record oauthClient =
  oc_Id :: string
  oc_Secret :: string
  oc_RegistrationAccessToken :: string

record oauthEnv =
  oa_post :: "nat \<Rightarrow> string \<Rightarrow> (string \<times> string list) list \<Rightarrow> string \<Rightarrow> exchange"
  oa_jwt :: "nat \<Rightarrow> string \<Rightarrow> goerr + goerr option"
  oa_keys :: "nat \<Rightarrow> string \<Rightarrow> keyFetch"
  oauth2AdminBaseURL :: string
  authRetryCount :: "64 word"
  authRetryWait :: "64 word"

record oauthSt =
  accessToken :: string
  tokenAuth :: "string option"
  oclient :: oauthClient
  oticks :: nat

type_synonym 'a oauth = "(oauthSt, panic, 'a) eff"

definition otick :: "nat oauth" where
  "otick s = (Inr (oticks s), s\<lparr>oticks := Suc (oticks s)\<rparr>)"

subsection \<open>Keys\<close>

text \<open>The verifier is set, to whatever comes with the error, also when its making fails.\<close>

definition fetchPublicKey :: "oauthEnv \<Rightarrow> string \<Rightarrow> goerr option oauth" where
  "fetchPublicKey E url =
     andThen otick (\<lambda>t s.
     case oa_keys E t url of
       NoKeySet e \<Rightarrow> (Inr (Some e), s)
     | NoKeyText e \<Rightarrow> (Inr (Some (Wrapped ''failed to marshal JWKS'' e)), s)
     | NoVerifier v e \<Rightarrow> (Inr (Some (Wrapped ''failed to initialize JWKS'' e)), s\<lparr>tokenAuth := v\<rparr>)
     | Verifier v \<Rightarrow> (Inr None, s\<lparr>tokenAuth := Some v\<rparr>))"

subsection \<open>Exchanges\<close>

text \<open>The answer to a request, as a JSON object; a null is an empty one. \<open>whenNoRequest\<close> is what the
  code does when the request cannot be made.\<close>

definition exchangeJson :: "(goerr \<Rightarrow> (goerr + CloudDataType) oauth) \<Rightarrow> exchange \<Rightarrow> (goerr + CloudDataType) oauth" where
  "exchangeJson whenNoRequest x =
     (case x of
        NoRequest e \<Rightarrow> whenNoRequest e
      | NoAnswer e \<Rightarrow> ret (Inl (Wrapped ''failed to do request'' e))
      | NoBody e \<Rightarrow> ret (Inl (Wrapped ''failed to read response body'' e))
      | Body b \<Rightarrow>
          (case unmarshal decMap None b of
             (m, ok) \<Rightarrow> ret (if ok then Inr m else Inl (Wrapped ''failed to unmarshal response body'' (Err ''invalid JSON'')))))"

definition member :: "CloudDataType \<Rightarrow> string \<Rightarrow> json option" where
  "member m k = (case m of None \<Rightarrow> None | Some ms \<Rightarrow> (case map_of ms k of Some JNull \<Rightarrow> None | v \<Rightarrow> v))"

text \<open>The type assertion to a text, which panics for anything else.\<close>

definition asText :: "json option \<Rightarrow> string oauth" where
  "asText v = (case v of Some (JStr t) \<Rightarrow> ret t | _ \<Rightarrow> fail BadAssertion)"

definition setClient :: "(oauthClient \<Rightarrow> oauthClient) \<Rightarrow> unit oauth" where
  "setClient f s = (Inr (), s\<lparr>oclient := f (oclient s)\<rparr>)"

definition registration :: string where
  "registration = strJoin [CHR 0x0A] ([''{''] @ map (\<lambda>l. [CHR 0x09, CHR 0x09] @ l)
     [''\"client_name\":                \"bss\",'',
      ''\"token_endpoint_auth_method\": \"client_secret_post\",'',
      ''\"scope\":                      \"openid email profile read\",'',
      ''\"grant_types\":                [\"client_credentials\"],'',
      ''\"response_types\":             [\"token\"],'',
      ''\"redirect_uris\":               [\"http://hydra:5555/callback\"],'',
      ''\"state\":                      \"12345678910\"''] @ [[CHR 0x09, CHR ''}'']])"

definition CreateOAuthClient :: "oauthEnv \<Rightarrow> string \<Rightarrow> (goerr + string) oauth" where
  "CreateOAuthClient E registerUrl =
     andThen otick (\<lambda>t.
     let answer = oa_post E t registerUrl [(''Content-Type'', [''application/json''])] registration in
     andThen (exchangeJson (\<lambda>e. ret (Inl (Wrapped ''failed to make request'' e))) answer) (\<lambda>r.
     case r of
       Inl e \<Rightarrow> ret (Inl e)
     | Inr rjson \<Rightarrow>
         andThen (asText (member rjson ''client_id'')) (\<lambda>x. andThen (setClient (\<lambda>c. c\<lparr>oc_Id := x\<rparr>)) (\<lambda>_.
         andThen (asText (member rjson ''client_secret'')) (\<lambda>x. andThen (setClient (\<lambda>c. c\<lparr>oc_Secret := x\<rparr>)) (\<lambda>_.
         andThen (asText (member rjson ''registration_access_token'')) (\<lambda>x.
         andThen (setClient (\<lambda>c. c\<lparr>oc_RegistrationAccessToken := x\<rparr>)) (\<lambda>_. ret (Inr (case answer of Body b \<Rightarrow> b | _ \<Rightarrow> []))))))))))"

text \<open>The token in an answer.\<close>

definition tokenOf :: "goerr + CloudDataType \<Rightarrow> (goerr + string) oauth" where
  "tokenOf r =
     (case r of
        Inl e \<Rightarrow> ret (Inl e)
      | Inr rjson \<Rightarrow>
          (case member rjson ''access_token'' of
             None \<Rightarrow> ret (Inl (Err ''no access token found''))
           | Some v \<Rightarrow> andThen (asText (Some v)) (\<lambda>t. ret (Inr t))))"

text \<open>The headers of the request are set before the error of making it is looked at; there is no
  request then.\<close>

definition PerformTokenGrant :: "oauthEnv \<Rightarrow> string \<Rightarrow> (goerr + string) oauth" where
  "PerformTokenGrant E remoteUrl =
     andThen otick (\<lambda>t s.
     (let c = oclient s;
          body = ''grant_type=client_credentials'' @ ''&client_id='' @ oc_Id c @ ''&client_secret='' @ oc_Secret c @ ''&scope=read'';
          headers = [(''Content-Type'', [''application/x-www-form-urlencoded'']),
                     (''Authorization'', [''Bearer '' @ oc_RegistrationAccessToken c])] in
      andThen (exchangeJson (\<lambda>_. fail NilPointer) (oa_post E t remoteUrl headers body)) tokenOf s))"

definition FetchAccessToken :: "oauthEnv \<Rightarrow> string \<Rightarrow> (goerr + string) oauth" where
  "FetchAccessToken E remoteUrl =
     andThen otick (\<lambda>t.
     andThen (exchangeJson (\<lambda>_. fail NilPointer) (oa_post E t remoteUrl [(''no-browser'', [])] [])) tokenOf)"

definition QuoteArrayStrings :: "string list \<Rightarrow> string list" where
  "QuoteArrayStrings arr = map (\<lambda>v. [CHR 0x22] @ v @ [CHR 0x22]) arr"

subsection \<open>The access token\<close>

definition setToken :: "string \<Rightarrow> unit oauth" where
  "setToken t s = (Inr (), s\<lparr>accessToken := t\<rparr>)"

text \<open>The loop with \<open>n\<close> attempts left.\<close>

fun pollLoop :: "oauthEnv \<Rightarrow> nat \<Rightarrow> goerr option oauth" where
  "pollLoop E 0 = ret (Some (Err (''Exhausted '' @ nat_str (unat (authRetryCount E)) @
     '' attempts at obtaining client credentials and token'')))"
| "pollLoop E (Suc n) =
     andThen (FetchAccessToken E (oauth2AdminBaseURL E @ ''/token'')) (\<lambda>r.
     case r of
       Inl _ \<Rightarrow> pollLoop E n
     | Inr token \<Rightarrow> andThen (setToken token) (\<lambda>_. ret None))"

definition PollClientCreds :: "oauthEnv \<Rightarrow> goerr option oauth" where
  "PollClientCreds E =
     (if \<not> durationOk (authRetryWait E) then ret (Some (Err ''Invalid retry interval''))
      else pollLoop E (unat (authRetryCount E)))"

text \<open>The error of parsing the token, or the reason why it is not valid.\<close>

definition JWTIsValid :: "oauthEnv \<Rightarrow> string \<Rightarrow> (goerr + goerr option) oauth" where
  "JWTIsValid E jwtStr =
     andThen otick (\<lambda>t.
     ret (case oa_jwt E t jwtStr of
            Inl e \<Rightarrow> Inl (Wrapped ''failed to parse JWT string'' e)
          | Inr reason \<Rightarrow> Inr reason))"

definition JWTTestAndRefresh :: "oauthEnv \<Rightarrow> goerr option oauth" where
  "JWTTestAndRefresh E s =
     andThen (if accessToken s \<noteq> [] then JWTIsValid E (accessToken s) else ret (Inr (Some (Err [])))) (\<lambda>v.
     if v = Inr None then ret None
     else andThen (PollClientCreds E) (\<lambda>err.
          ret (map_option (Wrapped ''Failed to get access token'') err))) s"

subsection \<open>Polling\<close>

text \<open>What one attempt yields, as a function of its number.\<close>

definition fetchAt :: "oauthEnv \<Rightarrow> nat \<Rightarrow> panic + goerr + string" where
  "fetchAt E t =
     fst (andThen (exchangeJson (\<lambda>_. fail NilPointer) (oa_post E t (oauth2AdminBaseURL E @ ''/token'') [(''no-browser'', [])] []))
            tokenOf \<lparr>accessToken = [], tokenAuth = None, oclient = \<lparr>oc_Id = [], oc_Secret = [], oc_RegistrationAccessToken = []\<rparr>, oticks = 0\<rparr>)"

definition pureO :: "'a oauth \<Rightarrow> bool" where
  "pureO m \<longleftrightarrow> (\<exists>r. \<forall>s. m s = (r, s))"

lemma pureO_simps [simp]: "pureO (ret x)" "pureO (fail e)"
  by (auto simp: pureO_def ret_def fail_def)

lemma pureO_andThen: "pureO m \<Longrightarrow> (\<And>x. pureO (f x)) \<Longrightarrow> pureO (andThen m f)"
proof -
  assume m: "pureO m" and f: "\<And>x. pureO (f x)"
  obtain r where r: "\<And>s. m s = (r, s)" using m unfolding pureO_def by blast
  show ?thesis
  proof (cases r)
    case (Inl e)
    then show ?thesis by (auto simp: pureO_def andThen_def r)
  next
    case (Inr x)
    with f [of x] show ?thesis by (auto simp: pureO_def andThen_def r)
  qed
qed

lemma pureO_token: "pureO (tokenOf r)"
proof -
  have t: "pureO (asText v)" for v by (auto simp: asText_def split: option.split json.split)
  show ?thesis
    unfolding tokenOf_def by (auto split: sum.split option.split intro!: pureO_andThen t)
qed

lemma pureO_exchange: "pureO (exchangeJson (\<lambda>_. fail NilPointer) x)"
  by (auto simp: exchangeJson_def split: exchange.split prod.split)

lemma pureO_result: "pureO m \<Longrightarrow> m s = (fst (m t), s)"
  unfolding pureO_def by fastforce

lemma FetchAccessToken_at:
  "FetchAccessToken E (oauth2AdminBaseURL E @ ''/token'') s = (fetchAt E (oticks s), s\<lparr>oticks := Suc (oticks s)\<rparr>)"
  unfolding FetchAccessToken_def fetchAt_def
  by (simp add: andThen_def [of otick] otick_def)
    (rule pureO_result, intro pureO_andThen pureO_exchange pureO_token)

text \<open>The outcome of the loop: the first attempt that gives a token, if any does.\<close>

lemma pollLoop_found:
  assumes "i < n" and "fetchAt E (oticks s + i) = Inr (Inr tok)" and "\<forall>j<i. \<exists>e. fetchAt E (oticks s + j) = Inr (Inl e)"
  shows "pollLoop E n s = (Inr None, s\<lparr>oticks := oticks s + Suc i, accessToken := tok\<rparr>)"
  using assms
proof (induction n arbitrary: i s)
  case (Suc n)
  show ?case
  proof (cases i)
    case 0
    with Suc.prems show ?thesis by (simp add: andThen_def FetchAccessToken_at setToken_def ret_def)
  next
    case (Suc k)
    then obtain e where e: "fetchAt E (oticks s) = Inr (Inl e)" using Suc.prems(3) by (metis add.right_neutral zero_less_Suc)
    have "\<exists>e. fetchAt E (oticks (s\<lparr>oticks := Suc (oticks s)\<rparr>) + j) = Inr (Inl e)" if "j < k" for j
      using Suc.prems(3) [rule_format, of "Suc j"] that Suc by simp
    with Suc.IH [of k "s\<lparr>oticks := Suc (oticks s)\<rparr>"] Suc.prems Suc e show ?thesis
      by (simp add: andThen_def FetchAccessToken_at)
  qed
qed simp

lemma pollLoop_exhausted:
  assumes "\<forall>j<n. \<exists>e. fetchAt E (oticks s + j) = Inr (Inl e)"
  shows "\<exists>e. pollLoop E n s = (Inr (Some e), s\<lparr>oticks := oticks s + n\<rparr>)"
  using assms
proof (induction n arbitrary: s)
  case (Suc n)
  obtain e where e: "fetchAt E (oticks s) = Inr (Inl e)" using Suc.prems by (metis add.right_neutral zero_less_Suc)
  have "\<forall>j<n. \<exists>e. fetchAt E (oticks (s\<lparr>oticks := Suc (oticks s)\<rparr>) + j) = Inr (Inl e)"
  proof (intro allI impI)
    fix j assume "j < n"
    with Suc.prems [rule_format, of "Suc j"] show "\<exists>e. fetchAt E (oticks (s\<lparr>oticks := Suc (oticks s)\<rparr>) + j) = Inr (Inl e)" by simp
  qed
  from Suc.IH [OF this] e show ?case by (simp add: andThen_def FetchAccessToken_at)
qed (simp add: ret_def)

text \<open>The number of the first of \<open>n\<close> attempts, from \<open>t\<close> on, that yields a token.\<close>

definition gotToken :: "oauthEnv \<Rightarrow> nat \<Rightarrow> bool" where
  "gotToken E t \<longleftrightarrow> (case fetchAt E t of Inr (Inr _) \<Rightarrow> True | _ \<Rightarrow> False)"

definition firstToken :: "oauthEnv \<Rightarrow> nat \<Rightarrow> nat \<Rightarrow> nat option" where
  "firstToken E t n = find (\<lambda>i. gotToken E (t + i)) [0..<n]"

text \<open>What the polling for a token does to the state.\<close>

definition polled :: "oauthEnv \<Rightarrow> nat \<Rightarrow> oauthSt \<Rightarrow> oauthSt" where
  "polled E n s =
     (case firstToken E (oticks s) n of
        Some i \<Rightarrow> s\<lparr>oticks := oticks s + Suc i, accessToken := projr (projr (fetchAt E (oticks s + i)))\<rparr>
      | None \<Rightarrow> s\<lparr>oticks := oticks s + n\<rparr>)"

lemma firstToken_Some:
  assumes "firstToken E t n = Some i"
  shows "i < n" "gotToken E (t + i)" "\<forall>j<i. \<not> gotToken E (t + j)"
  using assms unfolding firstToken_def find_Some_iff by auto

lemma firstToken_None: "firstToken E t n = None \<longleftrightarrow> (\<forall>i<n. \<not> gotToken E (t + i))"
  unfolding firstToken_def find_None_iff by auto

lemma not_gotToken: "fetchAt E t = Inr r \<Longrightarrow> \<not> gotToken E t \<Longrightarrow> \<exists>e. fetchAt E t = Inr (Inl e)"
  by (cases r) (auto simp: gotToken_def)

lemma pollLoop_correct:
  assumes "\<forall>i<n. \<exists>r. fetchAt E (oticks s + i) = Inr r"
  shows "\<exists>err. pollLoop E n s = (Inr err, polled E n s) \<and> (err = None \<longleftrightarrow> firstToken E (oticks s) n \<noteq> None)"
proof (cases "firstToken E (oticks s) n")
  case None
  then have "\<forall>j<n. \<exists>e. fetchAt E (oticks s + j) = Inr (Inl e)"
    using assms not_gotToken firstToken_None by metis
  from pollLoop_exhausted [OF this] None show ?thesis by (auto simp: polled_def)
next
  case (Some i)
  note i = firstToken_Some [OF Some]
  obtain tok where tok: "fetchAt E (oticks s + i) = Inr (Inr tok)"
    using i(2) by (auto simp: gotToken_def split: sum.splits)
  have "\<exists>e. fetchAt E (oticks s + j) = Inr (Inl e)" if "j < i" for j
    using that i(1,3) assms not_gotToken by (meson less_trans)
  from pollLoop_found [OF i(1) tok] this tok Some show ?thesis by (auto simp: polled_def)
qed

text \<open>A token that is present and valid is kept without an exchange.\<close>

definition tokenValid :: "oauthEnv \<Rightarrow> oauthSt \<Rightarrow> bool" where
  "tokenValid E s \<longleftrightarrow> accessToken s \<noteq> [] \<and> oa_jwt E (oticks s) (accessToken s) = Inr None"

text \<open>The state after looking at the token at hand.\<close>

definition looked :: "oauthSt \<Rightarrow> oauthSt" where
  "looked s = (if accessToken s = [] then s else s\<lparr>oticks := Suc (oticks s)\<rparr>)"

lemma JWTTestAndRefresh_cases:
  "JWTTestAndRefresh E s =
     (if tokenValid E s then (Inr None, looked s)
      else case PollClientCreds E (looked s) of
             (Inl p, s') \<Rightarrow> (Inl p, s')
           | (Inr err, s') \<Rightarrow> (Inr (map_option (Wrapped ''Failed to get access token'') err), s'))"
  unfolding JWTTestAndRefresh_def JWTIsValid_def tokenValid_def looked_def
  by (auto simp: andThen_def otick_def ret_def split: sum.split prod.split)

text \<open>C16. JWTTestAndRefresh ends after at most authRetryCount exchanges: when the token at hand is valid
  it is kept and nothing is sent; otherwise exchanges are made until the first that yields a token,
  which becomes the token at hand; when none of them does, all authRetryCount are made, the token
  is unchanged and there is an error. The hypotheses say that the wait fits in a duration and that no exchange panics.\<close>
theorem JWTTestAndRefresh_correct:
  assumes "durationOk (authRetryWait E)"
    and "\<forall>i < unat (authRetryCount E). \<exists>r. fetchAt E (oticks (looked s) + i) = Inr r"
  shows "\<exists>err. JWTTestAndRefresh E s =
                 (Inr err, if tokenValid E s then looked s else polled E (unat (authRetryCount E)) (looked s)) \<and>
               (err = None \<longleftrightarrow> tokenValid E s \<or> firstToken E (oticks (looked s)) (unat (authRetryCount E)) \<noteq> None)"
proof (cases "tokenValid E s")
  case True
  then show ?thesis by (simp add: JWTTestAndRefresh_cases)
next
  case False
  obtain err where "PollClientCreds E (looked s) = (Inr err, polled E (unat (authRetryCount E)) (looked s))"
    "err = None \<longleftrightarrow> firstToken E (oticks (looked s)) (unat (authRetryCount E)) \<noteq> None"
    using pollLoop_correct [OF assms(2)] assms(1) by (auto simp: PollClientCreds_def)
  with False show ?thesis by (simp add: JWTTestAndRefresh_cases)
qed

text \<open>A server that has no answer at first and then issues tokens.\<close>

definition demoOAuth :: oauthEnv where
  "demoOAuth =
     \<lparr>oa_post = (\<lambda>t _ _ _. if t < 3 then NoAnswer (Err ''timeout'') else Body ''{\"access_token\": \"abc\"}''),
      oa_jwt = (\<lambda>_ _. Inr (Some (Err ''expired''))), oa_keys = (\<lambda>_ _. NoKeySet (Err ''none'')),
      oauth2AdminBaseURL = ''http://127.0.0.1:3333'', authRetryCount = 4, authRetryWait = 5\<rparr>"

definition demoOAuthSt :: oauthSt where
  "demoOAuthSt = \<lparr>accessToken = ''old'', tokenAuth = None, oclient = \<lparr>oc_Id = [], oc_Secret = [], oc_RegistrationAccessToken = []\<rparr>,
                  oticks = 0\<rparr>"

lemma demo_fetch:
  "fetchAt demoOAuth 1 = Inr (Inl (Wrapped ''failed to do request'' (Err ''timeout'')))"
  "fetchAt demoOAuth 2 = Inr (Inl (Wrapped ''failed to do request'' (Err ''timeout'')))"
  "fetchAt demoOAuth 3 = Inr (Inr ''abc'')" "fetchAt demoOAuth 4 = Inr (Inr ''abc'')"
  by code_simp+

lemma demo_fetch_Suc:
  "fetchAt demoOAuth (Suc 0) = Inr (Inl (Wrapped ''failed to do request'' (Err ''timeout'')))"
  "fetchAt demoOAuth (Suc (Suc 0)) = Inr (Inl (Wrapped ''failed to do request'' (Err ''timeout'')))"
  "fetchAt demoOAuth (Suc (Suc (Suc 0))) = Inr (Inr ''abc'')" "fetchAt demoOAuth (Suc (Suc (Suc (Suc 0)))) = Inr (Inr ''abc'')"
  using demo_fetch by (simp_all add: numeral_eq_Suc)

lemma JWTTestAndRefresh_correct_witness:
  "JWTTestAndRefresh demoOAuth demoOAuthSt = (Inr None, demoOAuthSt\<lparr>accessToken := ''abc'', oticks := 4\<rparr>)"
proof -
  have n: "unat (authRetryCount demoOAuth) = 4" by (simp add: demoOAuth_def)
  have l: "looked demoOAuthSt = demoOAuthSt\<lparr>oticks := 1\<rparr>" "\<not> tokenValid demoOAuth demoOAuthSt"
    by (simp_all add: looked_def demoOAuthSt_def tokenValid_def demoOAuth_def)
  have f: "firstToken demoOAuth (Suc 0) 4 = Some 2" unfolding firstToken_def
    by (simp add: upt_rec gotToken_def demo_fetch_Suc numeral_eq_Suc)
  have all: "\<forall>i<unat (authRetryCount demoOAuth). \<exists>r. fetchAt demoOAuth (oticks (looked demoOAuthSt) + i) = Inr r"
    unfolding n l by (auto simp: less_Suc_eq numeral_eq_Suc demo_fetch_Suc)
  have w: "durationOk (authRetryWait demoOAuth)" by (simp add: demoOAuth_def durationOk_def)
  have p: "polled demoOAuth 4 (demoOAuthSt\<lparr>oticks := 1\<rparr>) = demoOAuthSt\<lparr>accessToken := ''abc'', oticks := 4\<rparr>"
    by (simp add: polled_def f demo_fetch_Suc)
  show ?thesis using JWTTestAndRefresh_correct [OF w all] by (simp add: n l f p [simplified])
qed

end
