(* ===== verification/GoConfig.thy ===== *)
theory GoConfig
  imports GoNumbers GoErrors
begin

text \<open>
  The settings of the two programs of the repository: variables that are set from the environment
  (\<open>parseEnv\<close>, which cmd/boot-script-service/main.go and cmd/bss-init/main.go have in the
  same form), and from the command line by the library flag. The variables of a program are a record of type \<open>'v\<close>; a
  pointer to one of them is the function that sets it, tagged with its type, and
  \<open>getenv\<close> is \<open>os.Getenv\<close>.
\<close>

subsection \<open>The environment\<close>

datatype 'v cell = IntCell "int \<Rightarrow> 'v \<Rightarrow> 'v" | UintCell "nat \<Rightarrow> 'v \<Rightarrow> 'v" | StrCell "string \<Rightarrow> 'v \<Rightarrow> 'v" |
  BoolCell "bool \<Rightarrow> 'v \<Rightarrow> 'v" | StrsCell "string list \<Rightarrow> 'v \<Rightarrow> 'v" | OtherCell string

definition numError :: "string \<Rightarrow> string \<Rightarrow> parse_err \<Rightarrow> goerr" where
  "numError func val e = Err (''strconv.'' @ func @ '': parsing '' @ goQuote val @ '': '' @
     (case e of ErrSyntax \<Rightarrow> ''invalid syntax'' | ErrRange \<Rightarrow> ''value out of range''))"

definition parseEnv :: "(string \<Rightarrow> string) \<Rightarrow> string \<Rightarrow> 'v cell \<Rightarrow> 'v \<Rightarrow> goerr option \<times> 'v" where
  "parseEnv getenv evar c v =
     (let val = getenv evar in
      if val = [] then (None, v)
      else (case c of
              IntCell put \<Rightarrow>
                (case parseInt0 val of
                   (None, temp) \<Rightarrow> (None, put temp v)
                 | (Some e, _) \<Rightarrow> (Some (numError ''ParseInt'' val e), v))
            | UintCell put \<Rightarrow>
                (case parseUint0 val of
                   Inr temp \<Rightarrow> (None, put temp v)
                 | Inl e \<Rightarrow> (Some (numError ''ParseUint'' val e), v))
            | StrCell put \<Rightarrow> (None, put val v)
            | BoolCell put \<Rightarrow>
                (if toLower val \<in> {''0'', ''off'', ''no'', ''false''} then (None, put False v)
                 else if toLower val \<in> {''1'', ''on'', ''yes'', ''true''} then (None, put True v)
                 else (Some (Err (''Unrecognized bool value: '' @ [CHR 0x27] @ val @ [CHR 0x27])), v))
            | StrsCell put \<Rightarrow> (None, put (strSplit CHR '','' val) v)
            | OtherCell T \<Rightarrow> (Some (Err (''Invalid type for receiving ENV variable value '' @ T)), v)))"

text \<open>A sequence of calls of \<open>parseEnv\<close>, each with its entry of \<open>errList\<close>.\<close>

fun parseAll :: "(string \<Rightarrow> string) \<Rightarrow> (string \<times> 'v cell) list \<Rightarrow> 'v \<Rightarrow> string list \<times> 'v" where
  "parseAll getenv [] v = ([], v)"
| "parseAll getenv ((evar, c) # cs) v =
     (case parseEnv getenv evar c v of (parseErr, v') \<Rightarrow>
      (case parseAll getenv cs v' of (errList, v'') \<Rightarrow>
         (case parseErr of
            None \<Rightarrow> (errList, v'')
          | Some e \<Rightarrow> ((evar @ '': '' @ goQuote (errorText e)) # errList, v''))))"

definition envErrors :: "string list \<Rightarrow> goerr option" where
  "envErrors errList =
     (if length errList > 0
      then Some (Err (''Error(s) parsing environment variables: ['' @ strJoin '' '' errList @ '']''))
      else None)"

subsection \<open>The command line\<close>

datatype 'v flagCell = FlagStr "string \<Rightarrow> 'v \<Rightarrow> 'v" | FlagBool "bool \<Rightarrow> 'v \<Rightarrow> 'v" | FlagUint "nat \<Rightarrow> 'v \<Rightarrow> 'v" |
  FlagInt "int \<Rightarrow> 'v \<Rightarrow> 'v"

text \<open>A flag: its name, its variable, and what its registration does, which is to set the variable to the default.\<close>

type_synonym 'v flag = "string \<times> 'v flagCell \<times> ('v \<Rightarrow> 'v)"

definition stringVar :: "(string \<Rightarrow> 'v \<Rightarrow> 'v) \<Rightarrow> string \<Rightarrow> ('v \<Rightarrow> string) \<Rightarrow> 'v flag" where
  "stringVar put name def = (name, FlagStr put, \<lambda>v. put (def v) v)"

definition boolVar :: "(bool \<Rightarrow> 'v \<Rightarrow> 'v) \<Rightarrow> string \<Rightarrow> ('v \<Rightarrow> bool) \<Rightarrow> 'v flag" where
  "boolVar put name def = (name, FlagBool put, \<lambda>v. put (def v) v)"

definition uintVar :: "(nat \<Rightarrow> 'v \<Rightarrow> 'v) \<Rightarrow> string \<Rightarrow> ('v \<Rightarrow> nat) \<Rightarrow> 'v flag" where
  "uintVar put name def = (name, FlagUint put, \<lambda>v. put (def v) v)"

definition intVar :: "(int \<Rightarrow> 'v \<Rightarrow> 'v) \<Rightarrow> string \<Rightarrow> ('v \<Rightarrow> int) \<Rightarrow> 'v flag" where
  "intVar put name def = (name, FlagInt put, \<lambda>v. put (def v) v)"

definition parseBool :: "string \<Rightarrow> bool option" where
  "parseBool s =
     (if s \<in> {''1'', ''t'', ''T'', ''TRUE'', ''true'', ''True''} then Some True
      else if s \<in> {''0'', ''f'', ''F'', ''FALSE'', ''false'', ''False''} then Some False
      else None)"

definition setFlag :: "'v flagCell \<Rightarrow> string \<Rightarrow> 'v \<Rightarrow> 'v option" where
  "setFlag c value v =
     (case c of
        FlagStr put \<Rightarrow> Some (put value v)
      | FlagBool put \<Rightarrow> map_option (\<lambda>b. put b v) (parseBool value)
      | FlagUint put \<Rightarrow> (case parseUint0 value of Inr n \<Rightarrow> Some (put n v) | Inl _ \<Rightarrow> None)
      | FlagInt put \<Rightarrow> (case parseInt0 value of (None, i) \<Rightarrow> Some (put i v) | _ \<Rightarrow> None))"

text \<open>The name of a flag and its value, if it comes with one; an equals sign cannot be the first character.\<close>

definition cutFlag :: "string \<Rightarrow> string \<times> string option" where
  "cutFlag name =
     (case dropWhile (\<lambda>c. c \<noteq> CHR ''='') (tl name) of
        [] \<Rightarrow> (name, None)
      | _ # value \<Rightarrow> (hd name # takeWhile (\<lambda>c. c \<noteq> CHR ''='') (tl name), Some value))"

text \<open>\<open>flag.Parse\<close>: the variables, or the status with which the program ends.\<close>

fun flagParse :: "'v flag list \<Rightarrow> string list \<Rightarrow> 'v \<Rightarrow> nat + 'v" where
  "flagParse flags [] v = Inr v"
| "flagParse flags (s # args) v =
     (if length s < 2 \<or> hd s \<noteq> CHR ''-'' then Inr v
      else if s = ''--'' then Inr v
      else
        (let name = (if s ! 1 = CHR ''-'' then drop 2 s else tl s) in
         if name = [] \<or> hd name = CHR ''-'' \<or> hd name = CHR ''='' then Inl 2
         else
           (case cutFlag name of (name, value) \<Rightarrow>
             (case map_of flags name of
                None \<Rightarrow> Inl (if name = ''help'' \<or> name = ''h'' then 0 else 2)
              | Some (c, _) \<Rightarrow>
                  (case (value, c, args) of
                     (Some x, _, _) \<Rightarrow>
                       (case setFlag c x v of None \<Rightarrow> Inl 2 | Some v' \<Rightarrow> flagParse flags args v')
                   | (None, FlagBool put, _) \<Rightarrow> flagParse flags args (put True v)
                   | (None, _, []) \<Rightarrow> Inl 2
                   | (None, _, x # args') \<Rightarrow>
                       (case setFlag c x v of None \<Rightarrow> Inl 2 | Some v' \<Rightarrow> flagParse flags args' v'))))))"

definition register :: "'v flag list \<Rightarrow> 'v \<Rightarrow> 'v" where
  "register flags v = fold (\<lambda>(_, _, init). init) flags v"

subsection \<open>What a sequence of settings keeps\<close>

lemma parseAll_keeps:
  assumes "\<And>evar c v. (evar, c) \<in> set cs \<Longrightarrow> f (snd (parseEnv getenv evar c v)) = f v"
  shows "f (snd (parseAll getenv cs v)) = f v"
  using assms
proof (induction cs arbitrary: v)
  case (Cons x cs)
  obtain evar c where x: "x = (evar, c)" by (cases x)
  have "f (snd (parseAll getenv cs (snd (parseEnv getenv evar c v)))) = f v"
    using Cons.IH [of "snd (parseEnv getenv evar c v)"] Cons.prems [of evar c v] Cons.prems x by simp
  then show ?case by (auto simp: x split: prod.splits option.splits)
qed simp

text \<open>A variable of a type that \<open>parseEnv\<close> does not know is never set.\<close>

lemma parseEnv_other: "parseEnv getenv evar (OtherCell T) v =
    (if getenv evar = [] then None else Some (Err (''Invalid type for receiving ENV variable value '' @ T)), v)"
  by (simp add: parseEnv_def)

lemma parseEnv_keeps:
  "(\<And>x v. f (put x v) = f v) \<Longrightarrow> f (snd (parseEnv getenv evar (StrCell put) v)) = f v"
  "(\<And>x v. f (puti x v) = f v) \<Longrightarrow> f (snd (parseEnv getenv evar (IntCell puti) v)) = f v"
  "(\<And>x v. f (putn x v) = f v) \<Longrightarrow> f (snd (parseEnv getenv evar (UintCell putn) v)) = f v"
  "(\<And>x v. f (putb x v) = f v) \<Longrightarrow> f (snd (parseEnv getenv evar (BoolCell putb) v)) = f v"
  "(\<And>x v. f (putl x v) = f v) \<Longrightarrow> f (snd (parseEnv getenv evar (StrsCell putl) v)) = f v"
  "f (snd (parseEnv getenv evar (OtherCell T) v)) = f v"
  unfolding parseEnv_def Let_def by (auto split: prod.split option.split sum.split)

end
