(* ===== verification/Startup.thy ===== *)
theory Startup
  imports GoConfig OAuth Server
begin

text \<open>
  The start of the service (cmd/boot-script-service/main.go): its settings from the environment and the
  command line, the fetching of the keys, the opening of the state manager and of the store, and what
  the service runs with after that. Connecting to etcd (\<open>se_kvOpen\<close>) and to Postgres
  (\<open>se_pgOpen\<close>, from the connection string) depends on the number of the attempt;
  \<open>os.Hostname\<close> is \<open>se_hostname\<close>. An attempt to connect is repeated with a counter of 64 bits, which may wrap:
  \<open>None\<close> stands for a start that never ends.
\<close>

subsection \<open>Settings\<close>

record vars =
  v_httpListen :: string
  v_datastoreBase :: string
  v_sqlHost :: string
  v_sqlPort :: nat
  v_kvHost :: string
  v_kvPort :: string
  v_kvRetryCount :: "64 word"
  v_kvRetryWait :: "64 word"
  v_notifierURL :: string
  v_bssdbName :: string
  v_sqlUser :: string
  v_sqlPass :: string
  v_hsmBase :: string
  v_nfdBase :: string
  v_serviceName :: string
  v_advertiseAddress :: string
  v_insecure :: bool
  v_debugFlag :: bool
  v_retryDelay :: nat
  v_hsmRetrievalDelay :: nat
  v_sqlRetryCount :: "64 word"
  v_sqlRetryWait :: "64 word"
  v_useSQL :: bool
  v_authRetryCount :: "64 word"
  v_authRetryWait :: "64 word"
  v_jwksURL :: string
  v_sqlDbOpts :: string
  v_spireServiceURL :: string
  v_oauth2AdminBaseURL :: string
  v_oauth2PublicBaseURL :: string
  v_bootscriptNotifyURL :: string
  v_spireTokensBaseURL :: string

definition kvDefaultRetryCount :: "64 word" where "kvDefaultRetryCount = 10"
definition kvDefaultRetryWait :: "64 word" where "kvDefaultRetryWait = 5"

definition initialVars :: vars where
  "initialVars =
     \<lparr>v_httpListen = '':27778'', v_datastoreBase = [], v_sqlHost = ''localhost'', v_sqlPort = 5432, v_kvHost = [], v_kvPort =
      [], v_kvRetryCount = 10, v_kvRetryWait = 5, v_notifierURL = [], v_bssdbName = ''bssdb'', v_sqlUser = ''bssuser'',
      v_sqlPass = ''bssuser'', v_hsmBase = ''http://localhost:27779'', v_nfdBase = ''http://localhost:28600'', v_serviceName = ''boot-script-service'',
      v_advertiseAddress = [], v_insecure = False, v_debugFlag = False, v_retryDelay = 30, v_hsmRetrievalDelay = 10,
      v_sqlRetryCount = 10, v_sqlRetryWait = 5, v_useSQL = False, v_authRetryCount = 10, v_authRetryWait = 5, v_jwksURL = [],
      v_sqlDbOpts = [], v_spireServiceURL = ''https://spire-tokens.spire:54440'', v_oauth2AdminBaseURL = ''http://127.0.0.1:3333'', v_oauth2PublicBaseURL = ''http://127.0.0.1:3333'',
      v_bootscriptNotifyURL = [], v_spireTokensBaseURL = []\<rparr>"

definition envVars :: "(string \<times> vars cell) list" where
  "envVars =
     [(''BSS_SERVICE_NAME'', StrCell (\<lambda>x. v_serviceName_update (\<lambda>_. x))),
      (''BSS_HTTP_LISTEN'', StrCell (\<lambda>x. v_httpListen_update (\<lambda>_. x))),
      (''HSM_URL'', StrCell (\<lambda>x. v_hsmBase_update (\<lambda>_. x))),
      (''NFD_URL'', StrCell (\<lambda>x. v_nfdBase_update (\<lambda>_. x))),
      (''BSS_ADVERTISE_ADDRESS'', StrCell (\<lambda>x. v_advertiseAddress_update (\<lambda>_. x))),
      (''BSS_RETRY_DELAY'', UintCell (\<lambda>x. v_retryDelay_update (\<lambda>_. x))),
      (''BSS_HSM_RETRIEVAL_DELAY'', UintCell (\<lambda>x. v_hsmRetrievalDelay_update (\<lambda>_. x))),
      (''SPIRE_TOKEN_URL'', StrCell (\<lambda>x. v_spireServiceURL_update (\<lambda>_. x))),
      (''BSS_ENDPOINT_HOST'', StrCell (\<lambda>x. v_notifierURL_update (\<lambda>_. x))),
      (''BSS_AUTH_RETRY_COUNT'', OtherCell ''*uint64''),
      (''BSS_AUTH_RETRY_WAIT'', OtherCell ''*uint64''),
      (''BSS_JWKS_URL'', StrCell (\<lambda>x. v_jwksURL_update (\<lambda>_. x))),
      (''BSS_OAUTH2_ADMIN_BASE_URL'', StrCell (\<lambda>x. v_oauth2AdminBaseURL_update (\<lambda>_. x))),
      (''BSS_OAUTH2_PUBLIC_BASE_URL'', StrCell (\<lambda>x. v_oauth2PublicBaseURL_update (\<lambda>_. x))),
      (''BSS_BOOTSCRIPT_NOTIFY_URL'', StrCell (\<lambda>x. v_bootscriptNotifyURL_update (\<lambda>_. x))),
      (''DATASTORE_BASE'', StrCell (\<lambda>x. v_datastoreBase_update (\<lambda>_. x))),
      (''ETCD_HOST'', StrCell (\<lambda>x. v_kvHost_update (\<lambda>_. x))),
      (''ETCD_PORT'', StrCell (\<lambda>x. v_kvPort_update (\<lambda>_. x))),
      (''ETCD_RETRY_COUNT'', OtherCell ''*uint64''),
      (''ETCD_RETRY_WAIT'', OtherCell ''*uint64''),
      (''BSS_INSECURE'', BoolCell (\<lambda>x. v_insecure_update (\<lambda>_. x))),
      (''BSS_USESQL'', BoolCell (\<lambda>x. v_useSQL_update (\<lambda>_. x))),
      (''BSS_DEBUG'', BoolCell (\<lambda>x. v_debugFlag_update (\<lambda>_. x))),
      (''BSS_DBHOST'', StrCell (\<lambda>x. v_sqlHost_update (\<lambda>_. x))),
      (''BSS_DBPORT'', UintCell (\<lambda>x. v_sqlPort_update (\<lambda>_. x))),
      (''BSS_DBNAME'', StrCell (\<lambda>x. v_bssdbName_update (\<lambda>_. x))),
      (''BSS_DBOPTS'', StrCell (\<lambda>x. v_sqlDbOpts_update (\<lambda>_. x))),
      (''BSS_DBUSER'', StrCell (\<lambda>x. v_sqlUser_update (\<lambda>_. x))),
      (''BSS_DBPASS'', StrCell (\<lambda>x. v_sqlPass_update (\<lambda>_. x))),
      (''BSS_SQL_RETRY_COUNT'', OtherCell ''*uint64''),
      (''BSS_SQL_RETRY_WAIT'', OtherCell ''*uint64'')]"

definition parseEnvVars :: "(string \<Rightarrow> string) \<Rightarrow> vars \<Rightarrow> goerr option \<times> vars" where
  "parseEnvVars getenv v = (case parseAll getenv envVars v of (errList, v') \<Rightarrow> (envErrors errList, v'))"

definition kvDefaultURL :: "vars \<Rightarrow> string" where
  "kvDefaultURL v =
     (if v_kvHost v \<noteq> [] \<and> v_kvPort v \<noteq> [] then ''http://'' @ v_kvHost v @ '':'' @ v_kvPort v else ''mem:'')"

text \<open>The number of retries and the wait between them, from variables in base 10.\<close>

definition parseUint10 :: "string \<Rightarrow> parse_err + nat" where
  "parseUint10 s =
     (if s = [] then Inl ErrSyntax
      else case parseDigits 10 (takeWhile (\<lambda>c. c \<noteq> CHR ''_'') s) 0 of
             Inl e \<Rightarrow> Inl e
           | Inr n \<Rightarrow> if CHR ''_'' \<in> set s then Inl ErrSyntax else Inr n)"

definition retryVar :: "(string \<Rightarrow> string) \<Rightarrow> string \<Rightarrow> 64 word \<Rightarrow> goerr + 64 word" where
  "retryVar getenv evar def =
     (if getenv evar = [] then Inr def
      else case parseUint10 (getenv evar) of
             Inl e \<Rightarrow> Inl (numError ''ParseUint'' (getenv evar) e)
           | Inr n \<Rightarrow> Inr (of_nat n))"

definition kvDefaultRetryConfig :: "(string \<Rightarrow> string) \<Rightarrow> 64 word \<times> 64 word \<times> goerr option" where
  "kvDefaultRetryConfig getenv =
     (case retryVar getenv ''ETCD_RETRY_COUNT'' kvDefaultRetryCount of
        Inl e \<Rightarrow> (kvDefaultRetryCount, kvDefaultRetryWait, Some e)
      | Inr retryCount \<Rightarrow>
          (case retryVar getenv ''ETCD_RETRY_WAIT'' kvDefaultRetryWait of
             Inl e \<Rightarrow> (kvDefaultRetryCount, kvDefaultRetryWait, Some e)
           | Inr retryWait \<Rightarrow> (retryCount, retryWait, None)))"

definition cmdFlags :: "vars flag list" where
  "cmdFlags =
     [stringVar (\<lambda>x. v_httpListen_update (\<lambda>_. x)) ''http-listen'' v_httpListen,
      stringVar (\<lambda>x. v_hsmBase_update (\<lambda>_. x)) ''hsm'' v_hsmBase,
      stringVar (\<lambda>x. v_nfdBase_update (\<lambda>_. x)) ''nfd'' v_nfdBase,
      stringVar (\<lambda>x. v_datastoreBase_update (\<lambda>_. x)) ''datastore'' kvDefaultURL,
      stringVar (\<lambda>x. v_sqlHost_update (\<lambda>_. x)) ''postgres-host'' v_sqlHost,
      stringVar (\<lambda>x. v_serviceName_update (\<lambda>_. x)) ''service-name'' v_serviceName,
      stringVar (\<lambda>x. v_spireTokensBaseURL_update (\<lambda>_. x)) ''spire-url'' v_spireServiceURL,
      stringVar (\<lambda>x. v_advertiseAddress_update (\<lambda>_. x)) ''cloud-init-address'' v_advertiseAddress,
      stringVar (\<lambda>x. v_bssdbName_update (\<lambda>_. x)) ''postgres-dbname'' v_bssdbName,
      stringVar (\<lambda>x. v_sqlUser_update (\<lambda>_. x)) ''postgres-username'' v_sqlUser,
      stringVar (\<lambda>x. v_sqlPass_update (\<lambda>_. x)) ''postgres-password'' v_sqlPass,
      stringVar (\<lambda>x. v_jwksURL_update (\<lambda>_. x)) ''jwks-url'' v_jwksURL,
      stringVar (\<lambda>x. v_oauth2AdminBaseURL_update (\<lambda>_. x)) ''oauth2-admin-base-url'' v_oauth2AdminBaseURL,
      stringVar (\<lambda>x. v_oauth2PublicBaseURL_update (\<lambda>_. x)) ''oauth2-public-base-url'' v_oauth2PublicBaseURL,
      stringVar (\<lambda>x. v_bootscriptNotifyURL_update (\<lambda>_. x)) ''bootscript-notify-url'' v_bootscriptNotifyURL,
      boolVar (\<lambda>x. v_insecure_update (\<lambda>_. x)) ''insecure'' v_insecure,
      boolVar (\<lambda>x. v_debugFlag_update (\<lambda>_. x)) ''debug'' v_debugFlag,
      boolVar (\<lambda>x. v_useSQL_update (\<lambda>_. x)) ''postgres'' v_useSQL,
      uintVar (\<lambda>x. v_retryDelay_update (\<lambda>_. x)) ''retry-delay'' v_retryDelay,
      uintVar (\<lambda>x. v_hsmRetrievalDelay_update (\<lambda>_. x)) ''hsm-retrieval-delay'' v_hsmRetrievalDelay,
      uintVar (\<lambda>x. v_sqlPort_update (\<lambda>_. x)) ''postgres-port'' v_sqlPort,
      uintVar (\<lambda>x. v_authRetryCount_update (\<lambda>_. of_nat x)) ''auth-retry-count'' (\<lambda>v. unat (v_authRetryCount v)),
      uintVar (\<lambda>x. v_authRetryWait_update (\<lambda>_. of_nat x)) ''auth-retry-wait'' (\<lambda>v. unat (v_authRetryWait v)),
      uintVar (\<lambda>x. v_sqlRetryCount_update (\<lambda>_. of_nat x)) ''postgres-retry-count'' (\<lambda>v. unat (v_sqlRetryCount v)),
      uintVar (\<lambda>x. v_sqlRetryWait_update (\<lambda>_. of_nat x)) ''postgres-retry-wait'' (\<lambda>v. unat (v_sqlRetryCount v))]"

definition parseCmdLine :: "string list \<Rightarrow> vars \<Rightarrow> nat + vars" where
  "parseCmdLine args v = flagParse cmdFlags args (register cmdFlags v)"

subsection \<open>Attempts to connect\<close>

text \<open>The loop over the attempts: the counter \<open>ix\<close>, and the number \<open>t\<close> of attempts made. The
  result has a connection unless the loop ended by its condition.\<close>

partial_function (option) openLoop :: "(nat \<Rightarrow> goerr + 'c) \<Rightarrow> 64 word \<Rightarrow> 64 word \<Rightarrow> nat \<Rightarrow> 'c option option" where
  "openLoop attempt retryCount ix t =
     (if ix \<le> retryCount
      then (case attempt t of
              Inl err \<Rightarrow> openLoop attempt retryCount (ix + 1) (Suc t)
            | Inr c \<Rightarrow> Some (Some c))
      else Some None)"

declare openLoop.simps [code]

definition openRetrying :: "string \<Rightarrow> (nat \<Rightarrow> goerr + 'c) \<Rightarrow> 64 word \<Rightarrow> (goerr + 'c) option" where
  "openRetrying what attempt retryCount =
     map_option (\<lambda>r. case r of
         None \<Rightarrow> Inl (Err (what @ '' connection attempts exhausted ('' @ nat_str (unat retryCount) @ '').''))
       | Some c \<Rightarrow> Inr c) (openLoop attempt retryCount 1 0)"

record 'k startEnv =
  se_getenv :: "string \<Rightarrow> string"
  se_args :: "string list"
  se_hostname :: "nat \<Rightarrow> goerr + string"
  se_oauth :: oauthEnv
  se_hsm :: hsm
  se_kvOpen :: "nat \<Rightarrow> string \<Rightarrow> string \<Rightarrow> goerr + 'k"
  se_pgOpen :: "nat \<Rightarrow> string \<Rightarrow> goerr + pgst"

definition kvOpen :: "'k startEnv \<Rightarrow> string \<Rightarrow> string \<Rightarrow> 64 word \<Rightarrow> (goerr + 'k) option" where
  "kvOpen E url opts retryCount = openRetrying ''ETCD'' (\<lambda>t. se_kvOpen E t url opts) retryCount"

text \<open>Package postgres (internal/postgres/common.go).\<close>

definition connString :: "string \<Rightarrow> nat \<Rightarrow> string \<Rightarrow> string \<Rightarrow> string \<Rightarrow> bool \<Rightarrow> string \<Rightarrow> string" where
  "connString host port dbName user password ssl extraDbOpts =
     ''user='' @ user @ '' password='' @ password @ '' host='' @ host @ '' port='' @ nat_str port @ '' dbname='' @ dbName @
     '' sslmode='' @ (if ssl then ''verify-full'' else ''disable'') @
     (if extraDbOpts \<noteq> [] then '' '' @ extraDbOpts else [])"

definition sqlOpen :: "'k startEnv \<Rightarrow> string \<Rightarrow> nat \<Rightarrow> string \<Rightarrow> string \<Rightarrow> string \<Rightarrow> string \<Rightarrow> bool \<Rightarrow> 64 word \<Rightarrow>
    (goerr + pgst) option" where
  "sqlOpen E host port bssdbName user password extraDbOpts ssl retryCount =
     openRetrying ''Postgres''
       (\<lambda>t. se_pgOpen E t (connString host port bssdbName user password ssl extraDbOpts)) retryCount"

text \<open>The address for notifications, and the variable that it is kept in.\<close>

definition getNotifierURL :: "goerr + string \<Rightarrow> vars \<Rightarrow> string \<times> vars" where
  "getNotifierURL hostname v =
     (let v' = (if v_notifierURL v \<noteq> [] then v
                else v\<lparr>v_notifierURL :=
                       (case hostname of
                          Inr h \<Rightarrow> if strContains h ''cray-bss'' then ''cray-bss'' else h @ v_httpListen v
                        | Inl _ \<Rightarrow> ''localhost'' @ v_httpListen v)\<rparr>) in
      (''http://'' @ v_notifierURL v' @ notifierEndpoint, v'))"

text \<open>The loop that fetches the keys: from \<open>i\<close> on, up to and including the number of retries.\<close>

partial_function (option) jwksLoop :: "oauthEnv \<Rightarrow> string \<Rightarrow> 64 word \<Rightarrow> oauthSt \<Rightarrow> oauthSt option" where
  "jwksLoop A url i s =
     (if i \<le> authRetryCount A
      then (case fetchPublicKey A url s of (r, s') \<Rightarrow>
              if r = Inr None then Some s' else jwksLoop A url (i + 1) s')
      else Some s)"

declare jwksLoop.simps [code]

subsection \<open>The version of the build (version.go)\<close>

record buildInfo =
  bi_Version :: string
  bi_GitCommit :: string
  bi_BuildTime :: string
  bi_GitBranch :: string
  bi_GitTag :: string
  bi_GitState :: string
  bi_BuildHost :: string
  bi_GoVersion :: string
  bi_BuildUser :: string

definition versionFields :: "buildInfo \<Rightarrow> string list" where
  "versionFields b =
     [''Version: '' @ bi_Version b, ''Git Commit: '' @ bi_GitCommit b, ''Build Time: '' @ bi_BuildTime b,
      ''Git Branch: '' @ bi_GitBranch b, ''Git Tag: '' @ bi_GitTag b, ''Git State: '' @ bi_GitState b,
      ''Build Host: '' @ bi_BuildHost b, ''Go Version: '' @ bi_GoVersion b, ''Build User: '' @ bi_BuildUser b]"

text \<open>What \<open>main\<close> prints first, and the same in one line.\<close>

definition PrintVersionInfo :: "buildInfo \<Rightarrow> string" where
  "PrintVersionInfo b = concat (map (\<lambda>line. line @ [CHR 0x0A]) (versionFields b))"

definition VersionInfo :: "buildInfo \<Rightarrow> string" where
  "VersionInfo b = strJoin '', '' (versionFields b)"

subsection \<open>main\<close>

datatype 'k backend = KvBackend 'k | PgBackend pgst

record 'k started =
  st_vars :: vars
  st_source :: smSource
  st_notifier :: ScnNotifier
  st_backend :: "'k backend"
  st_oauth :: oauthSt
  st_spire :: "goerr + bool"

datatype 'k outcome = Exited nat | Fatal goerr | Crashed panic | Serving "'k started"

definition startOAuth :: oauthSt where
  "startOAuth = \<lparr>accessToken = [], tokenAuth = None,
     oclient = \<lparr>oc_Id = [], oc_Secret = [], oc_RegistrationAccessToken = []\<rparr>, oticks = 0\<rparr>"

definition oauthOf :: "'k startEnv \<Rightarrow> vars \<Rightarrow> oauthEnv" where
  "oauthOf E v = (se_oauth E)\<lparr>oauth2AdminBaseURL := v_oauth2AdminBaseURL v, authRetryCount := v_authRetryCount v,
     authRetryWait := v_authRetryWait v\<rparr>"

definition hsmOf :: "'k startEnv \<Rightarrow> vars \<Rightarrow> hsm" where
  "hsmOf E v = (se_hsm E)\<lparr>hs_client := False, hs_retryCount := v_authRetryCount v, hs_retryWait := v_authRetryWait v\<rparr>"

definition svcOptions :: "vars \<Rightarrow> string" where
  "svcOptions v = (if v_insecure v then ''insecure,'' else []) @ (if v_debugFlag v then ''debug'' else [])"

definition openBackend :: "'k startEnv \<Rightarrow> vars \<Rightarrow> (goerr + 'k backend) option" where
  "openBackend E v =
     (if v_useSQL v
      then map_option (map_sum
             (Wrapped (''Access to Postgres database at '' @ v_sqlHost v @ '':'' @ nat_str (v_sqlPort v) @ '' failed'')) PgBackend)
             (sqlOpen E (v_sqlHost v) (v_sqlPort v) (v_bssdbName v) (v_sqlUser v) (v_sqlPass v) (v_sqlDbOpts v)
                (\<not> v_insecure v) (v_sqlRetryCount v))
      else map_option (map_sum
             (Wrapped (''Access to Datastore service '' @ v_datastoreBase v @ '' with name '' @ v_serviceName v @ '' failed'')) KvBackend)
             (kvOpen E (v_datastoreBase v) (svcOptions v) (v_kvRetryCount v)))"

text \<open>From the check of the advertised address on.\<close>

definition openServices :: "'k startEnv \<Rightarrow> oauthSt \<Rightarrow> vars \<Rightarrow> 'k outcome option" where
  "openServices E oa v =
     (if v_advertiseAddress v = [] then Some (Fatal (Err ''--cloud-init-address or BSS_ADVERTISE_ADDRESS required.''))
      else
        (case SmOpen (hsmOf E v) (v_hsmBase v) (svcOptions v) of
           Inl e \<Rightarrow> Some (Fatal (Wrapped (''Access to SM service '' @ v_hsmBase v @ '' failed'') e))
         | Inr src \<Rightarrow>
             (case getNotifierURL (se_hostname E 1) v of (url, v) \<Rightarrow>
             (case newNotifier (v_serviceName v) (v_nfdBase v @ ''/hmi/v1/subscribe'') url (svcOptions v) of
                Inl p \<Rightarrow> Some (Crashed p)
              | Inr n \<Rightarrow>
                  (case openBackend E v of
                     None \<Rightarrow> None
                   | Some (Inl e) \<Rightarrow> Some (Fatal e)
                   | Some (Inr b) \<Rightarrow>
                       Some (Serving \<lparr>st_vars = v, st_source = src, st_notifier = n, st_backend = b, st_oauth = oa,
                         st_spire = spireTokenServiceInit (v_spireServiceURL v) (svcOptions v)\<rparr>))))))"

definition withHostName :: "'k startEnv \<Rightarrow> vars \<Rightarrow> vars" where
  "withHostName E v = (case se_hostname E 0 of Inr sn \<Rightarrow> v\<lparr>v_serviceName := sn\<rparr> | Inl _ \<Rightarrow> v)"

definition fetchKeys :: "'k startEnv \<Rightarrow> vars \<Rightarrow> oauthSt option" where
  "fetchKeys E v = (if v_jwksURL v \<noteq> [] then jwksLoop (oauthOf E v) (v_jwksURL v) 0 startOAuth else Some startOAuth)"

definition main :: "'k startEnv \<Rightarrow> 'k outcome option" where
  "main E =
     (case parseEnvVars (se_getenv E) initialVars of (_, v) \<Rightarrow>
      (case parseCmdLine (se_args E) v of
         Inl status \<Rightarrow> Some (Exited status)
       | Inr v \<Rightarrow>
           (case fetchKeys E (withHostName E v) of
              None \<Rightarrow> None
            | Some oa \<Rightarrow> openServices E oa (withHostName E v))))"

subsection \<open>The attempts end\<close>

text \<open>The first connection among \<open>k\<close> attempts from number \<open>t\<close> on.\<close>

definition firstOpen :: "(nat \<Rightarrow> goerr + 'c) \<Rightarrow> nat \<Rightarrow> nat \<Rightarrow> 'c option" where
  "firstOpen attempt t k = map_option (\<lambda>i. projr (attempt (t + i))) (find (\<lambda>i. \<not> isl (attempt (t + i))) [0..<k])"

lemma find_map: "find P (map f xs) = map_option f (find (P \<circ> f) xs)"
  by (induction xs) simp_all

lemma firstOpen_0 [simp]: "firstOpen attempt t 0 = None"
  by (simp add: firstOpen_def)

lemma firstOpen_Suc:
  "firstOpen attempt t (Suc k) = (case attempt t of Inr c \<Rightarrow> Some c | Inl _ \<Rightarrow> firstOpen attempt (Suc t) k)"
proof -
  have "find (\<lambda>i. \<not> isl (attempt (t + i))) [Suc 0..<Suc k] = map_option Suc (find (\<lambda>i. \<not> isl (attempt (Suc t + i))) [0..<k])"
    unfolding map_Suc_upt [symmetric] by (simp add: find_map o_def)
  then show ?thesis
    by (auto simp: firstOpen_def upt_conv_Cons option.map_comp o_def split: sum.split simp del: upt_Suc)
qed

lemma openLoop_bounded:
  fixes n :: "64 word"
  assumes "n \<noteq> - 1"
  shows "openLoop attempt n ix t = Some (firstOpen attempt t (unat n + 1 - unat ix))"
proof (induction "unat n + 1 - unat ix" arbitrary: ix t)
  case 0
  then have "\<not> ix \<le> n" by (simp add: word_le_nat_alt)
  with 0 show ?case by (subst openLoop.simps) (simp flip: 0)
next
  case (Suc k)
  then have le: "ix \<le> n" by (simp add: word_le_nat_alt)
  have "ix \<noteq> - 1" using le assms word_order.extremum_unique by blast
  then have "unat (ix + 1) = unat ix + 1" by (metis Suc_eq_plus1 add.commute add_eq_0_iff unatSuc)
  with Suc.hyps(2) have k: "k = unat n + 1 - unat (ix + 1)" by simp
  have e: "unat n + 1 - unat ix = Suc k" and k': "Suc (unat n) - unat (ix + 1) = k" using Suc.hyps(2) k by simp_all
  show ?case unfolding e
    by (subst openLoop.simps, cases "attempt t") (simp_all add: le firstOpen_Suc Suc.hyps(1) [OF k] k')
qed

lemma openLoop_endless:
  assumes "openLoop attempt n ix t = Some r"
  shows "n = - 1 \<longrightarrow> (\<exists>i. \<not> isl (attempt (t + i)))"
proof (rule openLoop.raw_induct [of "\<lambda>attempt n ix t r. n = - 1 \<longrightarrow> (\<exists>i. \<not> isl (attempt (t + i)))", OF _ assms], intro impI)
  fix loop :: "(nat \<Rightarrow> goerr + 'c) \<Rightarrow> 64 word \<Rightarrow> 64 word \<Rightarrow> nat \<Rightarrow> 'c option option" and attempt n ix t r
  assume ih: "\<And>attempt n ix t r. loop attempt n ix t = Some r \<Longrightarrow> n = - 1 \<longrightarrow> (\<exists>i. \<not> isl (attempt (t + i)))"
    and run: "(if ix \<le> n then case attempt t of Inl err \<Rightarrow> loop attempt n (ix + 1) (Suc t) | Inr c \<Rightarrow> Some (Some c)
               else Some None) = Some r" and n: "n = - 1"
  show "\<exists>i. \<not> isl (attempt (t + i))"
  proof (cases "attempt t")
    case (Inl e)
    with run n have "loop attempt n (ix + 1) (Suc t) = Some r" by simp
    with ih n obtain i where "\<not> isl (attempt (Suc t + i))" by blast
    then show ?thesis by (intro exI [of _ "Suc i"]) simp
  next
    case (Inr c)
    then show ?thesis by (intro exI [of _ 0]) simp
  qed
qed

lemma openLoop_found: "\<not> isl (attempt (t + i)) \<Longrightarrow> \<exists>r. openLoop attempt (- 1) ix t = Some r"
proof (induction i arbitrary: ix t)
  case 0
  then show ?case by (subst openLoop.simps) (auto simp: isl_def split: sum.splits)
next
  case (Suc i)
  then show ?case using Suc.IH [of "Suc t" "ix + 1"] by (subst openLoop.simps) (auto split: sum.split)
qed

lemma openLoop_ends_iff: "(\<exists>r. openLoop attempt n ix t = Some r) \<longleftrightarrow> n \<noteq> - 1 \<or> (\<exists>i. \<not> isl (attempt (t + i)))"
  using openLoop_bounded openLoop_endless openLoop_found by metis

lemma jwksLoop_ends: "authRetryCount A \<noteq> - 1 \<Longrightarrow> \<exists>s'. jwksLoop A url i s = Some s'"
proof (induction "unat (authRetryCount A) + 1 - unat i" arbitrary: i s)
  case 0
  then have "\<not> i \<le> authRetryCount A" by (simp add: word_le_nat_alt)
  then show ?case by (subst jwksLoop.simps) simp
next
  case (Suc k)
  have "i \<noteq> - 1 \<or> \<not> i \<le> authRetryCount A" using Suc.prems word_order.extremum_unique by blast
  then show ?case
  proof
    assume "i \<noteq> - 1"
    then have "unat (i + 1) = unat i + 1" by (metis Suc_eq_plus1 add.commute add_eq_0_iff unatSuc)
    with Suc.hyps(2) have "k = unat (authRetryCount A) + 1 - unat (i + 1)" by simp
    from Suc.hyps(1) [OF this Suc.prems] show ?thesis by (subst jwksLoop.simps) (auto split: prod.split)
  next
    assume "\<not> i \<le> authRetryCount A"
    then show ?thesis by (subst jwksLoop.simps) simp
  qed
qed

text \<open>C38. Opening a connection with retries always ends, except when the number of retries is the greatest one of
  64 bits and no attempt succeeds: with that number the counter wraps before it can exceed it.\<close>
theorem openRetrying_endless_iff:
  "openRetrying what attempt n = None \<longleftrightarrow> n = - 1 \<and> (\<forall>t. isl (attempt t))"
proof -
  have "openRetrying what attempt n = None \<longleftrightarrow> openLoop attempt n 1 0 = None" by (simp add: openRetrying_def)
  also have "\<dots> \<longleftrightarrow> \<not> (\<exists>r. openLoop attempt n 1 0 = Some r)" by (cases "openLoop attempt n 1 0") simp_all
  also have "\<dots> \<longleftrightarrow> n = - 1 \<and> (\<forall>t. isl (attempt t))" using openLoop_ends_iff [of attempt n 1 0] by simp
  finally show ?thesis .
qed

lemma openRetrying_result:
  "n \<noteq> - 1 \<Longrightarrow> openRetrying what attempt n =
     Some (case firstOpen attempt 0 (unat n) of
             None \<Rightarrow> Inl (Err (what @ '' connection attempts exhausted ('' @ nat_str (unat n) @ '').''))
           | Some c \<Rightarrow> Inr c)"
  by (simp add: openRetrying_def openLoop_bounded)

subsection \<open>The settings that the service starts with\<close>

text \<open>Registering the flags changes three variables.\<close>

lemma register_cmdFlags:
  "register cmdFlags v = v\<lparr>v_datastoreBase := kvDefaultURL v, v_spireTokensBaseURL := v_spireServiceURL v,
     v_sqlRetryWait := v_sqlRetryCount v\<rparr>"
  by (simp add: register_def cmdFlags_def stringVar_def boolVar_def uintVar_def kvDefaultURL_def)

definition retrySettings :: "vars \<Rightarrow> 64 word list" where
  "retrySettings v = [v_kvRetryCount v, v_kvRetryWait v, v_sqlRetryCount v, v_sqlRetryWait v, v_authRetryCount v, v_authRetryWait v]"

lemma parseEnvVars_retries: "retrySettings (snd (parseEnvVars getenv v)) = retrySettings v"
proof -
  have "retrySettings (snd (parseAll getenv envVars v)) = retrySettings v"
    by (rule parseAll_keeps) (auto simp: envVars_def retrySettings_def intro!: parseEnv_keeps)
  then show ?thesis by (auto simp: parseEnvVars_def split: prod.splits)
qed

text \<open>What holds of the service when it starts to serve.\<close>

fun connectedTo :: "'k startEnv \<Rightarrow> vars \<Rightarrow> 'k backend \<Rightarrow> bool" where
  "connectedTo E v (KvBackend k) \<longleftrightarrow>
     \<not> v_useSQL v \<and> firstOpen (\<lambda>t. se_kvOpen E t (kvDefaultURL v) (svcOptions v)) 0 10 = Some k"
| "connectedTo E v (PgBackend q) \<longleftrightarrow>
     v_useSQL v \<and> firstOpen (\<lambda>t. se_pgOpen E t (connString (v_sqlHost v) (v_sqlPort v) (v_bssdbName v)
        (v_sqlUser v) (v_sqlPass v) (\<not> v_insecure v) (v_sqlDbOpts v))) 0 10 = Some q"

definition wellStarted :: "'k startEnv \<Rightarrow> 'k started \<Rightarrow> bool" where
  "wellStarted E st \<longleftrightarrow>
     (let v = st_vars st in
      v_advertiseAddress v \<noteq> [] \<and> v_datastoreBase v = kvDefaultURL v \<and> retrySettings v = [10, 5, 10, 10, 10, 5] \<and>
      connectedTo E v (st_backend st))"

lemma getNotifierURL_vars: "\<exists>x. snd (getNotifierURL h v) = v\<lparr>v_notifierURL := x\<rparr>"
proof (cases "v_notifierURL v = []")
  case True
  then show ?thesis by (auto simp: getNotifierURL_def)
next
  case False
  then have "snd (getNotifierURL h v) = v\<lparr>v_notifierURL := v_notifierURL v\<rparr>" by (simp add: getNotifierURL_def)
  then show ?thesis by blast
qed

lemma openBackend_result:
  assumes "v_kvRetryCount v = 10" and "v_sqlRetryCount v = 10" and "v_datastoreBase v = kvDefaultURL v"
  shows "\<exists>r. openBackend E v = Some r \<and> (\<forall>b. r = Inr b \<longrightarrow> connectedTo E v b)"
  using assms unfolding openBackend_def kvOpen_def sqlOpen_def
  by (auto simp: openRetrying_result split: option.split)

lemma openServices_result:
  assumes "retrySettings v = [10, 5, 10, 10, 10, 5]" and "v_datastoreBase v = kvDefaultURL v"
  shows "\<exists>r. openServices E oa v = Some r \<and> (\<forall>n. r \<noteq> Exited n) \<and> (\<forall>p. r \<noteq> Crashed p) \<and> (\<forall>st. r = Serving st \<longrightarrow> wellStarted E st)"
proof (cases "v_advertiseAddress v = []")
  case True
  then show ?thesis by (simp add: openServices_def)
next
  case adv: False
  show ?thesis
  proof (cases "SmOpen (hsmOf E v) (v_hsmBase v) (svcOptions v)")
    case (Inl e)
    with adv show ?thesis by (simp add: openServices_def)
  next
    case sm: (Inr src)
    obtain url w where n: "getNotifierURL (se_hostname E 1) v = (url, w)" by fastforce
    with getNotifierURL_vars [of "se_hostname E 1" v] obtain x where w: "w = v\<lparr>v_notifierURL := x\<rparr>" by auto
    obtain nt where nt: "newNotifier (v_serviceName w) (v_nfdBase w @ ''/hmi/v1/subscribe'') url (svcOptions w) = Inr nt"
      by (simp add: newNotifier_def)
    have w': "v_kvRetryCount w = 10" "v_sqlRetryCount w = 10" "v_datastoreBase w = kvDefaultURL w" "retrySettings w = [10, 5, 10, 10, 10, 5]"
      "v_advertiseAddress w \<noteq> []"
      using assms adv by (simp_all add: w retrySettings_def kvDefaultURL_def)
    obtain r where r: "openBackend E w = Some r" and good: "\<And>b. r = Inr b \<Longrightarrow> connectedTo E w b"
      using openBackend_result [OF w'(1-3), of E] by blast
    show ?thesis
      using w'(3-5) good
      by (cases r) (simp_all add: openServices_def adv sm n [simplified] nt r wellStarted_def Let_def)
  qed
qed

text \<open>C14. Started without arguments, the service always comes to an end of its start, whatever the environment
  holds: it ends with an error, or it serves. It serves only with an address to advertise, connected
  to the store that is configured by the first of at most 10 attempts that succeeded; the address of
  that store is the one made of ETCD_HOST and ETCD_PORT (DATASTORE_BASE has no
  effect), and the variables for retries have no effect either. The hypothesis is that there are no arguments.\<close>
theorem main_correct:
  assumes "se_args E = []"
  shows "\<exists>r. main E = Some r \<and> (\<forall>n. r \<noteq> Exited n) \<and> (\<forall>p. r \<noteq> Crashed p) \<and> (\<forall>st. r = Serving st \<longrightarrow> wellStarted E st)"
proof -
  obtain err v where v: "parseEnvVars (se_getenv E) initialVars = (err, v)" by fastforce
  have "retrySettings v = [10, 5, 10, 5, 10, 5]"
    using parseEnvVars_retries [of "se_getenv E" initialVars] v by (simp add: retrySettings_def initialVars_def)
  then have s: "retrySettings (register cmdFlags v) = [10, 5, 10, 10, 10, 5]"
    "v_datastoreBase (register cmdFlags v) = kvDefaultURL (register cmdFlags v)"
    by (simp_all add: register_cmdFlags retrySettings_def kvDefaultURL_def)
  let ?w = "withHostName E (register cmdFlags v)"
  have w: "retrySettings ?w = [10, 5, 10, 10, 10, 5]" "v_datastoreBase ?w = kvDefaultURL ?w"
    using s by (auto simp: withHostName_def retrySettings_def kvDefaultURL_def split: sum.split)
  have "authRetryCount (oauthOf E ?w) \<noteq> - 1" using w(1) by (simp add: oauthOf_def retrySettings_def)
  then obtain oa where "fetchKeys E ?w = Some oa"
    using jwksLoop_ends [of "oauthOf E ?w" "v_jwksURL ?w" 0 startOAuth]
    by (cases "v_jwksURL ?w = []") (auto simp: fetchKeys_def)
  with openServices_result [OF w, of E oa] v assms show ?thesis
    by (simp add: main_def parseCmdLine_def)
qed

text \<open>A start without arguments whose third attempt to reach etcd succeeds.\<close>

definition demoStart :: "nat startEnv" where
  "demoStart =
     \<lparr>se_getenv = (\<lambda>evar. if evar = ''BSS_ADVERTISE_ADDRESS'' then ''10.0.0.1:27778''
                       else if evar = ''HSM_URL'' then ''mem:''
                       else if evar = ''ETCD_HOST'' then ''etcd'' else if evar = ''ETCD_PORT'' then ''2379''
                       else if evar = ''DATASTORE_BASE'' then ''http://other:1'' else if evar = ''ETCD_RETRY_COUNT'' then ''1''
                       else []),
      se_args = [], se_hostname = (\<lambda>_. Inr ''cray-bss-0''), se_oauth = demoOAuth,
      se_hsm = \<lparr>hs_client = False, hs_BaseURL = [], hs_retryCount = 0, hs_retryWait = 0, hs_probe = (\<lambda>_. Inr 200),
        hs_refreshJWT = None, hs_components = None, hs_endpoints = None, hs_ethifaces = None, hs_file = None\<rparr>,
      se_kvOpen = (\<lambda>t url _. if t < 2 then Inl (Err ''refused'') else if url = ''http://etcd:2379'' then Inr 7 else Inr 0),
      se_pgOpen = (\<lambda>_ _. Inl (Err ''refused''))\<rparr>"

definition demoVars :: vars where
  "demoVars = (let v = snd (parseEnvVars (se_getenv demoStart) initialVars) in
     withHostName demoStart (v\<lparr>v_datastoreBase := kvDefaultURL v, v_spireTokensBaseURL := v_spireServiceURL v,
       v_sqlRetryWait := v_sqlRetryCount v\<rparr>))"

lemma demoVars_jwks: "v_jwksURL demoVars = []"
  by code_simp

lemma demoStart_main: "main demoStart = openServices demoStart startOAuth demoVars"
proof -
  have "se_args demoStart = []" by (simp add: demoStart_def)
  moreover have "withHostName demoStart (register cmdFlags (snd (parseEnvVars (se_getenv demoStart) initialVars))) = demoVars"
    by (simp add: demoVars_def register_cmdFlags Let_def)
  ultimately show ?thesis
    using demoVars_jwks by (simp add: main_def parseCmdLine_def fetchKeys_def case_prod_beta)
qed

lemma demoStart_serves:
  "case openServices demoStart startOAuth demoVars of
     Some (Serving st) \<Rightarrow> st_backend st = KvBackend 7 \<and> sn_NotifierURL (st_notifier st) = ''http://cray-bss/boot/v1/scn''
   | _ \<Rightarrow> False"
  by code_simp

lemma main_correct_witness:
  "\<exists>st. main demoStart = Some (Serving st) \<and> st_backend st = KvBackend 7 \<and> wellStarted demoStart st"
proof -
  have "se_args demoStart = []" by (simp add: demoStart_def)
  from main_correct [OF this] demoStart_serves show ?thesis
    unfolding demoStart_main by (auto split: option.splits outcome.splits)
qed

end
