(* ===== verification/BssInit.thy ===== *)
theory BssInit
  imports GoConfig Effects "HOL-Library.Word"
begin

text \<open>
  The program that prepares the database (cmd/bss-init/main.go). The migrations are carried out by the
  library golang-migrate, whose operations are the fields of \<open>migrator\<close>, on a state that
  includes the database. Opening and pinging the database depend on the number of the attempt. A fatal error
  (\<open>log.Fatalf\<close>) ends the program, and an attempt is repeated with a counter of 64 bits: \<open>None\<close> stands
  for a run that never ends.
\<close>

subsection \<open>Settings\<close>








subsection \<open>Connecting\<close>








subsection \<open>Migration\<close>








subsection \<open>main\<close>






subsection \<open>The version that a run leads to\<close>























end
