(* ===== verification/ColNames.thy ===== *)
theory ColNames
  imports PgTables GoErrors
begin

text \<open>
  The names of columns that the mapper of the database connection gives to the fields of a structure
  (internal/postgres/common.go), and the methods \<open>Is\<close> of the errors (errors.go) with the search
  through a chain of errors that \<open>errors.Is\<close> of the Go library makes. The regular expressions are
  written as the scans that they describe; the names of fields and tags are ASCII text.

  The queries of bootparams.go and endpoints.go read and write columns by position, so the mapper is
  never asked by this program.
\<close>

subsection \<open>From the tag\<close>

definition isLow :: "char \<Rightarrow> bool" where "isLow c \<longleftrightarrow> CHR ''a'' \<le> c \<and> c \<le> CHR ''z''"
definition isUp :: "char \<Rightarrow> bool" where "isUp c \<longleftrightarrow> CHR ''A'' \<le> c \<and> c \<le> CHR ''Z''"

definition tagChar :: "char \<Rightarrow> bool" where
  "tagChar c \<longleftrightarrow> isLow c \<or> is_digit c \<or> c = CHR ''-''"

definition dq :: char where "dq = CHR 0x22"

definition tagOpen :: string where "tagOpen = ''json:'' @ [dq]"

text \<open>A match at the start of the text: the words between the quotes are separated by commas and not empty.\<close>

definition tagMatch :: "string \<Rightarrow> string option" where
  "tagMatch s =
     (if hasPrefix s tagOpen then
        (let r = drop (length tagOpen) s;
             w = takeWhile (\<lambda>c. tagChar c \<or> c = CHR '','') r in
         if hasPrefix (drop (length w) r) [dq] \<and> [] \<notin> set (strSplit CHR '','' w) then Some (tagOpen @ w @ [dq])
         else None)
      else None)"

text \<open>\<open>FindString\<close>: the leftmost match, the empty text if there is none.\<close>

fun findTag :: "string \<Rightarrow> string" where
  "findTag [] = []"
| "findTag (c # s) = (case tagMatch (c # s) of Some m \<Rightarrow> m | None \<Rightarrow> findTag s)"

definition tagToColName :: "string \<Rightarrow> string" where
  "tagToColName tag = map (\<lambda>c. if c = CHR ''-'' then CHR ''_'' else c) (findTag tag)"

text \<open>A text without the opening part gives the empty name: so does the value of a tag, which is what
  the mapper of sqlx hands over. From a whole tag comes the whole tag, not the name in it.\<close>

lemma findTag_none: "\<not> strContains s tagOpen \<Longrightarrow> findTag s = []"
proof (induction s)
  case (Cons c s)
  then have "\<not> hasPrefix (c # s) tagOpen" "\<not> strContains s tagOpen"
    by (auto simp: strContains_def split: if_splits)
  with Cons.IH show ?case by (simp add: tagMatch_def)
qed simp

lemma tagToColName_value: "dq \<notin> set tag \<Longrightarrow> tagToColName tag = []"
proof -
  assume "dq \<notin> set tag"
  then have "tag \<noteq> a @ tagOpen @ b" for a b by (auto simp: tagOpen_def)
  then have "\<not> strContains tag tagOpen" by (simp add: strContains_def strIndex_None_iff)
  then show ?thesis by (simp add: tagToColName_def findTag_none)
qed

lemma tagToColName_whole:
  "tagToColName (tagOpen @ ''params,omitempty'' @ [dq]) = tagOpen @ ''params,omitempty'' @ [dq]"
  by code_simp

subsection \<open>From the name\<close>

text \<open>\<open>firstCap\<close> puts an underscore before a capital that small letters follow, \<open>allCaps\<close> between
  a small letter or a digit and a capital.\<close>

fun firstCap :: "string \<Rightarrow> string" where
  "firstCap (c # u # r) =
     (let ls = takeWhile isLow r in
      if c \<noteq> CHR 0x0A \<and> isUp u \<and> ls \<noteq> [] then c # CHR ''_'' # u # ls @ firstCap (drop (length ls) r)
      else c # firstCap (u # r))"
| "firstCap s = s"

fun allCaps :: "string \<Rightarrow> string" where
  "allCaps (c # u # r) =
     (if (isLow c \<or> is_digit c) \<and> isUp u then c # CHR ''_'' # u # allCaps r else c # allCaps (u # r))"
| "allCaps s = s"

definition fieldNameToColName :: "string \<Rightarrow> string" where
  "fieldNameToColName fieldName = toLower (allCaps (firstCap fieldName))"

text \<open>Underscores and case apart, the name of the column is that of the field.\<close>

abbreviation noUnderscore :: "string \<Rightarrow> string" where
  "noUnderscore \<equiv> filter (\<lambda>c. c \<noteq> CHR ''_'')"

lemma firstCap_letters: "noUnderscore (firstCap s) = noUnderscore s"
proof (induction s rule: firstCap.induct)
  case (1 c u r)
  have "noUnderscore (takeWhile isLow r) @ noUnderscore (drop (length (takeWhile isLow r)) r) = noUnderscore r"
    by (metis dropWhile_eq_drop filter_append takeWhile_dropWhile_id)
  with 1 show ?case by (auto simp: Let_def isUp_def)
qed auto

lemma allCaps_letters: "noUnderscore (allCaps s) = noUnderscore s"
  by (induction s rule: allCaps.induct) (auto simp: isUp_def)

lemma toLowerChar_underscore: "toLowerChar c = CHR ''_'' \<longleftrightarrow> c = CHR ''_''"
  by (cases c) (auto simp: toLowerChar_def char_of_def)

lemma noUnderscore_toLower: "noUnderscore (toLower s) = toLower (noUnderscore s)"
  by (induction s) (auto simp: toLower_def toLowerChar_underscore)

lemma fieldNameToColName_letters: "noUnderscore (fieldNameToColName f) = toLower (noUnderscore f)"
  by (simp add: fieldNameToColName_def noUnderscore_toLower allCaps_letters firstCap_letters)

lemma fieldNameToColName_lower: "toLower (fieldNameToColName f) = fieldNameToColName f"
  by (simp add: fieldNameToColName_def)

text \<open>The columns of the tables: from the names of the fields come the names of the columns, from the
  values of the tags the empty name.\<close>

definition rowFields :: "(string \<times> string \<times> string) list" where
  "rowFields =
     [(''Id'', ''id'', ''id''), (''BootMac'', ''boot_mac,omitempty'', ''boot_mac''), (''Xname'', ''xname,omitempty'', ''xname''),
      (''Nid'', ''nid,omitempty'', ''nid''), (''KernelUri'', ''kernel_uri'', ''kernel_uri''),
      (''InitrdUri'', ''initrd_uri,omitempty'', ''initrd_uri''), (''Cmdline'', ''cmdline,omitempty'', ''cmdline''),
      (''BootConfigId'', ''boot_config_id'', ''boot_config_id''), (''Name'', ''name'', ''name''),
      (''Description'', ''description'', ''description''), (''BootGroupId'', ''boot_group_id'', ''boot_group_id''),
      (''NodeId'', ''node_id'', ''node_id''), (''Endpoint'', ''endpoint'', ''endpoint''), (''LastEpoch'', ''last_epoch'', ''last_epoch'')]"

lemma rowFields_columns:
  "list_all (\<lambda>(field, tag, column). fieldNameToColName field = column \<and> tagToColName tag = []) rowFields"
  by code_simp

subsection \<open>Searching a chain of errors\<close>

text \<open>\<open>==\<close> on error values: those of \<open>errors.New\<close> and \<open>fmt.Errorf\<close> are pointers, whose
  identity is the argument \<open>same\<close>; the types of errors.go are compared by content.\<close>

fun goEq :: "(goerr \<Rightarrow> goerr \<Rightarrow> bool) \<Rightarrow> goerr \<Rightarrow> goerr \<Rightarrow> bool" where
  "goEq same (ErrPostgresAdd a) (ErrPostgresAdd b) = goEq same a b"
| "goEq same (ErrPostgresDelete a) (ErrPostgresDelete b) = goEq same a b"
| "goEq same (ErrPostgresUpdate a) (ErrPostgresUpdate b) = goEq same a b"
| "goEq same (ErrPostgresSet a) (ErrPostgresSet b) = goEq same a b"
| "goEq same (ErrPostgresGet a) (ErrPostgresGet b) = goEq same a b"
| "goEq same (ErrPostgresDuplicate a) (ErrPostgresDuplicate b) = (a = b)"
| "goEq same (ErrPostgresNotExists a) (ErrPostgresNotExists b) = (a = b)"
| "goEq same (Err s) (Err t) = same (Err s) (Err t)"
| "goEq same (Wrapped s a) (Wrapped t b) = same (Wrapped s a) (Wrapped t b)"
| "goEq same _ _ = False"

text \<open>\<open>errors.Is\<close> with the methods \<open>Is\<close>, whose search goes from the target to the error that the
  value holds.\<close>

function errorsIs :: "(goerr \<Rightarrow> goerr \<Rightarrow> bool) \<Rightarrow> goerr \<Rightarrow> goerr \<Rightarrow> bool" where
  "errorsIs same err target =
     (goEq same err target \<or>
      (case err of
         Err _ \<Rightarrow> False
       | Wrapped _ e \<Rightarrow> errorsIs same e target
       | ErrPostgresAdd e \<Rightarrow> hasPrefix (errorText target) ''postgres.Add: '' \<or> errorsIs same target e
       | ErrPostgresDelete e \<Rightarrow> hasPrefix (errorText target) ''postgres.Delete: '' \<or> errorsIs same target e
       | ErrPostgresUpdate e \<Rightarrow> hasPrefix (errorText target) ''postgres.Update: '' \<or> errorsIs same target e
       | ErrPostgresSet e \<Rightarrow> hasPrefix (errorText target) ''postgres.Set: '' \<or> errorsIs same target e
       | ErrPostgresGet e \<Rightarrow> hasPrefix (errorText target) ''postgres.Get: '' \<or> errorsIs same target e
       | ErrPostgresDuplicate _ \<Rightarrow> hasPrefix (errorText target) ''data already exists''
       | ErrPostgresNotExists _ \<Rightarrow> hasPrefix (errorText target) ''data does not exist''))"
  by pat_completeness auto
termination by (relation "measure (\<lambda>(same, err, target). size err + size target)") auto

declare errorsIs.simps [simp del]

text \<open>Any two errors of the same operation match, whatever they hold. An error held by another one is
  found when it is held directly, but not when it is further down the chain.\<close>

lemma errorsIs_Add: "errorsIs same (ErrPostgresAdd e) (ErrPostgresAdd e')"
  by (subst errorsIs.simps) (simp add: hasPrefix_def)

lemma errorsIs_held: "same (Err t) (Err t) \<Longrightarrow> errorsIs same (ErrPostgresAdd (Err t)) (Err t)"
  by (simp add: errorsIs.simps)

lemma errorsIs_deeper:
  "errorsIs same (ErrPostgresAdd (Wrapped s (Err t))) (Err t) \<longleftrightarrow> hasPrefix t ''postgres.Add: ''"
  by (simp add: errorsIs.simps)

end
