(* ===== verification/PublicPages.thy ===== *)
theory PublicPages
  imports Reachable
begin

text \<open>
  What can be done to the boot parameters without passing the authentication: nothing, through any page
  other than that of the phone-home notification, which is public. Both stores are covered: the
  relation \<open>recordsKept\<close> says that the tables of boot parameters, or the keys of boot data and images,
  are unchanged, and is an instance of \<open>service_relation\<close> of ServiceFrame.

  With Postgres the values of a request become part of SQL text. A value with a quote leaves the
  SQL that SqlText reads, so requests with such values are left out (\<open>plainRequest\<close>): for them the
  statement would say nothing about the program.
\<close>

subsection \<open>The table of routes\<close>

text \<open>The pages are finitely many, so statements about all of them are computed.\<close>

instantiation page :: enum
begin

definition enum_page :: "page list" where
  "enum_page = [IndexPage, BootParametersPage, BootScriptPage, HostsPage, DumpstatePage, StatusPage, StatusAllPage,
     VersionPage, HSMPage, StoragePage, MetaDataPage, UserDataPage, PhoneHomePage, ScnPage, HistoryPage]"

definition enum_all_page :: "(page \<Rightarrow> bool) \<Rightarrow> bool" where
  "enum_all_page P \<longleftrightarrow> list_all P Enum.enum"

definition enum_ex_page :: "(page \<Rightarrow> bool) \<Rightarrow> bool" where
  "enum_ex_page P \<longleftrightarrow> list_ex P Enum.enum"

instance
proof
  show univ: "(UNIV :: page set) = set Enum.enum"
    unfolding enum_page_def by (auto intro: page.exhaust)
  show "distinct (Enum.enum :: page list)" by (simp add: enum_page_def)
  show "Enum.enum_all P \<longleftrightarrow> Ball UNIV P" for P :: "page \<Rightarrow> bool"
    by (simp add: enum_all_page_def list_all_iff univ)
  show "Enum.enum_ex P \<longleftrightarrow> Bex UNIV P" for P :: "page \<Rightarrow> bool"
    by (simp add: enum_ex_page_def list_ex_iff univ)
qed

end

text \<open>Every page has exactly one route, the routes are different, and only two are behind the authentication.\<close>

lemma one_route: "\<forall>pg. length (filter (\<lambda>(path, pg', protected). pg' = pg) routes) = 1"
  by code_simp

lemma routes_distinct: "distinct (map fst routes)"
  by code_simp

lemma protected_pages: "\<forall>pg. list_ex (\<lambda>(path, pg', protected). pg' = pg \<and> protected) routes \<longleftrightarrow> pg \<in> {IndexPage, BootParametersPage}"
  by code_simp

subsection \<open>The records of boot parameters\<close>

definition recordsKept :: "'k senv \<Rightarrow> 'k view \<Rightarrow> 'k svc \<Rightarrow> 'k svc \<Rightarrow> bool" where
  "recordsKept E C s s' \<longleftrightarrow>
     (if useSQL E then tablesKept (sqlSt s) (sqlSt s')
      else kv_ok (kvi E) C \<longrightarrow> (\<forall>key. bootKey key \<longrightarrow> C (kvs s') key = C (kvs s) key))"

lemma stores_resubscribe [simp]:
  "kvs (resubscribe E t l s) = kvs s" "sqlSt (resubscribe E t l s) = sqlSt s"
  by (simp_all add: resubscribe_def split: option.split)

lemma stores_newState [simp]: "kvs (newState d s) = kvs s" "sqlSt (newState d s) = sqlSt s"
  by (simp_all add: newState_def split: option.split)

lemma stores_protectedGetState:
  "kvs (snd (protectedGetState E ts s)) = kvs s \<and> sqlSt (snd (protectedGetState E ts s)) = sqlSt s"
  by (simp add: protectedGetState_def Let_def split: sum.split prod.split)

lemma recordsKept_reads:
  "recordsKept E C s (snd (kv_Get E key s))" "recordsKept E C s (snd (kv_Range E a b s))"
proof -
  obtain x k where g: "kvGet (kvi E) key (kvs s) = (x, k)" by (metis surj_pair)
  have "kv_ok (kvi E) C \<Longrightarrow> C k = C (kvs s)"
    using g unfolding kv_ok_def get_ok_def by (metis surj_pair)
  with g show "recordsKept E C s (snd (kv_Get E key s))" by (simp add: recordsKept_def kv_Get_def tables.R_refl)
  obtain y k' where r: "kvRange (kvi E) a b (kvs s) = (y, k')" by (metis surj_pair)
  have "kv_ok (kvi E) C \<Longrightarrow> C k' = C (kvs s)"
    using r unfolding kv_ok_def range_ok_def by (metis surj_pair)
  with r show "recordsKept E C s (snd (kv_Range E a b s))" by (simp add: recordsKept_def kv_Range_def tables.R_refl)
qed

lemma recordsKept_note: "\<not> bootKey key \<Longrightarrow> recordsKept E C s (snd (kv_Store E key v s))"
proof (cases "useSQL E")
  case False
  obtain err k where g: "kvStore (kvi E) key v (kvs s) = (err, k)" by (metis surj_pair)
  assume "\<not> bootKey key"
  then have "C k key' = C (kvs s) key'" if "kv_ok (kvi E) C" "bootKey key'" for key'
    using that g unfolding kv_ok_def store_ok_def by (metis fun_upd_other)
  with False g show ?thesis by (simp add: recordsKept_def kv_Store_def)
qed (simp add: recordsKept_def kv_Store_def tables.R_refl)

interpretation public: service_relation "recordsKept E C" E for E :: "'k senv" and C
proof (unfold_locales, goal_cases)
  case (1 s)
  then show ?case by (simp add: recordsKept_def tables.R_refl)
next
  case (2 s t u)
  then show ?case by (auto simp: recordsKept_def split: if_splits intro: tables.R_trans)
next
  case (6 ts s)
  then show ?case by (simp add: recordsKept_def stores_protectedGetState tables.R_refl)
next
  case (7 s key)
  then show ?case by (rule recordsKept_reads)
next
  case (8 s a b)
  then show ?case by (rule recordsKept_reads)
next
  case (9 key s v)
  then show ?case by (rule recordsKept_note)
qed (auto simp: recordsKept_def tables.R_refl)

subsection \<open>Runs without authentication\<close>

definition plainRequest :: "request \<Rightarrow> bool" where
  "plainRequest r \<longleftrightarrow> list_all (\<lambda>(key, values). list_all quote_free values) (rq_Form r @ rq_Query r)"

definition isPhoneHome :: "'k senv \<Rightarrow> request \<Rightarrow> bool" where
  "isPhoneHome E r \<longleftrightarrow> map_option fst (map_of routes (routedPath E (rq_Path r))) = Some PhoneHomePage"

text \<open>The states that requests which the authentication refuses, and refreshes, lead to. With Postgres, requests with a quote
  in a value are left out: the code puts the values into the text of its queries as they are, so that such a request is SQL of the
  client's choice, which the model does not interpret.\<close>

inductive unauthorised :: "'k senv \<Rightarrow> 'k svc \<Rightarrow> 'k svc \<Rightarrow> bool" for E s0 where
  Start: "unauthorised E s0 s0"
| Request: "unauthorised E s0 s \<Longrightarrow> useSQL E \<longrightarrow> plainRequest r \<Longrightarrow> \<not> isPhoneHome E r \<Longrightarrow>
    serve E (Some refusal) r s = (answer, s') \<Longrightarrow> unauthorised E s0 s'"
| Refresh: "unauthorised E s0 s \<Longrightarrow> runPending E i s = (res, s') \<Longrightarrow> unauthorised E s0 s'"

lemma refused_request:
  assumes "jwksURL E \<noteq> []" and "\<not> isPhoneHome E r"
  shows "recordsKept E C s (snd (serve E (Some refusal) r s))"
  by (rule public.R_serve) (use assms in \<open>auto simp: isPhoneHome_def\<close>)

lemma unauthorised_kept:
  assumes "unauthorised E s0 s" and "jwksURL E \<noteq> []"
  shows "recordsKept E C s0 s"
  using assms(1)
proof (induction rule: unauthorised.induct)
  case Start
  then show ?case by (rule public.R_refl)
next
  case (Request s r refusal answer s')
  with refused_request [OF assms(2), of r C s refusal] show ?case by (auto intro: public.R_trans)
next
  case (Refresh s i res s')
  then have "recordsKept E C s s'" using public.keeps_runPending [of E C i] unfolding keepsTo_def by (metis snd_conv)
  with Refresh show ?case by (auto intro: public.R_trans)
qed

text \<open>C8. With authentication configured, no sequence of requests that it refuses, interleaved with any
  refreshes of the hardware state, changes boot parameters, with two exceptions: requests to the phone-home page, which
  writes without authentication, and, with Postgres, requests that have a quote in a query or form value. Such a value
  reaches the text of a query as it is (the public boot script page looks its mac and name up with it), so a
  client can change anything with it, and nothing is claimed. For all other requests (with a key-value store all requests to
  all other pages), with Postgres the nodes, groups,
  configurations and assignments are the same afterwards, with a key-value store that behaves as documented the
  values under all keys of boot data and images.\<close>

theorem unauthorised_changes_nothing:
  assumes "jwksURL E \<noteq> []" and "unauthorised E s0 s" and "kv_ok (kvi E) C" and "bootKey key"
  shows "(if useSQL E then
      t_nodes (pdb (sqlSt s)) = t_nodes (pdb (sqlSt s0)) \<and> t_groups (pdb (sqlSt s)) = t_groups (pdb (sqlSt s0)) \<and>
      t_configs (pdb (sqlSt s)) = t_configs (pdb (sqlSt s0)) \<and> t_bgas (pdb (sqlSt s)) = t_bgas (pdb (sqlSt s0))
    else C (kvs s) key = C (kvs s0) key)"
  using unauthorised_kept [OF assms(2,1), of C] assms(3,4) by (simp add: recordsKept_def tablesKept_def split: if_splits)

text \<open>A request to overwrite the parameters of a node without a token, followed by a notification.\<close>

definition refusedPut :: request where
  "refusedPut = \<lparr>rq_Method = ''PUT'', rq_Path = ''/boot/v1/bootparameters'', rq_Query = [], rq_Form = [],
     rq_Body = Inr ''{}'', rq_XFF = [], rq_RemoteAddr = ''10.0.0.9:4711''\<rparr>"

definition notification :: request where
  "notification = \<lparr>rq_Method = ''POST'', rq_Path = ''/boot/v1/scn'', rq_Query = [], rq_Form = [],
     rq_Body = Inr ''{}'', rq_XFF = [], rq_RemoteAddr = ''10.0.0.9:4711''\<rparr>"

definition guardedSenv :: "(string \<times> string) list senv" where
  "guardedSenv = demoSenv\<lparr>jwksURL := ''https://auth/keys''\<rparr>"

lemma unauthorised_changes_nothing_witness:
  "map_of (kvs (snd (serve guardedSenv (Some (Reply 401 [] [])) notification
      (snd (serve guardedSenv (Some (Reply 401 [] [])) refusedPut (demoSvc [(''/params/x1'', ''{}'')])))))) ''/params/x1'' = Some ''{}''"
proof -
  let ?s0 = "demoSvc [(''/params/x1'', ''{}'')]"
  let ?s1 = "snd (serve guardedSenv (Some (Reply 401 [] [])) refusedPut ?s0)"
  let ?s2 = "snd (serve guardedSenv (Some (Reply 401 [] [])) notification ?s1)"
  have p: "plainRequest refusedPut" "plainRequest notification"
    by (simp_all add: plainRequest_def refusedPut_def notification_def)
  have h: "\<not> isPhoneHome guardedSenv refusedPut" "\<not> isPhoneHome guardedSenv notification"
    by (simp_all add: isPhoneHome_def refusedPut_def notification_def guardedSenv_def demoSenv_def routes_def baseEndpoint_def notifierEndpoint_def)
  have "unauthorised guardedSenv ?s0 ?s1"
    by (rule unauthorised.Request [OF unauthorised.Start impI [OF p(1)] h(1) surjective_pairing])
  then have "unauthorised guardedSenv ?s0 ?s2"
    by (rule unauthorised.Request [OF _ impI [OF p(2)] h(2) surjective_pairing])
  moreover have "jwksURL guardedSenv \<noteq> []" "kv_ok (kvi guardedSenv) map_of" "\<not> useSQL guardedSenv" "bootKey ''/params/x1''"
    using memKvi_ok by (simp_all add: guardedSenv_def demoSenv_def bootKey_def paramsPfx_def hasPrefix_def)
  ultimately show ?thesis using unauthorised_changes_nothing [of guardedSenv ?s0 ?s2 map_of "''/params/x1''"] by simp
qed

end
