(* ===== verification/PhoneHomePage.thy ===== *)
theory PhoneHomePage
  imports KvUpdate KvLookup SmCache
begin

text \<open>
  The phone-home page, the only one that writes boot data without authentication (PublicPages): with the
  key-value store it writes cloud-init data of the node that asks, and no boot parameters.
\<close>

subsection \<open>Recognising the node\<close>

text \<open>What finding the node by its address leaves alone.\<close>

definition findKept :: "'k senv \<Rightarrow> 'k svc \<Rightarrow> 'k svc \<Rightarrow> bool" where
  "findKept E s s' \<longleftrightarrow> kvs s' = kvs s \<and> imageCache s' = imageCache s \<and>
     ((\<forall>t. 0 \<le> nowAt E t) \<longrightarrow> 0 \<le> smTimeStamp s \<longrightarrow> 0 \<le> smTimeStamp s')"

interpretation finding: steady "findKept E" for E :: "'k senv"
  by unfold_locales (auto simp: findKept_def)

lemma finding_protectedGetState: "keepsTo (findKept E) (protectedGetState E ts)"
  by (rule keepsToI)
    (simp add: findKept_def protectedGetState_def newState_def resubscribe_def Let_def split: sum.split prod.split option.split)

lemma finding_refreshState: "keepsTo (findKept E) (refreshState E ts)"
  unfolding refreshState_def by (intro finding.keeps_andThen finding_protectedGetState finding.keeps_prod finding.keeps_ret)

lemma finding_clockNow: "keepsTo (findKept E) (clockNow E)"
  by (rule keepsToI) (simp add: findKept_def clockNow_def)

lemma finding_deref: "keepsTo (findKept E) (deref x)"
  unfolding deref_def by (intro finding.keeps_option finding.keeps_ret finding.keeps_fail)

lemma finding_FindXnameByIP: "keepsTo (findKept E) (FindXnameByIP E ip)"
  unfolding FindXnameByIP_def
  by (intro finding.keeps_andThen finding.keeps_option finding.keeps_ret finding_refreshState finding_clockNow finding_deref)

lemma refreshState_result: "refreshState E ts s = (Inr d, s') \<Longrightarrow> d = smData s'"
  using protectedGetState_result(1) by (fastforce simp: refreshState_def andThen_def ret_def split: prod.splits sum.splits)

lemma FindXnameByIP_known:
  assumes "FindXnameByIP E ip s = (Inr (x, True), s')"
  shows "\<exists>d. smData s' = Some d"
  using assms
  by (auto simp: FindXnameByIP_def andThen_def deref_def ret_def fail_def
      dest!: refreshState_result split: prod.splits sum.splits option.splits) metis+

subsection \<open>What the page writes\<close>

definition bootOf :: "BootDataStore \<Rightarrow> string \<times> string \<times> string \<times> string" where
  "bootOf b = (ds_Params b, ds_Kernel b, ds_Initrd b, ds_ReferralToken b)"

lemma bootOf_cloudInit:
  assumes "Params bp = []" and "Kernel bp = []" and "Initrd bp = []"
  shows "bootOf (updatedRecord E bp kid iid b) = bootOf b"
  using assms by (simp add: updatedRecord_def mergeHost_def bootOf_def Let_def split: prod.split)

lemma cloudInit_phoneHome:
  assumes "Params bp = []" and "Kernel bp = []" and "Initrd bp = []" and "somePhoneHome (ciPhoneHome (bpCloudInit bp))"
  shows "ciPhoneHome (ds_CloudInit (updatedRecord E bp kid iid b)) = ciPhoneHome (bpCloudInit bp)"
  using assms by (auto simp: updatedRecord_def mergeHost_def updateCloudInit_def Let_def split: prod.split)

lemma firstData_hostData: "firstData m names = Some b \<Longrightarrow> \<exists>n. hostData m n = Some b"
  by (induction names) (auto split: option.splits)

lemma bootDataFor_cloud: "cloud_ok (bd_CloudInit (bootDataFor m names))"
proof (cases "firstData m names")
  case None
  then show ?thesis by (simp add: bootDataFor_def noBootData_def)
next
  case (Some b)
  then obtain n where "hostData m n = Some b" using firstData_hostData by blast
  then show ?thesis using Some hostData_ok by (simp add: bootDataFor_def dataOf_def stored_ok_def)
qed

lemma andThen_ret: "andThen m (\<lambda>x. ret (g x)) s = (map_sum id g (fst (m s)), snd (m s))"
  by (simp add: andThen_def ret_def split: prod.split sum.split)

text \<open>The records after the page: those of one name may have other cloud-init data.\<close>

definition onlyCloudInit :: "string \<Rightarrow> (string \<Rightarrow> string option) \<Rightarrow> (string \<Rightarrow> string option) \<Rightarrow> bool" where
  "onlyCloudInit x m m' \<longleftrightarrow> (\<forall>n. n \<noteq> x \<longrightarrow> hostData m' n = hostData m n) \<and>
     map_option bootOf (hostData m' x) = map_option bootOf (hostData m x)"

lemma onlyCloudInit_refl [simp]: "onlyCloudInit x m m"
  by (simp add: onlyCloudInit_def)

definition phoneHomeRequest :: "string \<Rightarrow> CloudInit \<Rightarrow> PhoneHome \<Rightarrow> BootParams" where
  "phoneHomeRequest x ci args = noBootParams\<lparr>Hosts := [x], bpCloudInit := ci\<lparr>ciPhoneHome := args\<rparr>\<rparr>"

lemma phoneHomeRequest_simps [simp]:
  "Params (phoneHomeRequest x ci args) = []" "Kernel (phoneHomeRequest x ci args) = []" "Initrd (phoneHomeRequest x ci args) = []"
  "ciPhoneHome (bpCloudInit (phoneHomeRequest x ci args)) = args" "updItems d (phoneHomeRequest x ci args) = [[x]]"
  "values_ok (phoneHomeRequest x ci args) \<longleftrightarrow> map_ok (MetaData ci) \<and> map_ok (UserData ci) \<and> phone_ok args"
  by (simp_all add: phoneHomeRequest_def noBootParams_def updItems_def cloud_ok_def values_ok_def)

lemma svcUpdate_phoneHome:
  assumes "kv_in E C" "kv_up (kvi E)" "patch_ok E" "\<forall>t. perm_ok (rangeOrder E t)" "cached d s" "imageCache s = []"
    and ci: "cloud_ok ci" "phone_ok args" and u: "svcUpdate E (phoneHomeRequest x ci args) s = (r, s')"
  shows "onlyCloudInit x (C (kvs s)) (C (kvs s')) \<and>
    (r = Inr None \<and> somePhoneHome args \<longrightarrow> (\<exists>b. hostData (C (kvs s')) x = Some b \<and> ciPhoneHome (ds_CloudInit b) = args))"
proof -
  let ?bp = "phoneHomeRequest x ci args" and ?m = "C (kvs s)" and ?m' = "C (kvs s')"
  obtain err where r: "r = Inr err" and upd: "updDone E d ?bp ?m ?m' err"
    using svcUpdate_result [OF assms(1-6) _ _ _ u] ci by (auto simp: cloud_ok_def)
  show ?thesis
  proof (cases "hostData ?m x")
    case None
    then have "pickName ?m [x] = None" by (simp add: pickName_def)
    with upd have "err \<noteq> None" "\<forall>n. hostData ?m' n = hostData ?m n" by (simp_all add: updDone_def)
    with r show ?thesis by (auto simp: onlyCloudInit_def)
  next
    case (Some b)
    then have "pickName ?m [x] = Some x" by (simp add: pickName_def)
    with upd obtain kid iid where h: "\<And>n. hostData ?m' n =
        (if n \<in> {x} then map_option (updatedRecord E ?bp kid iid) (hostData ?m n) else hostData ?m n)"
      by (auto simp: updDone_def updNames_def)
    have "bootOf (updatedRecord E ?bp kid iid b) = bootOf b" by (rule bootOf_cloudInit) simp_all
    moreover have "somePhoneHome args \<Longrightarrow> ciPhoneHome (ds_CloudInit (updatedRecord E ?bp kid iid b)) = args"
      using cloudInit_phoneHome [of ?bp E kid iid b] by simp
    ultimately show ?thesis using Some by (simp add: onlyCloudInit_def h)
  qed
qed

lemma decodePhone_ok: "decodeBody decPhoneHome noPhoneHome body = Inr args \<Longrightarrow> phone_ok args"
  using decPhoneHome_ok [OF json_first_ok, of _ _ noPhoneHome]
  by (fastforce simp: decodeBody_def split: sum.splits option.splits prod.splits if_splits)

lemma phoneHome_result:
  assumes E: "kv_in E C" "kv_up (kvi E)" "patch_ok E" "\<forall>t. perm_ok (rangeOrder E t)" "\<forall>t. 0 \<le> nowAt E t"
    and s: "imageCache s = []" "0 \<le> smTimeStamp s"
    and p: "phoneHomePostAPI E r s = (res, s')"
  shows "\<exists>x. onlyCloudInit x (C (kvs s)) (C (kvs s')) \<and>
    (\<forall>body. res = Inr (Reply 200 jsonHdr body) \<longrightarrow>
       (\<exists>args. decodeBody decPhoneHome noPhoneHome (rq_Body r) = Inr args \<and> (somePhoneHome args \<longrightarrow>
         (\<exists>b. hostData (C (kvs s')) x = Some b \<and> ciPhoneHome (ds_CloudInit b) = args))))"
proof (cases "decodeBody decPhoneHome noPhoneHome (rq_Body r)")
  case (Inl e)
  with p show ?thesis by (auto simp: phoneHomePostAPI_def ret_def)
next
  case args: (Inr args)
  obtain r1 s1 where f: "FindXnameByIP E (findRemoteAddr r) s = (r1, s1)" by fastforce
  have k: "findKept E s s1" using finding_FindXnameByIP f unfolding keepsTo_def by (metis snd_conv)
  then have s1: "kvs s1 = kvs s" "imageCache s1 = []" "0 \<le> smTimeStamp s1" using E(5) s by (auto simp: findKept_def)
  show ?thesis
  proof (cases "\<exists>x. r1 = Inr (x, True)")
    case False
    with p args f have "s' = s1 \<and> (\<forall>body. res \<noteq> Inr (Reply 200 jsonHdr body))"
      by (auto simp: phoneHomePostAPI_def andThen_def ret_def split: sum.splits)
    then show ?thesis using s1 by auto
  next
    case True
    then obtain x where x: "r1 = Inr (x, True)" by blast
    obtain d where d: "smData s1 = Some d" using FindXnameByIP_known f x by blast
    then have c: "cached d s1" using s1 by (simp add: cached_def)
    obtain k bd comp where l: "LookupByName E x s1 = (Inr (bd, comp), s1\<lparr>kvs := k\<rparr>)" and k: "C k = C (kvs s1)"
      and bd: "cloud_ok (bd_CloudInit bd)"
      using conjunct1 [OF conjunct2 [OF LookupBy_result [OF E(1,2) c s1(2), where name = x]]] bootDataFor_cloud by blast
    let ?bp = "phoneHomeRequest x (bd_CloudInit bd) args"
    obtain r2 s2 where u: "svcUpdate E ?bp (s1\<lparr>kvs := k\<rparr>) = (r2, s2)" by fastforce
    have "cached d (s1\<lparr>kvs := k\<rparr>)" "imageCache (s1\<lparr>kvs := k\<rparr>) = []" using c s1 by simp_all
    from svcUpdate_phoneHome [OF E(1-4) this bd decodePhone_ok [OF args] u]
    have o: "onlyCloudInit x (C (kvs s)) (C (kvs s2))"
      and ph: "r2 = Inr None \<Longrightarrow> somePhoneHome args \<Longrightarrow> \<exists>b. hostData (C (kvs s2)) x = Some b \<and> ciPhoneHome (ds_CloudInit b) = args"
      by (simp_all add: k s1(1))
    let ?g = "\<lambda>err. case err of Some e \<Rightarrow> Problem 404 (''Not Found: '' @ svcText E e)
               | None \<Rightarrow> Reply 200 jsonHdr (jprint (bootParamsJson ?bp) @ nl)"
    have "phoneHomePostAPI E r s = andThen (svcUpdate E ?bp) (\<lambda>err. ret (?g err)) (s1\<lparr>kvs := k\<rparr>)"
      unfolding phoneHomeRequest_def
      by (simp add: phoneHomePostAPI_def args andThen_def [of "FindXnameByIP E (findRemoteAddr r)"]
          andThen_def [of "LookupByName E x"] f x l Let_def)
    then have a: "res = map_sum id ?g r2" "s' = s2" unfolding andThen_ret u p by (simp_all only: fst_conv snd_conv prod.inject)
    have g: "?g err = Reply 200 jsonHdr body \<Longrightarrow> err = None" for err body by (cases err) simp_all
    have success: "r2 = Inr None" if "res = Inr (Reply 200 jsonHdr body)" for body
    proof (cases r2)
      case (Inl e)
      with that a(1) show ?thesis by simp
    next
      case (Inr err)
      with that a(1) have "?g err = Reply 200 jsonHdr body" by (simp only: map_sum.simps sum.inject)
      with Inr show ?thesis using g by blast
    qed
    show ?thesis
    proof (rule exI [of _ x], intro conjI allI impI)
      show "onlyCloudInit x (C (kvs s)) (C (kvs s'))" unfolding a(2) by (rule o)
      fix body
      assume b: "res = Inr (Reply 200 jsonHdr body)"
      from ph [OF success [OF b]] args
      show "\<exists>args. decodeBody decPhoneHome noPhoneHome (rq_Body r) = Inr args \<and> (somePhoneHome args \<longrightarrow>
          (\<exists>b. hostData (C (kvs s')) x = Some b \<and> ciPhoneHome (ds_CloudInit b) = args))"
        unfolding a(2) by blast
    qed
  qed
qed

text \<open>C9. When the key-value store answers, a phone-home request changes the boot data of one name at most,
  and of that only the cloud-init data: kernel parameters, kernel, initrd and referral token of every
  name stay, whatever the request holds and whether it succeeds or not. If it succeeds and gives any
  phone-home data, these are in the record afterwards. The hypotheses about the outside are that merge patches are
  well-formed JSON, that maps are ranged over in some order and that the clock is not before 1970.\<close>

theorem phoneHome_only_cloudInit:
  assumes "kv_in E C" "kv_up (kvi E)" "patch_ok E" "\<forall>t. perm_ok (rangeOrder E t)" "\<forall>t. 0 \<le> nowAt E t"
    and "imageCache s = []" "0 \<le> smTimeStamp s" and "phoneHomePostAPI E r s = (res, s')"
  shows "\<exists>x. (\<forall>n. n \<noteq> x \<longrightarrow> hostData (C (kvs s')) n = hostData (C (kvs s)) n) \<and>
    map_option bootOf (hostData (C (kvs s')) x) = map_option bootOf (hostData (C (kvs s)) x) \<and>
    (\<forall>body. res = Inr (Reply 200 jsonHdr body) \<longrightarrow>
       (\<exists>args. decodeBody decPhoneHome noPhoneHome (rq_Body r) = Inr args \<and> (somePhoneHome args \<longrightarrow>
         (\<exists>b. hostData (C (kvs s')) x = Some b \<and> ciPhoneHome (ds_CloudInit b) = args))))"
  using phoneHome_result [OF assms] unfolding onlyCloudInit_def by blast

definition demoPhone :: request where
  "demoPhone = \<lparr>rq_Method = ''POST'', rq_Path = ''/phone-home'', rq_Query = [], rq_Form = [],
     rq_Body = Inr (jprint (JObj [(''hostname'', JStr ''n7'')])), rq_XFF = ''10.0.0.1'', rq_RemoteAddr = []\<rparr>"

lemma demoPhone_args:
  "case decodeBody decPhoneHome noPhoneHome (rq_Body demoPhone) of Inr args \<Rightarrow> Hostname args = ''n7'' \<and> somePhoneHome args | Inl _ \<Rightarrow> False"
  by code_simp

lemma demoPhone_answer:
  "case fst (phoneHomePostAPI demoSenv demoPhone (demoSvc [(''/params/x0c0s1b0n0'', ''{}'')])) of
     Inr (Reply status hdr body) \<Rightarrow> status = 200 \<and> hdr = jsonHdr | _ \<Rightarrow> False"
  by code_simp

lemma phoneHome_only_cloudInit_witness:
  "\<exists>x b. hostData (map_of (kvs (snd (phoneHomePostAPI demoSenv demoPhone (demoSvc [(''/params/x0c0s1b0n0'', ''{}'')]))))) x = Some b \<and>
     Hostname (ciPhoneHome (ds_CloudInit b)) = ''n7''"
proof -
  let ?s = "demoSvc [(''/params/x0c0s1b0n0'', ''{}'')]"
  obtain res s' where p: "phoneHomePostAPI demoSenv demoPhone ?s = (res, s')" by fastforce
  have now: "\<forall>t. 0 \<le> nowAt demoSenv t" by (simp add: demoSenv_def)
  have ts: "0 \<le> smTimeStamp ?s" by simp
  from demoPhone_answer obtain body where "res = Inr (Reply 200 jsonHdr body)"
    by (auto simp: p split: sum.splits reply.splits)
  with phoneHome_only_cloudInit [OF demo_in demo_up demo_patch demo_range now demoSvc_simps(1) ts p] demoPhone_args p
  show ?thesis by fastforce
qed

end
