(* ===== verification/MemSource.thy ===== *)
theory MemSource
  imports Inventory
begin

text \<open>
  The hardware data that the source \<open>mem:\<close> of the service holds (the constant
  \<open>state_manager_data_temp\<close> of cmd/boot-script-service/sm.go), as \<open>SmOpen\<close> decodes it: two
  cabinets of four chassis with thirty-two nodes each. A node is written with its name, its number,
  its full name, its role and its two MAC addresses; all are ready and enabled. The names, numbers
  and MAC addresses are each unique, which is shown chassis by chassis.
\<close>

definition memNode :: "string \<Rightarrow> string \<Rightarrow> string \<Rightarrow> string \<Rightarrow> string \<Rightarrow> string \<Rightarrow> SMComponent" where
  "memNode x nid fqdn role mac0 mac1 =
     \<lparr>sc_ID = x, sc_State = ''Ready'', sc_Role = role, sc_SubRole = [], sc_NID = nid, sc_Fqdn = fqdn,
      sc_Mac = Some [mac0, mac1], sc_EndpointEnabled = True\<rparr>"

subsection \<open>The nodes\<close>

definition mem_x0c0 :: "SMComponent list" where
  "mem_x0c0 =
     [memNode ''x0c0s0b0n0'' ''4'' ''x0c0s0b0n0.test.com'' ''System'' ''00:1e:67:e3:46:93'' ''00:1e:67:e3:46:94'',
      memNode ''x0c0s1b0n0'' ''8'' ''x0c0s1b0n0.test.com'' ''Management'' ''00:1e:67:e3:46:51'' ''00:1e:67:e3:46:52'',
      memNode ''x0c0s2b0n0'' ''12'' ''x0c0s2b0n0.test.com'' ''Compute'' ''00:1e:67:df:f4:f1'' ''00:1e:67:df:f4:f2'',
      memNode ''x0c0s3b0n0'' ''16'' ''x0c0s3b0n0.test.com'' '''' ''00:1e:67:dd:d0:00'' ''00:1e:67:dd:d0:01'',
      memNode ''x0c0s4b0n0'' ''20'' ''x0c0s4b0n0.test.com'' '''' ''00:1e:67:df:f7:0d'' ''00:1e:67:df:f7:0e'',
      memNode ''x0c0s5b0n0'' ''24'' ''x0c0s5b0n0.test.com'' '''' ''00:1e:67:d8:9a:e1'' ''00:1e:67:d8:9a:e2'',
      memNode ''x0c0s6b0n0'' ''28'' ''x0c0s6b0n0.test.com'' '''' ''00:1e:67:dd:d1:27'' ''00:1e:67:dd:d1:28'',
      memNode ''x0c0s7b0n0'' ''32'' ''x0c0s7b0n0.test.com'' '''' ''00:1e:67:dd:cd:49'' ''00:1e:67:dd:cd:4a'',
      memNode ''x0c0s8b0n0'' ''36'' ''x0c0s8b0n0.test.com'' '''' ''00:1e:67:df:f7:26'' ''00:1e:67:df:f7:27'',
      memNode ''x0c0s9b0n0'' ''40'' ''x0c0s9b0n0.test.com'' '''' ''00:1e:67:e0:00:8b'' ''00:1e:67:e0:00:8c'',
      memNode ''x0c0s10b0n0'' ''44'' ''x0c0s10b0n0.test.com'' '''' ''00:1e:67:e0:02:39'' ''00:1e:67:e0:02:3a'',
      memNode ''x0c0s11b0n0'' ''48'' ''x0c0s11b0n0.test.com'' '''' ''00:1e:67:e3:81:ac'' ''00:1e:67:e3:81:ad'',
      memNode ''x0c0s12b0n0'' ''52'' ''x0c0s12b0n0.test.com'' '''' ''00:1e:67:e3:46:6a'' ''00:1e:67:e3:46:6b'',
      memNode ''x0c0s13b0n0'' ''56'' ''x0c0s13b0n0.test.com'' '''' ''00:1e:67:e3:80:03'' ''00:1e:67:e3:80:04'',
      memNode ''x0c0s14b0n0'' ''60'' ''x0c0s14b0n0.test.com'' '''' ''00:1e:67:dd:c1:46'' ''00:1e:67:dd:c1:47'',
      memNode ''x0c0s15b0n0'' ''64'' ''x0c0s15b0n0.test.com'' '''' ''00:1e:67:e3:3e:f9'' ''00:1e:67:e3:3e:fa'',
      memNode ''x0c0s16b0n0'' ''68'' ''x0c0s16b0n0.test.com'' '''' ''00:1e:67:e3:3e:e0'' ''00:1e:67:e3:3e:e1'',
      memNode ''x0c0s17b0n0'' ''72'' ''x0c0s17b0n0.test.com'' '''' ''00:1e:67:e3:48:09'' ''00:1e:67:e3:48:0a'',
      memNode ''x0c0s18b0n0'' ''76'' ''x0c0s18b0n0.test.com'' '''' ''00:1e:67:dd:d1:7c'' ''00:1e:67:dd:d1:7d'',
      memNode ''x0c0s19b0n0'' ''80'' ''x0c0s19b0n0.test.com'' '''' ''00:1e:67:e3:3b:1b'' ''00:1e:67:e3:3b:1c'',
      memNode ''x0c0s20b0n0'' ''84'' ''x0c0s20b0n0.test.com'' '''' ''00:1e:67:e3:7d:1a'' ''00:1e:67:e3:7d:1b'',
      memNode ''x0c0s21b0n0'' ''88'' ''x0c0s21b0n0.test.com'' '''' ''00:1e:67:dd:cd:da'' ''00:1e:67:dd:cd:db'',
      memNode ''x0c0s22b0n0'' ''92'' ''x0c0s22b0n0.test.com'' '''' ''00:1e:67:e3:82:e7'' ''00:1e:67:e3:82:e8'',
      memNode ''x0c0s23b0n0'' ''96'' ''x0c0s23b0n0.test.com'' '''' ''00:1e:67:e3:7c:43'' ''00:1e:67:e3:7c:44'',
      memNode ''x0c0s24b0n0'' ''100'' ''x0c0s24b0n0.test.com'' '''' ''00:1e:67:e3:3e:3b'' ''00:1e:67:e3:3e:3c'',
      memNode ''x0c0s25b0n0'' ''104'' ''x0c0s25b0n0.test.com'' '''' ''00:1e:67:e3:39:27'' ''00:1e:67:e3:39:28'',
      memNode ''x0c0s26b0n0'' ''108'' ''x0c0s26b0n0.test.com'' '''' ''00:1e:67:df:fb:40'' ''00:1e:67:df:fb:41'',
      memNode ''x0c0s27b0n0'' ''112'' ''x0c0s27b0n0.test.com'' '''' ''00:1e:67:e3:75:54'' ''00:1e:67:e3:75:55'',
      memNode ''x0c0s28b0n0'' ''116'' ''x0c0s28b0n0.test.com'' '''' ''00:1e:67:e0:06:17'' ''00:1e:67:e0:06:18'',
      memNode ''x0c0s29b0n0'' ''120'' ''x0c0s29b0n0.test.com'' '''' ''00:1e:67:e3:47:82'' ''00:1e:67:e3:47:83'',
      memNode ''x0c0s30b0n0'' ''124'' ''x0c0s30b0n0.test.com'' '''' ''00:1e:67:df:fd:43'' ''00:1e:67:df:fd:44'',
      memNode ''x0c0s31b0n0'' ''128'' ''x0c0s31b0n0.test.com'' '''' ''00:1e:67:dd:d1:59'' ''00:1e:67:dd:d1:5a'']"

definition mem_x0c1 :: "SMComponent list" where
  "mem_x0c1 =
     [memNode ''x0c1s0b0n0'' ''132'' ''x0c0s0b0n0.test.com'' ''System'' ''00:1e:67:e3:45:a2'' ''00:1e:67:e3:45:a3'',
      memNode ''x0c1s1b0n0'' ''136'' ''x0c0s1b0n0.test.com'' ''Management'' ''00:1e:67:e3:3f:a8'' ''00:1e:67:e3:3f:a9'',
      memNode ''x0c1s2b0n0'' ''140'' ''x0c0s2b0n0.test.com'' ''Compute'' ''00:1e:67:e3:7f:c2'' ''00:1e:67:e3:7f:c3'',
      memNode ''x0c1s3b0n0'' ''144'' ''x0c0s3b0n0.test.com'' '''' ''00:1e:67:dd:cd:0d'' ''00:1e:67:dd:cd:0e'',
      memNode ''x0c1s4b0n0'' ''148'' ''x0c0s4b0n0.test.com'' '''' ''00:1e:67:e3:77:f2'' ''00:1e:67:e3:77:f3'',
      memNode ''x0c1s5b0n0'' ''152'' ''x0c0s5b0n0.test.com'' '''' ''00:1e:67:e3:83:2d'' ''00:1e:67:e3:83:2e'',
      memNode ''x0c1s6b0n0'' ''156'' ''x0c0s6b0n0.test.com'' '''' ''00:1e:67:df:fa:a5'' ''00:1e:67:df:fa:a6'',
      memNode ''x0c1s7b0n0'' ''160'' ''x0c0s7b0n0.test.com'' '''' ''00:1e:67:dd:ca:ce'' ''00:1e:67:dd:ca:cf'',
      memNode ''x0c1s8b0n0'' ''164'' ''x0c0s8b0n0.test.com'' '''' ''00:1e:67:df:f7:df'' ''00:1e:67:df:f7:e0'',
      memNode ''x0c1s9b0n0'' ''168'' ''x0c0s9b0n0.test.com'' '''' ''00:1e:67:d8:a3:f6'' ''00:1e:67:d8:a3:f7'',
      memNode ''x0c1s10b0n0'' ''172'' ''x0c0s10b0n0.test.com'' '''' ''00:1e:67:e3:3f:c1'' ''00:1e:67:e3:3f:c2'',
      memNode ''x0c1s11b0n0'' ''176'' ''x0c0s11b0n0.test.com'' '''' ''00:1e:67:dd:ca:b0'' ''00:1e:67:dd:ca:b1'',
      memNode ''x0c1s12b0n0'' ''180'' ''x0c0s12b0n0.test.com'' '''' ''00:1e:67:e3:40:20'' ''00:1e:67:e3:40:21'',
      memNode ''x0c1s13b0n0'' ''184'' ''x0c0s13b0n0.test.com'' '''' ''00:1e:67:df:ff:b9'' ''00:1e:67:df:ff:ba'',
      memNode ''x0c1s14b0n0'' ''188'' ''x0c0s14b0n0.test.com'' '''' ''00:1e:67:e3:45:e8'' ''00:1e:67:e3:45:e9'',
      memNode ''x0c1s15b0n0'' ''192'' ''x0c0s15b0n0.test.com'' '''' ''00:1e:67:e3:41:f1'' ''00:1e:67:e3:41:f2'',
      memNode ''x0c1s16b0n0'' ''196'' ''x0c0s16b0n0.test.com'' '''' ''00:1e:67:e3:47:14'' ''00:1e:67:e3:47:15'',
      memNode ''x0c1s17b0n0'' ''200'' ''x0c0s17b0n0.test.com'' '''' ''00:1e:67:dd:c7:d6'' ''00:1e:67:dd:c7:d7'',
      memNode ''x0c1s18b0n0'' ''204'' ''x0c0s18b0n0.test.com'' '''' ''00:1e:67:e3:42:78'' ''00:1e:67:e3:42:79'',
      memNode ''x0c1s19b0n0'' ''208'' ''x0c0s19b0n0.test.com'' '''' ''00:1e:67:e3:3f:85'' ''00:1e:67:e3:3f:86'',
      memNode ''x0c1s20b0n0'' ''212'' ''x0c0s20b0n0.test.com'' '''' ''00:1e:67:df:f5:be'' ''00:1e:67:df:f5:bf'',
      memNode ''x0c1s21b0n0'' ''216'' ''x0c0s21b0n0.test.com'' '''' ''00:1e:67:d6:24:ce'' ''00:1e:67:d6:24:cf'',
      memNode ''x0c1s22b0n0'' ''220'' ''x0c0s22b0n0.test.com'' '''' ''00:1e:67:df:fb:4a'' ''00:1e:67:df:fb:4b'',
      memNode ''x0c1s23b0n0'' ''224'' ''x0c0s23b0n0.test.com'' '''' ''00:1e:67:e3:3d:be'' ''00:1e:67:e3:3d:bf'',
      memNode ''x0c1s24b0n0'' ''228'' ''x0c0s24b0n0.test.com'' '''' ''00:1e:67:dd:c1:d2'' ''00:1e:67:dd:c1:d3'',
      memNode ''x0c1s25b0n0'' ''232'' ''x0c0s25b0n0.test.com'' '''' ''00:1e:67:e3:42:73'' ''00:1e:67:e3:42:74'',
      memNode ''x0c1s26b0n0'' ''236'' ''x0c0s26b0n0.test.com'' '''' ''00:1e:67:df:f8:70'' ''00:1e:67:df:f8:71'',
      memNode ''x0c1s27b0n0'' ''240'' ''x0c0s27b0n0.test.com'' '''' ''00:1e:67:e3:47:dc'' ''00:1e:67:e3:47:dd'',
      memNode ''x0c1s28b0n0'' ''244'' ''x0c0s28b0n0.test.com'' '''' ''00:1e:67:e3:3d:b9'' ''00:1e:67:e3:3d:ba'',
      memNode ''x0c1s29b0n0'' ''248'' ''x0c0s29b0n0.test.com'' '''' ''00:1e:67:d0:24:b2'' ''00:1e:67:d0:24:b3'',
      memNode ''x0c1s30b0n0'' ''252'' ''x0c0s30b0n0.test.com'' '''' ''00:1e:67:df:fb:ae'' ''00:1e:67:df:fb:af'',
      memNode ''x0c1s31b0n0'' ''256'' ''x0c0s31b0n0.test.com'' '''' ''00:1e:67:dd:ce:1b'' ''00:1e:67:dd:ce:1c'']"

definition mem_x0c2 :: "SMComponent list" where
  "mem_x0c2 =
     [memNode ''x0c2s0b0n0'' ''260'' ''x0c0s64b0n0.test.com'' ''System'' ''00:1e:67:dd:d3:d4'' ''00:1e:67:dd:d3:d5'',
      memNode ''x0c2s1b0n0'' ''264'' ''x0c0s65b0n0.test.com'' ''Management'' ''00:1e:67:e3:3f:cb'' ''00:1e:67:e3:3f:cc'',
      memNode ''x0c2s2b0n0'' ''268'' ''x0c0s66b0n0.test.com'' ''Compute'' ''00:1e:67:df:fa:91'' ''00:1e:67:df:fa:92'',
      memNode ''x0c2s3b0n0'' ''272'' ''x0c0s67b0n0.test.com'' '''' ''00:1e:67:e3:3f:6c'' ''00:1e:67:e3:3f:6d'',
      memNode ''x0c2s4b0n0'' ''276'' ''x0c0s68b0n0.test.com'' '''' ''00:1e:67:e3:42:5a'' ''00:1e:67:e3:42:5b'',
      memNode ''x0c2s5b0n0'' ''280'' ''x0c0s69b0n0.test.com'' '''' ''00:1e:67:e3:3f:ee'' ''00:1e:67:e3:3f:ef'',
      memNode ''x0c2s6b0n0'' ''284'' ''x0c0s70b0n0.test.com'' '''' ''00:1e:67:e3:41:b5'' ''00:1e:67:e3:41:b6'',
      memNode ''x0c2s7b0n0'' ''292'' ''x0c0s71b0n0.test.com'' '''' ''00:1e:67:df:fd:61'' ''00:1e:67:df:fd:62'',
      memNode ''x0c2s8b0n0'' ''296'' ''x0c0s72b0n0.test.com'' '''' ''00:1e:67:e3:3f:e9'' ''00:1e:67:e3:3f:ea'',
      memNode ''x0c2s9b0n0'' ''300'' ''x0c0s73b0n0.test.com'' '''' ''00:1e:67:dd:c1:af'' ''00:1e:67:dd:c1:b0'',
      memNode ''x0c2s10b0n0'' ''304'' ''x0c0s74b0n0.test.com'' '''' ''00:1e:67:e3:81:66'' ''00:1e:67:e3:81:67'',
      memNode ''x0c2s11b0n0'' ''308'' ''x0c0s75b0n0.test.com'' '''' ''00:1e:67:dd:c1:5f'' ''00:1e:67:dd:c1:60'',
      memNode ''x0c2s12b0n0'' ''312'' ''x0c0s76b0n0.test.com'' '''' ''00:1e:67:e3:46:bf'' ''00:1e:67:e3:46:c0'',
      memNode ''x0c2s13b0n0'' ''316'' ''x0c0s77b0n0.test.com'' '''' ''00:1e:67:dd:d2:44'' ''00:1e:67:dd:d2:45'',
      memNode ''x0c2s14b0n0'' ''320'' ''x0c0s78b0n0.test.com'' '''' ''00:1e:67:d8:95:69'' ''00:1e:67:d8:95:6a'',
      memNode ''x0c2s15b0n0'' ''324'' ''x0c0s79b0n0.test.com'' '''' ''00:1e:67:dd:d2:9e'' ''00:1e:67:dd:d2:9f'',
      memNode ''x0c2s16b0n0'' ''328'' ''x0c0s80b0n0.test.com'' '''' ''00:1e:67:dd:d1:b3'' ''00:1e:67:dd:d1:b4'',
      memNode ''x0c2s17b0n0'' ''332'' ''x0c0s81b0n0.test.com'' '''' ''00:1e:67:e3:46:e2'' ''00:1e:67:e3:46:e3'',
      memNode ''x0c2s18b0n0'' ''336'' ''x0c0s82b0n0.test.com'' '''' ''00:1e:67:e3:47:6e'' ''00:1e:67:e3:47:6f'',
      memNode ''x0c2s19b0n0'' ''340'' ''x0c0s83b0n0.test.com'' '''' ''00:1e:67:e3:3f:e4'' ''00:1e:67:e3:3f:e5'',
      memNode ''x0c2s20b0n0'' ''344'' ''x0c0s84b0n0.test.com'' '''' ''00:1e:67:dd:cb:af'' ''00:1e:67:dd:cb:b0'',
      memNode ''x0c2s21b0n0'' ''348'' ''x0c0s85b0n0.test.com'' '''' ''00:1e:67:dd:c8:80'' ''00:1e:67:dd:c8:81'',
      memNode ''x0c2s22b0n0'' ''352'' ''x0c0s86b0n0.test.com'' '''' ''00:1e:67:e0:05:ea'' ''00:1e:67:e0:05:eb'',
      memNode ''x0c2s23b0n0'' ''356'' ''x0c0s87b0n0.test.com'' '''' ''00:1e:67:d8:a3:10'' ''00:1e:67:d8:a3:11'',
      memNode ''x0c2s24b0n0'' ''360'' ''x0c0s88b0n0.test.com'' '''' ''00:1e:67:e3:3d:a5'' ''00:1e:67:e3:3d:a6'',
      memNode ''x0c2s25b0n0'' ''364'' ''x0c0s89b0n0.test.com'' '''' ''00:1e:67:dd:c2:db'' ''00:1e:67:dd:c2:dc'',
      memNode ''x0c2s26b0n0'' ''368'' ''x0c0s90b0n0.test.com'' '''' ''00:1e:67:d8:a4:87'' ''00:1e:67:d8:a4:88'',
      memNode ''x0c2s27b0n0'' ''372'' ''x0c0s91b0n0.test.com'' '''' ''00:1e:67:df:fa:c3'' ''00:1e:67:df:fa:c4'',
      memNode ''x0c2s28b0n0'' ''376'' ''x0c0s92b0n0.test.com'' '''' ''00:1e:67:e3:3f:17'' ''00:1e:67:e3:3f:18'',
      memNode ''x0c2s29b0n0'' ''380'' ''x0c0s93b0n0.test.com'' '''' ''00:1e:67:e3:46:a6'' ''00:1e:67:e3:46:a7'',
      memNode ''x0c2s30b0n0'' ''384'' ''x0c0s94b0n0.test.com'' '''' ''00:1e:67:df:fa:9b'' ''00:1e:67:df:fa:9c'',
      memNode ''x0c2s31b0n0'' ''388'' ''x0c0s95b0n0.test.com'' '''' ''00:1e:67:dd:c9:7f'' ''00:1e:67:dd:c9:80'']"

definition mem_x0c3 :: "SMComponent list" where
  "mem_x0c3 =
     [memNode ''x0c3s0b0n0'' ''392'' ''x0c3s0b0n0.test.com'' ''Storage'' ''00:1e:67:e3:40:11'' ''00:1e:67:e3:40:12'',
      memNode ''x0c3s1b0n0'' ''396'' ''x0c3s1b0n0.test.com'' ''Management'' ''00:1e:67:e3:3e:2c'' ''00:1e:67:e3:3e:2d'',
      memNode ''x0c3s2b0n0'' ''400'' ''x0c3s2b0n0.test.com'' ''Compute'' ''00:1e:67:e3:3f:58'' ''00:1e:67:e3:3f:59'',
      memNode ''x0c3s3b0n0'' ''404'' ''x0c3s3b0n0.test.com'' '''' ''00:1e:67:e3:47:05'' ''00:1e:67:e3:47:06'',
      memNode ''x0c3s4b0n0'' ''408'' ''x0c3s4b0n0.test.com'' '''' ''00:1e:67:e3:46:15'' ''00:1e:67:e3:46:16'',
      memNode ''x0c3s5b0n0'' ''412'' ''x0c3s5b0n0.test.com'' '''' ''00:1e:67:dd:d0:eb'' ''00:1e:67:dd:d0:ec'',
      memNode ''x0c3s6b0n0'' ''416'' ''x0c3s6b0n0.test.com'' '''' ''00:1e:67:df:f7:fe'' ''00:1e:67:df:f7:ff'',
      memNode ''x0c3s7b0n0'' ''420'' ''x0c3s7b0n0.test.com'' '''' ''00:1e:67:d8:91:22'' ''00:1e:67:d8:91:23'',
      memNode ''x0c3s8b0n0'' ''424'' ''x0c3s8b0n0.test.com'' '''' ''00:1e:67:df:f5:1e'' ''00:1e:67:df:f5:1f'',
      memNode ''x0c3s9b0n0'' ''428'' ''x0c3s9b0n0.test.com'' '''' ''00:1e:67:df:fd:34'' ''00:1e:67:df:fd:35'',
      memNode ''x0c3s10b0n0'' ''432'' ''x0c3s10b0n0.test.com'' '''' ''00:1e:67:e3:42:05'' ''00:1e:67:e3:42:06'',
      memNode ''x0c3s11b0n0'' ''436'' ''x0c3s11b0n0.test.com'' '''' ''00:1e:67:e3:3a:d0'' ''00:1e:67:e3:3a:d1'',
      memNode ''x0c3s12b0n0'' ''440'' ''x0c3s12b0n0.test.com'' '''' ''00:1e:67:c8:10:ab'' ''00:1e:67:c8:10:ac'',
      memNode ''x0c3s13b0n0'' ''444'' ''x0c3s13b0n0.test.com'' '''' ''00:1e:67:df:f6:77'' ''00:1e:67:df:f6:78'',
      memNode ''x0c3s14b0n0'' ''448'' ''x0c3s14b0n0.test.com'' '''' ''00:1e:67:dd:cc:09'' ''00:1e:67:dd:cc:0a'',
      memNode ''x0c3s15b0n0'' ''452'' ''x0c3s15b0n0.test.com'' '''' ''00:1e:67:dd:c8:85'' ''00:1e:67:dd:c8:86'',
      memNode ''x0c3s16b0n0'' ''456'' ''x0c3s16b0n0.test.com'' '''' ''00:1e:67:d8:9a:af'' ''00:1e:67:d8:9a:b0'',
      memNode ''x0c3s17b0n0'' ''460'' ''x0c3s17b0n0.test.com'' '''' ''00:1e:67:dd:d3:11'' ''00:1e:67:dd:d3:12'',
      memNode ''x0c3s18b0n0'' ''464'' ''x0c3s18b0n0.test.com'' '''' ''00:1e:67:df:fb:cc'' ''00:1e:67:df:fb:cd'',
      memNode ''x0c3s19b0n0'' ''468'' ''x0c3s19b0n0.test.com'' '''' ''00:1e:67:df:f7:bc'' ''00:1e:67:df:f7:bd'',
      memNode ''x0c3s20b0n0'' ''472'' ''x0c3s20b0n0.test.com'' '''' ''00:1e:67:dd:ce:11'' ''00:1e:67:dd:ce:12'',
      memNode ''x0c3s21b0n0'' ''476'' ''x0c3s21b0n0.test.com'' '''' ''00:1e:67:df:fd:5c'' ''00:1e:67:df:fd:5d'',
      memNode ''x0c3s22b0n0'' ''480'' ''x0c3s22b0n0.test.com'' '''' ''00:1e:67:dd:bf:ac'' ''00:1e:67:dd:bf:ad'',
      memNode ''x0c3s23b0n0'' ''484'' ''x0c3s23b0n0.test.com'' '''' ''00:1e:67:e3:3b:98'' ''00:1e:67:e3:3b:99'',
      memNode ''x0c3s24b0n0'' ''488'' ''x0c3s24b0n0.test.com'' '''' ''00:1e:67:e3:47:d2'' ''00:1e:67:e3:47:d3'',
      memNode ''x0c3s25b0n0'' ''492'' ''x0c3s25b0n0.test.com'' '''' ''00:1e:67:d8:9b:09'' ''00:1e:67:d8:9b:0a'',
      memNode ''x0c3s26b0n0'' ''496'' ''x0c3s26b0n0.test.com'' '''' ''00:1e:67:e0:00:36'' ''00:1e:67:e0:00:37'',
      memNode ''x0c3s27b0n0'' ''500'' ''x0c3s27b0n0.test.com'' '''' ''00:1e:67:d8:41:3b'' ''00:1e:67:d8:41:3c'',
      memNode ''x0c3s28b0n0'' ''504'' ''x0c3s28b0n0.test.com'' '''' ''00:1e:67:e3:81:a2'' ''00:1e:67:e3:81:a3'',
      memNode ''x0c3s29b0n0'' ''508'' ''x0c3s29b0n0.test.com'' '''' ''00:1e:67:e3:3c:42'' ''00:1e:67:e3:3c:43'',
      memNode ''x0c3s30b0n0'' ''512'' ''x0c3s30b0n0.test.com'' '''' ''00:1e:67:df:fc:3f'' ''00:1e:67:df:fc:40'',
      memNode ''x0c3s31b0n0'' ''516'' ''x0c3s31b0n0.test.com'' '''' ''00:1e:67:e3:46:d8'' ''00:1e:67:e3:46:d9'']"

definition mem_x1c0 :: "SMComponent list" where
  "mem_x1c0 =
     [memNode ''x1c0s0b0n0'' ''1004'' ''x1c0s0b0n0.test.com'' ''Storage'' ''01:1e:67:e3:46:93'' ''01:1e:67:e3:46:94'',
      memNode ''x1c0s1b0n0'' ''1008'' ''x1c0s1b0n0.test.com'' ''Management'' ''01:1e:67:e3:46:51'' ''01:1e:67:e3:46:52'',
      memNode ''x1c0s2b0n0'' ''1012'' ''x1c0s2b0n0.test.com'' ''Compute'' ''01:1e:67:df:f4:f1'' ''01:1e:67:df:f4:f2'',
      memNode ''x1c0s3b0n0'' ''1016'' ''x1c0s3b0n0.test.com'' '''' ''01:1e:67:dd:d0:00'' ''01:1e:67:dd:d0:01'',
      memNode ''x1c0s4b0n0'' ''1020'' ''x1c0s4b0n0.test.com'' '''' ''01:1e:67:df:f7:0d'' ''01:1e:67:df:f7:0e'',
      memNode ''x1c0s5b0n0'' ''1024'' ''x1c0s5b0n0.test.com'' '''' ''01:1e:67:d8:9a:e1'' ''01:1e:67:d8:9a:e2'',
      memNode ''x1c0s6b0n0'' ''1028'' ''x1c0s6b0n0.test.com'' '''' ''01:1e:67:dd:d1:27'' ''01:1e:67:dd:d1:28'',
      memNode ''x1c0s7b0n0'' ''1032'' ''x1c0s7b0n0.test.com'' '''' ''01:1e:67:dd:cd:49'' ''01:1e:67:dd:cd:4a'',
      memNode ''x1c0s8b0n0'' ''1036'' ''x1c0s8b0n0.test.com'' '''' ''01:1e:67:df:f7:26'' ''01:1e:67:df:f7:27'',
      memNode ''x1c0s9b0n0'' ''1040'' ''x1c0s9b0n0.test.com'' '''' ''01:1e:67:e0:00:8b'' ''01:1e:67:e0:00:8c'',
      memNode ''x1c0s10b0n0'' ''1044'' ''x1c0s10b0n0.test.com'' '''' ''01:1e:67:e0:02:39'' ''01:1e:67:e0:02:3a'',
      memNode ''x1c0s11b0n0'' ''1048'' ''x1c0s11b0n0.test.com'' '''' ''01:1e:67:e3:81:ac'' ''01:1e:67:e3:81:ad'',
      memNode ''x1c0s12b0n0'' ''1052'' ''x1c0s12b0n0.test.com'' '''' ''01:1e:67:e3:46:6a'' ''01:1e:67:e3:46:6b'',
      memNode ''x1c0s13b0n0'' ''1056'' ''x1c0s13b0n0.test.com'' '''' ''01:1e:67:e3:80:03'' ''01:1e:67:e3:80:04'',
      memNode ''x1c0s14b0n0'' ''1060'' ''x1c0s14b0n0.test.com'' '''' ''01:1e:67:dd:c1:46'' ''01:1e:67:dd:c1:47'',
      memNode ''x1c0s15b0n0'' ''1064'' ''x1c0s15b0n0.test.com'' '''' ''01:1e:67:e3:3e:f9'' ''01:1e:67:e3:3e:fa'',
      memNode ''x1c0s16b0n0'' ''1068'' ''x1c0s16b0n0.test.com'' '''' ''01:1e:67:e3:3e:e0'' ''01:1e:67:e3:3e:e1'',
      memNode ''x1c0s17b0n0'' ''1072'' ''x1c0s17b0n0.test.com'' '''' ''01:1e:67:e3:48:09'' ''01:1e:67:e3:48:0a'',
      memNode ''x1c0s18b0n0'' ''1076'' ''x1c0s18b0n0.test.com'' '''' ''01:1e:67:dd:d1:7c'' ''01:1e:67:dd:d1:7d'',
      memNode ''x1c0s19b0n0'' ''1080'' ''x1c0s19b0n0.test.com'' '''' ''01:1e:67:e3:3b:1b'' ''01:1e:67:e3:3b:1c'',
      memNode ''x1c0s20b0n0'' ''1084'' ''x1c0s20b0n0.test.com'' '''' ''01:1e:67:e3:7d:1a'' ''01:1e:67:e3:7d:1b'',
      memNode ''x1c0s21b0n0'' ''1088'' ''x1c0s21b0n0.test.com'' '''' ''01:1e:67:dd:cd:da'' ''01:1e:67:dd:cd:db'',
      memNode ''x1c0s22b0n0'' ''1092'' ''x1c0s22b0n0.test.com'' '''' ''01:1e:67:e3:82:e7'' ''01:1e:67:e3:82:e8'',
      memNode ''x1c0s23b0n0'' ''1096'' ''x1c0s23b0n0.test.com'' '''' ''01:1e:67:e3:7c:43'' ''01:1e:67:e3:7c:44'',
      memNode ''x1c0s24b0n0'' ''1100'' ''x1c0s24b0n0.test.com'' '''' ''01:1e:67:e3:3e:3b'' ''01:1e:67:e3:3e:3c'',
      memNode ''x1c0s25b0n0'' ''1104'' ''x1c0s25b0n0.test.com'' '''' ''01:1e:67:e3:39:27'' ''01:1e:67:e3:39:28'',
      memNode ''x1c0s26b0n0'' ''1108'' ''x1c0s26b0n0.test.com'' '''' ''01:1e:67:df:fb:40'' ''01:1e:67:df:fb:41'',
      memNode ''x1c0s27b0n0'' ''1112'' ''x1c0s27b0n0.test.com'' '''' ''01:1e:67:e3:75:54'' ''01:1e:67:e3:75:55'',
      memNode ''x1c0s28b0n0'' ''1116'' ''x1c0s28b0n0.test.com'' '''' ''01:1e:67:e0:06:17'' ''01:1e:67:e0:06:18'',
      memNode ''x1c0s29b0n0'' ''1120'' ''x1c0s29b0n0.test.com'' '''' ''01:1e:67:e3:47:82'' ''01:1e:67:e3:47:83'',
      memNode ''x1c0s30b0n0'' ''1124'' ''x1c0s30b0n0.test.com'' '''' ''01:1e:67:df:fd:43'' ''01:1e:67:df:fd:44'',
      memNode ''x1c0s31b0n0'' ''1128'' ''x1c0s31b0n0.test.com'' '''' ''01:1e:67:dd:d1:59'' ''01:1e:67:dd:d1:5a'']"

definition mem_x1c1 :: "SMComponent list" where
  "mem_x1c1 =
     [memNode ''x1c1s0b0n0'' ''1132'' ''x1c0s0b0n0.test.com'' ''Storage'' ''01:1e:67:e3:45:a2'' ''01:1e:67:e3:45:a3'',
      memNode ''x1c1s1b0n0'' ''1136'' ''x1c0s1b0n0.test.com'' ''Management'' ''01:1e:67:e3:3f:a8'' ''01:1e:67:e3:3f:a9'',
      memNode ''x1c1s2b0n0'' ''1140'' ''x1c0s2b0n0.test.com'' ''Compute'' ''01:1e:67:e3:7f:c2'' ''01:1e:67:e3:7f:c3'',
      memNode ''x1c1s3b0n0'' ''1144'' ''x1c0s3b0n0.test.com'' '''' ''01:1e:67:dd:cd:0d'' ''01:1e:67:dd:cd:0e'',
      memNode ''x1c1s4b0n0'' ''1148'' ''x1c0s4b0n0.test.com'' '''' ''01:1e:67:e3:77:f2'' ''01:1e:67:e3:77:f3'',
      memNode ''x1c1s5b0n0'' ''1152'' ''x1c0s5b0n0.test.com'' '''' ''01:1e:67:e3:83:2d'' ''01:1e:67:e3:83:2e'',
      memNode ''x1c1s6b0n0'' ''1156'' ''x1c0s6b0n0.test.com'' '''' ''01:1e:67:df:fa:a5'' ''01:1e:67:df:fa:a6'',
      memNode ''x1c1s7b0n0'' ''1160'' ''x1c0s7b0n0.test.com'' '''' ''01:1e:67:dd:ca:ce'' ''01:1e:67:dd:ca:cf'',
      memNode ''x1c1s8b0n0'' ''1164'' ''x1c0s8b0n0.test.com'' '''' ''01:1e:67:df:f7:df'' ''01:1e:67:df:f7:e0'',
      memNode ''x1c1s9b0n0'' ''1168'' ''x1c0s9b0n0.test.com'' '''' ''01:1e:67:d8:a3:f6'' ''01:1e:67:d8:a3:f7'',
      memNode ''x1c1s10b0n0'' ''1172'' ''x1c0s10b0n0.test.com'' '''' ''01:1e:67:e3:3f:c1'' ''01:1e:67:e3:3f:c2'',
      memNode ''x1c1s11b0n0'' ''1176'' ''x1c0s11b0n0.test.com'' '''' ''01:1e:67:dd:ca:b0'' ''01:1e:67:dd:ca:b1'',
      memNode ''x1c1s12b0n0'' ''1180'' ''x1c0s12b0n0.test.com'' '''' ''01:1e:67:e3:40:20'' ''01:1e:67:e3:40:21'',
      memNode ''x1c1s13b0n0'' ''1184'' ''x1c0s13b0n0.test.com'' '''' ''01:1e:67:df:ff:b9'' ''01:1e:67:df:ff:ba'',
      memNode ''x1c1s14b0n0'' ''1188'' ''x1c0s14b0n0.test.com'' '''' ''01:1e:67:e3:45:e8'' ''01:1e:67:e3:45:e9'',
      memNode ''x1c1s15b0n0'' ''1192'' ''x1c0s15b0n0.test.com'' '''' ''01:1e:67:e3:41:f1'' ''01:1e:67:e3:41:f2'',
      memNode ''x1c1s16b0n0'' ''1196'' ''x1c0s16b0n0.test.com'' '''' ''01:1e:67:e3:47:14'' ''01:1e:67:e3:47:15'',
      memNode ''x1c1s17b0n0'' ''1200'' ''x1c0s17b0n0.test.com'' '''' ''01:1e:67:dd:c7:d6'' ''01:1e:67:dd:c7:d7'',
      memNode ''x1c1s18b0n0'' ''1204'' ''x1c0s18b0n0.test.com'' '''' ''01:1e:67:e3:42:78'' ''01:1e:67:e3:42:79'',
      memNode ''x1c1s19b0n0'' ''1208'' ''x1c0s19b0n0.test.com'' '''' ''01:1e:67:e3:3f:85'' ''01:1e:67:e3:3f:86'',
      memNode ''x1c1s20b0n0'' ''1212'' ''x1c0s20b0n0.test.com'' '''' ''01:1e:67:df:f5:be'' ''01:1e:67:df:f5:bf'',
      memNode ''x1c1s21b0n0'' ''1216'' ''x1c0s21b0n0.test.com'' '''' ''01:1e:67:d6:24:ce'' ''01:1e:67:d6:24:cf'',
      memNode ''x1c1s22b0n0'' ''1220'' ''x1c0s22b0n0.test.com'' '''' ''01:1e:67:df:fb:4a'' ''01:1e:67:df:fb:4b'',
      memNode ''x1c1s23b0n0'' ''1224'' ''x1c0s23b0n0.test.com'' '''' ''01:1e:67:e3:3d:be'' ''01:1e:67:e3:3d:bf'',
      memNode ''x1c1s24b0n0'' ''1228'' ''x1c0s24b0n0.test.com'' '''' ''01:1e:67:dd:c1:d2'' ''01:1e:67:dd:c1:d3'',
      memNode ''x1c1s25b0n0'' ''1232'' ''x1c0s25b0n0.test.com'' '''' ''01:1e:67:e3:42:73'' ''01:1e:67:e3:42:74'',
      memNode ''x1c1s26b0n0'' ''1236'' ''x1c0s26b0n0.test.com'' '''' ''01:1e:67:df:f8:70'' ''01:1e:67:df:f8:71'',
      memNode ''x1c1s27b0n0'' ''1240'' ''x1c0s27b0n0.test.com'' '''' ''01:1e:67:e3:47:dc'' ''01:1e:67:e3:47:dd'',
      memNode ''x1c1s28b0n0'' ''1244'' ''x1c0s28b0n0.test.com'' '''' ''01:1e:67:e3:3d:b9'' ''01:1e:67:e3:3d:ba'',
      memNode ''x1c1s29b0n0'' ''1248'' ''x1c0s29b0n0.test.com'' '''' ''01:1e:67:d0:24:b2'' ''01:1e:67:d0:24:b3'',
      memNode ''x1c1s30b0n0'' ''1252'' ''x1c0s30b0n0.test.com'' '''' ''01:1e:67:df:fb:ae'' ''01:1e:67:df:fb:af'',
      memNode ''x1c1s31b0n0'' ''1256'' ''x1c0s31b0n0.test.com'' '''' ''01:1e:67:dd:ce:1b'' ''01:1e:67:dd:ce:1c'']"

definition mem_x1c2 :: "SMComponent list" where
  "mem_x1c2 =
     [memNode ''x1c2s0b0n0'' ''1260'' ''x1c0s64b0n0.test.com'' ''Storage'' ''01:1e:67:dd:d3:d4'' ''01:1e:67:dd:d3:d5'',
      memNode ''x1c2s1b0n0'' ''1264'' ''x1c0s65b0n0.test.com'' ''Management'' ''01:1e:67:e3:3f:cb'' ''01:1e:67:e3:3f:cc'',
      memNode ''x1c2s2b0n0'' ''1268'' ''x1c0s66b0n0.test.com'' ''Compute'' ''01:1e:67:df:fa:91'' ''01:1e:67:df:fa:92'',
      memNode ''x1c2s3b0n0'' ''1272'' ''x1c0s67b0n0.test.com'' '''' ''01:1e:67:e3:3f:6c'' ''01:1e:67:e3:3f:6d'',
      memNode ''x1c2s4b0n0'' ''1276'' ''x1c0s68b0n0.test.com'' '''' ''01:1e:67:e3:42:5a'' ''01:1e:67:e3:42:5b'',
      memNode ''x1c2s5b0n0'' ''1280'' ''x1c0s69b0n0.test.com'' '''' ''01:1e:67:e3:3f:ee'' ''01:1e:67:e3:3f:ef'',
      memNode ''x1c2s6b0n0'' ''1284'' ''x1c0s70b0n0.test.com'' '''' ''01:1e:67:e3:41:b5'' ''01:1e:67:e3:41:b6'',
      memNode ''x1c2s7b0n0'' ''1292'' ''x1c0s71b0n0.test.com'' '''' ''01:1e:67:df:fd:61'' ''01:1e:67:df:fd:62'',
      memNode ''x1c2s8b0n0'' ''1296'' ''x1c0s72b0n0.test.com'' '''' ''01:1e:67:e3:3f:e9'' ''01:1e:67:e3:3f:ea'',
      memNode ''x1c2s9b0n0'' ''1300'' ''x1c0s73b0n0.test.com'' '''' ''01:1e:67:dd:c1:af'' ''01:1e:67:dd:c1:b0'',
      memNode ''x1c2s10b0n0'' ''1304'' ''x1c0s74b0n0.test.com'' '''' ''01:1e:67:e3:81:66'' ''01:1e:67:e3:81:67'',
      memNode ''x1c2s11b0n0'' ''1308'' ''x1c0s75b0n0.test.com'' '''' ''01:1e:67:dd:c1:5f'' ''01:1e:67:dd:c1:60'',
      memNode ''x1c2s12b0n0'' ''1312'' ''x1c0s76b0n0.test.com'' '''' ''01:1e:67:e3:46:bf'' ''01:1e:67:e3:46:c0'',
      memNode ''x1c2s13b0n0'' ''1316'' ''x1c0s77b0n0.test.com'' '''' ''01:1e:67:dd:d2:44'' ''01:1e:67:dd:d2:45'',
      memNode ''x1c2s14b0n0'' ''1320'' ''x1c0s78b0n0.test.com'' '''' ''01:1e:67:d8:95:69'' ''01:1e:67:d8:95:6a'',
      memNode ''x1c2s15b0n0'' ''1324'' ''x1c0s79b0n0.test.com'' '''' ''01:1e:67:dd:d2:9e'' ''01:1e:67:dd:d2:9f'',
      memNode ''x1c2s16b0n0'' ''1328'' ''x1c0s80b0n0.test.com'' '''' ''01:1e:67:dd:d1:b3'' ''01:1e:67:dd:d1:b4'',
      memNode ''x1c2s17b0n0'' ''1332'' ''x1c0s81b0n0.test.com'' '''' ''01:1e:67:e3:46:e2'' ''01:1e:67:e3:46:e3'',
      memNode ''x1c2s18b0n0'' ''1336'' ''x1c0s82b0n0.test.com'' '''' ''01:1e:67:e3:47:6e'' ''01:1e:67:e3:47:6f'',
      memNode ''x1c2s19b0n0'' ''1340'' ''x1c0s83b0n0.test.com'' '''' ''01:1e:67:e3:3f:e4'' ''01:1e:67:e3:3f:e5'',
      memNode ''x1c2s20b0n0'' ''1344'' ''x1c0s84b0n0.test.com'' '''' ''01:1e:67:dd:cb:af'' ''01:1e:67:dd:cb:b0'',
      memNode ''x1c2s21b0n0'' ''1348'' ''x1c0s85b0n0.test.com'' '''' ''01:1e:67:dd:c8:80'' ''01:1e:67:dd:c8:81'',
      memNode ''x1c2s22b0n0'' ''1352'' ''x1c0s86b0n0.test.com'' '''' ''01:1e:67:e0:05:ea'' ''01:1e:67:e0:05:eb'',
      memNode ''x1c2s23b0n0'' ''1356'' ''x1c0s87b0n0.test.com'' '''' ''01:1e:67:d8:a3:10'' ''01:1e:67:d8:a3:11'',
      memNode ''x1c2s24b0n0'' ''1360'' ''x1c0s88b0n0.test.com'' '''' ''01:1e:67:e3:3d:a5'' ''01:1e:67:e3:3d:a6'',
      memNode ''x1c2s25b0n0'' ''1364'' ''x1c0s89b0n0.test.com'' '''' ''01:1e:67:dd:c2:db'' ''01:1e:67:dd:c2:dc'',
      memNode ''x1c2s26b0n0'' ''1368'' ''x1c0s90b0n0.test.com'' '''' ''01:1e:67:d8:a4:87'' ''01:1e:67:d8:a4:88'',
      memNode ''x1c2s27b0n0'' ''1372'' ''x1c0s91b0n0.test.com'' '''' ''01:1e:67:df:fa:c3'' ''01:1e:67:df:fa:c4'',
      memNode ''x1c2s28b0n0'' ''1376'' ''x1c0s92b0n0.test.com'' '''' ''01:1e:67:e3:3f:17'' ''01:1e:67:e3:3f:18'',
      memNode ''x1c2s29b0n0'' ''1380'' ''x1c0s93b0n0.test.com'' '''' ''01:1e:67:e3:46:a6'' ''01:1e:67:e3:46:a7'',
      memNode ''x1c2s30b0n0'' ''1384'' ''x1c0s94b0n0.test.com'' '''' ''01:1e:67:df:fa:9b'' ''01:1e:67:df:fa:9c'',
      memNode ''x1c2s31b0n0'' ''1388'' ''x1c0s95b0n0.test.com'' '''' ''01:1e:67:dd:c9:7f'' ''01:1e:67:dd:c9:80'']"

definition mem_x1c3 :: "SMComponent list" where
  "mem_x1c3 =
     [memNode ''x1c3s0b0n0'' ''1392'' ''x1c3s0b0n0.test.com'' ''Storage'' ''01:1e:67:e3:40:11'' ''01:1e:67:e3:40:12'',
      memNode ''x1c3s1b0n0'' ''1396'' ''x1c3s1b0n0.test.com'' ''Management'' ''01:1e:67:e3:3e:2c'' ''01:1e:67:e3:3e:2d'',
      memNode ''x1c3s2b0n0'' ''1400'' ''x1c3s2b0n0.test.com'' ''Compute'' ''01:1e:67:e3:3f:58'' ''01:1e:67:e3:3f:59'',
      memNode ''x1c3s3b0n0'' ''1404'' ''x1c3s3b0n0.test.com'' '''' ''01:1e:67:e3:47:05'' ''01:1e:67:e3:47:06'',
      memNode ''x1c3s4b0n0'' ''1408'' ''x1c3s4b0n0.test.com'' '''' ''01:1e:67:e3:46:15'' ''01:1e:67:e3:46:16'',
      memNode ''x1c3s5b0n0'' ''1412'' ''x1c3s5b0n0.test.com'' '''' ''01:1e:67:dd:d0:eb'' ''01:1e:67:dd:d0:ec'',
      memNode ''x1c3s6b0n0'' ''1416'' ''x1c3s6b0n0.test.com'' '''' ''01:1e:67:df:f7:fe'' ''01:1e:67:df:f7:ff'',
      memNode ''x1c3s7b0n0'' ''1420'' ''x1c3s7b0n0.test.com'' '''' ''01:1e:67:d8:91:22'' ''01:1e:67:d8:91:23'',
      memNode ''x1c3s8b0n0'' ''1424'' ''x1c3s8b0n0.test.com'' '''' ''01:1e:67:df:f5:1e'' ''01:1e:67:df:f5:1f'',
      memNode ''x1c3s9b0n0'' ''1428'' ''x1c3s9b0n0.test.com'' '''' ''01:1e:67:df:fd:34'' ''01:1e:67:df:fd:35'',
      memNode ''x1c3s10b0n0'' ''1432'' ''x1c3s10b0n0.test.com'' '''' ''01:1e:67:e3:42:05'' ''01:1e:67:e3:42:06'',
      memNode ''x1c3s11b0n0'' ''1436'' ''x1c3s11b0n0.test.com'' '''' ''01:1e:67:e3:3a:d0'' ''01:1e:67:e3:3a:d1'',
      memNode ''x1c3s12b0n0'' ''1440'' ''x1c3s12b0n0.test.com'' '''' ''01:1e:67:c8:10:ab'' ''01:1e:67:c8:10:ac'',
      memNode ''x1c3s13b0n0'' ''1444'' ''x1c3s13b0n0.test.com'' '''' ''01:1e:67:df:f6:77'' ''01:1e:67:df:f6:78'',
      memNode ''x1c3s14b0n0'' ''1448'' ''x1c3s14b0n0.test.com'' '''' ''01:1e:67:dd:cc:09'' ''01:1e:67:dd:cc:0a'',
      memNode ''x1c3s15b0n0'' ''1452'' ''x1c3s15b0n0.test.com'' '''' ''01:1e:67:dd:c8:85'' ''01:1e:67:dd:c8:86'',
      memNode ''x1c3s16b0n0'' ''1456'' ''x1c3s16b0n0.test.com'' '''' ''01:1e:67:d8:9a:af'' ''01:1e:67:d8:9a:b0'',
      memNode ''x1c3s17b0n0'' ''1460'' ''x1c3s17b0n0.test.com'' '''' ''01:1e:67:dd:d3:11'' ''01:1e:67:dd:d3:12'',
      memNode ''x1c3s18b0n0'' ''1464'' ''x1c3s18b0n0.test.com'' '''' ''01:1e:67:df:fb:cc'' ''01:1e:67:df:fb:cd'',
      memNode ''x1c3s19b0n0'' ''1468'' ''x1c3s19b0n0.test.com'' '''' ''01:1e:67:df:f7:bc'' ''01:1e:67:df:f7:bd'',
      memNode ''x1c3s20b0n0'' ''1472'' ''x1c3s20b0n0.test.com'' '''' ''01:1e:67:dd:ce:11'' ''01:1e:67:dd:ce:12'',
      memNode ''x1c3s21b0n0'' ''1476'' ''x1c3s21b0n0.test.com'' '''' ''01:1e:67:df:fd:5c'' ''01:1e:67:df:fd:5d'',
      memNode ''x1c3s22b0n0'' ''1480'' ''x1c3s22b0n0.test.com'' '''' ''01:1e:67:dd:bf:ac'' ''01:1e:67:dd:bf:ad'',
      memNode ''x1c3s23b0n0'' ''1484'' ''x1c3s23b0n0.test.com'' '''' ''01:1e:67:e3:3b:98'' ''01:1e:67:e3:3b:99'',
      memNode ''x1c3s24b0n0'' ''1488'' ''x1c3s24b0n0.test.com'' '''' ''01:1e:67:e3:47:d2'' ''01:1e:67:e3:47:d3'',
      memNode ''x1c3s25b0n0'' ''1492'' ''x1c3s25b0n0.test.com'' '''' ''01:1e:67:d8:9b:09'' ''01:1e:67:d8:9b:0a'',
      memNode ''x1c3s26b0n0'' ''1496'' ''x1c3s26b0n0.test.com'' '''' ''01:1e:67:e0:00:36'' ''01:1e:67:e0:00:37'',
      memNode ''x1c3s27b0n0'' ''1500'' ''x1c3s27b0n0.test.com'' '''' ''01:1e:67:d8:41:3b'' ''01:1e:67:d8:41:3c'',
      memNode ''x1c3s28b0n0'' ''1504'' ''x1c3s28b0n0.test.com'' '''' ''01:1e:67:e3:81:a2'' ''01:1e:67:e3:81:a3'',
      memNode ''x1c3s29b0n0'' ''1508'' ''x1c3s29b0n0.test.com'' '''' ''01:1e:67:e3:3c:42'' ''01:1e:67:e3:3c:43'',
      memNode ''x1c3s30b0n0'' ''1512'' ''x1c3s30b0n0.test.com'' '''' ''01:1e:67:df:fc:3f'' ''01:1e:67:df:fc:40'',
      memNode ''x1c3s31b0n0'' ''1516'' ''x1c3s31b0n0.test.com'' '''' ''01:1e:67:e3:46:d8'' ''01:1e:67:e3:46:d9'']"

definition memComponents :: "SMComponent list" where
  "memComponents = mem_x0c0 @ mem_x0c1 @ mem_x0c2 @ mem_x0c3 @ mem_x1c0 @ mem_x1c1 @ mem_x1c2 @ mem_x1c3"

definition memData :: SMData where
  "memData = \<lparr>sm_Components = memComponents, sm_IPAddrs = []\<rparr>"

subsection \<open>No two are alike\<close>

lemmas mem_defs = mem_x0c0_def mem_x0c1_def mem_x0c2_def mem_x0c3_def mem_x1c0_def mem_x1c1_def mem_x1c2_def mem_x1c3_def

text \<open>The names of a chassis start with its own five characters.\<close>

definition inChassis :: "string \<Rightarrow> SMComponent list \<Rightarrow> bool" where
  "inChassis p cs \<longleftrightarrow> distinct (map sc_ID cs) \<and> (\<forall>c\<in>set cs. hasPrefix (sc_ID c) p)"

lemma inChassis_x0c0: "inChassis ''x0c0s'' mem_x0c0"
  by (simp add: inChassis_def mem_x0c0_def memNode_def hasPrefix_def)

lemma inChassis_x0c1: "inChassis ''x0c1s'' mem_x0c1"
  by (simp add: inChassis_def mem_x0c1_def memNode_def hasPrefix_def)

lemma inChassis_x0c2: "inChassis ''x0c2s'' mem_x0c2"
  by (simp add: inChassis_def mem_x0c2_def memNode_def hasPrefix_def)

lemma inChassis_x0c3: "inChassis ''x0c3s'' mem_x0c3"
  by (simp add: inChassis_def mem_x0c3_def memNode_def hasPrefix_def)

lemma inChassis_x1c0: "inChassis ''x1c0s'' mem_x1c0"
  by (simp add: inChassis_def mem_x1c0_def memNode_def hasPrefix_def)

lemma inChassis_x1c1: "inChassis ''x1c1s'' mem_x1c1"
  by (simp add: inChassis_def mem_x1c1_def memNode_def hasPrefix_def)

lemma inChassis_x1c2: "inChassis ''x1c2s'' mem_x1c2"
  by (simp add: inChassis_def mem_x1c2_def memNode_def hasPrefix_def)

lemma inChassis_x1c3: "inChassis ''x1c3s'' mem_x1c3"
  by (simp add: inChassis_def mem_x1c3_def memNode_def hasPrefix_def)

lemmas inChassis_all = inChassis_x0c0 inChassis_x0c1 inChassis_x0c2 inChassis_x0c3 inChassis_x1c0 inChassis_x1c1 inChassis_x1c2 inChassis_x1c3

lemma hasPrefix_same_length: "hasPrefix s p \<Longrightarrow> hasPrefix s q \<Longrightarrow> length p = length q \<Longrightarrow> p = q"
  by (simp add: hasPrefix_def)

lemma inChassis_apart:
  assumes "inChassis p cs" and "inChassis q ds" and "length p = length q" and "p \<noteq> q"
  shows "sc_ID ` set cs \<inter> sc_ID ` set ds = {}"
proof -
  have "False" if "x \<in> sc_ID ` set cs" "x \<in> sc_ID ` set ds" for x
    using that assms hasPrefix_same_length [of x p q] by (auto simp: inChassis_def)
  then show ?thesis by blast
qed

fun apart :: "string list \<Rightarrow> SMComponent list list \<Rightarrow> bool" where
  "apart (p # ps) (cs # css) \<longleftrightarrow> inChassis p cs \<and> length p = 5 \<and> p \<notin> set ps \<and> apart ps css"
| "apart [] [] \<longleftrightarrow> True"
| "apart _ _ \<longleftrightarrow> False"

lemma apart_names:
  "apart ps css \<Longrightarrow> distinct (map sc_ID (concat css)) \<and>
    (\<forall>cs\<in>set css. \<exists>p\<in>set ps. length p = 5 \<and> inChassis p cs)"
proof (induction ps css rule: apart.induct)
  case (1 p ps cs css)
  then have IH: "distinct (map sc_ID (concat css))" "\<forall>ds\<in>set css. \<exists>q\<in>set ps. length q = 5 \<and> inChassis q ds"
    and p: "inChassis p cs" "length p = 5" "p \<notin> set ps" by auto
  have "sc_ID ` set cs \<inter> sc_ID ` set (concat css) = {}"
  proof -
    have "sc_ID ` set cs \<inter> sc_ID ` set ds = {}" if "ds \<in> set css" for ds
    proof -
      from IH(2) that obtain q where "q \<in> set ps" "length q = 5" "inChassis q ds" by blast
      with inChassis_apart [OF p(1) \<open>inChassis q ds\<close>] p show ?thesis by auto
    qed
    then show ?thesis by fastforce
  qed
  moreover have "distinct (map sc_ID cs)" using p(1) by (simp add: inChassis_def)
  ultimately show ?case using IH p by auto
qed auto

lemma mem_names: "distinct (map sc_ID memComponents)"
proof -
  have "apart [''x0c0s'', ''x0c1s'', ''x0c2s'', ''x0c3s'', ''x1c0s'', ''x1c1s'', ''x1c2s'', ''x1c3s'']
      [mem_x0c0, mem_x0c1, mem_x0c2, mem_x0c3, mem_x1c0, mem_x1c1, mem_x1c2, mem_x1c3]"
    by (simp add: inChassis_all)
  from apart_names [OF this] show ?thesis by (simp add: memComponents_def)
qed

text \<open>The numbers increase along the list.\<close>

lemmas nid_eval = nidInt_def Let_def hasPrefix_def is_digit_def less_eq_char_def str_nat_def digit_val_def

definition increasing :: "int \<Rightarrow> int \<Rightarrow> SMComponent list \<Rightarrow> bool" where
  "increasing lo hi cs \<longleftrightarrow> (\<exists>ns. map nidInt cs = map Some ns \<and> successively (<) (lo # ns @ [hi]))"

lemma increasing_x0c0: "increasing 0 129 mem_x0c0"
  unfolding increasing_def mem_x0c0_def
  by (rule exI [of _ "[4, 8, 12, 16, 20, 24, 28, 32, 36, 40, 44, 48, 52, 56, 60, 64, 68, 72, 76, 80, 84, 88, 92, 96, 100, 104, 108,
     112, 116, 120, 124, 128]"])
    (simp add: memNode_def nid_eval)

lemma increasing_x0c1: "increasing 129 257 mem_x0c1"
  unfolding increasing_def mem_x0c1_def
  by (rule exI [of _ "[132, 136, 140, 144, 148, 152, 156, 160, 164, 168, 172, 176, 180, 184, 188, 192, 196, 200, 204, 208, 212, 216,
     220, 224, 228, 232, 236, 240, 244, 248, 252, 256]"])
    (simp add: memNode_def nid_eval)

lemma increasing_x0c2: "increasing 257 389 mem_x0c2"
  unfolding increasing_def mem_x0c2_def
  by (rule exI [of _ "[260, 264, 268, 272, 276, 280, 284, 292, 296, 300, 304, 308, 312, 316, 320, 324, 328, 332, 336, 340, 344, 348,
     352, 356, 360, 364, 368, 372, 376, 380, 384, 388]"])
    (simp add: memNode_def nid_eval)

lemma increasing_x0c3: "increasing 389 517 mem_x0c3"
  unfolding increasing_def mem_x0c3_def
  by (rule exI [of _ "[392, 396, 400, 404, 408, 412, 416, 420, 424, 428, 432, 436, 440, 444, 448, 452, 456, 460, 464, 468, 472, 476,
     480, 484, 488, 492, 496, 500, 504, 508, 512, 516]"])
    (simp add: memNode_def nid_eval)

lemma increasing_x1c0: "increasing 517 1129 mem_x1c0"
  unfolding increasing_def mem_x1c0_def
  by (rule exI [of _ "[1004, 1008, 1012, 1016, 1020, 1024, 1028, 1032, 1036, 1040, 1044, 1048, 1052, 1056, 1060, 1064, 1068, 1072,
     1076, 1080, 1084, 1088, 1092, 1096, 1100, 1104, 1108, 1112, 1116, 1120, 1124, 1128]"])
    (simp add: memNode_def nid_eval)

lemma increasing_x1c1: "increasing 1129 1257 mem_x1c1"
  unfolding increasing_def mem_x1c1_def
  by (rule exI [of _ "[1132, 1136, 1140, 1144, 1148, 1152, 1156, 1160, 1164, 1168, 1172, 1176, 1180, 1184, 1188, 1192, 1196, 1200,
     1204, 1208, 1212, 1216, 1220, 1224, 1228, 1232, 1236, 1240, 1244, 1248, 1252, 1256]"])
    (simp add: memNode_def nid_eval)

lemma increasing_x1c2: "increasing 1257 1389 mem_x1c2"
  unfolding increasing_def mem_x1c2_def
  by (rule exI [of _ "[1260, 1264, 1268, 1272, 1276, 1280, 1284, 1292, 1296, 1300, 1304, 1308, 1312, 1316, 1320, 1324, 1328, 1332,
     1336, 1340, 1344, 1348, 1352, 1356, 1360, 1364, 1368, 1372, 1376, 1380, 1384, 1388]"])
    (simp add: memNode_def nid_eval)

lemma increasing_x1c3: "increasing 1389 1517 mem_x1c3"
  unfolding increasing_def mem_x1c3_def
  by (rule exI [of _ "[1392, 1396, 1400, 1404, 1408, 1412, 1416, 1420, 1424, 1428, 1432, 1436, 1440, 1444, 1448, 1452, 1456, 1460,
     1464, 1468, 1472, 1476, 1480, 1484, 1488, 1492, 1496, 1500, 1504, 1508, 1512, 1516]"])
    (simp add: memNode_def nid_eval)

lemma increasing_join:
  assumes "increasing a b cs" and "increasing b d ds"
  shows "increasing a d (cs @ ds)"
proof -
  from assms obtain ms ns where *: "map nidInt cs = map Some ms" "successively (<) (a # ms @ [b])"
    "map nidInt ds = map Some ns" "successively (<) (b # ns @ [d])"
    unfolding increasing_def by blast
  then have "map nidInt (cs @ ds) = map Some (ms @ ns)" by simp
  moreover from * have "sorted_wrt (<) (a # ms @ [b])" "sorted_wrt (<) (b # ns @ [d])"
    by (simp_all only: successively_conv_sorted_wrt [OF transp_on_less])
  then have "sorted_wrt (<) (a # (ms @ ns) @ [d])" by (fastforce simp: sorted_wrt_append)
  then have "successively (<) (a # (ms @ ns) @ [d])" by (simp only: successively_conv_sorted_wrt [OF transp_on_less])
  ultimately show ?thesis unfolding increasing_def by blast
qed

lemma mem_nids: "distinct (map nidInt memComponents) \<and> None \<notin> nidInt ` set memComponents"
proof -
  have "increasing 0 1517 memComponents"
    unfolding memComponents_def
    by (rule increasing_join [OF increasing_x0c0 increasing_join [OF increasing_x0c1 increasing_join [OF increasing_x0c2 increasing_join [OF increasing_x0c3 increasing_join [OF increasing_x1c0 increasing_join [OF increasing_x1c1 increasing_join [OF increasing_x1c2 increasing_x1c3]]]]]]])
  then obtain ns where ns: "map nidInt memComponents = map Some ns" "successively (<) (0 # ns @ [1517])"
    unfolding increasing_def by blast
  from ns(2) have "sorted_wrt (<) ns"
    by (simp add: successively_conv_sorted_wrt [OF transp_on_less] sorted_wrt_append del: successively.simps)
  then have "distinct ns" by (simp add: strict_sorted_iff)
  then have "distinct (map Some ns)" by (simp add: distinct_map)
  moreover have "None \<notin> set (map Some ns)" by auto
  ultimately show ?thesis using ns(1) by (metis set_map)
qed

text \<open>A node is ready and has two MAC addresses.\<close>

lemma mem_ready: "c \<in> set memComponents \<Longrightarrow> sc_State c = ''Ready''"
proof -
  have node: "sc_State (memNode x nid fqdn role mac0 mac1) = ''Ready''" for x nid fqdn role mac0 mac1
    by (simp add: memNode_def)
  have "list_all (\<lambda>c. sc_State c = ''Ready'') memComponents"
    unfolding memComponents_def mem_defs by (simp only: append.simps list.pred_inject node simp_thms)
  then show "c \<in> set memComponents \<Longrightarrow> sc_State c = ''Ready''" by (simp add: list_all_iff)
qed

end
