(* ===== verification/Lifecycle.thy ===== *)
theory Lifecycle
  imports Startup SmCache MemSource
begin

text \<open>
  From \<open>main\<close> to the running service: the state in which the service starts to serve (\<open>runState\<close>), made of
  what \<open>main\<close> has opened, and the environment it then runs in (\<open>runsAs\<close>): the settings are those of the
  variables, the state manager is reached through a client if the source is one of HTTP, and there is a
  file of hardware data only if the source is a file. The properties hold in every state that the service
  reaches from there. With the source \<open>mem:\<close> the hardware data are those of MemSource for good.
\<close>

subsection \<open>The first state\<close>

text \<open>The argument \<open>k0\<close> or \<open>q0\<close> stands for the store that is not opened.\<close>

definition sourceData :: "smSource \<Rightarrow> SMData option" where
  "sourceData src = (case src of MemSource \<Rightarrow> Some memData | FileSource _ \<Rightarrow> None | HsmSource _ _ \<Rightarrow> None)"

definition runState :: "'k \<Rightarrow> pgst \<Rightarrow> 'k started \<Rightarrow> 'k svc" where
  "runState k0 q0 st = startState (sourceData (st_source st)) (st_notifier st)
     (case st_backend st of KvBackend k \<Rightarrow> k | PgBackend _ \<Rightarrow> k0)
     (case st_backend st of KvBackend _ \<Rightarrow> q0 | PgBackend q \<Rightarrow> q)"

definition runsAs :: "'k started \<Rightarrow> 'k senv \<Rightarrow> bool" where
  "runsAs st E \<longleftrightarrow>
     (let v = st_vars st in
      useSQL E = v_useSQL v \<and> advertiseAddress E = v_advertiseAddress v \<and> jwksURL E = v_jwksURL v \<and>
      retryDelay E = v_retryDelay v \<and> hsmRetrievalDelay E = v_hsmRetrievalDelay v \<and>
      (\<forall>t. hs_client (hsmAt E t) = (case st_source st of HsmSource _ _ \<Rightarrow> True | _ \<Rightarrow> False)) \<and>
      (case st_source st of FileSource _ \<Rightarrow> True | _ \<Rightarrow> (\<forall>t. hs_file (hsmAt E t) = None)))"

lemma runsAs_mem: "runsAs st E \<Longrightarrow> st_source st = MemSource \<Longrightarrow> noRetrieval E"
  by (simp add: runsAs_def noRetrieval_def Let_def)

subsection \<open>What main has checked\<close>

lemma map_sum_Inr: "map_sum f g x = Inr y \<longleftrightarrow> (\<exists>z. x = Inr z \<and> y = g z)"
  by (cases x) auto

lemma openBackend_kind:
  "openBackend E v = Some (Inr b) \<Longrightarrow> v_useSQL v = (case b of KvBackend _ \<Rightarrow> False | PgBackend _ \<Rightarrow> True)"
  by (auto simp: openBackend_def map_sum_Inr split: if_splits)

lemma openServices_serving:
  assumes "openServices E oa v = Some (Serving st)"
  shows "v_advertiseAddress (st_vars st) \<noteq> [] \<and>
    v_useSQL (st_vars st) = (case st_backend st of KvBackend _ \<Rightarrow> False | PgBackend _ \<Rightarrow> True)"
proof -
  from assms obtain src n b where a: "v_advertiseAddress v \<noteq> []"
    and b: "openBackend E (snd (getNotifierURL (se_hostname E 1) v)) = Some (Inr b)"
    and st: "st_vars st = snd (getNotifierURL (se_hostname E 1) v)" "st_backend st = b"
    by (auto simp: openServices_def split: if_splits sum.splits option.splits prod.splits)
  obtain x where "snd (getNotifierURL (se_hostname E 1) v) = v\<lparr>v_notifierURL := x\<rparr>"
    using getNotifierURL_vars [of "se_hostname E 1" v] by blast
  with a have "v_advertiseAddress (st_vars st) \<noteq> []" by (simp add: st)
  with openBackend_kind [OF b] show ?thesis by (simp add: st)
qed

lemma main_serving:
  assumes "main E = Some (Serving st)"
  shows "v_advertiseAddress (st_vars st) \<noteq> [] \<and>
    v_useSQL (st_vars st) = (case st_backend st of KvBackend _ \<Rightarrow> False | PgBackend _ \<Rightarrow> True)"
proof -
  from assms obtain oa v where "openServices E oa v = Some (Serving st)"
    by (auto simp: main_def split: prod.splits sum.splits option.splits)
  then show ?thesis by (rule openServices_serving)
qed

subsection \<open>The life of the service\<close>

text \<open>C7. In every state that a service started by main reaches, whatever requests and refreshes it
  has run: it has an address to advertise; it uses the store that main has opened and has not touched the
  other one; the index of the hardware is that of the hardware data; no image is cached; the components
  subscribed to are sorted; and with the source mem: the hardware data are the built-in ones.\<close>

theorem service_life:
  assumes "main S = Some (Serving st)" and "runsAs st E" and "reachable E (runState k q st) (Running s)"
  shows "advertiseAddress E \<noteq> [] \<and>
    (case st_backend st of KvBackend _ \<Rightarrow> \<not> useSQL E \<and> sqlSt s = q | PgBackend _ \<Rightarrow> useSQL E \<and> kvs s = k) \<and>
    smDataMap s = (case smData s of None \<Rightarrow> [] | Some d \<Rightarrow> makeSmMap d) \<and> imageCache s = [] \<and>
    sorted (sn_Components (notifier s)) \<and> (if st_source st = MemSource then smData s = Some memData else True)"
proof -
  have evo: "evolves E (runState k q st) s" by (rule reachable_evolves [OF assms(3) refl])
  have "indexed s \<and> imageCache s = [] \<and> sorted (sn_Components (notifier s))"
    using evo unfolding runState_def by (simp add: evolves_def)
  moreover have "smData s = Some memData" if "st_source st = MemSource"
    using evo runsAs_mem [OF assms(2) that] that by (simp add: evolves_def runState_def sourceData_def)
  moreover have "advertiseAddress E \<noteq> []" and "useSQL E = (case st_backend st of KvBackend _ \<Rightarrow> False | PgBackend _ \<Rightarrow> True)"
    using main_serving [OF assms(1)] assms(2) by (simp_all add: runsAs_def Let_def)
  moreover have "if useSQL E then kvs s = kvs (runState k q st) else sqlSt s = sqlSt (runState k q st)"
    using evo by (simp add: evolves_def)
  ultimately show ?thesis
    by (auto simp: indexed_def runState_def split: backend.splits)
qed

text \<open>The service that the demonstration of Startup starts, with a notification served.\<close>

definition memSenv :: "nat senv" where
  "memSenv = \<lparr>kvi = \<lparr>kvGet = (\<lambda>_ k. (([], False, None), k)), kvStore = (\<lambda>_ _ k. (None, Suc k)), kvDelete = (\<lambda>_ k. (None, k)),
       kvRange = (\<lambda>_ _ k. (([], None), k))\<rparr>, useSQL = False, pgEnv = demoEnv, nowAt = (\<lambda>n. 1000 + int n),
     newUuid = (\<lambda>_. ''token''), hsmAt = (\<lambda>_. se_hsm demoStart), hmnfdAt = (\<lambda>_ _ _. Inr 200), rangeOrder = (\<lambda>_ n. [0..<n]),
     mergePatch = (\<lambda>a b. Some b), spireTokensBaseURL = ''https://spire'', spirePost = (\<lambda>_ _ _. Inl (Err ''refused'')),
     s3Connect = (\<lambda>_ _. True), s3GetURL = (\<lambda>_ b k. Inr k), randBytes = (\<lambda>_. ''abcdef''), writeOk = (\<lambda>_. True),
     hmsText = (\<lambda>_ m. m), compJson = (\<lambda>c. JObj [(''ID'', JStr (sc_ID c))]), yamlText = (\<lambda>j. Some (jprint j)),
     xnameType = (\<lambda>_. Some ''Node''), advertiseAddress = ''10.0.0.1:27778'', ipxeServer = ''api-gw'', chainProto = ''https'',
     gwURI = ''/apis/bss'', retryDelay = 30, hsmRetrievalDelay = 10, blockedRoles = [], hsmClass = (\<lambda>_. Inr None),
     randIntn = (\<lambda>n. n), buildVersion = ''1'', versionFile = (\<lambda>_. None), jwksURL = [], routedPath = (\<lambda>p. p)\<rparr>"

lemma demoStart_runs:
  "case openServices demoStart startOAuth demoVars of
     Some (Serving st) \<Rightarrow> st_source st = MemSource \<and> st_backend st = KvBackend 7 \<and> v_advertiseAddress (st_vars st) = ''10.0.0.1:27778'' \<and>
       \<not> v_useSQL (st_vars st) \<and> v_jwksURL (st_vars st) = [] \<and> v_retryDelay (st_vars st) = 30 \<and> v_hsmRetrievalDelay (st_vars st) = 10
   | _ \<Rightarrow> False"
  by code_simp

lemma demoStart_started:
  obtains st where "main demoStart = Some (Serving st)" and "st_source st = MemSource" and "st_backend st = KvBackend 7" and "runsAs st memSenv"
proof -
  obtain st where st: "main demoStart = Some (Serving st)" "st_source st = MemSource" "st_backend st = KvBackend 7"
    "v_advertiseAddress (st_vars st) = ''10.0.0.1:27778''" "\<not> v_useSQL (st_vars st)" "v_jwksURL (st_vars st) = []"
    "v_retryDelay (st_vars st) = 30" "v_hsmRetrievalDelay (st_vars st) = 10"
    using demoStart_runs unfolding demoStart_main [symmetric] by (auto split: option.splits outcome.splits)
  then have "runsAs st memSenv" by (simp add: runsAs_def memSenv_def demoStart_def)
  with st show ?thesis by (intro that)
qed

lemma service_life_witness:
  "\<exists>st s. main demoStart = Some (Serving st) \<and> reachable memSenv (runState 0 demoSt st) (Running s) \<and> kvs s = 8 \<and>
     sqlSt s = demoSt \<and> smData s = Some memData"
proof -
  obtain st where st: "main demoStart = Some (Serving st)" "st_source st = MemSource" "st_backend st = KvBackend 7" "runsAs st memSenv"
    by (rule demoStart_started)
  let ?r = "\<lparr>rq_Method = ''POST'', rq_Path = ''/boot/v1/scn'', rq_Query = [], rq_Form = [],
     rq_Body = Inr ''{}'', rq_XFF = [], rq_RemoteAddr = []\<rparr>"
  let ?s = "runState 0 demoSt st" and ?s' = "snd (serve memSenv None ?r (runState 0 demoSt st))"
  have "step memSenv (Running ?s) (Running ?s')" by (rule step.Request [OF surjective_pairing])
  then have r: "reachable memSenv ?s (Running ?s')" by (rule reachable.Step [OF reachable.Start])
  have ok: "snd (unmarshal decScn () ''{}'')" by code_simp
  have "kvs ?s' = 8"
    using ok by (simp add: serve_def routes_def baseEndpoint_def notifierEndpoint_def memSenv_def onMethod_def
        stateChangeNotification_def andThen_def clockNow_def kv_Store_def ret_def runState_def st(3) startState_def)
  moreover from service_life [OF st(1,4) r] st(2,3) have "sqlSt ?s' = demoSt" "smData ?s' = Some memData" by simp_all
  ultimately show ?thesis using st(1) r by blast
qed

subsection \<open>The built-in hardware\<close>

lemma find_exists: "x \<in> set xs \<Longrightarrow> P x \<Longrightarrow> \<exists>y. List.find P xs = Some y \<and> P y"
  by (induction xs) auto

lemma state_without_retrieval:
  assumes "noRetrieval E" and "smData s = Some d"
  shows "\<exists>s'. protectedGetState E ts s = (Inr (Some d, smDataMap s), s')"
  using noRetrieval_None [OF assms(1)] assms(2)
  by (auto simp: protectedGetState_def Let_def newState_def resubscribe_def split: option.split)

lemma getState_without_retrieval:
  assumes "noRetrieval E" and "smData s = Some d"
  shows "\<exists>s'. getState E s = (Inr (Some d), s')" and "\<exists>s'. getStateAndMap E s = (Inr (Some d, smDataMap s), s')"
  using state_without_retrieval [OF assms, of 0]
  by (auto simp: getState_def getStateAndMap_def andThen_def ret_def)

lemma map_of_smMap: "map_of (makeSmMap memData) x = List.find (\<lambda>v. sc_ID v = x) memComponents"
  using find_rev_distinct [OF mem_names, of x] by (simp add: map_of_makeSmMap memData_def)

lemma memData_Components: "sm_Components memData = memComponents"
  by (simp add: memData_def)

text \<open>C17. A service started by main with the source mem: finds every one of its built-in nodes in every
  state that it reaches: by its name, in the list and in the index, and by its number it finds this very
  node, and by each of its MAC addresses a node that has the address.\<close>

theorem mem_nodes_found:
  assumes "main S = Some (Serving st)" and "st_source st = MemSource" and "runsAs st E"
    and "reachable E (runState k q st) (Running s)" and "c \<in> set memComponents" and "mac \<in> set (macsOf c)"
  shows "fst (FindSMCompByName E (sc_ID c) s) = Inr (c, True) \<and>
    fst (FindSMCompByNameInCache E (sc_ID c) s) = Inr (c, True) \<and>
    fst (FindSMCompByNid E (the (nidInt c)) s) = Inr (c, True) \<and>
    (\<exists>c'. fst (FindSMCompByMAC E mac s) = Inr (c', True) \<and> list_ex (equalFold mac) (macsOf c'))"
proof -
  have nr: "noRetrieval E" by (rule runsAs_mem [OF assms(3,2)])
  have evo: "evolves E (runState k q st) s" by (rule reachable_evolves [OF assms(4) refl])
  then have d: "smData s = Some memData" and m: "smDataMap s = makeSmMap memData"
    using nr assms(2) by (auto simp: evolves_def runState_def sourceData_def indexed_def startState_def)
  obtain s1 where s1: "getState E s = (Inr (Some memData), s1)" using getState_without_retrieval(1) [OF nr d] by blast
  obtain s2 where s2: "getStateAndMap E s = (Inr (Some memData, makeSmMap memData), s2)"
    using getState_without_retrieval(2) [OF nr d] m by auto
  have name: "List.find (\<lambda>v. sc_ID v = sc_ID c) memComponents = Some c" by (rule find_Some_distinct [OF mem_names assms(5)])
  obtain i where i: "nidInt c = Some i" using mem_nids assms(5) by (metis image_eqI not_Some_eq)
  have "List.find (\<lambda>v. nidInt v = nidInt c) memComponents = Some c"
    using mem_nids by (intro find_Some_distinct assms(5)) simp
  then have nid: "List.find (\<lambda>v. nidInt v = Some i) memComponents = Some c" by (simp only: i)
  let ?P = "\<lambda>v. \<not> equalFold (sc_State v) ''empty'' \<and> list_ex (equalFold mac) (macsOf v)"
  have "list_ex (equalFold mac) (macsOf c)" using assms(6) by (auto simp: list_ex_iff intro: bexI [of _ mac])
  moreover have "\<not> equalFold ''Ready'' ''empty''" by code_simp
  ultimately have "?P c" by (simp only: mem_ready [OF assms(5)] simp_thms)
  from find_exists [of c memComponents ?P, OF assms(5) this]
  obtain c' where f: "List.find ?P memComponents = Some c' \<and> ?P c'" by (rule exE)
  then have c': "compByMAC memComponents mac = Some c'" "list_ex (equalFold mac) (macsOf c')"
    by (simp_all only: compByMAC_def conj_assoc)
  have "fst (FindSMCompByName E (sc_ID c) s) = Inr (c, True)"
    by (simp add: FindSMCompByName_def andThen_def s1 deref_def ret_def memData_Components name found_def)
  moreover have "fst (FindSMCompByNameInCache E (sc_ID c) s) = Inr (c, True)"
    by (simp add: FindSMCompByNameInCache_def andThen_def s2 ret_def map_of_smMap name found_def)
  moreover have "fst (FindSMCompByNid E (the (nidInt c)) s) = Inr (c, True)"
    by (simp add: FindSMCompByNid_def andThen_def s1 deref_def ret_def memData_Components i nid found_def)
  moreover have "fst (FindSMCompByMAC E mac s) = Inr (c', True)"
    by (simp add: FindSMCompByMAC_def andThen_def s1 deref_def ret_def memData_Components c'(1) found_def)
  ultimately show ?thesis using c'(2) by blast
qed

lemma mem_nodes_found_witness:
  "\<exists>st s. main demoStart = Some (Serving st) \<and> reachable memSenv (runState 0 demoSt st) (Running s) \<and>
     map_sum id (\<lambda>(c, ok). (sc_ID c, ok)) (fst (FindSMCompByNid memSenv 8 s)) = Inr (''x0c0s1b0n0'', True)"
proof -
  let ?c = "memNode ''x0c0s1b0n0'' ''8'' ''x0c0s1b0n0.test.com'' ''Management'' ''00:1e:67:e3:46:51'' ''00:1e:67:e3:46:52''"
  obtain st where st: "main demoStart = Some (Serving st)" "st_source st = MemSource" "runsAs st memSenv"
    by (rule demoStart_started)
  have r: "reachable memSenv (runState 0 demoSt st) (Running (runState 0 demoSt st))" by (rule reachable.Start)
  have c: "?c \<in> set memComponents" by (simp add: memComponents_def mem_x0c0_def)
  have "''00:1e:67:e3:46:51'' \<in> set (macsOf ?c)" by (simp add: macsOf_def memNode_def)
  moreover have "nidInt ?c = Some 8" by code_simp
  ultimately show ?thesis
    using mem_nodes_found [OF st r c] st(1) r by (auto simp: memNode_def)
qed

end
