(* ===== verification/Spec2Isabelle.thy ===== *)
theory Spec2Isabelle
  imports PgSet PgEndpoints PgParams PgAccessed KvUpdate KvParams KvAccess KvLookup ScriptParams NodeBoot SmCache Reachable
    HsmMerge OAuth Startup BssInit ColNames PublicPages PhoneHomePage Lifecycle
begin

text \<open>
  The Boot Script Service of OpenCHAMI, a Go program: it keeps the boot parameters (kernel, initrd, kernel command line,
  cloud-init data) of the nodes of a cluster, either in a key-value store or in Postgres, and serves iPXE boot scripts and
  cloud-init data to booting nodes. This development models the Go code under src/ and proves what makes it correct.
  \<^bold>\<open>Conventions.\<close> A definition has the name of the Go function it models, except where that name is taken in HOL or in
  another package (then it has a prefix, such as \<open>pg_makeKey\<close>); loops and branches that are definitions
  of their own are named after what they do. Strings are byte lists; \<open>int\<close> of Go is 64 bits and kept as a word, or as
  a number with its range written out, where overflow matters. A Go map is an association list, ranged
  over in an order that an argument of the model chooses. Errors are values of \<open>goerr\<close> and \<open>svcerr\<close>; a
  panic is the left result of an operation. Code with state is a function of type \<open>eff\<close> (Effects), and its
  properties are weakest preconditions (\<open>wp\<close>), which are total: every run of the modelled code returns.
\<close>

text \<open>
  \<^bold>\<open>Parts of the program and the theories that model them.\<close>

  The Go library: GoStrings and GoNumbers (strings, strconv), GoRunes (unicode/utf8), GoNet (net/url, net.ParseMAC), Json (encoding/json:
  values, printer and parser, with the replacement of invalid UTF-8), GoErrors (internal/postgres/errors.go), GoConfig (package flag, the environment). Prelude has the shared lists,
  maps, iteration orders and hint collections, Effects the sequencing of steps and its rules, Frames the lifting of relations between states.

  pkg/bssTypes: BssTypes (requests and their validation), Codec (the JSON forms of requests and of stored data, by their
  field tags, with the round trips).

  internal/postgres: SqlText (the SQL text built by string concatenation and what it selects), PgTables (tables and statements; a
  statement may fail at any moment), PgQueries (inserts and queries), PgAdd, PgDelete, PgUpdate, PgSet (Add, Delete, Update, Set),
  PgEndpoints (access history), ColNames (common.go: the mapper of column names; errors.go: the methods Is). PgLogic, PgReads and PgJoins hold the invariant \<open>wf\<close> of the database and what each query returns.

  cmd/boot-script-service: Inventory and HsmMerge (sm.go: MAC addresses, authentication, merging the three answers of the state
  manager), MemSource (sm.go: the built-in hardware data of the source mem:), Notifier (scn.go: subscription), Service (sm.go, scn.go: the state of the service, its cache and its lookups), BootStore
  (boot_data.go: images, boot data, Store, StoreNew, Update, Remove, lookups), Accesses (boot_data.go: access history, SQL
  grouping), BootScript (default_api.go, join_token.go: kernel parameters, S3 addresses, the script), Handlers and
  ScriptHandler (default_api.go: the handlers), CloudInitApi (cloudInitAPI.go), Server (serviceAPI.go, routers.go), OAuth (oauth.go),
  Startup (main.go, version.go). Reachable puts handlers, the refreshing goroutines and their crash together as a step relation, and Lifecycle
  connects it to main.

  cmd/bss-init: BssInit (the program that migrates the database).
\<close>

text \<open>
  \<^bold>\<open>What the lemmas show.\<close>

  Postgres. The content of the database is the multiset \<open>bootView\<close> of the boot parameters of nodes. Add, Update, Set and Delete are shown
  to change exactly the view of the nodes of the request and to keep \<open>wf\<close>, under any faults; the groups and configurations are shared and
  collected as they should; the failures of each operation without faults are characterised, and so are the deviations (ids
  reported twice, groups that are never deleted, a Delete that is not atomic).

  Key-value store. KvLogic states what the code relies on of hms-hmetcd (\<open>kv_ok\<close>) and computes what the
  reading operations return; KvStore, KvNew, KvUpdate and KvRemove give the effect of each writing operation on the boot data of every name;
  KvLookup the order of the fallbacks of a lookup; KvAccess the access history.

  Contracts. The two stores are used through two interfaces, the locales \<open>param_store\<close> (ParamStore: PUT and
  DELETE of the parameters of hosts refine a map) and \<open>access_log\<close> (AccessLog: accesses are
  recorded with their times). Both are interpreted on the models of both stores (PgParams, KvParams, PgAccessed, KvAccess); the
  properties below, which span the stores, rest on these interpretations.

  The service. ServiceFrame has two locales, one extending the other, for relations between the states before and after an operation:
  what a relation has to allow so that the pages that only read keep it (\<open>service_relation\<close>), and so that all pages keep it
  (\<open>service_writes\<close>). Reachable and PublicPages interpret them on the model's own relations. Lifecycle proves that in every state which a
  service started by main reaches the index by name is that of the cached data, the subscription is sorted, the image cache is empty,
  only the store that main has opened has been touched and built-in hardware data stay, whatever the other services answer;
  PublicPages that requests refused by the authentication change no boot parameters (but for the phone-home page, and for requests that are
  SQL injection), PhoneHomePage that the phone-home page changes only cloud-init data; SmCache that a
  notification leads to a refresh; ScriptParams and NodeBoot what a boot script contains, from the request of a node to the text it gets. HsmMerge, OAuth,
  Startup and BssInit have the properties of the state made from the answers of the state manager, of the polling for a token, of the
  start of the service and of the migration of the database.

  \<^bold>\<open>Bounds and termination.\<close> All functions are total except the loops with a 64-bit counter that may wrap (\<open>openLoop\<close>, \<open>jwksLoop\<close>,
  \<open>attempts\<close>), which are partial functions into an option; Startup proves when they return. There is no fuel.
\<close>

text \<open>
  \<^bold>\<open>Arguments of the model.\<close> What is not in the repository is an argument: the database server as far as faults, row orders and the
  clock go, the key-value store, the state manager, hmnfd, the spire token service, the S3 client, HTTP exchanges, the libraries for
  xnames, JSON merge patches, YAML and JWT, UUIDs and random bytes, golang-migrate, the matching of paths by chi. The hypotheses about them are
  \<open>env_ok\<close>, \<open>kv_ok\<close>, \<open>kv_up\<close>, \<open>patch_ok\<close>, \<open>tokensText\<close> and \<open>documented\<close>; each is met by a
  concrete function in a witness. Since JSON keeps valid UTF-8 only, what is written to the key-value store and read again has to be such
  (\<open>values_ok\<close>, \<open>imagesText\<close>); every decoded request and everything read from the store is (\<open>decBootParams_ok\<close>, \<open>readStore_ok\<close>).

  \<^bold>\<open>Not modelled.\<close> Logging (logger.go, LogBootParameters); the type ModelError, which is not used; the decoding of
  hardware data from JSON text (that of the built-in data is done in MemSource, that of a file is the argument \<open>hs_file\<close>); mutexes
  (each operation is one step; goroutines are steps of Reachable); waiting times; the delivery of notifyTarget; RFC 7396 merging and
  other library code; non-ASCII case mapping. SQL text that the values of a request take out of the SQL that SqlText reads
  (a value with a quote): the properties that put values into SQL text exclude it. The repository's tests are not part of the model.
\<close>

subsection \<open>The two stores\<close>

lemma kv_runs:
  assumes "kvInv F C d t" and "\<forall>c\<in>set cs. kvLegal c"
  shows "\<exists>t'. runChanges (kvPut F) (kvDel F) cs t = Some t'"
  using assms
proof (induction cs arbitrary: t)
  case (Cons c cs)
  then obtain u where u: "runChange (kvPut F) (kvDel F) c t = Some u" using kv_possible [of F C d t c] by auto
  then have "kvInv F C d u" using kvstore.runChange_inv [OF Cons.prems(1) _ u] Cons.prems(2) by simp
  with Cons.IH Cons.prems(2) u show ?case by simp
qed simp

lemma pgLegal_kv: "pgLegal E c \<Longrightarrow> kvLegal c"
  by (auto simp: pgLegal_def kvLegal_def split: change.splits)

text \<open>C5. The two stores are interchangeable: from a Postgres database and a key-value store that hold the same kernel
  parameters for every host, the same sequence of PUT and DELETE requests for hosts, if it succeeds on Postgres,
  succeeds on the key-value store, and afterwards they hold the same parameters again, those of the abstract store. A DELETE on the
  key-value store counts as carried out also when it reports hosts that had no boot data: the others have been removed
  (Postgres does not report such hosts). The hypotheses are the
  invariants of the two stores and that the requests name xnames of nodes and give all values.\<close>
theorem stores_agree:
  assumes "pgInv E s" and "kvInv F C d t" and "pgParams s = kvParams C t" and "\<forall>c\<in>set cs. pgLegal E c"
    and "runChanges (pgPut E) (pgDel E) cs s = Some s'"
  shows "\<exists>t'. runChanges (kvPut F) (kvDel F) cs t = Some t' \<and> kvParams C t' = pgParams s' \<and>
           pgParams s' = fold changed cs (pgParams s)"
proof -
  have l: "\<forall>c\<in>set cs. kvLegal c" using assms(4) pgLegal_kv by blast
  obtain t' where t: "runChanges (kvPut F) (kvDel F) cs t = Some t'" using kv_runs [OF assms(2) l] by blast
  show ?thesis
    using kvstore.runChanges_params [OF assms(2) l t] postgres.runChanges_params [OF assms(1,4,5)] assms(3) t by simp
qed

definition demoChanges :: "change list" where
  "demoChanges = [Put [''x0'', ''x1''] (''k'', ''i'', ''p''), Del [''x1''], Put [''x0''] (''k'', ''i'', ''q'')]"

lemma demoChanges_legal: "\<forall>c\<in>set demoChanges. pgLegal demoEnv c"
  by code_simp

lemma emptySt_inv: "pgInv demoEnv emptySt"
  using demoEnv_ok emptySt_wf by (simp add: pgInv_def hostsOnly_def emptySt_def emptyDb_def)

lemma empty_params: "pgParams emptySt = (\<lambda>_. {})" "kvParams map_of (demoSvc []) = (\<lambda>_. {})"
proof -
  have "(key, v) \<notin># bootView emptyDb" for key v using view_node [of key v emptyDb] by (auto simp: emptyDb_def)
  then show "pgParams emptySt = (\<lambda>_. {})" by (simp add: pgParams_def emptySt_def fun_eq_iff)
  show "kvParams map_of (demoSvc []) = (\<lambda>_. {})" by (simp add: kvParams_def hostData_def fun_eq_iff demoSvc_def)
qed

lemma stores_agree_witness:
  "\<exists>s' t'. runChanges (pgPut demoEnv) (pgDel demoEnv) demoChanges emptySt = Some s' \<and>
     runChanges (kvPut demoSenv) (kvDel demoSenv) demoChanges (demoSvc []) = Some t' \<and>
     kvParams map_of t' = pgParams s' \<and> pgParams s' ''x0'' = {''q''} \<and> pgParams s' ''x1'' = {}"
proof -
  let ?put = "pgPut demoEnv" and ?del = "pgDel demoEnv"
  have l: "pgLegal demoEnv (Put [''x0'', ''x1''] (''k'', ''i'', ''p''))" "pgLegal demoEnv (Del [''x1''])"
    "pgLegal demoEnv (Put [''x0''] (''k'', ''i'', ''q''))"
    using demoChanges_legal by (simp_all add: demoChanges_def)
  obtain s1 where s1: "?put [''x0'', ''x1''] (''k'', ''i'', ''p'') emptySt = Some s1"
    using pgPut_possible [OF emptySt_inv l(1) demoEnv_ok(2)] by auto
  note r1 = pgPut_result [OF emptySt_inv l(1) s1]
  have "pgParams s1 ''x1'' \<noteq> {}" using r1 by simp
  then obtain s2 where s2: "?del [''x1''] s1 = Some s2"
    using pgDel_possible [OF _ l(2) demoEnv_ok(2), of s1 "''x1''"] r1 by auto
  note r2 = pgDel_result [OF conjunct1 [OF r1] l(2) s2]
  obtain s3 where s3: "?put [''x0''] (''k'', ''i'', ''q'') s2 = Some s3"
    using pgPut_possible [OF conjunct1 [OF r2] l(3) demoEnv_ok(2)] by auto
  have run: "runChanges ?put ?del demoChanges emptySt = Some s3"
    by (simp add: demoChanges_def s1 s2 s3)
  have k: "kvInv demoSenv map_of demoSM (demoSvc [])" by (simp add: kvInv_def demo_in demo_up demo_cached demo_tokens imagesText_none)
  have e: "pgParams emptySt = kvParams map_of (demoSvc [])" by (simp add: empty_params)
  from stores_agree [OF emptySt_inv k e demoChanges_legal run] run show ?thesis
    by (auto simp: demoChanges_def)
qed

subsection \<open>The history of accesses\<close>

text \<open>C40. Whichever store the service runs with, after any sequence of accesses the last one of each name and endpoint is
  recorded with the time at which it was logged. The hypotheses are the invariant of the store and that each access can be
  logged: with Postgres a time of 32 bits and no failing statement, with the key-value store texts
  without a slash.\<close>
theorem last_access_recorded:
  assumes "if useSQL E then pgLogInv E s \<and> allFit (pgFits E) (pgLog E) (xs @ (n, e) # ys) s
           else kvLogInv E C s \<and> allFit (kvFits E) (logAccess E) (xs @ (n, e) # ys) s"
    and "(n, e) \<notin> set ys"
  shows "if useSQL E then pgNow E (logAll (pgLog E) xs s) \<in> pgAccessed (logAll (pgLog E) (xs @ (n, e) # ys) s) n e
         else kvNow E (logAll (logAccess E) xs s) \<in> kvAccessed C (logAll (logAccess E) (xs @ (n, e) # ys) s) n e"
  using assms pglog.last_access [of E s xs n e ys] kvlog.last_access [of E C s xs n e ys] by simp

text \<open>Two accesses of a node, logged in the key-value store and in Postgres.\<close>

definition demoSqlEnv :: "(string \<times> string) list senv" where
  "demoSqlEnv = demoSenv\<lparr>useSQL := True, pgEnv := logEnv\<rparr>"

lemma last_access_recorded_witness:
  "kvNow demoSenv (logAll (logAccess demoSenv) [(''x1'', ''bootscript'')] (demoSvc []))
     \<in> kvAccessed map_of (logAll (logAccess demoSenv) [(''x1'', ''bootscript''), (''x1'', ''user-data'')] (demoSvc [])) ''x1'' ''user-data'' \<and>
   pgNow demoSqlEnv (logAll (pgLog demoSqlEnv) [(''x1'', ''bootscript'')] (demoSvc []))
     \<in> pgAccessed (logAll (pgLog demoSqlEnv) [(''x1'', ''bootscript''), (''x1'', ''user-data'')] (demoSvc [])) ''x1'' ''user-data''"
  (is "?kv \<and> ?pg")
proof
  let ?x = "[(''x1'', ''bootscript'')]" and ?y = "(''x1'', ''user-data'')"
  have u: "\<not> useSQL demoSenv" by (simp add: demoSenv_def)
  have i: "kvLogInv demoSenv map_of (demoSvc [])" by (simp add: kvLogInv_def demo_in demo_up log_ok_def)
  have f: "allFit (kvFits demoSenv) (logAccess demoSenv) (?x @ ?y # []) (demoSvc [])"
    by code_simp
  show ?kv
    using last_access_recorded [of demoSenv "demoSvc []" ?x "''x1''" "''user-data''" "[]" map_of] u i f by simp
  have v: "useSQL demoSqlEnv" by (simp add: demoSqlEnv_def)
  have j: "pgLogInv demoSqlEnv (demoSvc [])" using v logEnv_ok(2) by (simp add: pgLogInv_def demoSqlEnv_def)
  have g: "allFit (pgFits demoSqlEnv) (pgLog demoSqlEnv) (?x @ ?y # []) (demoSvc [])"
    by code_simp
  show ?pg
    using last_access_recorded [of demoSqlEnv "demoSvc []" ?x "''x1''" "''user-data''" "[]" map_of] v j g by simp
qed

end
